(* ===== verification/Prelude.thy ===== *)
theory Prelude
  imports Main "HOL-Library.Word" "HOL-Library.Signed_Division" "HOL-Library.Multiset"
begin

text \<open>
  Prelude of the development: the C integer types as words, the signed view of a word,
  truncating signed division, the byte order conversions of a little endian host, and the
  generic facts about lists that several components share. The collections declared here
  are filled by the component theories.
\<close>

unbundle bit_operations_syntax

named_theorems tmv_simps "the time value operations seen through their signed value"
named_theorems layout_simps "byte offsets and sizes of the packed wire structures"

subsection \<open>C types\<close>

type_synonym u8 = "8 word"
type_synonym u16 = "16 word"
type_synonym u32 = "32 word"
type_synonym u64 = "64 word"

text \<open>
  A signed C type of width w is the same word type, read with \<^const>\<open>sint\<close>. Signed
  overflow, undefined in C, is the wrap-around of two's complement here; the theorems that
  speak about values state the range in which no overflow happens.
\<close>

type_synonym i8 = "8 word"
type_synonym i16 = "16 word"
type_synonym i32 = "32 word"
type_synonym i64 = "64 word"

datatype errno = EBADMSG | EPROTO | ENOMEM

definition i64_range :: "int \<Rightarrow> bool" where
  "i64_range x \<longleftrightarrow> - (2 ^ 63) \<le> x \<and> x < 2 ^ 63"

lemma sint_i64_range [simp, intro]: "i64_range (sint (x :: i64))"
  using sint_ge [of x] sint_lt [of x] by (simp add: i64_range_def)

lemma sint_of_int_i64 [simp]: "i64_range x \<Longrightarrow> sint (word_of_int x :: i64) = x"
  by (simp add: i64_range_def sint_sbintrunc' signed_take_bit_int_eq_self)

lemma sint_inject: "sint x = sint y \<longleftrightarrow> x = y" for x y :: "'a::len word"
  by (auto intro: signed_word_eqI simp: word_eq_iff_signed)

lemma sint_add_i64: "i64_range (sint x + sint y) \<Longrightarrow> sint (x + y) = sint x + sint y" for x y :: i64
  by (simp add: sint_word_ariths i64_range_def signed_take_bit_int_eq_self)

lemma sint_sub_i64: "i64_range (sint x - sint y) \<Longrightarrow> sint (x - y) = sint x - sint y" for x y :: i64
  by (simp add: sint_word_ariths i64_range_def signed_take_bit_int_eq_self)

lemma i64_range_sdiv: "i64_range x \<Longrightarrow> 0 < d \<Longrightarrow> i64_range (x sdiv d)"
  for x d :: int
proof -
  assume a: "i64_range x" "0 < d"
  have "\<bar>x\<bar> div d \<le> \<bar>x\<bar> div 1"
    using a(2) by (intro zdiv_mono2) auto
  then have "\<bar>x sdiv d\<bar> \<le> \<bar>x\<bar>" "0 \<le> x \<Longrightarrow> 0 \<le> x sdiv d" "x < 0 \<Longrightarrow> x sdiv d \<le> 0"
    using a(2) by (auto simp: signed_divide_int_def abs_mult sgn_if pos_imp_zdiv_nonneg_iff)
  then show ?thesis
    using a(1) by (cases "0 \<le> x") (auto simp: i64_range_def)
qed

lemma i64_range_0 [simp]: "i64_range 0"
  by (simp add: i64_range_def)

lemma mask_numerals: "(0xFFFFFFFF :: u64) = mask 32" "(0xFFFF :: u64) = mask 16"
  by (simp_all add: mask_eq_exp_minus_1)

lemma ucast_ucast_u32: "ucast (ucast w :: u32) = w AND mask 32" for w :: u64
  by (rule bit_word_eqI) (auto simp: bit_simps)

lemma uint_drop_bit_div: "uint (drop_bit k w) = uint w div 2 ^ k" for w :: "'w::len word"
  using unsigned_less [of w, where 'a=int]
  by (simp add: unsigned_drop_bit_eq take_bit_int_eq_self flip: drop_bit_eq_div)

subsection \<open>Three way comparison functions\<close>

text \<open>
  The interface of the comparison callbacks of the program (the priority queue takes one as
  a function pointer, the median filter sorts with one): a negative, zero or positive result,
  antisymmetric and transitive.
\<close>

locale comparator =
  fixes cmp :: "'a \<Rightarrow> 'a \<Rightarrow> int"
  assumes cmp_antisym: "cmp y x = - cmp x y"
    and cmp_trans: "cmp x y \<le> 0 \<Longrightarrow> cmp y z \<le> 0 \<Longrightarrow> cmp x z \<le> 0"
begin

lemma cmp_refl [simp]: "cmp x x = 0"
  using cmp_antisym [of x x] by simp

lemma cmp_total: "cmp x y \<le> 0 \<or> cmp y x \<le> 0"
  using cmp_antisym [of x y] by linarith

lemma cmp_flip: "cmp x y > 0 \<longleftrightarrow> cmp y x < 0" "cmp x y \<ge> 0 \<longleftrightarrow> cmp y x \<le> 0"
  using cmp_antisym [of x y] by linarith+

lemma cmp_trans_ge: "cmp x y \<ge> 0 \<Longrightarrow> cmp y z \<ge> 0 \<Longrightarrow> cmp x z \<ge> 0"
  using cmp_trans [of z y x] cmp_flip(2) by blast

lemma cmp_less_le_trans: "cmp x y < 0 \<Longrightarrow> cmp y z \<le> 0 \<Longrightarrow> cmp x z < 0"
  by (metis cmp_flip cmp_trans linorder_not_le)

end

subsection \<open>Lists\<close>

lemma last_n_snoc:
  "n \<le> length xs \<Longrightarrow> 0 < n \<Longrightarrow> drop (Suc (length xs) - n) (xs @ [x]) = drop (Suc (length xs - n)) xs @ [x]"
  by (simp add: Suc_diff_le)

lemma sorted_list_eqI:
  "sorted xs \<Longrightarrow> sorted ys \<Longrightarrow> mset xs = mset ys \<Longrightarrow> xs = ys"
  by (metis properties_for_sort)

lemma mset_upt_nth: "mset (map ((!) xs) [0..<length xs]) = mset xs"
  by (simp add: map_nth)

end
