(* ===== verification/Tmv.thy ===== *)
theory Tmv
  imports Prelude
begin

text \<open>
  The time values of include/tmv.h: a signed 64 bit count of nanoseconds. The operations are
  the inline functions of that header; the lemmas give their signed value and the conversions
  between nanoseconds, scaled intervals and wire time stamps.
\<close>

subsection \<open>The operations of tmv.h\<close>

text \<open>The struct has one field; as a datatype it can carry the order of the library below.\<close>

datatype tmv_t = Tmv (ns: "64 word")

definition tmv_of :: "int \<Rightarrow> tmv_t" where
  "tmv_of x = Tmv (word_of_int x)"

definition tmv_val :: "tmv_t \<Rightarrow> int" where
  "tmv_val t = sint (ns t)"

definition tmv_add :: "tmv_t \<Rightarrow> tmv_t \<Rightarrow> tmv_t" where
  "tmv_add a b = Tmv (ns a + ns b)"

definition tmv_div :: "tmv_t \<Rightarrow> int \<Rightarrow> tmv_t" where
  "tmv_div a divisor = Tmv (word_of_int (sint (ns a) sdiv divisor))"

definition tmv_cmp :: "tmv_t \<Rightarrow> tmv_t \<Rightarrow> int" where
  "tmv_cmp a b = (if ns a = ns b then 0 else if sint (ns b) < sint (ns a) then 1 else -1)"

definition tmv_sign :: "tmv_t \<Rightarrow> int" where
  "tmv_sign x = (if ns x = 0 then 0 else if 0 < sint (ns x) then 1 else -1)"

definition tmv_is_zero :: "tmv_t \<Rightarrow> bool" where
  "tmv_is_zero x \<longleftrightarrow> ns x = 0"

definition tmv_sub :: "tmv_t \<Rightarrow> tmv_t \<Rightarrow> tmv_t" where
  "tmv_sub a b = Tmv (ns a - ns b)"

definition tmv_zero :: tmv_t where
  "tmv_zero = Tmv 0"

definition correction_to_tmv :: "i64 \<Rightarrow> tmv_t" where
  "correction_to_tmv c = Tmv (signed_drop_bit 16 c)"

definition tmv_to_nanoseconds :: "tmv_t \<Rightarrow> i64" where
  "tmv_to_nanoseconds x = ns x"

definition tmv_to_TimeInterval :: "tmv_t \<Rightarrow> i64" where
  "tmv_to_TimeInterval x = push_bit 16 (ns x)"

record WireTimeStamp =
  seconds_msb :: u16
  seconds_lsb :: u32
  nanoseconds :: u32

record LocalTimeStamp =
  sec :: u64
  nsec :: u32

record timespec =
  tv_sec :: i64
  tv_nsec :: i64

text \<open>
  The division of \<open>tmv_to_Timestamp\<close> is by an unsigned constant, so it is the unsigned
  division of the words.
\<close>

definition tmv_to_Timestamp :: "tmv_t \<Rightarrow> WireTimeStamp" where
  "tmv_to_Timestamp x =
     (let s = ns x div 1000000000; n = ns x mod 1000000000
      in \<lparr>seconds_msb = ucast (drop_bit 32 s AND 0xFFFF),
          seconds_lsb = ucast (s AND 0xFFFFFFFF),
          nanoseconds = ucast n\<rparr>)"

definition NS_PER_SEC :: i64 where
  "NS_PER_SEC = 1000000000"

definition timespec_to_tmv :: "timespec \<Rightarrow> tmv_t" where
  "timespec_to_tmv ts = Tmv (tv_sec ts * NS_PER_SEC + tv_nsec ts)"

definition timestamp_to_tmv :: "LocalTimeStamp \<Rightarrow> tmv_t" where
  "timestamp_to_tmv ts = Tmv (sec ts * NS_PER_SEC + ucast (nsec ts))"

text \<open>
  The value of a wire time stamp in host byte order, as \<open>timestamp_post_recv\<close> of msg.c
  assembles it (the byte swaps are in the message theory).
\<close>

definition wire_to_local :: "WireTimeStamp \<Rightarrow> LocalTimeStamp" where
  "wire_to_local w =
     \<lparr>sec = ucast (seconds_lsb w) OR push_bit 32 (ucast (seconds_msb w)), nsec = nanoseconds w\<rparr>"

subsection \<open>Signed values\<close>

lemma tmv_val_range [simp]: "i64_range (tmv_val t)"
  by (simp add: tmv_val_def)

lemma tmv_val_of [tmv_simps]: "i64_range x \<Longrightarrow> tmv_val (tmv_of x) = x"
  by (simp add: tmv_val_def tmv_of_def)

lemma tmv_val_zero [simp]: "tmv_val tmv_zero = 0"
  by (simp add: tmv_val_def tmv_zero_def)

lemma tmv_val_add [tmv_simps]:
  "i64_range (tmv_val a + tmv_val b) \<Longrightarrow> tmv_val (tmv_add a b) = tmv_val a + tmv_val b"
  by (simp add: tmv_val_def tmv_add_def sint_add_i64)

lemma tmv_val_sub [tmv_simps]:
  "i64_range (tmv_val a - tmv_val b) \<Longrightarrow> tmv_val (tmv_sub a b) = tmv_val a - tmv_val b"
  by (simp add: tmv_val_def tmv_sub_def sint_sub_i64)

lemma tmv_val_div [tmv_simps]: "0 < d \<Longrightarrow> tmv_val (tmv_div a d) = tmv_val a sdiv d"
  by (simp add: tmv_val_def tmv_div_def i64_range_sdiv)

lemma tmv_val_inject: "tmv_val a = tmv_val b \<longleftrightarrow> a = b"
  by (cases a; cases b) (simp add: tmv_val_def sint_inject)

lemma tmv_cmp_val [tmv_simps]: "tmv_cmp a b = sgn (tmv_val a - tmv_val b)"
  by (auto simp: tmv_cmp_def tmv_val_def sgn_if sint_inject)

lemma tmv_sign_val [tmv_simps]: "tmv_sign a = sgn (tmv_val a)"
  by (auto simp: tmv_sign_def tmv_val_def sgn_if signed_eq_0_iff)

lemma tmv_is_zero_val [tmv_simps]: "tmv_is_zero a \<longleftrightarrow> tmv_val a = 0"
  by (simp add: tmv_is_zero_def tmv_val_def signed_eq_0_iff)

instantiation tmv_t :: linorder
begin

definition less_eq_tmv_t :: "tmv_t \<Rightarrow> tmv_t \<Rightarrow> bool" where
  "less_eq_tmv_t a b \<longleftrightarrow> tmv_val a \<le> tmv_val b"

definition less_tmv_t :: "tmv_t \<Rightarrow> tmv_t \<Rightarrow> bool" where
  "less_tmv_t a b \<longleftrightarrow> tmv_val a < tmv_val b"

instance
  by intro_classes (auto simp: less_eq_tmv_t_def less_tmv_t_def tmv_val_inject)

end

lemma tmv_cmp_le_iff: "tmv_cmp a b \<le> 0 \<longleftrightarrow> a \<le> b"
  by (auto simp: tmv_cmp_val less_eq_tmv_t_def sgn_if)

interpretation tmv: comparator tmv_cmp
proof unfold_locales
  show "tmv_cmp y x = - tmv_cmp x y" for x y
    by (simp add: tmv_simps sgn_if)
  show "tmv_cmp x z \<le> 0" if "tmv_cmp x y \<le> 0" "tmv_cmp y z \<le> 0" for x y z
    using that by (auto simp: tmv_simps sgn_if split: if_splits)
qed

subsection \<open>Conversions\<close>

lemma TimeInterval_roundtrip:
  assumes "- (2 ^ 47) \<le> tmv_val x" "tmv_val x < 2 ^ 47"
  shows "correction_to_tmv (tmv_to_TimeInterval x) = x"
proof -
  obtain w where x: "x = Tmv w" by (cases x) auto
  have "sint (signed_drop_bit 16 (push_bit 16 w)) = sint w"
    using assms
    by (simp add: x tmv_val_def sint_signed_drop_bit_eq push_bit_eq_mult sint_word_ariths
        signed_take_bit_int_eq_self drop_bit_eq_div)
  then show ?thesis
    by (simp add: x correction_to_tmv_def tmv_to_TimeInterval_def sint_inject)
qed

lemma wire_local_sec: "sec (wire_to_local (tmv_to_Timestamp x)) = (ns x div 1000000000) AND mask 48"
  unfolding wire_to_local_def tmv_to_Timestamp_def Let_def mask_numerals
  by simp (rule bit_word_eqI, auto simp: bit_simps)

lemma wire_local_nsec: "ucast (nsec (wire_to_local (tmv_to_Timestamp x))) = (ns x mod 1000000000 :: u64)"
proof -
  have "(ns x mod 1000000000) < 2 ^ 32"
    by (rule less_trans [OF word_mod_less_divisor]) simp_all
  then show ?thesis
    by (simp add: wire_to_local_def tmv_to_Timestamp_def Let_def ucast_ucast_u32 less_mask_eq)
qed

lemma Timestamp_back: "timestamp_to_tmv (wire_to_local (tmv_to_Timestamp x)) = x"
proof -
  have "ns x div 1000000000 < 2 ^ 48"
    using unsigned_less [of "ns x", where 'a = nat] by (simp add: word_less_nat_alt unat_div)
  then have "(ns x div 1000000000) AND mask 48 = ns x div 1000000000"
    by (rule less_mask_eq)
  then show ?thesis
    by (simp add: timestamp_to_tmv_def wire_local_sec wire_local_nsec NS_PER_SEC_def div_mult_mod_eq)
qed

text \<open>
  a time value survives the conversion to the wire format and back, without a
  hypothesis: for a negative value the unsigned division of \<open>tmv_to_Timestamp\<close> yields
  the seconds of the wrapped value, which still fit the 48 bits of the wire format, and the
  way back wraps again.
\<close>

lemma Timestamp_roundtrip: "timestamp_to_tmv (wire_to_local (tmv_to_Timestamp x)) = x"
  by (rule Timestamp_back)

end
