(* ===== verification/DelayFilter.thy ===== *)
theory DelayFilter
  imports Tmv
begin

text \<open>
  The delay filters of src/ptpTimestampProc.c: a moving median, which keeps the indices of a
  circular buffer sorted by value, and a moving average, which keeps the running sum of its
  buffer. Each is modelled with the loops of the code and shown to compute the median and
  the mean of the samples in its window.
\<close>

subsection \<open>Moving median\<close>

record mmedian =
  mm_cnt :: nat
  mm_len :: nat
  mm_index :: nat
  mm_order :: "nat list"
  mm_samples :: "tmv_t list"

text \<open>\<open>for (i = 0; i < m->cnt; i++) if (m->order[i] == m->index) break;\<close>\<close>

function find_order :: "nat list \<Rightarrow> nat \<Rightarrow> nat \<Rightarrow> nat \<Rightarrow> nat" where
  "find_order order cnt index i =
     (if i < cnt then if order ! i = index then i else find_order order cnt index (Suc i) else i)"
  by pat_completeness auto
termination
  by (relation "measure (\<lambda>(order, cnt, index, i). cnt - i)") auto

declare find_order.simps [simp del]

text \<open>\<open>for (; i + 1 < m->cnt; i++) m->order[i] = m->order[i + 1];\<close>\<close>

function shift_order :: "nat list \<Rightarrow> nat \<Rightarrow> nat \<Rightarrow> nat list" where
  "shift_order order cnt i =
     (if i + 1 < cnt then shift_order (order[i := order ! (i + 1)]) cnt (Suc i) else order)"
  by pat_completeness auto
termination
  by (relation "measure (\<lambda>(order, cnt, i). cnt - i)") auto

declare shift_order.simps [simp del]

text \<open>
  \<open>for (i = m->cnt - 1; i > 0; i--) { if (tmv_cmp(...) <= 0) break; order[i] = order[i - 1]; }\<close>
  followed by \<open>m->order[i] = m->index\<close>, with the loop variable as the last argument.
\<close>

fun insert_order :: "tmv_t list \<Rightarrow> nat \<Rightarrow> nat list \<Rightarrow> nat \<Rightarrow> nat list" where
  "insert_order samples index order 0 = order[0 := index]"
| "insert_order samples index order (Suc i) =
     (if tmv_cmp (samples ! (order ! i)) (samples ! index) \<le> 0
      then order[Suc i := index]
      else insert_order samples index (order[Suc i := order ! i]) i)"

definition mmedianSample :: "mmedian \<Rightarrow> tmv_t \<Rightarrow> mmedian \<times> tmv_t" where
  "mmedianSample m sample =
     (let samples = (mm_samples m)[mm_index m := sample];
          (cnt, order) =
            (if mm_cnt m < mm_len m then (mm_cnt m + 1, mm_order m)
             else (mm_cnt m,
                   shift_order (mm_order m) (mm_cnt m)
                     (find_order (mm_order m) (mm_cnt m) (mm_index m) 0)));
          order = insert_order samples (mm_index m) order (cnt - 1);
          m' = m\<lparr>mm_cnt := cnt, mm_index := (1 + mm_index m) mod mm_len m,
                 mm_order := order, mm_samples := samples\<rparr>
      in (m', if cnt mod 2 \<noteq> 0 then samples ! (order ! (cnt div 2))
              else tmv_div (tmv_add (samples ! (order ! (cnt div 2 - 1)))
                                    (samples ! (order ! (cnt div 2)))) 2))"

definition mmedianReset :: "mmedian \<Rightarrow> mmedian" where
  "mmedianReset m = m\<lparr>mm_cnt := 0, mm_index := 0\<rparr>"

text \<open>
  Allocation is an argument: \<open>alloc n\<close> tells whether \<open>calloc\<close> of \<open>n\<close> bytes
  succeeds. The struct sizes are those of the LP64 data model.
\<close>

definition mmedianCreate :: "(nat \<Rightarrow> bool) \<Rightarrow> int \<Rightarrow> mmedian option" where
  "mmedianCreate alloc length' =
     (if length' < 1 then None
      else if \<not> alloc 56 then None
      else if \<not> alloc (nat length' * 4) then None
      else if \<not> alloc (nat length' * 8) then None
      else Some \<lparr>mm_cnt = 0, mm_len = nat length', mm_index = 0,
                 mm_order = replicate (nat length') 0,
                 mm_samples = replicate (nat length') tmv_zero\<rparr>)"

subsection \<open>Moving average\<close>

record mave =
  mv_cnt :: nat
  mv_len :: nat
  mv_index :: nat
  mv_sum :: tmv_t
  mv_val :: "tmv_t list"

definition maveAccumulate :: "mave \<Rightarrow> tmv_t \<Rightarrow> mave \<times> tmv_t" where
  "maveAccumulate m v =
     (let s = tmv_sub (mv_sum m) (mv_val m ! mv_index m);
          vals = (mv_val m)[mv_index m := v];
          s = tmv_add s v;
          cnt = (if mv_cnt m < mv_len m then mv_cnt m + 1 else mv_cnt m);
          m' = m\<lparr>mv_cnt := cnt, mv_index := (1 + mv_index m) mod mv_len m,
                 mv_sum := s, mv_val := vals\<rparr>
      in (m', tmv_div s (int cnt)))"

definition maveReset :: "mave \<Rightarrow> mave" where
  "maveReset m = m\<lparr>mv_cnt := 0, mv_index := 0, mv_sum := tmv_zero,
                   mv_val := replicate (mv_len m) tmv_zero\<rparr>"

text \<open>
  \<open>_maveCreate\<close> does not check its argument: a length of zero gives a filter whose first
  sample divides by zero (the configuration table keeps \<open>delay_filter_length\<close> positive).
  A negative length becomes a size no allocator grants.
\<close>

definition maveCreate :: "(nat \<Rightarrow> bool) \<Rightarrow> int \<Rightarrow> mave option" where
  "maveCreate alloc length' =
     (if \<not> alloc 56 then None
      else if length' < 0 \<or> \<not> alloc (nat length' * 8) then None
      else Some \<lparr>mv_cnt = 0, mv_len = nat length', mv_index = 0, mv_sum = tmv_zero,
                 mv_val = replicate (nat length') tmv_zero\<rparr>)"

subsection \<open>The filter interface\<close>

datatype filter_type = FILTER_MOVING_AVERAGE | FILTER_MOVING_MEDIAN | FILTER_OTHER int

text \<open>The function pointers of \<open>struct PtpFilter\<close> dispatch on the kind of the filter.\<close>

datatype PtpFilter = MedianFilter mmedian | AverageFilter mave

definition filter_create :: "(nat \<Rightarrow> bool) \<Rightarrow> filter_type \<Rightarrow> int \<Rightarrow> PtpFilter option" where
  "filter_create alloc type length' =
     (case type of
        FILTER_MOVING_AVERAGE \<Rightarrow> map_option AverageFilter (maveCreate alloc length')
      | FILTER_MOVING_MEDIAN \<Rightarrow> map_option MedianFilter (mmedianCreate alloc length')
      | FILTER_OTHER _ \<Rightarrow> None)"

fun filter_sample :: "PtpFilter \<Rightarrow> tmv_t \<Rightarrow> PtpFilter \<times> tmv_t" where
  "filter_sample (MedianFilter m) s = map_prod MedianFilter id (mmedianSample m s)"
| "filter_sample (AverageFilter m) s = map_prod AverageFilter id (maveAccumulate m s)"

fun filter_reset :: "PtpFilter \<Rightarrow> PtpFilter" where
  "filter_reset (MedianFilter m) = MedianFilter (mmedianReset m)"
| "filter_reset (AverageFilter m) = AverageFilter (maveReset m)"

subsection \<open>The window of a filter and its specification\<close>

text \<open>The last \<open>n\<close> elements of a list, the window a filter of length \<open>n\<close> promises.\<close>

definition last_n :: "nat \<Rightarrow> 'a list \<Rightarrow> 'a list" where
  "last_n n xs = drop (length xs - n) xs"

text \<open>The samples of a circular buffer in the order of their arrival.\<close>

definition ring_window :: "nat \<Rightarrow> nat \<Rightarrow> nat \<Rightarrow> 'a list \<Rightarrow> 'a list" where
  "ring_window len cnt index buf = (if cnt < len then take cnt buf else drop index buf @ take index buf)"

definition ring_inv :: "nat \<Rightarrow> nat \<Rightarrow> nat \<Rightarrow> 'a list \<Rightarrow> bool" where
  "ring_inv len cnt index buf \<longleftrightarrow>
     0 < len \<and> length buf = len \<and> cnt \<le> len \<and> index < len \<and> (cnt < len \<longrightarrow> index = cnt)"

lemma ring_inv_step:
  assumes "ring_inv len cnt index buf"
  shows "ring_inv len (if cnt < len then cnt + 1 else cnt) ((1 + index) mod len) (buf[index := x])"
  using assms by (auto simp: ring_inv_def mod_Suc)

lemma ring_window_step:
  assumes "ring_inv len cnt index buf"
  shows "ring_window len (if cnt < len then cnt + 1 else cnt) ((1 + index) mod len) (buf[index := x])
    = last_n len (ring_window len cnt index buf @ [x])"
proof (cases "cnt < len")
  case True
  with assms have i: "index = cnt" "length buf = len" by (auto simp: ring_inv_def)
  show ?thesis
  proof (cases "cnt + 1 = len")
    case True
    with i show ?thesis
      by (auto simp: ring_window_def last_n_def upd_conv_take_nth_drop)
  next
    case False
    with True i show ?thesis
      by (auto simp: ring_window_def last_n_def take_Suc_conv_app_nth)
  qed
next
  case False
  with assms have i: "cnt = len" "index < len" "length buf = len" "0 < len" by (auto simp: ring_inv_def)
  show ?thesis
  proof (cases "index + 1 = len")
    case True
    with i False show ?thesis
      by (auto simp: ring_window_def last_n_def upd_conv_take_nth_drop)
  next
    case False
    with i have "(1 + index) mod len = Suc index" by auto
    with i show ?thesis
      by (simp add: ring_window_def last_n_def upd_conv_take_nth_drop drop_Suc[symmetric] )
  qed
qed

lemma length_ring_window:
  "ring_inv len cnt index buf \<Longrightarrow> length (ring_window len cnt index buf) = cnt"
  by (auto simp: ring_inv_def ring_window_def)

lemma mset_ring_window:
  "ring_inv len cnt index buf \<Longrightarrow> mset (ring_window len cnt index buf) = mset (take cnt buf)"
  by (auto simp: ring_inv_def ring_window_def)
   (metis append_take_drop_id mset_append union_commute)

definition median_spec :: "tmv_t list \<Rightarrow> tmv_t" where
  "median_spec ws =
     (let s = sort ws; n = length ws
      in if odd n then s ! (n div 2) else tmv_div (tmv_add (s ! (n div 2 - 1)) (s ! (n div 2))) 2)"

definition mean_spec :: "tmv_t list \<Rightarrow> int" where
  "mean_spec ws = (\<Sum>w\<leftarrow>ws. tmv_val w) sdiv int (length ws)"

subsection \<open>The loops of the median filter\<close>

lemma find_order_found:
  assumes "i \<le> j" "j < cnt" "order ! j = index"
  shows "find_order order cnt index i < cnt \<and> order ! (find_order order cnt index i) = index"
  using assms
proof (induction order cnt index i rule: find_order.induct)
  case (1 order cnt index i)
  then show ?case
    by (subst (1 2) find_order.simps) (cases "i = j"; force)
qed

lemma shift_order_length [simp]: "length (shift_order order cnt i) = length order"
proof (induction order cnt i rule: shift_order.induct)
  case (1 order cnt i)
  then show ?case by (subst shift_order.simps) simp
qed

lemma shift_order_take:
  assumes "i < cnt" "cnt \<le> length order"
  shows "take (cnt - 1) (shift_order order cnt i) = take i order @ drop (Suc i) (take cnt order)"
  using assms
proof (induction order cnt i rule: shift_order.induct)
  case (1 order cnt i)
  show ?case
  proof (cases "i + 1 < cnt")
    case True
    then have "drop (Suc i) (take cnt order) = order ! Suc i # drop (Suc (Suc i)) (take cnt order)"
      using "1.prems" by (simp add: Cons_nth_drop_Suc [symmetric])
    with True 1 show ?thesis
      by (subst shift_order.simps) (simp add: take_Suc_conv_app_nth drop_take drop_update_cancel)
  next
    case False
    with "1.prems" have "cnt = Suc i" by simp
    with "1.prems" show ?thesis
      by (subst shift_order.simps) simp
  qed
qed

lemma insert_order_length [simp]: "length (insert_order samples index order n) = length order"
  by (induction samples index order n rule: insert_order.induct) auto

text \<open>The insertion loop puts the new index behind the last entry that is not above it.\<close>

lemma insert_order_split:
  assumes "n < length order"
  obtains k where "k \<le> n"
    "insert_order samples index order n
       = take k order @ index # drop k (take n order) @ drop (Suc n) order"
    "\<And>j. k \<le> j \<Longrightarrow> j < n \<Longrightarrow> samples ! index < samples ! (order ! j)"
    "0 < k \<Longrightarrow> samples ! (order ! (k - 1)) \<le> samples ! index"
  using assms
proof (induction samples index order n arbitrary: thesis rule: insert_order.induct)
  case (1 samples index order)
  then show ?case by (cases order) auto
next
  case (2 samples index order i)
  show ?case
  proof (cases "samples ! (order ! i) \<le> samples ! index")
    case True
    with "2.prems" show ?thesis
      by (intro "2.prems"(1) [of "Suc i"]) (auto simp: tmv_cmp_le_iff upd_conv_take_nth_drop)
  next
    case False
    let ?o = "order[Suc i := order ! i]"
    have cmp: "\<not> tmv_cmp (samples ! (order ! i)) (samples ! index) \<le> 0" "i < length ?o"
      using False "2.prems"(2) by (simp_all add: tmv_cmp_le_iff)
    obtain k where k: "k \<le> i"
      "insert_order samples index ?o i = take k ?o @ index # drop k (take i ?o) @ drop (Suc i) ?o"
      "\<And>j. k \<le> j \<Longrightarrow> j < i \<Longrightarrow> samples ! index < samples ! (?o ! j)"
      "0 < k \<Longrightarrow> samples ! (?o ! (k - 1)) \<le> samples ! index"
      using "2.IH" [OF cmp(1) _ cmp(2)] by blast
    have o: "drop (Suc i) ?o = order ! i # drop (Suc (Suc i)) order" "take k ?o = take k order"
      "drop k (take i ?o) = drop k (take i order)"
      using k(1) "2.prems"(2) by (simp_all add: upd_conv_take_nth_drop)
    have "samples ! index < samples ! (order ! j)" if "k \<le> j" "j < Suc i" for j
      using that k(3) [of j] False by (cases "j = i") (auto simp: not_le)
    moreover have "0 < k \<Longrightarrow> samples ! (order ! (k - 1)) \<le> samples ! index"
      using k(1,4) by auto
    ultimately show ?thesis
      using k(1,2) o cmp "2.prems"(2)
      by (intro "2.prems"(1) [of k]) (auto simp: take_Suc_conv_app_nth)
  qed
qed

abbreviation order_key :: "tmv_t list \<Rightarrow> nat list \<Rightarrow> tmv_t list" where
  "order_key samples order \<equiv> map ((!) samples) order"

lemma insert_order_sorted:
  assumes "n < length order" "sorted (order_key samples (take n order))"
  shows "sorted (order_key samples (take (Suc n) (insert_order samples index order n)))"
    and "mset (take (Suc n) (insert_order samples index order n)) = add_mset index (mset (take n order))"
proof -
  obtain k where k: "k \<le> n"
    "insert_order samples index order n = take k order @ index # drop k (take n order) @ drop (Suc n) order"
    "\<And>j. k \<le> j \<Longrightarrow> j < n \<Longrightarrow> samples ! index < samples ! (order ! j)"
    "0 < k \<Longrightarrow> samples ! (order ! (k - 1)) \<le> samples ! index"
    using insert_order_split [OF assms(1)] by blast
  define lo where "lo = order_key samples (take k order)"
  define hi where "hi = order_key samples (drop k (take n order))"
  have split: "take n order = take k order @ drop k (take n order)"
    using k(1) by (metis append_take_drop_id min.absorb1 take_take)
  have res: "take (Suc n) (insert_order samples index order n) = take k order @ index # drop k (take n order)"
    using k(1,2) assms(1) by (simp add: Suc_diff_le)
  have "sorted (lo @ hi)"
    using assms(2) split unfolding lo_def hi_def by (metis map_append)
  moreover have "x \<le> samples ! index" if "x \<in> set lo" for x
  proof -
    from that obtain j where j: "j < length lo" "x = lo ! j"
      by (auto simp: in_set_conv_nth)
    then have "0 < k" "length lo = k"
      using k(1) assms(1) by (auto simp: lo_def)
    moreover have "lo ! j \<le> lo ! (k - 1)"
      using \<open>sorted (lo @ hi)\<close> j \<open>length lo = k\<close> by (intro sorted_nth_mono) (auto simp: sorted_append)
    moreover have "lo ! (k - 1) = samples ! (order ! (k - 1))"
      using \<open>0 < k\<close> k(1) assms(1) by (simp add: lo_def)
    ultimately show ?thesis
      using k(4) j by simp
  qed
  moreover have "samples ! index \<le> x" if "x \<in> set hi" for x
    using that k(3) assms(1) by (auto simp: hi_def in_set_conv_nth less_imp_le)
  ultimately show "sorted (order_key samples (take (Suc n) (insert_order samples index order n)))"
    by (auto simp: res sorted_append lo_def hi_def intro: order_trans)
  show "mset (take (Suc n) (insert_order samples index order n)) = add_mset index (mset (take n order))"
    by (subst split) (simp add: res)
qed

subsection \<open>Invariant and result of the median filter\<close>

definition mm_inv :: "mmedian \<Rightarrow> bool" where
  "mm_inv m \<longleftrightarrow>
     ring_inv (mm_len m) (mm_cnt m) (mm_index m) (mm_samples m) \<and>
     length (mm_order m) = mm_len m \<and>
     mset (take (mm_cnt m) (mm_order m)) = mset [0..<mm_cnt m] \<and>
     sorted (order_key (mm_samples m) (take (mm_cnt m) (mm_order m)))"

definition mm_window :: "mmedian \<Rightarrow> tmv_t list" where
  "mm_window m = ring_window (mm_len m) (mm_cnt m) (mm_index m) (mm_samples m)"

lemma mm_inv_create: "mmedianCreate alloc n = Some m \<Longrightarrow> mm_inv m \<and> mm_window m = [] \<and> mm_len m = nat n"
  by (auto simp: mmedianCreate_def mm_inv_def mm_window_def ring_inv_def ring_window_def split: if_splits)

lemma mm_inv_reset: "mm_inv m \<Longrightarrow> mm_inv (mmedianReset m) \<and> mm_window (mmedianReset m) = []"
  by (auto simp: mmedianReset_def mm_inv_def mm_window_def ring_inv_def ring_window_def)

text \<open>
  What is left of the order before the insertion: the indices of the other samples, still
  sorted, whether the buffer was filling or the oldest index was removed.
\<close>

definition mm_pruned :: "mmedian \<Rightarrow> nat \<times> nat list" where
  "mm_pruned m =
     (if mm_cnt m < mm_len m then (mm_cnt m + 1, mm_order m)
      else (mm_cnt m,
            shift_order (mm_order m) (mm_cnt m) (find_order (mm_order m) (mm_cnt m) (mm_index m) 0)))"

lemma order_key_update: "i \<notin> set xs \<Longrightarrow> order_key (samples[i := x]) xs = order_key samples xs"
  by (rule map_cong [OF refl]) (metis nth_list_update_neq)

lemma mm_pruned_filling:
  assumes "mm_inv m" "mm_cnt m < mm_len m"
  shows "mm_pruned m = (mm_cnt m + 1, mm_order m)" "mm_index m \<notin> set (take (mm_cnt m) (mm_order m))"
    "add_mset (mm_index m) (mset (take (mm_cnt m) (mm_order m))) = mset [0..<mm_cnt m + 1]"
proof -
  from assms have i: "mm_index m = mm_cnt m"
    and ms: "mset (take (mm_cnt m) (mm_order m)) = mset [0..<mm_cnt m]"
    by (auto simp: mm_inv_def ring_inv_def)
  from i show "mm_index m \<notin> set (take (mm_cnt m) (mm_order m))"
    using mset_eq_setD [OF ms] by auto
  show "mm_pruned m = (mm_cnt m + 1, mm_order m)"
    using assms(2) by (simp add: mm_pruned_def)
  show "add_mset (mm_index m) (mset (take (mm_cnt m) (mm_order m))) = mset [0..<mm_cnt m + 1]"
    using ms i by simp
qed

lemma mm_pruned_full:
  assumes "mm_inv m" "\<not> mm_cnt m < mm_len m"
  obtains a b order where "mm_order m = a @ mm_index m # b" "mm_pruned m = (mm_cnt m, order)"
    "take (mm_cnt m - 1) order = a @ b" "length order = mm_len m" "mm_index m \<notin> set (a @ b)"
proof -
  from assms have c: "mm_cnt m = length (mm_order m)" "length (mm_order m) = mm_len m"
    and ms: "mset (mm_order m) = mset [0..<length (mm_order m)]"
    and i: "mm_index m < length (mm_order m)"
    by (auto simp: mm_inv_def ring_inv_def)
  from i have "mm_index m \<in> set (mm_order m)"
    using mset_eq_setD [OF ms] by auto
  then obtain j where "j < length (mm_order m)" "mm_order m ! j = mm_index m"
    by (auto simp: in_set_conv_nth)
  then have f: "find_order (mm_order m) (mm_cnt m) (mm_index m) 0 < mm_cnt m"
    "mm_order m ! find_order (mm_order m) (mm_cnt m) (mm_index m) 0 = mm_index m"
    using find_order_found [of 0 j "mm_cnt m" "mm_order m" "mm_index m"] c by simp_all
  define p where "p = find_order (mm_order m) (mm_cnt m) (mm_index m) 0"
  have o: "mm_order m = take p (mm_order m) @ mm_index m # drop (Suc p) (mm_order m)"
    using f c by (metis id_take_nth_drop p_def)
  have "distinct (mm_order m)"
    using ms by (metis distinct_upt mset_eq_imp_distinct_iff)
  then have "mm_index m \<notin> set (take p (mm_order m) @ drop (Suc p) (mm_order m))"
    by (subst (asm) o) auto
  moreover have "mm_pruned m = (mm_cnt m, shift_order (mm_order m) (mm_cnt m) p)"
    using assms(2) by (simp add: mm_pruned_def p_def)
  moreover have "take (mm_cnt m - 1) (shift_order (mm_order m) (mm_cnt m) p)
    = take p (mm_order m) @ drop (Suc p) (mm_order m)"
    using shift_order_take [of p "mm_cnt m" "mm_order m"] f(1) c(1) by (simp add: p_def)
  ultimately show ?thesis
    using o c(2) by (intro that) (assumption | simp)+
qed

lemma mm_pruned_props:
  assumes "mm_inv m" "mm_pruned m = (cnt, order)"
  shows "cnt = (if mm_cnt m < mm_len m then mm_cnt m + 1 else mm_cnt m)"
    and "0 < cnt" "cnt \<le> mm_len m" "length order = mm_len m"
    and "add_mset (mm_index m) (mset (take (cnt - 1) order)) = mset [0..<cnt]"
    and "sorted (order_key ((mm_samples m)[mm_index m := x]) (take (cnt - 1) order))"
proof -
  have inv: "0 < mm_len m" "mm_cnt m \<le> mm_len m" "length (mm_order m) = mm_len m"
    "mset (take (mm_cnt m) (mm_order m)) = mset [0..<mm_cnt m]"
    "sorted (order_key (mm_samples m) (take (mm_cnt m) (mm_order m)))"
    using assms(1) by (auto simp: mm_inv_def ring_inv_def)
  show "cnt = (if mm_cnt m < mm_len m then mm_cnt m + 1 else mm_cnt m)" "0 < cnt" "cnt \<le> mm_len m"
    using assms(2) inv by (auto simp: mm_pruned_def split: if_splits)
  have "length order = mm_len m
    \<and> add_mset (mm_index m) (mset (take (cnt - 1) order)) = mset [0..<cnt]
    \<and> sorted (order_key ((mm_samples m)[mm_index m := x]) (take (cnt - 1) order))"
  proof (cases "mm_cnt m < mm_len m")
    case True
    then show ?thesis
      using mm_pruned_filling [OF assms(1) True] assms(2) inv by (auto simp: order_key_update)
  next
    case False
    then obtain a b where ab: "mm_order m = a @ mm_index m # b" "take (cnt - 1) order = a @ b"
      "length order = mm_len m" "mm_index m \<notin> set (a @ b)" "cnt = mm_cnt m"
      using mm_pruned_full [OF assms(1) False] assms(2) by (metis prod.inject)
    have "take (mm_cnt m) (mm_order m) = a @ mm_index m # b"
      using False inv(2,3) ab(1) by simp
    with inv(4,5) have "mset (a @ mm_index m # b) = mset [0..<cnt]"
      "sorted (order_key (mm_samples m) (a @ mm_index m # b))"
      by (simp_all only: ab(5))
    then have "add_mset (mm_index m) (mset (a @ b)) = mset [0..<cnt]"
      "sorted (order_key (mm_samples m) (a @ b))"
      by (simp_all add: sorted_append)
    then show ?thesis
      using ab(3) order_key_update [OF ab(4)] by (simp only: ab(2) simp_thms)
  qed
  then show "length order = mm_len m"
    "add_mset (mm_index m) (mset (take (cnt - 1) order)) = mset [0..<cnt]"
    "sorted (order_key ((mm_samples m)[mm_index m := x]) (take (cnt - 1) order))"
    by blast+
qed

lemma mmedianSample_unfold:
  assumes "mm_pruned m = (cnt, order)"
  shows "mmedianSample m x =
    (let samples = (mm_samples m)[mm_index m := x];
         order = insert_order samples (mm_index m) order (cnt - 1)
     in (m\<lparr>mm_cnt := cnt, mm_index := (1 + mm_index m) mod mm_len m, mm_order := order, mm_samples := samples\<rparr>,
         if cnt mod 2 \<noteq> 0 then samples ! (order ! (cnt div 2))
         else tmv_div (tmv_add (samples ! (order ! (cnt div 2 - 1))) (samples ! (order ! (cnt div 2)))) 2))"
  using assms by (auto simp: mmedianSample_def mm_pruned_def Let_def split: if_splits)

lemma mm_sample_inv:
  assumes "mm_inv m"
  shows "mm_inv (fst (mmedianSample m x))"
    and "mm_window (fst (mmedianSample m x)) = last_n (mm_len m) (mm_window m @ [x])"
proof -
  obtain cnt order where p: "mm_pruned m = (cnt, order)" by fastforce
  note pp = mm_pruned_props [OF assms p]
  have r: "ring_inv (mm_len m) (mm_cnt m) (mm_index m) (mm_samples m)"
    using assms by (simp add: mm_inv_def)
  obtain k where k: "cnt = Suc k" using pp(2) by (cases cnt) auto
  have l: "k < length order" using pp(3,4) k by simp
  note sorted = insert_order_sorted [OF l pp(6) [where x = x, unfolded k diff_Suc_1], of "mm_index m"]
    pp(5) [unfolded k diff_Suc_1]
  show "mm_inv (fst (mmedianSample m x))"
    using ring_inv_step [OF r, of x] pp(4) sorted
    by (simp add: mmedianSample_unfold [OF p] Let_def mm_inv_def pp(1) [symmetric] k
        del: mset_upt upt_Suc)
  show "mm_window (fst (mmedianSample m x)) = last_n (mm_len m) (mm_window m @ [x])"
    using ring_window_step [OF r, of x] pp(1)
    by (simp add: mmedianSample_unfold [OF p] Let_def mm_window_def)
qed

lemma mm_sorted_window:
  assumes "mm_inv m"
  shows "order_key (mm_samples m) (take (mm_cnt m) (mm_order m)) = sort (mm_window m)"
proof (rule properties_for_sort [symmetric])
  have r: "ring_inv (mm_len m) (mm_cnt m) (mm_index m) (mm_samples m)"
    and ms: "mset (take (mm_cnt m) (mm_order m)) = mset [0..<mm_cnt m]"
    using assms by (auto simp: mm_inv_def)
  have "mset (order_key (mm_samples m) (take (mm_cnt m) (mm_order m)))
    = image_mset ((!) (mm_samples m)) (mset [0..<mm_cnt m])"
    by (metis ms mset_map)
  also have "\<dots> = mset (map ((!) (mm_samples m)) [0..<mm_cnt m])"
    by simp
  also have "map ((!) (mm_samples m)) [0..<mm_cnt m] = take (mm_cnt m) (mm_samples m)"
    using r by (auto simp: ring_inv_def intro: nth_equalityI)
  also have "mset \<dots> = mset (mm_window m)"
    using mset_ring_window [OF r] by (simp add: mm_window_def)
  finally show "mset (order_key (mm_samples m) (take (mm_cnt m) (mm_order m))) = mset (mm_window m)" .
  show "sorted (order_key (mm_samples m) (take (mm_cnt m) (mm_order m)))"
    using assms by (simp add: mm_inv_def)
qed

lemma mm_sample_median:
  assumes "mm_inv m"
  shows "snd (mmedianSample m x) = median_spec (mm_window (fst (mmedianSample m x)))"
proof -
  obtain cnt order where p: "mm_pruned m = (cnt, order)" by fastforce
  define m' where "m' = fst (mmedianSample m x)"
  have inv: "mm_inv m'" by (simp add: m'_def mm_sample_inv [OF assms])
  have c: "mm_cnt m' = cnt" "0 < cnt" "cnt \<le> length (mm_order m')"
    and res: "snd (mmedianSample m x) =
      (if cnt mod 2 \<noteq> 0 then mm_samples m' ! (mm_order m' ! (cnt div 2))
       else tmv_div (tmv_add (mm_samples m' ! (mm_order m' ! (cnt div 2 - 1)))
                             (mm_samples m' ! (mm_order m' ! (cnt div 2)))) 2)"
    using mm_pruned_props [OF assms p] by (simp_all add: m'_def mmedianSample_unfold [OF p] Let_def)
  have nth: "sort (mm_window m') ! j = mm_samples m' ! (mm_order m' ! j)" if "j < cnt" for j
    using that c by (simp flip: mm_sorted_window [OF inv])
  have "length (mm_window m') = cnt"
    using inv c by (simp add: mm_window_def mm_inv_def length_ring_window)
  then have "snd (mmedianSample m x) = median_spec (mm_window m')"
    using c(2) by (simp add: res median_spec_def nth Let_def odd_iff_mod_2_eq_one)
  then show ?thesis by (simp add: m'_def)
qed


subsection \<open>Invariant and result of the average filter\<close>

definition mv_inv :: "mave \<Rightarrow> bool" where
  "mv_inv m \<longleftrightarrow>
     ring_inv (mv_len m) (mv_cnt m) (mv_index m) (mv_val m) \<and>
     ns (mv_sum m) = (\<Sum>v\<leftarrow>mv_val m. ns v) \<and>
     (\<forall>v \<in> set (drop (mv_cnt m) (mv_val m)). v = tmv_zero)"

definition mv_window :: "mave \<Rightarrow> tmv_t list" where
  "mv_window m = ring_window (mv_len m) (mv_cnt m) (mv_index m) (mv_val m)"

lemma sum_list_map_update:
  "i < length xs \<Longrightarrow> (\<Sum>v\<leftarrow>xs[i := x]. f v) = (\<Sum>v\<leftarrow>xs. f v) - f (xs ! i) + (f x :: 'b::ab_group_add)"
  by (induction xs arbitrary: i) (auto split: nat.split)

lemma mv_inv_create:
  "0 < n \<Longrightarrow> maveCreate alloc n = Some m \<Longrightarrow> mv_inv m \<and> mv_window m = [] \<and> mv_len m = nat n"
  by (auto simp: maveCreate_def mv_inv_def mv_window_def ring_inv_def ring_window_def tmv_zero_def
      sum_list_replicate split: if_splits)

lemma mv_inv_reset: "mv_inv m \<Longrightarrow> mv_inv (maveReset m) \<and> mv_window (maveReset m) = []"
  by (auto simp: maveReset_def mv_inv_def mv_window_def ring_inv_def ring_window_def tmv_zero_def
      sum_list_replicate)

lemma mv_accumulate_inv:
  assumes "mv_inv m"
  shows "mv_inv (fst (maveAccumulate m x))"
    and "mv_window (fst (maveAccumulate m x)) = last_n (mv_len m) (mv_window m @ [x])"
proof -
  have r: "ring_inv (mv_len m) (mv_cnt m) (mv_index m) (mv_val m)"
    and z: "\<forall>v \<in> set (drop (mv_cnt m) (mv_val m)). v = tmv_zero"
    and s: "ns (mv_sum m) = (\<Sum>v\<leftarrow>mv_val m. ns v)"
    using assms by (simp_all add: mv_inv_def)
  let ?cnt = "if mv_cnt m < mv_len m then mv_cnt m + 1 else mv_cnt m"
  have "\<forall>v \<in> set (drop ?cnt ((mv_val m)[mv_index m := x])). v = tmv_zero"
    using z r set_drop_subset_set_drop [of "mv_cnt m" "Suc (mv_cnt m)" "mv_val m"]
    by (auto simp: ring_inv_def)
  then show "mv_inv (fst (maveAccumulate m x))"
    using ring_inv_step [OF r, of x] r s
    by (auto simp: maveAccumulate_def Let_def mv_inv_def tmv_add_def tmv_sub_def sum_list_map_update ring_inv_def)
  show "mv_window (fst (maveAccumulate m x)) = last_n (mv_len m) (mv_window m @ [x])"
    using ring_window_step [OF r, of x]
    by (simp add: maveAccumulate_def Let_def mv_window_def)
qed

lemma mv_sum_window:
  assumes "mv_inv m"
  shows "ns (mv_sum m) = (\<Sum>v\<leftarrow>mv_window m. ns v)"
proof -
  have r: "ring_inv (mv_len m) (mv_cnt m) (mv_index m) (mv_val m)"
    using assms by (simp add: mv_inv_def)
  have zero: "(\<Sum>v\<leftarrow>xs. ns v) = 0" if "\<forall>v \<in> set xs. v = tmv_zero" for xs
    using that by (induction xs) (auto simp: tmv_zero_def)
  have "(\<Sum>v\<leftarrow>mv_val m. ns v) = (\<Sum>v\<leftarrow>take (mv_cnt m) (mv_val m). ns v)
      + (\<Sum>v\<leftarrow>drop (mv_cnt m) (mv_val m). ns v)"
    by (simp flip: sum_list_append map_append)
  also have "\<dots> = (\<Sum>v\<leftarrow>take (mv_cnt m) (mv_val m). ns v)"
    using assms zero by (simp add: mv_inv_def)
  also have "\<dots> = (\<Sum>v\<leftarrow>mv_window m. ns v)"
    using mset_ring_window [OF r] unfolding mv_window_def by (metis mset_map sum_mset_sum_list)
  finally show ?thesis
    using assms by (simp add: mv_inv_def)
qed

lemma sint_sum_list:
  "i64_range (\<Sum>v\<leftarrow>vs. tmv_val v) \<Longrightarrow> sint (\<Sum>v\<leftarrow>vs. ns v) = (\<Sum>v\<leftarrow>vs. tmv_val v)"
proof -
  have "(\<Sum>v\<leftarrow>vs. ns v) = word_of_int (\<Sum>v\<leftarrow>vs. tmv_val v)"
    by (induction vs) (simp_all add: tmv_val_def)
  then show "i64_range (\<Sum>v\<leftarrow>vs. tmv_val v) \<Longrightarrow> ?thesis" by simp
qed

lemma mv_accumulate_mean:
  assumes "mv_inv m" and m': "m' = fst (maveAccumulate m x)"
    and "i64_range (\<Sum>v\<leftarrow>mv_window m'. tmv_val v)"
  shows "tmv_val (snd (maveAccumulate m x)) = mean_spec (mv_window m')"
proof -
  have inv: "mv_inv m'" using mv_accumulate_inv(1) [OF assms(1)] m' by simp
  have "snd (maveAccumulate m x) = tmv_div (mv_sum m') (int (mv_cnt m'))" "0 < mv_cnt m'"
    using assms(1) by (auto simp: m' maveAccumulate_def Let_def mv_inv_def ring_inv_def)
  moreover have "length (mv_window m') = mv_cnt m'"
    using inv by (simp add: mv_window_def mv_inv_def length_ring_window)
  ultimately show ?thesis
    using mv_sum_window [OF inv] sint_sum_list [OF assms(3)]
    by (simp add: tmv_val_div mean_spec_def) (simp add: tmv_val_def)
qed


subsection \<open>The contract of a delay filter\<close>

text \<open>
  Both filters promise the same: after each sample the window holds the last \<open>len\<close>
  samples since the filter was reset, and the result is a function of the window. The
  guard \<open>ok\<close> names the windows on which the result is meant (for the mean, those whose
  sum does not overflow).
\<close>

definition feed :: "('s \<Rightarrow> 'x \<Rightarrow> 's \<times> 'y) \<Rightarrow> 's \<Rightarrow> 'x list \<Rightarrow> 's" where
  "feed sample s xs = foldl (\<lambda>s x. fst (sample s x)) s xs"

lemma feed_simps [simp]: "feed sample s [] = s" "feed sample s (x # xs) = feed sample (fst (sample s x)) xs"
  "feed sample s (xs @ [x]) = fst (sample (feed sample s xs) x)"
  by (simp_all add: feed_def)

lemma last_n_last_n_append: "last_n n (last_n n xs @ ys) = last_n n (xs @ ys)"
  by (cases "n \<le> length xs") (simp_all add: last_n_def add.commute)

locale window_filter =
  fixes sample :: "'s \<Rightarrow> tmv_t \<Rightarrow> 's \<times> tmv_t"
    and reset :: "'s \<Rightarrow> 's"
    and inv :: "'s \<Rightarrow> bool"
    and window :: "'s \<Rightarrow> tmv_t list"
    and len :: "'s \<Rightarrow> nat"
    and ok :: "tmv_t list \<Rightarrow> bool"
    and spec :: "tmv_t list \<Rightarrow> int"
  assumes inv_sample: "inv s \<Longrightarrow> inv (fst (sample s x))"
    and window_sample: "inv s \<Longrightarrow> window (fst (sample s x)) = last_n (len s) (window s @ [x])"
    and len_sample: "len (fst (sample s x)) = len s"
    and result_sample: "inv s \<Longrightarrow> ok (window (fst (sample s x))) \<Longrightarrow>
          tmv_val (snd (sample s x)) = spec (window (fst (sample s x)))"
    and inv_reset: "inv s \<Longrightarrow> inv (reset s)"
    and window_reset: "inv s \<Longrightarrow> window (reset s) = []"
    and len_reset: "len (reset s) = len s"
    and len_window: "inv s \<Longrightarrow> length (window s) \<le> len s"
begin

lemma feed_inv: "inv s \<Longrightarrow> inv (feed sample s xs)"
  by (induction xs arbitrary: s) (auto intro: inv_sample)

lemma feed_len: "len (feed sample s xs) = len s"
  by (induction xs arbitrary: s) (auto simp: len_sample)

lemma feed_window: "inv s \<Longrightarrow> window (feed sample s xs) = last_n (len s) (window s @ xs)"
proof (induction xs rule: rev_induct)
  case Nil
  then show ?case using len_window [of s] by (simp add: last_n_def)
next
  case (snoc x xs)
  then show ?case
    by (simp add: window_sample feed_inv feed_len last_n_last_n_append)
qed

text \<open>The result after any history of samples since a reset.\<close>

lemma feed_result:
  assumes "inv s" "window s = []" "ok (last_n (len s) (xs @ [x]))"
  shows "tmv_val (snd (sample (feed sample s xs) x)) = spec (last_n (len s) (xs @ [x]))"
proof -
  have "window (fst (sample (feed sample s xs) x)) = last_n (len s) (xs @ [x])"
    using feed_window [OF assms(1), of "xs @ [x]"] assms(2) by simp
  then show ?thesis
    using result_sample [OF feed_inv [OF assms(1)], of xs x] assms(3) by simp
qed

lemma reset_result:
  assumes "inv s" "ok (last_n (len s) (xs @ [x]))"
  shows "tmv_val (snd (sample (feed sample (reset s) xs) x)) = spec (last_n (len s) (xs @ [x]))"
  using feed_result [OF inv_reset window_reset] assms by (simp add: len_reset)

end

interpretation median: window_filter mmedianSample mmedianReset mm_inv mm_window mm_len "\<lambda>_. True"
    "\<lambda>ws. tmv_val (median_spec ws)"
proof unfold_locales
  show "mm_len (fst (mmedianSample s x)) = mm_len s" for s x
    by (simp add: mmedianSample_def Let_def split: prod.split)
  show "mm_len (mmedianReset s) = mm_len s" for s
    by (simp add: mmedianReset_def)
  show "length (mm_window s) \<le> mm_len s" if "mm_inv s" for s
    using that by (simp add: mm_inv_def mm_window_def length_ring_window) (simp add: ring_inv_def)
qed (use mm_sample_inv mm_sample_median mm_inv_reset in auto)

interpretation mean: window_filter maveAccumulate maveReset mv_inv mv_window mv_len
    "\<lambda>ws. i64_range (\<Sum>v\<leftarrow>ws. tmv_val v)" mean_spec
proof unfold_locales
  show "mv_len (fst (maveAccumulate s x)) = mv_len s" for s x
    by (simp add: maveAccumulate_def Let_def)
  show "mv_len (maveReset s) = mv_len s" for s
    by (simp add: maveReset_def)
  show "length (mv_window s) \<le> mv_len s" if "mv_inv s" for s
    using that by (simp add: mv_inv_def mv_window_def length_ring_window) (simp add: ring_inv_def)
qed (use mv_accumulate_inv mv_accumulate_mean mv_inv_reset in auto)


text \<open>
  The median is robust: when more than half of a window lies in an interval, so does the
  median, whatever the other samples are.
\<close>

lemma sorted_count_below:
  fixes xs :: "'a::linorder list"
  assumes "sorted xs" "i < length xs" "xs ! i < lo"
  shows "length (filter (\<lambda>x. x < lo) xs) > i"
  using assms
proof -
  have "{..i} \<subseteq> {j. j < length xs \<and> xs ! j < lo}"
    using assms by (auto intro: le_less_trans [OF sorted_nth_mono])
  then have "card {..i} \<le> card {j. j < length xs \<and> xs ! j < lo}"
    by (intro card_mono) auto
  then show ?thesis by (simp add: length_filter_conv_card)
qed

lemma sorted_count_above:
  fixes xs :: "'a::linorder list"
  assumes "sorted xs" "i < length xs" "hi < xs ! i"
  shows "length (filter (\<lambda>x. hi < x) xs) \<ge> length xs - i"
proof -
  have "{i..<length xs} \<subseteq> {j. j < length xs \<and> hi < xs ! j}"
    using assms by (auto intro: less_le_trans [OF _ sorted_nth_mono])
  then have "card {i..<length xs} \<le> card {j. j < length xs \<and> hi < xs ! j}"
    by (intro card_mono) auto
  then show ?thesis by (simp add: length_filter_conv_card)
qed

lemma majority_nth:
  fixes ws :: "'a::linorder list"
  assumes maj: "length ws < 2 * length (filter (\<lambda>w. lo \<le> w \<and> w \<le> hi) ws)"
    and i: "i = length ws div 2 \<or> even (length ws) \<and> i = length ws div 2 - 1"
  shows "lo \<le> sort ws ! i \<and> sort ws ! i \<le> hi"
proof (rule ccontr)
  assume neg: "\<not> (lo \<le> sort ws ! i \<and> sort ws ! i \<le> hi)"
  have cnt: "length (filter P (sort ws)) = length (filter P ws)" for P :: "'a \<Rightarrow> bool"
    by (metis mset_filter mset_sort size_mset)
  have "length (filter (\<lambda>w. lo \<le> w \<and> w \<le> hi) ws) + length (filter (\<lambda>w. w < lo) ws) \<le> length ws"
    "length (filter (\<lambda>w. lo \<le> w \<and> w \<le> hi) ws) + length (filter (\<lambda>w. hi < w) ws) \<le> length ws"
    by (induction ws) auto
  moreover have "ws \<noteq> []" using maj by auto
  then have il: "i < length (sort ws)"
    using i by (auto intro: le_less_trans [of _ "length ws div 2"])
  moreover have n: "even (length ws) \<and> length ws = 2 * (length ws div 2) \<or> odd (length ws) \<and> length ws = 2 * (length ws div 2) + 1"
    by presburger
  consider (below) "sort ws ! i < lo" | (above) "hi < sort ws ! i"
    using neg by force
  then have "length (filter (\<lambda>w. w < lo) ws) > i \<or> length (filter (\<lambda>w. hi < w) ws) \<ge> length ws - i"
    using sorted_count_below [OF sorted_sort il] sorted_count_above [OF sorted_sort il]
    unfolding cnt length_sort by cases auto
  ultimately show False
    using maj i n by (elim disjE conjE; linarith?; simp; linarith?)
qed

lemma mean_between: "lo \<le> a \<Longrightarrow> a \<le> hi \<Longrightarrow> lo \<le> b \<Longrightarrow> b \<le> hi \<Longrightarrow> lo \<le> (a + b) sdiv 2 \<and> (a + b) sdiv 2 \<le> hi"
  for a b lo hi :: int
  by (cases "0 \<le> a + b") (auto simp: signed_divide_int_def sgn_if)

lemma median_spec_majority:
  assumes maj: "length ws < 2 * length (filter (\<lambda>w. lo \<le> w \<and> w \<le> hi) ws)"
    and r: "- (2 ^ 62) \<le> tmv_val lo" "tmv_val hi < 2 ^ 62"
  shows "lo \<le> median_spec ws \<and> median_spec ws \<le> hi"
proof (cases "odd (length ws)")
  case True
  then show ?thesis
    using majority_nth [OF maj, of "length ws div 2"] by (simp add: median_spec_def Let_def)
next
  case False
  let ?a = "sort ws ! (length ws div 2 - 1)" and ?b = "sort ws ! (length ws div 2)"
  have ab: "lo \<le> ?a" "?a \<le> hi" "lo \<le> ?b" "?b \<le> hi"
    using majority_nth [OF maj, of "length ws div 2"] majority_nth [OF maj, of "length ws div 2 - 1"] False
    by auto
  then have "i64_range (tmv_val ?a + tmv_val ?b)"
    using r by (auto simp: i64_range_def less_eq_tmv_t_def)
  then have "tmv_val (median_spec ws) = (tmv_val ?a + tmv_val ?b) sdiv 2"
    using False by (simp add: median_spec_def Let_def tmv_simps)
  then show ?thesis
    using ab mean_between by (simp add: less_eq_tmv_t_def)
qed

subsection \<open>Properties\<close>

text \<open>
  C40: the moving median computes the median: after any history of samples fed to a freshly
  created filter of length \<open>n\<close>, the value returned for the next sample is the median of
  the last \<open>n\<close> samples (the middle one of the sorted window, or half the sum of the two
  middle ones), so the order array the code maintains by removal and insertion is always the
  sorted permutation of the circular buffer.
\<close>

theorem median_filter_correct:
  assumes "mmedianCreate alloc n = Some m"
  shows "snd (mmedianSample (feed mmedianSample m xs) x) = median_spec (last_n (nat n) (xs @ [x]))"
  using median.feed_result [of m xs x] mm_inv_create [OF assms] by (simp add: tmv_val_inject)

theorem median_filter_correct_witness:
  "snd (mmedianSample (feed mmedianSample
      \<lparr>mm_cnt = 0, mm_len = 3, mm_index = 0, mm_order = [0, 0, 0],
       mm_samples = [tmv_zero, tmv_zero, tmv_zero]\<rparr>
      [tmv_of 90, tmv_of 7, tmv_of 4000]) (tmv_of 8)) = tmv_of 8"
proof -
  have m: "mmedianCreate (\<lambda>_. True) 3 = Some \<lparr>mm_cnt = 0, mm_len = 3, mm_index = 0,
     mm_order = [0, 0, 0], mm_samples = [tmv_zero, tmv_zero, tmv_zero]\<rparr>"
    by code_simp
  have "median_spec (last_n (nat 3) ([tmv_of 90, tmv_of 7, tmv_of 4000] @ [tmv_of 8])) = tmv_of 8"
    by code_simp
  then show ?thesis
    using median_filter_correct [OF m, of "[tmv_of 90, tmv_of 7, tmv_of 4000]" "tmv_of 8"] by simp
qed

text \<open>
  the moving average computes the mean: after any history of samples fed to a created
  filter of positive length, or since a reset, the value returned is the sum of the last
  \<open>n\<close> samples divided by their number (truncated, as the C division does), as long as that
  sum fits 64 bits. The running sum of the code needs no such bound: it is exact modulo
  2^64 over the whole history.
\<close>

lemma mean_filter_correct:
  assumes "maveCreate alloc n = Some m" "0 < n"
    and "i64_range (\<Sum>v\<leftarrow>last_n (nat n) (xs @ [x]). tmv_val v)"
  shows "tmv_val (snd (maveAccumulate (feed maveAccumulate m xs) x)) = mean_spec (last_n (nat n) (xs @ [x]))"
  using mean.feed_result [of m xs x] mv_inv_create [OF assms(2,1)] assms(3) by simp

lemma mean_filter_correct_witness:
  "tmv_val (snd (maveAccumulate (feed maveAccumulate
      \<lparr>mv_cnt = 0, mv_len = 2, mv_index = 0, mv_sum = tmv_zero, mv_val = [tmv_zero, tmv_zero]\<rparr>
      [tmv_of 100, tmv_of 7]) (tmv_of (-10)))) = -1"
proof -
  have m: "maveCreate (\<lambda>_. True) 2 = Some \<lparr>mv_cnt = 0, mv_len = 2, mv_index = 0,
     mv_sum = tmv_zero, mv_val = [tmv_zero, tmv_zero]\<rparr>"
    by code_simp
  have r: "i64_range (\<Sum>v\<leftarrow>last_n (nat 2) ([tmv_of 100, tmv_of 7] @ [tmv_of (-10)]). tmv_val v)"
    by code_simp
  have "mean_spec (last_n (nat 2) ([tmv_of 100, tmv_of 7] @ [tmv_of (-10)])) = -1"
    by code_simp
  then show ?thesis
    using mean_filter_correct [OF m _ r] by simp
qed

text \<open>
  the median filter suppresses outliers: when more than half of the last \<open>n\<close> samples
  lie between \<open>lo\<close> and \<open>hi\<close>, so does the filtered value, whatever the other samples
  are.
\<close>

lemma median_filter_robust:
  assumes "mmedianCreate alloc n = Some m" and w: "w = last_n (nat n) (xs @ [x])"
    and "length w < 2 * length (filter (\<lambda>v. lo \<le> v \<and> v \<le> hi) w)"
    and "- (2 ^ 62) \<le> tmv_val lo" "tmv_val hi < 2 ^ 62"
  shows "lo \<le> snd (mmedianSample (feed mmedianSample m xs) x)
       \<and> snd (mmedianSample (feed mmedianSample m xs) x) \<le> hi"
proof -
  have "snd (mmedianSample (feed mmedianSample m xs) x) = median_spec w"
    using median.feed_result [of m xs x] mm_inv_create [OF assms(1)] w by (simp add: tmv_val_inject)
  then show ?thesis
    using median_spec_majority [OF assms(3-5)] by simp
qed

lemma median_filter_robust_witness:
  "tmv_of 5 \<le> snd (mmedianSample (feed mmedianSample
      \<lparr>mm_cnt = 0, mm_len = 3, mm_index = 0, mm_order = [0, 0, 0],
       mm_samples = [tmv_zero, tmv_zero, tmv_zero]\<rparr>
      [tmv_of 6, tmv_of 9]) (tmv_of 1000000))"
proof -
  have m: "mmedianCreate (\<lambda>_. True) 3 = Some \<lparr>mm_cnt = 0, mm_len = 3, mm_index = 0,
     mm_order = [0, 0, 0], mm_samples = [tmv_zero, tmv_zero, tmv_zero]\<rparr>"
    by code_simp
  have "length (last_n (nat 3) ([tmv_of 6, tmv_of 9] @ [tmv_of 1000000]))
    < 2 * length (filter (\<lambda>v. tmv_of 5 \<le> v \<and> v \<le> tmv_of 10)
        (last_n (nat 3) ([tmv_of 6, tmv_of 9] @ [tmv_of 1000000])))"
    "- (2 ^ 62) \<le> tmv_val (tmv_of 5)" "tmv_val (tmv_of 10) < 2 ^ 62"
    by code_simp+
  from median_filter_robust [OF m refl this] show ?thesis by simp
qed

end
