(* ===== verification/Tsproc.thy ===== *)
theory Tsproc
  imports DelayFilter
begin

text \<open>
  The time stamp processor of src/ptpTimestampProc.c (with the accessor macros of
  include/ptpCompact.h): it keeps the four time stamps of the last exchange with the master,
  computes the path delay through a delay filter, and the offset of the local clock with its
  weight.

  The code scales one difference by a \<open>double\<close> rate ratio and returns a \<open>double\<close>
  weight. Floating point arithmetic is a parameter here, the record \<open>double_ops\<close> of the
  operations the code uses; no theorem assumes more of it than it states.
\<close>

record 'd double_ops =
  d_one :: 'd
  d_mul :: "'d \<Rightarrow> 'd \<Rightarrow> 'd"
  d_div :: "'d \<Rightarrow> 'd \<Rightarrow> 'd"
  d_of_i64 :: "i64 \<Rightarrow> 'd"
  d_to_i64 :: "'d \<Rightarrow> i64"
  d_gt :: "'d \<Rightarrow> 'd \<Rightarrow> bool"
  d_neq :: "'d \<Rightarrow> 'd \<Rightarrow> bool"

definition tmv_dbl :: "('d, 'x) double_ops_scheme \<Rightarrow> tmv_t \<Rightarrow> 'd" where
  "tmv_dbl fp x = d_of_i64 fp (ns x)"

definition dbl_tmv :: "('d, 'x) double_ops_scheme \<Rightarrow> 'd \<Rightarrow> tmv_t" where
  "dbl_tmv fp x = Tmv (d_to_i64 fp x)"

datatype tsproc_mode = TSPROC_FILTER | TSPROC_RAW | TSPROC_FILTER_WEIGHT | TSPROC_RAW_WEIGHT

record 'd TimestampProcess =
  mode :: tsproc_mode
  clock_rate_ratio :: 'd
  t1 :: tmv_t
  t2 :: tmv_t
  t3 :: tmv_t
  t4 :: tmv_t
  filtered_delay :: tmv_t
  filtered_delay_valid :: bool
  delay_filter :: PtpFilter

fun isWeighting :: "tsproc_mode \<Rightarrow> bool" where
  "isWeighting TSPROC_FILTER = False"
| "isWeighting TSPROC_RAW = False"
| "isWeighting TSPROC_FILTER_WEIGHT = True"
| "isWeighting TSPROC_RAW_WEIGHT = True"

text \<open>The mode arrives as the integer of the configuration; other values are refused.\<close>

definition tsproc_mode_of :: "int \<Rightarrow> tsproc_mode option" where
  "tsproc_mode_of i =
     (if i = 0 then Some TSPROC_FILTER else if i = 1 then Some TSPROC_RAW
      else if i = 2 then Some TSPROC_FILTER_WEIGHT else if i = 3 then Some TSPROC_RAW_WEIGHT
      else None)"

definition tsproc_create ::
  "('d, 'x) double_ops_scheme \<Rightarrow> (nat \<Rightarrow> bool) \<Rightarrow> int \<Rightarrow> filter_type \<Rightarrow> int \<Rightarrow> 'd TimestampProcess option" where
  "tsproc_create fp alloc m delay_filter' filter_length =
     (if \<not> alloc 72 then None
      else case tsproc_mode_of m of
        None \<Rightarrow> None
      | Some mode' \<Rightarrow>
         (case filter_create alloc delay_filter' filter_length of
            None \<Rightarrow> None
          | Some f \<Rightarrow>
              Some \<lparr>mode = mode', clock_rate_ratio = d_one fp, t1 = tmv_zero, t2 = tmv_zero,
                    t3 = tmv_zero, t4 = tmv_zero, filtered_delay = tmv_zero,
                    filtered_delay_valid = False, delay_filter = f\<rparr>))"

definition tsproc_down_ts :: "'d TimestampProcess \<Rightarrow> tmv_t \<Rightarrow> tmv_t \<Rightarrow> 'd TimestampProcess" where
  "tsproc_down_ts tsp remote_ts local_ts = tsp\<lparr>t1 := remote_ts, t2 := local_ts\<rparr>"

definition tsproc_up_ts :: "'d TimestampProcess \<Rightarrow> tmv_t \<Rightarrow> tmv_t \<Rightarrow> 'd TimestampProcess" where
  "tsproc_up_ts tsp local_ts remote_ts = tsp\<lparr>t3 := local_ts, t4 := remote_ts\<rparr>"

definition tsproc_set_clock_rate_ratio :: "'d TimestampProcess \<Rightarrow> 'd \<Rightarrow> 'd TimestampProcess" where
  "tsproc_set_clock_rate_ratio tsp r = tsp\<lparr>clock_rate_ratio := r\<rparr>"

definition tsproc_set_delay :: "'d TimestampProcess \<Rightarrow> tmv_t \<Rightarrow> 'd TimestampProcess" where
  "tsproc_set_delay tsp delay = tsp\<lparr>filtered_delay := delay, filtered_delay_valid := True\<rparr>"

definition getRawDelay :: "('d, 'x) double_ops_scheme \<Rightarrow> 'd TimestampProcess \<Rightarrow> tmv_t" where
  "getRawDelay fp tsp =
     (let t23 = tmv_sub (t2 tsp) (t3 tsp);
          t23 = (if d_neq fp (clock_rate_ratio tsp) (d_one fp)
                 then dbl_tmv fp (d_mul fp (tmv_dbl fp t23) (clock_rate_ratio tsp)) else t23);
          t41 = tmv_sub (t4 tsp) (t1 tsp)
      in tmv_div (tmv_add t23 t41) 2)"

text \<open>
  \<open>None\<close> is the return value -1. On success the result is the new state and the value
  stored through the \<open>delay\<close> pointer, when the caller passed one (\<open>want\<close>).
\<close>

definition tsproc_update_delay ::
  "('d, 'x) double_ops_scheme \<Rightarrow> 'd TimestampProcess \<Rightarrow> bool
     \<Rightarrow> ('d TimestampProcess \<times> tmv_t option) option" where
  "tsproc_update_delay fp tsp want =
     (if tmv_is_zero (t2 tsp) \<or> tmv_is_zero (t3 tsp) then None
      else
        let raw_delay = getRawDelay fp tsp;
            (f, filtered) = filter_sample (delay_filter tsp) raw_delay;
            tsp' = tsp\<lparr>delay_filter := f, filtered_delay := filtered, filtered_delay_valid := True\<rparr>
        in Some (tsp',
             if \<not> want then None
             else case mode tsp of
                 TSPROC_FILTER \<Rightarrow> Some filtered
               | TSPROC_FILTER_WEIGHT \<Rightarrow> Some filtered
               | TSPROC_RAW \<Rightarrow> Some raw_delay
               | TSPROC_RAW_WEIGHT \<Rightarrow> Some raw_delay))"

text \<open>The delay the offset is computed with, and the raw delay its weight is computed with.\<close>

definition offset_delays ::
  "('d, 'x) double_ops_scheme \<Rightarrow> 'd TimestampProcess \<Rightarrow> (tmv_t \<times> tmv_t) option" where
  "offset_delays fp tsp =
     (case mode tsp of
        TSPROC_FILTER \<Rightarrow>
          (if \<not> filtered_delay_valid tsp then None else Some (filtered_delay tsp, tmv_zero))
      | TSPROC_FILTER_WEIGHT \<Rightarrow>
          (if tmv_is_zero (t3 tsp) \<or> \<not> filtered_delay_valid tsp then None
           else Some (filtered_delay tsp, getRawDelay fp tsp))
      | _ \<Rightarrow>
          (if tmv_is_zero (t3 tsp) then None
           else let raw_delay = getRawDelay fp tsp in Some (raw_delay, raw_delay)))"

definition tsproc_update_offset ::
  "('d, 'x) double_ops_scheme \<Rightarrow> 'd TimestampProcess \<Rightarrow> bool \<Rightarrow> (tmv_t \<times> 'd option) option" where
  "tsproc_update_offset fp tsp want_weight =
     (if tmv_is_zero (t1 tsp) \<or> tmv_is_zero (t2 tsp) then None
      else case offset_delays fp tsp of
        None \<Rightarrow> None
      | Some (delay, raw_delay) \<Rightarrow>
          Some (tmv_sub (tmv_sub (t2 tsp) (t1 tsp)) delay,
            if \<not> want_weight then None
            else if isWeighting (mode tsp) \<and> tmv_sign (filtered_delay tsp) > 0 \<and> tmv_sign raw_delay > 0
            then let w = d_div fp (tmv_dbl fp (filtered_delay tsp)) (tmv_dbl fp raw_delay)
                 in Some (if d_gt fp w (d_one fp) then d_one fp else w)
            else Some (d_one fp)))"

definition tsproc_reset ::
  "('d, 'x) double_ops_scheme \<Rightarrow> 'd TimestampProcess \<Rightarrow> bool \<Rightarrow> 'd TimestampProcess" where
  "tsproc_reset fp tsp full =
     (let tsp = tsp\<lparr>t1 := tmv_zero, t2 := tmv_zero, t3 := tmv_zero, t4 := tmv_zero\<rparr>
      in if full
         then tsp\<lparr>clock_rate_ratio := d_one fp, delay_filter := filter_reset (delay_filter tsp),
                  filtered_delay_valid := False\<rparr>
         else tsp)"

subsection \<open>Filters on a constant delay\<close>

fun filter_inv :: "PtpFilter \<Rightarrow> bool" where
  "filter_inv (MedianFilter m) = mm_inv m"
| "filter_inv (AverageFilter m) = mv_inv m"

fun filter_window :: "PtpFilter \<Rightarrow> tmv_t list" where
  "filter_window (MedianFilter m) = mm_window m"
| "filter_window (AverageFilter m) = mv_window m"

fun filter_len :: "PtpFilter \<Rightarrow> nat" where
  "filter_len (MedianFilter m) = mm_len m"
| "filter_len (AverageFilter m) = mv_len m"

text \<open>A filter whose window holds nothing but \<open>d\<close>.\<close>

definition filter_settled :: "tmv_t \<Rightarrow> PtpFilter \<Rightarrow> bool" where
  "filter_settled d f \<longleftrightarrow> filter_inv f \<and> set (filter_window f) \<subseteq> {d}
     \<and> i64_range (2 * tmv_val d) \<and> i64_range (int (filter_len f) * tmv_val d)"

lemma filter_create_settled:
  assumes "filter_create alloc type n = Some f" "0 < n"
    "i64_range (2 * tmv_val d)" "i64_range (n * tmv_val d)"
  shows "filter_settled d f"
  using assms mm_inv_create mv_inv_create
  by (fastforce simp: filter_create_def filter_settled_def split: filter_type.splits option.splits)

lemma const_list: "set xs \<subseteq> {d} \<Longrightarrow> xs = replicate (length xs) d"
  by (induction xs) auto

lemma median_spec_const:
  assumes "set ws \<subseteq> {d}" "ws \<noteq> []" "i64_range (2 * tmv_val d)"
  shows "median_spec ws = d"
proof -
  have n: "sort ws = replicate (length ws) d"
    using assms(1) by (metis const_list length_sort set_sort)
  have "0 < length ws" using assms(2) by simp
  then have "length ws div 2 < length ws" "length ws div 2 - 1 < length ws"
    by linarith+
  moreover have "(2 * tmv_val d) sdiv 2 = tmv_val d"
    by (simp add: signed_divide_int_def sgn_mult abs_mult mult_sgn_abs)
  then have "tmv_div (tmv_add d d) 2 = d"
    using assms(3) by (simp add: tmv_simps flip: tmv_val_inject mult_2)
  ultimately show ?thesis
    by (simp add: median_spec_def Let_def n)
qed

lemma mean_spec_const:
  assumes "set ws \<subseteq> {d}" "ws \<noteq> []"
  shows "(\<Sum>w\<leftarrow>ws. tmv_val w) = int (length ws) * tmv_val d" "mean_spec ws = tmv_val d"
proof -
  show s: "(\<Sum>w\<leftarrow>ws. tmv_val w) = int (length ws) * tmv_val d"
    by (subst const_list [OF assms(1)]) (simp add: sum_list_replicate)
  show "mean_spec ws = tmv_val d"
    using assms(2) by (simp add: mean_spec_def s signed_divide_int_def sgn_mult abs_mult)
      (simp add: sgn_if)
qed

lemma i64_range_scale: "0 \<le> k \<Longrightarrow> k \<le> n \<Longrightarrow> i64_range (n * x) \<Longrightarrow> i64_range (k * x)" for k n x :: int
proof (cases "0 \<le> x")
  case True
  moreover assume "0 \<le> k" "k \<le> n" "i64_range (n * x)"
  ultimately show ?thesis
    using mult_right_mono [of k n x] mult_nonneg_nonneg [of k x] unfolding i64_range_def by linarith
next
  case False
  moreover assume "0 \<le> k" "k \<le> n" "i64_range (n * x)"
  ultimately show ?thesis
    using mult_right_mono_neg [of k n x] mult_nonneg_nonpos [of k x] unfolding i64_range_def by linarith
qed

lemma set_last_n: "set (last_n n xs) \<subseteq> set xs"
  by (simp add: last_n_def set_drop_subset)

lemma last_n_nonempty: "0 < n \<Longrightarrow> last_n n (xs @ [x]) \<noteq> []"
  by (simp add: last_n_def)

lemma filter_sample_settled:
  assumes "filter_settled d f"
  shows "filter_settled d (fst (filter_sample f d)) \<and> snd (filter_sample f d) = d"
proof (cases f)
  case (MedianFilter m)
  let ?m = "fst (mmedianSample m d)"
  have inv: "mm_inv m" "set (mm_window m) \<subseteq> {d}" "i64_range (2 * tmv_val d)"
    using assms by (simp_all add: filter_settled_def MedianFilter)
  then have "0 < mm_len m"
    by (simp add: mm_inv_def ring_inv_def)
  with inv have w: "set (mm_window ?m) \<subseteq> {d}" "mm_window ?m \<noteq> []"
    using set_last_n [of "mm_len m" "mm_window m @ [d]"]
    by (auto simp: median.window_sample last_n_nonempty)
  then have "snd (mmedianSample m d) = d"
    by (simp add: mm_sample_median [OF inv(1)] median_spec_const [OF w inv(3)])
  then show ?thesis
    using assms w inv by (simp add: filter_settled_def MedianFilter median.inv_sample median.len_sample)
next
  case (AverageFilter m)
  let ?m = "fst (maveAccumulate m d)"
  have inv: "mv_inv m" "set (mv_window m) \<subseteq> {d}" "i64_range (int (mv_len m) * tmv_val d)"
    using assms by (simp_all add: filter_settled_def AverageFilter)
  then have "0 < mv_len m"
    by (simp add: mv_inv_def ring_inv_def)
  with inv have w: "set (mv_window ?m) \<subseteq> {d}" "mv_window ?m \<noteq> []"
    using set_last_n [of "mv_len m" "mv_window m @ [d]"]
    by (auto simp: mean.window_sample last_n_nonempty)
  have "length (mv_window ?m) \<le> mv_len m"
    using mean.len_window [OF mean.inv_sample [OF inv(1)], of d] by (simp add: mean.len_sample)
  then have "i64_range (int (length (mv_window ?m)) * tmv_val d)"
    using i64_range_scale [OF _ _ inv(3)] by simp
  then have "tmv_val (snd (maveAccumulate m d)) = tmv_val d"
    using mean.result_sample [OF inv(1), of d] mean_spec_const [OF w] by simp
  then show ?thesis
    using assms w inv
    by (simp add: filter_settled_def AverageFilter mean.inv_sample mean.len_sample tmv_val_inject)
qed

subsection \<open>Two way exchanges\<close>

text \<open>
  One exchange with a master whose clock is \<open>theta\<close> behind the local one, over a path of
  delay \<open>d\<close> in both directions: a Sync sent at the master's time \<open>s\<close> arrives at the local
  time \<open>s + d + theta\<close>, a request sent at the local time \<open>q\<close> arrives at the master's time
  \<open>q - theta + d\<close>.
\<close>

definition exchange :: "'d TimestampProcess \<Rightarrow> int \<Rightarrow> int \<Rightarrow> int \<Rightarrow> int \<Rightarrow> 'd TimestampProcess" where
  "exchange tsp d theta s q =
     tsproc_up_ts (tsproc_down_ts tsp (tmv_of s) (tmv_of (s + d + theta)))
       (tmv_of q) (tmv_of (q - theta + d))"

text \<open>Values with room for the sums of the computation, and time stamps that are present.\<close>

definition exchange_ok :: "int \<Rightarrow> int \<Rightarrow> int \<Rightarrow> int \<Rightarrow> bool" where
  "exchange_ok d theta s q \<longleftrightarrow>
     (\<forall>x \<in> {d, theta, s, q}. \<bar>x\<bar> < 2 ^ 59) \<and> s \<noteq> 0 \<and> q \<noteq> 0 \<and> s + d + theta \<noteq> 0"

lemma exchange_ok_range:
  assumes "exchange_ok d theta s q"
  shows "i64_range s" "i64_range q" "i64_range (s + d + theta)" "i64_range (q - theta + d)"
    "i64_range (s + d + theta - q)" "i64_range (q - theta + d - s)" "i64_range (2 * d)"
    "i64_range (d + theta)" "i64_range theta" "i64_range d"
proof -
  have "- (2 ^ 59) < x \<and> x < 2 ^ 59" if "x \<in> {d, theta, s, q}" for x
    using assms that unfolding exchange_ok_def abs_less_iff by (metis minus_less_iff)
  then have b: "- (2 ^ 59) < d" "d < 2 ^ 59" "- (2 ^ 59) < theta" "theta < 2 ^ 59"
    "- (2 ^ 59) < s" "s < 2 ^ 59" "- (2 ^ 59) < q" "q < 2 ^ 59"
    by blast+
  show "i64_range s" "i64_range q" "i64_range (s + d + theta)" "i64_range (q - theta + d)"
    "i64_range (s + d + theta - q)" "i64_range (q - theta + d - s)" "i64_range (2 * d)"
    "i64_range (d + theta)" "i64_range theta" "i64_range d"
    using b by (simp_all add: i64_range_def)
qed

lemma exchange_raw_delay:
  assumes "exchange_ok d theta s q" "\<not> d_neq fp (clock_rate_ratio tsp) (d_one fp)"
  shows "getRawDelay fp (exchange tsp d theta s q) = tmv_of d"
proof -
  note r = exchange_ok_range [OF assms(1)]
  have "tmv_val (getRawDelay fp (exchange tsp d theta s q)) = (2 * d) sdiv 2"
    using assms(2) r
    by (simp add: getRawDelay_def exchange_def tsproc_up_ts_def tsproc_down_ts_def Let_def tmv_simps
        algebra_simps)
  also have "\<dots> = d"
    by (simp add: signed_divide_int_def sgn_mult abs_mult mult_sgn_abs)
  finally show ?thesis
    using r by (simp add: tmv_val_of flip: tmv_val_inject)
qed

lemma exchange_present:
  assumes "exchange_ok d theta s q"
  shows "\<not> tmv_is_zero (t1 (exchange tsp d theta s q))" "\<not> tmv_is_zero (t2 (exchange tsp d theta s q))"
    "\<not> tmv_is_zero (t3 (exchange tsp d theta s q))"
  using assms exchange_ok_range [OF assms]
  by (auto simp: exchange_def tsproc_up_ts_def tsproc_down_ts_def tmv_simps exchange_ok_def)

lemma exchange_fields [simp]:
  "mode (exchange tsp d theta s q) = mode tsp"
  "clock_rate_ratio (exchange tsp d theta s q) = clock_rate_ratio tsp"
  "delay_filter (exchange tsp d theta s q) = delay_filter tsp"
  "filtered_delay (exchange tsp d theta s q) = filtered_delay tsp"
  "filtered_delay_valid (exchange tsp d theta s q) = filtered_delay_valid tsp"
  by (simp_all add: exchange_def tsproc_up_ts_def tsproc_down_ts_def)

lemma exchange_offset:
  assumes "exchange_ok d theta s q"
  shows "tmv_sub (tmv_sub (t2 (exchange tsp d theta s q)) (t1 (exchange tsp d theta s q))) (tmv_of d) = tmv_of theta"
  using exchange_ok_range [OF assms]
  by (simp add: exchange_def tsproc_up_ts_def tsproc_down_ts_def tmv_simps algebra_simps flip: tmv_val_inject)

lemma settled_update:
  assumes "filter_settled (tmv_of d) (delay_filter tsp)" "\<not> d_neq fp (clock_rate_ratio tsp) (d_one fp)"
    "exchange_ok d theta s q"
  obtains f where "filter_settled (tmv_of d) f" "tsproc_update_delay fp (exchange tsp d theta s q) True
      = Some ((exchange tsp d theta s q)\<lparr>delay_filter := f, filtered_delay := tmv_of d,
          filtered_delay_valid := True\<rparr>, Some (tmv_of d))"
proof -
  obtain f where f: "filter_sample (delay_filter tsp) (tmv_of d) = (f, tmv_of d)" "filter_settled (tmv_of d) f"
    using filter_sample_settled [OF assms(1)] by (metis prod.collapse)
  show thesis
    by (rule that [OF f(2)])
      (use exchange_present [OF assms(3), of tsp] exchange_raw_delay [OF assms(3,2)] f(1)
       in \<open>cases "mode tsp"; simp add: tsproc_update_delay_def Let_def\<close>)
qed

text \<open>
  A run of the processor as the port drives it: for each exchange the delay is updated and
  then the offset; the offsets are collected.
\<close>

fun track :: "('d, 'x) double_ops_scheme \<Rightarrow> 'd TimestampProcess \<Rightarrow> int \<Rightarrow> (int \<times> int \<times> int) list
    \<Rightarrow> tmv_t option list" where
  "track fp tsp d [] = []"
| "track fp tsp d ((theta, s, q) # es) =
     (let tsp = exchange tsp d theta s q
      in case tsproc_update_delay fp tsp True of
           None \<Rightarrow> None # track fp tsp d es
         | Some (tsp', _) \<Rightarrow> map_option fst (tsproc_update_offset fp tsp' True) # track fp tsp' d es)"

lemma track_exact:
  assumes "filter_settled (tmv_of d) (delay_filter tsp)"
    and "\<not> d_neq fp (clock_rate_ratio tsp) (d_one fp)"
    and "\<forall>(theta, s, q) \<in> set es. exchange_ok d theta s q"
  shows "track fp tsp d es = map (\<lambda>e. Some (tmv_of (fst e))) es"
  using assms
proof (induction es arbitrary: tsp)
  case Nil
  then show ?case by simp
next
  case (Cons e es)
  obtain theta s q where e: "e = (theta, s, q)" by (cases e)
  with Cons.prems have ok: "exchange_ok d theta s q" by simp
  let ?x = "exchange tsp d theta s q"
  obtain f where f: "filter_settled (tmv_of d) f"
    "tsproc_update_delay fp ?x True
      = Some (?x\<lparr>delay_filter := f, filtered_delay := tmv_of d, filtered_delay_valid := True\<rparr>, Some (tmv_of d))"
    by (rule settled_update [OF Cons.prems(1,2) ok])
  let ?x' = "?x\<lparr>delay_filter := f, filtered_delay := tmv_of d, filtered_delay_valid := True\<rparr>"
  have "getRawDelay fp ?x' = getRawDelay fp ?x"
    by (simp add: getRawDelay_def Let_def)
  then have "map_option fst (tsproc_update_offset fp ?x' True) = Some (tmv_of theta)"
    using exchange_present [OF ok, of tsp] exchange_raw_delay [OF ok Cons.prems(2)]
      exchange_offset [OF ok, of tsp]
    by (cases "mode tsp") (simp_all add: tsproc_update_offset_def offset_delays_def Let_def)
  moreover have "track fp ?x' d es = map (\<lambda>e. Some (tmv_of (fst e))) es"
    using Cons.prems f(1) by (intro Cons.IH) simp_all
  ultimately show ?case
    by (simp add: e f(2) Let_def)
qed

subsection \<open>Properties\<close>

text \<open>
  C38: the processor recovers the true clock offset: created with any mode and any filter,
  and driven by exchanges with a master over a path of one symmetric delay \<open>d\<close>, it reports
  for every exchange exactly the offset \<open>theta\<close> of that exchange, whatever the offsets do
  from one exchange to the next. (The rate ratio is the 1.0 of creation, the values leave room
  for the intermediate sums, and the time stamps are nonzero, the code's test for presence.)
\<close>

theorem tsproc_exact:
  assumes "tsproc_create fp alloc m type n = Some tsp" "0 < n" "\<bar>n * d\<bar> < 2 ^ 63" "\<bar>d\<bar> < 2 ^ 59"
    and "\<not> d_neq fp (d_one fp) (d_one fp)"
    and "\<forall>(theta, s, q) \<in> set es. exchange_ok d theta s q"
  shows "track fp tsp d es = map (\<lambda>e. Some (tmv_of (fst e))) es"
proof -
  have "clock_rate_ratio tsp = d_one fp" "filter_create alloc type n = Some (delay_filter tsp)"
    using assms(1) by (auto simp: tsproc_create_def split: if_splits option.splits)
  moreover have "i64_range d" "i64_range (2 * d)" "i64_range (n * d)"
    using assms(3,4) by (auto simp: i64_range_def)
  ultimately show ?thesis
    using filter_create_settled [of alloc type n "delay_filter tsp" "tmv_of d"] assms(2,5,6)
    by (intro track_exact) (simp_all add: tmv_val_of)
qed

text \<open>Witness arithmetic: the integers stand in for the floating point operations.\<close>

definition int_ops :: "int double_ops" where
  "int_ops = \<lparr>d_one = 1, d_mul = (*), d_div = (div), d_of_i64 = sint, d_to_i64 = word_of_int,
     d_gt = (>), d_neq = (\<noteq>)\<rparr>"

theorem tsproc_exact_witness:
  "track int_ops \<lparr>mode = TSPROC_FILTER, clock_rate_ratio = 1, t1 = tmv_zero, t2 = tmv_zero,
      t3 = tmv_zero, t4 = tmv_zero, filtered_delay = tmv_zero, filtered_delay_valid = False,
      delay_filter = MedianFilter \<lparr>mm_cnt = 0, mm_len = 2, mm_index = 0, mm_order = [0, 0],
        mm_samples = [tmv_zero, tmv_zero]\<rparr>\<rparr> 500 [(-30, 1000, 9000), (70, 20000, 30000)]
   = [Some (tmv_of (-30)), Some (tmv_of 70)]"
proof -
  have c: "tsproc_create int_ops (\<lambda>_. True) 0 FILTER_MOVING_MEDIAN 2 =
    Some \<lparr>mode = TSPROC_FILTER, clock_rate_ratio = 1, t1 = tmv_zero, t2 = tmv_zero,
      t3 = tmv_zero, t4 = tmv_zero, filtered_delay = tmv_zero, filtered_delay_valid = False,
      delay_filter = MedianFilter \<lparr>mm_cnt = 0, mm_len = 2, mm_index = 0, mm_order = [0, 0],
        mm_samples = [tmv_zero, tmv_zero]\<rparr>\<rparr>"
    by code_simp
  have "\<forall>(theta, s, q) \<in> set [(-30, 1000, 9000), (70, 20000, 30000)]. exchange_ok 500 theta s q"
    by (simp add: exchange_ok_def)
  then show ?thesis
    using tsproc_exact [OF c, of 500 "[(-30, 1000, 9000), (70, 20000, 30000)]"]
    by (simp add: int_ops_def)
qed

text \<open>
  The error conditions of the offset: the call fails (returns -1) exactly when the Sync
  time stamps are missing, or the mode needs an upward time stamp or a filtered delay that is
  not there.
\<close>

lemma update_offset_fails_iff:
  "tsproc_update_offset fp tsp w = None \<longleftrightarrow>
     tmv_is_zero (t1 tsp) \<or> tmv_is_zero (t2 tsp)
     \<or> (mode tsp \<in> {TSPROC_FILTER, TSPROC_FILTER_WEIGHT} \<and> \<not> filtered_delay_valid tsp)
     \<or> (mode tsp \<noteq> TSPROC_FILTER \<and> tmv_is_zero (t3 tsp))"
  by (cases "mode tsp") (auto simp: tsproc_update_offset_def offset_delays_def Let_def)

text \<open>
  A sample's weight never exceeds one, and it is exactly one in the modes without
  weighting (the servo divides by it and scales its step by it).
\<close>

lemma weight_at_most_one:
  assumes "\<not> d_gt fp (d_one fp) (d_one fp)" "tsproc_update_offset fp tsp True = Some (off, w)"
  shows "\<exists>v. w = Some v \<and> \<not> d_gt fp v (d_one fp)
           \<and> (mode tsp \<in> {TSPROC_FILTER, TSPROC_RAW} \<longrightarrow> v = d_one fp)"
  using assms by (cases "mode tsp") (auto simp: tsproc_update_offset_def Let_def split: if_splits option.splits)

lemma weight_at_most_one_witness:
  "\<exists>v. tsproc_update_offset int_ops \<lparr>mode = TSPROC_RAW_WEIGHT, clock_rate_ratio = 1, t1 = tmv_of 1000,
      t2 = tmv_of 1400, t3 = tmv_of 2000, t4 = tmv_of 2600, filtered_delay = tmv_of 900,
      filtered_delay_valid = True, delay_filter = AverageFilter \<lparr>mv_cnt = 0, mv_len = 1, mv_index = 0,
        mv_sum = tmv_zero, mv_val = [tmv_zero]\<rparr>\<rparr> True = Some (tmv_of (-100), Some v)
     \<and> \<not> d_gt int_ops v (d_one int_ops)"
proof -
  let ?tsp = "\<lparr>mode = TSPROC_RAW_WEIGHT, clock_rate_ratio = 1, t1 = tmv_of 1000,
      t2 = tmv_of 1400, t3 = tmv_of 2000, t4 = tmv_of 2600, filtered_delay = tmv_of 900,
      filtered_delay_valid = True, delay_filter = AverageFilter \<lparr>mv_cnt = 0, mv_len = 1, mv_index = 0,
        mv_sum = tmv_zero, mv_val = [tmv_zero]\<rparr>\<rparr>"
  have u: "tsproc_update_offset int_ops ?tsp True = Some (tmv_of (-100), Some 1)"
    by code_simp
  have "\<not> d_gt int_ops (d_one int_ops) (d_one int_ops)"
    by code_simp
  from weight_at_most_one [OF this u] u show ?thesis by auto
qed

end
