(* ===== verification/PtpTypes.thy ===== *)
theory PtpTypes
  imports Prelude "HOL-Library.Product_Lexorder" "HOL-Library.List_Lexorder"
begin

text \<open>
  The protocol data types of include/ptpProtocol.h that the algorithms share: clock and port
  identities with the byte comparison \<open>memcmp\<close> the code applies to them, clock quality, and
  the data set compared by the best master clock algorithm. Multi byte fields are in host
  byte order; the host is little endian, so \<open>memcmp\<close> sees the low byte of a port number
  first.
\<close>

subsection \<open>Byte comparison\<close>

text \<open>
  \<open>memcmp\<close> of two objects of equal size; the program only uses the sign of its result. The
  clauses for unequal lengths are not reached.
\<close>

fun memcmp :: "u8 list \<Rightarrow> u8 list \<Rightarrow> int" where
  "memcmp [] [] = 0"
| "memcmp [] (y # ys) = -1"
| "memcmp (x # xs) [] = 1"
| "memcmp (x # xs) (y # ys) = (if x < y then -1 else if y < x then 1 else memcmp xs ys)"

lemma memcmp_range: "memcmp xs ys = -1 \<or> memcmp xs ys = 0 \<or> memcmp xs ys = 1"
  by (induction xs ys rule: memcmp.induct) auto

lemma memcmp_eq_0_iff [simp]: "memcmp xs ys = 0 \<longleftrightarrow> xs = ys"
  by (induction xs ys rule: memcmp.induct) auto

lemma memcmp_antisym: "memcmp ys xs = - memcmp xs ys"
  by (induction xs ys rule: memcmp.induct) auto

lemma memcmp_trans: "memcmp xs ys \<le> 0 \<Longrightarrow> memcmp ys zs \<le> 0 \<Longrightarrow> memcmp xs zs \<le> 0"
proof (induction xs ys arbitrary: zs rule: memcmp.induct)
  case (4 x xs y ys)
  then show ?case
    by (cases zs) (auto split: if_splits)
qed (auto split: if_splits, (case_tac zs; auto)+)

lemma memcmp_less_iff: "memcmp xs ys < 0 \<longleftrightarrow> xs < ys"
  by (induction xs ys rule: memcmp.induct) auto

lemma memcmp_greater_iff: "0 < memcmp xs ys \<longleftrightarrow> ys < xs"
  using memcmp_less_iff [of ys xs] memcmp_antisym [of xs ys] by auto

interpretation memcmp: comparator memcmp
  by unfold_locales (rule memcmp_antisym, rule memcmp_trans)

subsection \<open>Identities and qualities\<close>

datatype ClockIdentity = ClockIdentity u8 u8 u8 u8 u8 u8 u8 u8

fun octets :: "ClockIdentity \<Rightarrow> u8 list" where
  "octets (ClockIdentity a b c d e f g h) = [a, b, c, d, e, f, g, h]"

lemma octets_inject [simp]: "octets x = octets y \<longleftrightarrow> x = y"
  by (cases x; cases y) simp

definition cid_eq :: "ClockIdentity \<Rightarrow> ClockIdentity \<Rightarrow> bool" where
  "cid_eq a b \<longleftrightarrow> memcmp (octets a) (octets b) = 0"

lemma cid_eq_iff [simp]: "cid_eq a b \<longleftrightarrow> a = b"
  by (simp add: cid_eq_def)

record PortIdentity =
  clockIdentity :: ClockIdentity
  portNumber :: u16

text \<open>The bytes of the packed struct in the memory of a little endian host.\<close>

definition pid_bytes :: "PortIdentity \<Rightarrow> u8 list" where
  "pid_bytes p = octets (clockIdentity p) @ [ucast (portNumber p), ucast (drop_bit 8 (portNumber p))]"

lemma u16_bytes_inject: "ucast x = (ucast y :: u8) \<and> ucast (drop_bit 8 x) = (ucast (drop_bit 8 y) :: u8)
    \<longleftrightarrow> x = y" for x y :: u16
proof
  assume h: "ucast x = (ucast y :: u8) \<and> ucast (drop_bit 8 x) = (ucast (drop_bit 8 y) :: u8)"
  show "x = y"
  proof (rule bit_word_eqI)
    fix n assume "n < LENGTH(16)"
    show "bit x n = bit y n"
    proof (cases "n < 8")
      case True
      have "bit (ucast x :: u8) n = bit (ucast y :: u8) n" using h by simp
      with True show ?thesis by (simp add: bit_simps)
    next
      case False
      have "bit (ucast (drop_bit 8 x) :: u8) (n - 8) = bit (ucast (drop_bit 8 y) :: u8) (n - 8)"
        using h by simp
      moreover have "n - 8 < 8" using False \<open>n < LENGTH(16)\<close> by simp
      ultimately show ?thesis using False by (simp add: bit_simps)
    qed
  qed
qed simp

lemma pid_bytes_inject [simp]: "pid_bytes a = pid_bytes b \<longleftrightarrow> a = (b :: PortIdentity)"
  by (cases a; cases b; cases "clockIdentity a"; cases "clockIdentity b")
    (auto simp: pid_bytes_def u16_bytes_inject)

definition pid_eq :: "PortIdentity \<Rightarrow> PortIdentity \<Rightarrow> bool" where
  "pid_eq a b \<longleftrightarrow> memcmp (pid_bytes a) (pid_bytes b) = 0"

lemma pid_eq_iff [simp]: "pid_eq a b \<longleftrightarrow> a = b"
  by (simp add: pid_eq_def)

record ClockQuality =
  clockClass :: u8
  clockAccuracy :: u8
  offsetScaledLogVariance :: u16

text \<open>The order of identities that \<open>memcmp\<close> induces, for the library's automation.\<close>

instantiation ClockIdentity :: linorder
begin

definition less_eq_ClockIdentity :: "ClockIdentity \<Rightarrow> ClockIdentity \<Rightarrow> bool" where
  "less_eq_ClockIdentity a b \<longleftrightarrow> memcmp (octets a) (octets b) \<le> 0"

definition less_ClockIdentity :: "ClockIdentity \<Rightarrow> ClockIdentity \<Rightarrow> bool" where
  "less_ClockIdentity a b \<longleftrightarrow> memcmp (octets a) (octets b) < 0"

instance
proof
  fix a b c :: ClockIdentity
  show "a < b \<longleftrightarrow> a \<le> b \<and> \<not> b \<le> a"
    unfolding less_ClockIdentity_def less_eq_ClockIdentity_def
    using memcmp_antisym [of "octets a" "octets b"] by linarith
  show "a \<le> a" by (simp add: less_eq_ClockIdentity_def)
  show "a \<le> b \<Longrightarrow> b \<le> c \<Longrightarrow> a \<le> c"
    unfolding less_eq_ClockIdentity_def by (rule memcmp_trans)
  show "a \<le> b \<Longrightarrow> b \<le> a \<Longrightarrow> a = b"
    using memcmp_antisym [of "octets a" "octets b"] by (simp add: less_eq_ClockIdentity_def)
  show "a \<le> b \<or> b \<le> a"
    using memcmp.cmp_total [of "octets a" "octets b"] by (simp add: less_eq_ClockIdentity_def)
qed

end

subsection \<open>The data set of the best master clock algorithm\<close>

record dataset =
  priority1 :: u8
  identity :: ClockIdentity
  quality :: ClockQuality
  priority2 :: u8
  localPriority :: u8
  stepsRemoved :: u16
  sender :: PortIdentity
  receiver :: PortIdentity

subsection \<open>Port states and events\<close>

datatype PORT_STATE =
    PS_INITIALIZING | PS_FAULTY | PS_DISABLED | PS_LISTENING | PS_PRE_MASTER | PS_MASTER
  | PS_PASSIVE | PS_UNCALIBRATED | PS_SLAVE | PS_GRAND_MASTER

datatype PORT_EVENT =
    EV_NONE | EV_POWERUP | EV_INITIALIZE | EV_DESIGNATED_ENABLED | EV_DESIGNATED_DISABLED
  | EV_FAULT_CLEARED | EV_FAULT_DETECTED | EV_STATE_DECISION_EVENT
  | EV_QUALIFICATION_TIMEOUT_EXPIRES | EV_ANNOUNCE_RECEIPT_TIMEOUT_EXPIRES
  | EV_SYNCHRONIZATION_FAULT | EV_MASTER_CLOCK_SELECTED | EV_INIT_COMPLETE
  | EV_RS_MASTER | EV_RS_GRAND_MASTER | EV_RS_SLAVE | EV_RS_PASSIVE

end
