(* ===== verification/Bmc.thy ===== *)
theory Bmc
  imports PtpTypes
begin

text \<open>
  The best master clock algorithm, src/bmc.c: the comparison of two data sets of IEEE 1588
  (\<open>dscmp\<close>, with \<open>dscmp2\<close> for two paths to the same grandmaster), the alternative of the
  telecom profile (\<open>telecom_dscmp\<close>) and the state decision of a port. The comparisons are
  shown to be antisymmetric and to be the lexicographic order of an explicit key, the
  contract (locale \<open>dataset_compare\<close>) that the selection of the best master rests on.
\<close>

subsection \<open>The comparison functions\<close>

abbreviation A_BETTER_TOPO :: int where "A_BETTER_TOPO \<equiv> 2"
abbreviation A_BETTER :: int where "A_BETTER \<equiv> 1"
abbreviation B_BETTER :: int where "B_BETTER \<equiv> -1"
abbreviation B_BETTER_TOPO :: int where "B_BETTER_TOPO \<equiv> -2"

text \<open>
  \<open>stepsRemoved\<close> is a 16 bit field widened to unsigned int, so A + 1 does not wrap.
\<close>

definition dscmp2 :: "dataset \<Rightarrow> dataset \<Rightarrow> int" where
  "dscmp2 a b = (let A = unat (stepsRemoved a); B = unat (stepsRemoved b) in
     if A + 1 < B then A_BETTER
     else if B + 1 < A then B_BETTER
     else if A < B then
       (let diff = memcmp (pid_bytes (receiver b)) (pid_bytes (sender b)) in
        if diff < 0 then A_BETTER else if diff > 0 then A_BETTER_TOPO else 0)
     else if A > B then
       (let diff = memcmp (pid_bytes (receiver a)) (pid_bytes (sender a)) in
        if diff < 0 then B_BETTER else if diff > 0 then B_BETTER_TOPO else 0)
     else
       (let diff = memcmp (pid_bytes (sender a)) (pid_bytes (sender b)) in
        if diff < 0 then A_BETTER_TOPO
        else if diff > 0 then B_BETTER_TOPO
        else if portNumber (receiver a) < portNumber (receiver b) then A_BETTER_TOPO
        else if portNumber (receiver a) > portNumber (receiver b) then B_BETTER_TOPO
        else 0))"

text \<open>
  A null pointer is \<^const>\<open>None\<close>. The test \<open>a == b\<close> of the pointers only matters for two
  null pointers: a data set compares as 0 with itself in the code that follows, too (lemma
  \<open>dscmp_self\<close> below).
\<close>

fun dscmp :: "dataset option \<Rightarrow> dataset option \<Rightarrow> int" where
  "dscmp None None = 0"
| "dscmp (Some a) None = A_BETTER"
| "dscmp None (Some b) = B_BETTER"
| "dscmp (Some a) (Some b) = (let diff = memcmp (octets (identity a)) (octets (identity b)) in
     if diff = 0 then dscmp2 a b
     else if priority1 a < priority1 b then A_BETTER
     else if priority1 a > priority1 b then B_BETTER
     else if clockClass (quality a) < clockClass (quality b) then A_BETTER
     else if clockClass (quality a) > clockClass (quality b) then B_BETTER
     else if clockAccuracy (quality a) < clockAccuracy (quality b) then A_BETTER
     else if clockAccuracy (quality a) > clockAccuracy (quality b) then B_BETTER
     else if offsetScaledLogVariance (quality a) < offsetScaledLogVariance (quality b) then A_BETTER
     else if offsetScaledLogVariance (quality a) > offsetScaledLogVariance (quality b) then B_BETTER
     else if priority2 a < priority2 b then A_BETTER
     else if priority2 a > priority2 b then B_BETTER
     else if diff < 0 then A_BETTER else B_BETTER)"

fun telecom_dscmp :: "dataset option \<Rightarrow> dataset option \<Rightarrow> int" where
  "telecom_dscmp None None = 0"
| "telecom_dscmp (Some a) None = A_BETTER"
| "telecom_dscmp None (Some b) = B_BETTER"
| "telecom_dscmp (Some a) (Some b) =
    (if clockClass (quality a) < clockClass (quality b) then A_BETTER
     else if clockClass (quality a) > clockClass (quality b) then B_BETTER
     else if clockAccuracy (quality a) < clockAccuracy (quality b) then A_BETTER
     else if clockAccuracy (quality a) > clockAccuracy (quality b) then B_BETTER
     else if offsetScaledLogVariance (quality a) < offsetScaledLogVariance (quality b) then A_BETTER
     else if offsetScaledLogVariance (quality a) > offsetScaledLogVariance (quality b) then B_BETTER
     else if priority2 a < priority2 b then A_BETTER
     else if priority2 a > priority2 b then B_BETTER
     else if localPriority a < localPriority b then A_BETTER
     else if localPriority a > localPriority b then B_BETTER
     else if clockClass (quality a) \<le> 127 then dscmp2 a b
     else let diff = memcmp (octets (identity a)) (octets (identity b)) in
       if diff = 0 then dscmp2 a b else if diff < 0 then A_BETTER else B_BETTER)"

subsection \<open>Keys\<close>

text \<open>
  The order of two paths to one grandmaster: number of steps, bytes of the sender's
  identity, receiving port.
\<close>

definition path_key :: "dataset \<Rightarrow> u16 \<times> u8 list \<times> u16" where
  "path_key d = (stepsRemoved d, pid_bytes (sender d), portNumber (receiver d))"

text \<open>
  The code's "error-1": a message received by the port that sent it. It only disturbs the
  comparison for the longer of two paths, so the local default data set, with steps removed 0,
  is not concerned.
\<close>

definition no_error1 :: "dataset \<Rightarrow> bool" where
  "no_error1 d \<longleftrightarrow> stepsRemoved d = 0 \<or> sender d \<noteq> receiver d"

definition gm_key :: "dataset \<Rightarrow> u8 \<times> u8 \<times> u8 \<times> u16 \<times> u8 \<times> u8 list" where
  "gm_key d = (priority1 d, clockClass (quality d), clockAccuracy (quality d),
     offsetScaledLogVariance (quality d), priority2 d, octets (identity d))"

definition ieee_key :: "dataset \<Rightarrow> (u8 \<times> u8 \<times> u8 \<times> u16 \<times> u8 \<times> u8 list) \<times> u16 \<times> u8 list \<times> u16" where
  "ieee_key d = (gm_key d, path_key d)"

text \<open>
  Two announcements of one grandmaster agree on its attributes. Without that \<open>dscmp\<close> is not
  transitive.
\<close>

definition same_gm_consistent :: "dataset \<Rightarrow> dataset \<Rightarrow> bool" where
  "same_gm_consistent a b \<longleftrightarrow> (identity a = identity b \<longrightarrow> gm_key a = gm_key b)"

definition telecom_key :: "dataset \<Rightarrow>
    u8 \<times> u8 \<times> u16 \<times> u8 \<times> u8 \<times> u8 list \<times> u16 \<times> u8 list \<times> u16" where
  "telecom_key d = (clockClass (quality d), clockAccuracy (quality d),
     offsetScaledLogVariance (quality d), priority2 d, localPriority d,
     if clockClass (quality d) \<le> 127 then [] else octets (identity d), path_key d)"

subsection \<open>Facts about the comparisons\<close>

text \<open>
  One link of the comparison chains: a field decides, or the rest does. The chains are
  rewritten into nested links, of which negation and sign are known.
\<close>

definition link :: "'a::linorder \<Rightarrow> 'a \<Rightarrow> int \<Rightarrow> int" where
  "link x y r = (if x < y then A_BETTER else if x > y then B_BETTER else r)"

lemma link_neg: "link y x (- r) = - link x y r"
  by (auto simp: link_def)

lemma link_neg_eq: "r' = - r \<Longrightarrow> link y x r' = - link x y r"
  by (simp add: link_neg)

lemma link_pos_iff: "0 < link x y r \<longleftrightarrow> x < y \<or> x \<le> y \<and> 0 < r"
  by (auto simp: link_def)

lemma dscmp_links: "dscmp (Some a) (Some b) = (if identity a = identity b then dscmp2 a b
    else link (priority1 a) (priority1 b) (link (clockClass (quality a)) (clockClass (quality b))
      (link (clockAccuracy (quality a)) (clockAccuracy (quality b))
      (link (offsetScaledLogVariance (quality a)) (offsetScaledLogVariance (quality b))
      (link (priority2 a) (priority2 b)
      (if memcmp (octets (identity a)) (octets (identity b)) < 0 then A_BETTER else B_BETTER))))))"
  by (simp add: Let_def link_def)

lemma telecom_dscmp_links: "telecom_dscmp (Some a) (Some b) =
    link (clockClass (quality a)) (clockClass (quality b))
      (link (clockAccuracy (quality a)) (clockAccuracy (quality b))
      (link (offsetScaledLogVariance (quality a)) (offsetScaledLogVariance (quality b))
      (link (priority2 a) (priority2 b)
      (link (localPriority a) (localPriority b)
      (if clockClass (quality a) \<le> 127 \<or> identity a = identity b then dscmp2 a b
       else if memcmp (octets (identity a)) (octets (identity b)) < 0 then A_BETTER else B_BETTER)))))"
  by (simp add: Let_def link_def)

declare dscmp.simps(4) [simp del] telecom_dscmp.simps(4) [simp del]

lemma dscmp2_self: "dscmp2 a a = 0"
  by (simp add: dscmp2_def)

lemma dscmp_self: "dscmp (Some a) (Some a) = 0" "telecom_dscmp (Some a) (Some a) = 0"
  by (simp_all add: dscmp_links telecom_dscmp_links dscmp2_self link_def)

lemma dscmp2_cases:
  shows dscmp2_less2: "unat (stepsRemoved a) + 1 < unat (stepsRemoved b) \<Longrightarrow> dscmp2 a b = A_BETTER"
    and dscmp2_greater2: "unat (stepsRemoved b) + 1 < unat (stepsRemoved a) \<Longrightarrow> dscmp2 a b = B_BETTER"
    and dscmp2_less1: "unat (stepsRemoved b) = unat (stepsRemoved a) + 1 \<Longrightarrow> dscmp2 a b =
      (let diff = memcmp (pid_bytes (receiver b)) (pid_bytes (sender b)) in
        if diff < 0 then A_BETTER else if diff > 0 then A_BETTER_TOPO else 0)"
    and dscmp2_greater1: "unat (stepsRemoved a) = unat (stepsRemoved b) + 1 \<Longrightarrow> dscmp2 a b =
      (let diff = memcmp (pid_bytes (receiver a)) (pid_bytes (sender a)) in
        if diff < 0 then B_BETTER else if diff > 0 then B_BETTER_TOPO else 0)"
    and dscmp2_equal: "unat (stepsRemoved a) = unat (stepsRemoved b) \<Longrightarrow> dscmp2 a b = 
      2 * (let diff = memcmp (pid_bytes (sender a)) (pid_bytes (sender b)) in
        if diff = 0 then link (portNumber (receiver a)) (portNumber (receiver b)) 0 else - diff)"
  using memcmp_range [of "pid_bytes (sender a)" "pid_bytes (sender b)"]
  by (auto simp: dscmp2_def Let_def link_def)

lemma steps_split:
  obtains (less2) "unat (stepsRemoved a) + 1 < unat (stepsRemoved b)"
  | (greater2) "unat (stepsRemoved b) + 1 < unat (stepsRemoved a)"
  | (less1) "unat (stepsRemoved b) = unat (stepsRemoved a) + 1"
  | (greater1) "unat (stepsRemoved a) = unat (stepsRemoved b) + 1"
  | (equal) "unat (stepsRemoved a) = unat (stepsRemoved b)"
  by linarith

lemma dscmp2_antisym: "dscmp2 b a = - dscmp2 a b"
proof (cases rule: steps_split [of a b])
  case equal
  then show ?thesis
    using memcmp_antisym [of "pid_bytes (sender b)" "pid_bytes (sender a)"]
    by (auto simp: dscmp2_equal Let_def link_def)
qed (simp_all add: dscmp2_cases Let_def)

lemma dscmp_antisym: "dscmp b a = - dscmp a b"
proof (cases a; cases b)
  fix x y assume "a = Some x" "b = Some y"
  then show ?thesis
    using memcmp_antisym [of "octets (identity x)" "octets (identity y)"] dscmp2_antisym [of x y]
    by (auto simp: dscmp_links intro!: link_neg_eq)
qed auto

lemma telecom_dscmp_antisym: "telecom_dscmp b a = - telecom_dscmp a b"
proof (cases a; cases b)
  fix x y assume "a = Some x" "b = Some y"
  then show ?thesis
    using memcmp_antisym [of "octets (identity x)" "octets (identity y)"] dscmp2_antisym [of x y]
    by (cases "clockClass (quality x) = clockClass (quality y)")
      (auto simp: telecom_dscmp_links link_def [of "clockClass (quality x)"]
        link_def [of "clockClass (quality y)"] intro!: link_neg_eq)
qed auto

lemma dscmp2_pos_iff:
  assumes "no_error1 a" "no_error1 b"
  shows "dscmp2 a b > 0 \<longleftrightarrow> path_key a < path_key b"
proof -
  have r: "memcmp (pid_bytes (receiver d)) (pid_bytes (sender d)) \<noteq> 0"
    if "no_error1 d" "unat (stepsRemoved d) > 0" for d :: dataset
    using that by (auto simp: no_error1_def)
  show ?thesis
  proof (cases rule: steps_split [of a b])
    case equal
    then have "stepsRemoved a = stepsRemoved b" by (simp add: word_unat_eq_iff)
    with equal show ?thesis
      using memcmp_less_iff [of "pid_bytes (sender a)" "pid_bytes (sender b)"]
      by (auto simp: dscmp2_equal path_key_def Let_def link_pos_iff)
  qed (use r [OF assms(1)] r [OF assms(2)] in
      \<open>simp_all add: dscmp2_cases path_key_def Let_def word_less_nat_alt word_le_nat_alt\<close>)
qed

lemma dscmp_distinct_pos_iff:
  assumes "identity a \<noteq> identity b"
  shows "dscmp (Some a) (Some b) > 0 \<longleftrightarrow> gm_key a < gm_key b"
  using assms by (simp add: gm_key_def dscmp_links link_pos_iff memcmp_less_iff)

lemma dscmp_pos_iff:
  assumes "no_error1 a" "no_error1 b" "same_gm_consistent a b"
  shows "dscmp (Some a) (Some b) > 0 \<longleftrightarrow> ieee_key a < ieee_key b"
proof (cases "identity a = identity b")
  case True
  then show ?thesis
    using assms dscmp2_pos_iff [OF assms(1,2)] by (simp add: ieee_key_def same_gm_consistent_def dscmp_links)
next
  case False
  then have "gm_key a \<noteq> gm_key b" by (auto simp: gm_key_def)
  then show ?thesis
    using dscmp_distinct_pos_iff [OF False] by (auto simp: ieee_key_def)
qed

lemma telecom_dscmp_pos_iff:
  assumes "no_error1 a" "no_error1 b"
  shows "telecom_dscmp (Some a) (Some b) > 0 \<longleftrightarrow> telecom_key a < telecom_key b"
proof (cases "clockClass (quality a) = clockClass (quality b)")
  case True
  have "0 < (if clockClass (quality b) \<le> 127 \<or> identity a = identity b then dscmp2 a b
       else if memcmp (octets (identity a)) (octets (identity b)) < 0 then A_BETTER else B_BETTER)
    \<longleftrightarrow> (if clockClass (quality b) \<le> 127 then [] else octets (identity a), path_key a)
      < (if clockClass (quality b) \<le> 127 then [] else octets (identity b), path_key b)"
    using dscmp2_pos_iff [OF assms] by (auto simp: memcmp_less_iff)
  with True show ?thesis
    by (simp add: telecom_key_def telecom_dscmp_links link_pos_iff)
qed (auto simp: telecom_key_def telecom_dscmp_links link_pos_iff)

subsection \<open>The contract of a data set comparison\<close>

text \<open>
  What the selection of the best master uses of the configured comparison: a null pointer
  loses, the result is antisymmetric, and on compatible data sets a positive result means a
  smaller key.
\<close>

locale dataset_compare =
  fixes compare :: "dataset option \<Rightarrow> dataset option \<Rightarrow> int"
    and key :: "dataset \<Rightarrow> 'k::linorder"
    and compatible :: "dataset \<Rightarrow> dataset \<Rightarrow> bool"
  assumes compare_None: "compare (Some a) None = A_BETTER" "compare None None = 0"
    and compare_antisym: "compare y x = - compare x y"
    and compatible_sym: "compatible a b \<Longrightarrow> compatible b a"
    and compare_key: "compatible a b \<Longrightarrow> compare (Some a) (Some b) > 0 \<longleftrightarrow> key a < key b"
begin

lemma compare_None_left: "compare None (Some a) = B_BETTER"
  using compare_antisym [of None "Some a"] compare_None by simp

lemma compare_not_pos: "compatible a b \<Longrightarrow> compare (Some a) (Some b) \<le> 0 \<longleftrightarrow> key b \<le> key a"
  using compare_key [of a b] by (auto simp: not_less [symmetric])

lemma compare_zero: "compatible a b \<Longrightarrow> compare (Some a) (Some b) = 0 \<longleftrightarrow> key a = key b"
  using compare_key [of a b] compare_key [of b a] compatible_sym [of a b]
    compare_antisym [of "Some a" "Some b"] by (metis less_irrefl linorder_neqE neg_0_less_iff_less neg_less_0_iff_less not_less_iff_gr_or_eq)

end

interpretation ieee: dataset_compare dscmp ieee_key
    "\<lambda>a b. no_error1 a \<and> no_error1 b \<and> same_gm_consistent a b"
proof
  show "dscmp (Some a) None = A_BETTER" for a by simp
  show "dscmp None None = 0" by simp
  show "dscmp y x = - dscmp x y" for x y by (rule dscmp_antisym)
  show "no_error1 b \<and> no_error1 a \<and> same_gm_consistent b a"
    if "no_error1 a \<and> no_error1 b \<and> same_gm_consistent a b" for a b
    using that by (auto simp: same_gm_consistent_def)
  show "0 < dscmp (Some a) (Some b) \<longleftrightarrow> ieee_key a < ieee_key b"
    if "no_error1 a \<and> no_error1 b \<and> same_gm_consistent a b" for a b
    using that by (intro dscmp_pos_iff) blast+
qed

interpretation telecom: dataset_compare telecom_dscmp telecom_key
    "\<lambda>a b. no_error1 a \<and> no_error1 b"
proof
  show "telecom_dscmp (Some a) None = A_BETTER" for a by simp
  show "telecom_dscmp None None = 0" by simp
  show "telecom_dscmp y x = - telecom_dscmp x y" for x y by (rule telecom_dscmp_antisym)
  show "no_error1 b \<and> no_error1 a" if "no_error1 a \<and> no_error1 b" for a b
    using that by blast
  show "0 < telecom_dscmp (Some a) (Some b) \<longleftrightarrow> telecom_key a < telecom_key b"
    if "no_error1 a \<and> no_error1 b" for a b
    using that by (intro telecom_dscmp_pos_iff) blast+
qed

subsection \<open>State decision\<close>

text \<open>
  The decision of \<open>bmc_state_decision(c, r, compare)\<close> from what it reads of the clock and
  the port: the default data set, the class of the local clock, the best foreign data set of
  the clock, whether its port is \<open>r\<close>, and the best foreign data set and state of \<open>r\<close>.
\<close>

definition bmc_state_decision :: "(dataset option \<Rightarrow> dataset option \<Rightarrow> int) \<Rightarrow> dataset \<Rightarrow> u8
    \<Rightarrow> dataset option \<Rightarrow> bool \<Rightarrow> dataset option \<Rightarrow> PORT_STATE \<Rightarrow> PORT_STATE" where
  "bmc_state_decision compare clock_ds clock_class clock_best best_port_is_r port_best ps =
    (if port_best = None \<and> ps = PS_LISTENING then ps
     else if clock_class \<le> 127 then
       (if compare (Some clock_ds) port_best > 0 then PS_GRAND_MASTER else PS_PASSIVE)
     else if compare (Some clock_ds) clock_best > 0 then PS_GRAND_MASTER
     else if best_port_is_r then PS_SLAVE
     else if compare clock_best port_best = A_BETTER_TOPO then PS_PASSIVE
     else PS_MASTER)"

lemma bmc_range: "bmc_state_decision compare ds cls cb br pb ps
    \<in> {PS_LISTENING, PS_GRAND_MASTER, PS_PASSIVE, PS_SLAVE, PS_MASTER}"
  by (simp add: bmc_state_decision_def)

lemma bmc_slave_iff: "bmc_state_decision compare ds cls cb br pb ps = PS_SLAVE \<longleftrightarrow>
    br \<and> cls > 127 \<and> compare (Some ds) cb \<le> 0 \<and> \<not> (pb = None \<and> ps = PS_LISTENING)"
  by (auto simp: bmc_state_decision_def not_less)

lemma bmc_class_low: "cls \<le> 127 \<Longrightarrow> bmc_state_decision compare ds cls cb br pb ps
    \<in> {PS_LISTENING, PS_GRAND_MASTER, PS_PASSIVE}"
  by (simp add: bmc_state_decision_def)

subsection \<open>Properties\<close>

text \<open>A data set with the given ranks, for the witnesses.\<close>

definition sample_dataset :: "u8 \<Rightarrow> u8 \<Rightarrow> u16 \<Rightarrow> dataset" where
  "sample_dataset p i steps = \<lparr>priority1 = p, identity = ClockIdentity 0 0 0 0 0 0 0 i,
     quality = \<lparr>clockClass = 248, clockAccuracy = 254, offsetScaledLogVariance = 65535\<rparr>,
     priority2 = 128, localPriority = 128, stepsRemoved = steps,
     sender = \<lparr>clockIdentity = ClockIdentity 0 0 0 0 0 0 0 i, portNumber = 1\<rparr>,
     receiver = \<lparr>clockIdentity = ClockIdentity 0 0 0 0 0 0 1 0, portNumber = 1\<rparr>\<rparr>"

text \<open>
  The sender identities are compared as bytes of host memory, where the low byte of the port
  number comes first: of two senders on one clock, port 256 is preferred to port 1, and in
  general the port numbers are compared with their bytes exchanged.
\<close>

definition swap16 :: "u16 \<Rightarrow> u16" where
  "swap16 x = push_bit 8 x + drop_bit 8 x"

lemma two_byte_less_iff:
  "[ucast x, ucast (drop_bit 8 x)] < [ucast y, ucast (drop_bit 8 y) :: u8] \<longleftrightarrow> swap16 x < swap16 y"
  for x y :: u16
proof -
  have v: "unat (swap16 z) = unat (ucast z :: u8) * 256 + unat (ucast (drop_bit 8 z) :: u8)" for z :: u16
  proof -
    have "unat (push_bit 8 z) = unat z mod 256 * 256"
      by (simp add: push_bit_eq_mult unat_word_ariths mult_mod_right mult.commute)
    moreover have "unat (drop_bit 8 z) = unat z div 256"
      by (simp add: drop_bit_eq_div unat_div)
    moreover have "unat z < 65536" by (rule unsigned_less [of z, where 'a=nat, simplified])
    ultimately show ?thesis
      by (simp add: swap16_def unat_word_ariths unsigned_ucast_eq take_bit_eq_mod)
  qed
  have lt: "unat (ucast (drop_bit 8 z) :: u8) < 256" for z :: u16
    using unsigned_less [of "ucast (drop_bit 8 z) :: u8", where 'a=nat] by simp
  show ?thesis
    using lt [of x] lt [of y] unfolding word_less_nat_alt v
    by (auto simp: word_less_nat_alt word_unat_eq_iff)
qed

lemma sender_port_order:
  assumes "stepsRemoved a = stepsRemoved b" "clockIdentity (sender a) = clockIdentity (sender b)"
    "portNumber (sender a) \<noteq> portNumber (sender b)"
  shows "dscmp2 a b > 0 \<longleftrightarrow> swap16 (portNumber (sender a)) < swap16 (portNumber (sender b))"
proof -
  have "xs @ ys < xs @ zs \<longleftrightarrow> ys < zs" for xs ys zs :: "u8 list"
    by (induction xs) auto
  then have "pid_bytes (sender a) < pid_bytes (sender b)
      \<longleftrightarrow> swap16 (portNumber (sender a)) < swap16 (portNumber (sender b))"
    using assms(2) by (simp add: pid_bytes_def two_byte_less_iff del: Cons_less_Cons)
  moreover have "sender a \<noteq> sender b" using assms(3) by auto
  ultimately show ?thesis
    using assms(1) memcmp_less_iff [of "pid_bytes (sender a)" "pid_bytes (sender b)"]
    by (simp add: dscmp2_equal Let_def)
qed

text \<open>
  C39: The comparison of the best master clock algorithm orders data sets by an explicit key.
  For data sets that are not received by their own sender and that agree on the attributes
  of a common grandmaster, \<open>dscmp\<close> prefers the first exactly when its key (priority1, class,
  accuracy, variance, priority2, grandmaster identity, then steps removed, sender identity and
  receiving port) is lexicographically smaller, and finds no difference exactly when the keys
  are equal.
\<close>

theorem dscmp_lexicographic:
  assumes "no_error1 a" "no_error1 b" "same_gm_consistent a b"
  shows "(dscmp (Some a) (Some b) > 0 \<longleftrightarrow> ieee_key a < ieee_key b)
    \<and> (dscmp (Some a) (Some b) = 0 \<longleftrightarrow> ieee_key a = ieee_key b)
    \<and> (dscmp (Some a) (Some b) < 0 \<longleftrightarrow> ieee_key b < ieee_key a)"
  using assms ieee.compare_key [of a b] ieee.compare_zero [of a b] by (metis linorder_neqE neqE order_less_asym less_irrefl)

theorem dscmp_lexicographic_witness:
  "dscmp (Some (sample_dataset 127 5 3)) (Some (sample_dataset 128 4 0)) > 0
    \<longleftrightarrow> ieee_key (sample_dataset 127 5 3) < ieee_key (sample_dataset 128 4 0)"
  using dscmp_lexicographic [of "sample_dataset 127 5 3" "sample_dataset 128 4 0"]
  by (simp add: no_error1_def same_gm_consistent_def sample_dataset_def)

text \<open>
  The comparison of the telecom profile orders data sets by (class, accuracy, variance,
  priority2, local priority, then the identity only for classes above 127, then the path),
  without an assumption about announcements of one grandmaster.
\<close>

lemma telecom_dscmp_lexicographic:
  assumes "no_error1 a" "no_error1 b"
  shows "(telecom_dscmp (Some a) (Some b) > 0 \<longleftrightarrow> telecom_key a < telecom_key b)
    \<and> (telecom_dscmp (Some a) (Some b) = 0 \<longleftrightarrow> telecom_key a = telecom_key b)
    \<and> (telecom_dscmp (Some a) (Some b) < 0 \<longleftrightarrow> telecom_key b < telecom_key a)"
  using assms telecom.compare_key [of a b] telecom.compare_zero [of a b] by (metis linorder_neqE neqE order_less_asym less_irrefl)

lemma telecom_dscmp_lexicographic_witness:
  "telecom_dscmp (Some (sample_dataset 127 5 3)) (Some (sample_dataset 128 4 0)) < 0
    \<longleftrightarrow> telecom_key (sample_dataset 128 4 0) < telecom_key (sample_dataset 127 5 3)"
  using telecom_dscmp_lexicographic [of "sample_dataset 127 5 3" "sample_dataset 128 4 0"]
  by (simp add: no_error1_def sample_dataset_def)

text \<open>
  Both comparisons are antisymmetric on all data sets and null pointers, so the two
  ends of a comparison never both find themselves better.
\<close>

lemma comparisons_antisymmetric:
  "dscmp b a = - dscmp a b \<and> telecom_dscmp b a = - telecom_dscmp a b"
  using dscmp_antisym telecom_dscmp_antisym by blast

end
