(* ===== verification/PortFsm.thy ===== *)
theory PortFsm
  imports PtpTypes
begin

text \<open>
  The state machines of a port, src/ptpPortInit.c: \<open>_ptpFsm\<close> for the ports of a boundary or
  ordinary clock and \<open>_ptpSlaveFsm\<close> for a slave only clock, and \<open>portIsEnabled\<close> of
  src/ptpPortStates.c. The lemmas say how the two machines relate, from where each state is
  entered, and which states a slave only port can reach.
\<close>

subsection \<open>The transition functions\<close>

definition ptpFsm :: "PORT_STATE \<Rightarrow> PORT_EVENT \<Rightarrow> bool \<Rightarrow> PORT_STATE" where
  "ptpFsm state event mdiff =
    (if event = EV_INITIALIZE \<or> event = EV_POWERUP then PS_INITIALIZING
     else case state of
      PS_INITIALIZING \<Rightarrow> (case event of
        EV_FAULT_DETECTED \<Rightarrow> PS_FAULTY
      | EV_INIT_COMPLETE \<Rightarrow> PS_LISTENING
      | _ \<Rightarrow> state)
    | PS_FAULTY \<Rightarrow> (case event of
        EV_DESIGNATED_DISABLED \<Rightarrow> PS_DISABLED
      | EV_FAULT_CLEARED \<Rightarrow> PS_INITIALIZING
      | _ \<Rightarrow> state)
    | PS_DISABLED \<Rightarrow> (if event = EV_DESIGNATED_ENABLED then PS_INITIALIZING else state)
    | PS_LISTENING \<Rightarrow> (case event of
        EV_DESIGNATED_DISABLED \<Rightarrow> PS_DISABLED
      | EV_FAULT_DETECTED \<Rightarrow> PS_FAULTY
      | EV_ANNOUNCE_RECEIPT_TIMEOUT_EXPIRES \<Rightarrow> PS_MASTER
      | EV_RS_MASTER \<Rightarrow> PS_PRE_MASTER
      | EV_RS_GRAND_MASTER \<Rightarrow> PS_GRAND_MASTER
      | EV_RS_SLAVE \<Rightarrow> PS_UNCALIBRATED
      | EV_RS_PASSIVE \<Rightarrow> PS_PASSIVE
      | _ \<Rightarrow> state)
    | PS_PRE_MASTER \<Rightarrow> (case event of
        EV_DESIGNATED_DISABLED \<Rightarrow> PS_DISABLED
      | EV_FAULT_DETECTED \<Rightarrow> PS_FAULTY
      | EV_QUALIFICATION_TIMEOUT_EXPIRES \<Rightarrow> PS_MASTER
      | EV_RS_SLAVE \<Rightarrow> PS_UNCALIBRATED
      | EV_RS_PASSIVE \<Rightarrow> PS_PASSIVE
      | _ \<Rightarrow> state)
    | PS_MASTER \<Rightarrow> (case event of
        EV_DESIGNATED_DISABLED \<Rightarrow> PS_DISABLED
      | EV_FAULT_DETECTED \<Rightarrow> PS_FAULTY
      | EV_RS_SLAVE \<Rightarrow> PS_UNCALIBRATED
      | EV_RS_PASSIVE \<Rightarrow> PS_PASSIVE
      | _ \<Rightarrow> state)
    | PS_GRAND_MASTER \<Rightarrow> (case event of
        EV_DESIGNATED_DISABLED \<Rightarrow> PS_DISABLED
      | EV_FAULT_DETECTED \<Rightarrow> PS_FAULTY
      | EV_RS_SLAVE \<Rightarrow> PS_UNCALIBRATED
      | EV_RS_PASSIVE \<Rightarrow> PS_PASSIVE
      | _ \<Rightarrow> state)
    | PS_PASSIVE \<Rightarrow> (case event of
        EV_DESIGNATED_DISABLED \<Rightarrow> PS_DISABLED
      | EV_FAULT_DETECTED \<Rightarrow> PS_FAULTY
      | EV_ANNOUNCE_RECEIPT_TIMEOUT_EXPIRES \<Rightarrow> PS_MASTER
      | EV_RS_MASTER \<Rightarrow> PS_PRE_MASTER
      | EV_RS_GRAND_MASTER \<Rightarrow> PS_GRAND_MASTER
      | EV_RS_SLAVE \<Rightarrow> PS_UNCALIBRATED
      | _ \<Rightarrow> state)
    | PS_UNCALIBRATED \<Rightarrow> (case event of
        EV_DESIGNATED_DISABLED \<Rightarrow> PS_DISABLED
      | EV_FAULT_DETECTED \<Rightarrow> PS_FAULTY
      | EV_ANNOUNCE_RECEIPT_TIMEOUT_EXPIRES \<Rightarrow> PS_MASTER
      | EV_MASTER_CLOCK_SELECTED \<Rightarrow> PS_SLAVE
      | EV_RS_MASTER \<Rightarrow> PS_PRE_MASTER
      | EV_RS_GRAND_MASTER \<Rightarrow> PS_GRAND_MASTER
      | EV_RS_SLAVE \<Rightarrow> PS_UNCALIBRATED
      | EV_RS_PASSIVE \<Rightarrow> PS_PASSIVE
      | _ \<Rightarrow> state)
    | PS_SLAVE \<Rightarrow> (case event of
        EV_DESIGNATED_DISABLED \<Rightarrow> PS_DISABLED
      | EV_FAULT_DETECTED \<Rightarrow> PS_FAULTY
      | EV_ANNOUNCE_RECEIPT_TIMEOUT_EXPIRES \<Rightarrow> PS_MASTER
      | EV_SYNCHRONIZATION_FAULT \<Rightarrow> PS_UNCALIBRATED
      | EV_RS_MASTER \<Rightarrow> PS_PRE_MASTER
      | EV_RS_GRAND_MASTER \<Rightarrow> PS_GRAND_MASTER
      | EV_RS_SLAVE \<Rightarrow> (if mdiff then PS_UNCALIBRATED else state)
      | EV_RS_PASSIVE \<Rightarrow> PS_PASSIVE
      | _ \<Rightarrow> state))"

definition ptpSlaveFsm :: "PORT_STATE \<Rightarrow> PORT_EVENT \<Rightarrow> bool \<Rightarrow> PORT_STATE" where
  "ptpSlaveFsm state event mdiff =
    (if event = EV_INITIALIZE \<or> event = EV_POWERUP then PS_INITIALIZING
     else case state of
      PS_INITIALIZING \<Rightarrow> (case event of
        EV_FAULT_DETECTED \<Rightarrow> PS_FAULTY
      | EV_INIT_COMPLETE \<Rightarrow> PS_LISTENING
      | _ \<Rightarrow> state)
    | PS_FAULTY \<Rightarrow> (case event of
        EV_DESIGNATED_DISABLED \<Rightarrow> PS_DISABLED
      | EV_FAULT_CLEARED \<Rightarrow> PS_INITIALIZING
      | _ \<Rightarrow> state)
    | PS_DISABLED \<Rightarrow> (if event = EV_DESIGNATED_ENABLED then PS_INITIALIZING else state)
    | PS_LISTENING \<Rightarrow> (case event of
        EV_DESIGNATED_DISABLED \<Rightarrow> PS_DISABLED
      | EV_FAULT_DETECTED \<Rightarrow> PS_FAULTY
      | EV_ANNOUNCE_RECEIPT_TIMEOUT_EXPIRES \<Rightarrow> PS_LISTENING
      | EV_RS_MASTER \<Rightarrow> PS_LISTENING
      | EV_RS_GRAND_MASTER \<Rightarrow> PS_LISTENING
      | EV_RS_PASSIVE \<Rightarrow> PS_LISTENING
      | EV_RS_SLAVE \<Rightarrow> PS_UNCALIBRATED
      | _ \<Rightarrow> state)
    | PS_UNCALIBRATED \<Rightarrow> (case event of
        EV_DESIGNATED_DISABLED \<Rightarrow> PS_DISABLED
      | EV_FAULT_DETECTED \<Rightarrow> PS_FAULTY
      | EV_ANNOUNCE_RECEIPT_TIMEOUT_EXPIRES \<Rightarrow> PS_LISTENING
      | EV_RS_MASTER \<Rightarrow> PS_LISTENING
      | EV_RS_GRAND_MASTER \<Rightarrow> PS_LISTENING
      | EV_RS_PASSIVE \<Rightarrow> PS_LISTENING
      | EV_MASTER_CLOCK_SELECTED \<Rightarrow> PS_SLAVE
      | _ \<Rightarrow> state)
    | PS_SLAVE \<Rightarrow> (case event of
        EV_DESIGNATED_DISABLED \<Rightarrow> PS_DISABLED
      | EV_FAULT_DETECTED \<Rightarrow> PS_FAULTY
      | EV_ANNOUNCE_RECEIPT_TIMEOUT_EXPIRES \<Rightarrow> PS_LISTENING
      | EV_RS_MASTER \<Rightarrow> PS_LISTENING
      | EV_RS_GRAND_MASTER \<Rightarrow> PS_LISTENING
      | EV_RS_PASSIVE \<Rightarrow> PS_LISTENING
      | EV_SYNCHRONIZATION_FAULT \<Rightarrow> PS_UNCALIBRATED
      | EV_RS_SLAVE \<Rightarrow> (if mdiff then PS_UNCALIBRATED else state)
      | _ \<Rightarrow> state)
    | _ \<Rightarrow> state)"

definition portIsEnabled :: "PORT_STATE \<Rightarrow> bool" where
  "portIsEnabled s = (case s of
      PS_INITIALIZING \<Rightarrow> False
    | PS_FAULTY \<Rightarrow> False
    | PS_DISABLED \<Rightarrow> False
    | PS_LISTENING \<Rightarrow> True
    | PS_PRE_MASTER \<Rightarrow> True
    | PS_MASTER \<Rightarrow> True
    | PS_GRAND_MASTER \<Rightarrow> True
    | PS_PASSIVE \<Rightarrow> True
    | PS_UNCALIBRATED \<Rightarrow> True
    | PS_SLAVE \<Rightarrow> True)"

subsection \<open>Facts about the machines\<close>

definition master_role :: "PORT_STATE \<Rightarrow> bool" where
  "master_role s \<longleftrightarrow> s \<in> {PS_PRE_MASTER, PS_MASTER, PS_GRAND_MASTER, PS_PASSIVE}"

lemmas fsm_defs = ptpFsm_def ptpSlaveFsm_def portIsEnabled_def master_role_def

text \<open>The recommendation of a role by the state decision.\<close>

definition recommendation :: "PORT_EVENT \<Rightarrow> bool" where
  "recommendation e \<longleftrightarrow> e \<in> {EV_RS_MASTER, EV_RS_GRAND_MASTER, EV_RS_SLAVE, EV_RS_PASSIVE}"

lemma fsm_init [simp]:
  "ptpFsm s EV_INITIALIZE d = PS_INITIALIZING" "ptpFsm s EV_POWERUP d = PS_INITIALIZING"
  "ptpSlaveFsm s EV_INITIALIZE d = PS_INITIALIZING" "ptpSlaveFsm s EV_POWERUP d = PS_INITIALIZING"
  by (simp_all add: fsm_defs)

lemma fsm_EV_NONE [simp]: "ptpFsm s EV_NONE d = s" "ptpSlaveFsm s EV_NONE d = s"
  by (cases s; simp add: fsm_defs)+

lemma fsm_faulty_cleared [simp]:
  "ptpFsm PS_FAULTY EV_FAULT_CLEARED d = PS_INITIALIZING"
  "ptpSlaveFsm PS_FAULTY EV_FAULT_CLEARED d = PS_INITIALIZING"
  by (simp_all add: fsm_defs)

lemma fsm_after_init [simp]:
  "ptpFsm PS_INITIALIZING EV_FAULT_DETECTED d = PS_FAULTY"
  "ptpSlaveFsm PS_INITIALIZING EV_FAULT_DETECTED d = PS_FAULTY"
  "ptpFsm PS_INITIALIZING EV_INIT_COMPLETE d = PS_LISTENING"
  "ptpSlaveFsm PS_INITIALIZING EV_INIT_COMPLETE d = PS_LISTENING"
  by (simp_all add: fsm_defs)

lemma fsm_recommendation_enabled:
  "recommendation e \<Longrightarrow> portIsEnabled s \<Longrightarrow> portIsEnabled (ptpFsm s e d)"
  "recommendation e \<Longrightarrow> portIsEnabled s \<Longrightarrow> portIsEnabled (ptpSlaveFsm s e d)"
  by (cases s; auto simp: recommendation_def fsm_defs)+

lemma fsm_recommendation_disabled:
  "recommendation e \<Longrightarrow> \<not> portIsEnabled s \<Longrightarrow> ptpFsm s e d = s"
  "recommendation e \<Longrightarrow> \<not> portIsEnabled s \<Longrightarrow> ptpSlaveFsm s e d = s"
  by (cases s; auto simp: recommendation_def fsm_defs)+

lemma slave_fsm_no_master: "\<not> master_role s \<Longrightarrow> \<not> master_role (ptpSlaveFsm s e d)"
  by (cases s; cases e; simp add: fsm_defs)

text \<open>How the distinguished states are entered.\<close>

lemma fsm_enter_slave:
  "ptpFsm s e d = PS_SLAVE \<Longrightarrow> s = PS_SLAVE \<or> s = PS_UNCALIBRATED \<and> e = EV_MASTER_CLOCK_SELECTED"
  "ptpSlaveFsm s e d = PS_SLAVE \<Longrightarrow> s = PS_SLAVE \<or> s = PS_UNCALIBRATED \<and> e = EV_MASTER_CLOCK_SELECTED"
  by (cases s; cases e; simp add: fsm_defs split: if_splits)+

lemma fsm_enter_uncalibrated:
  "ptpFsm s e d = PS_UNCALIBRATED \<Longrightarrow>
    s = PS_UNCALIBRATED \<or> e = EV_RS_SLAVE \<or> s = PS_SLAVE \<and> e = EV_SYNCHRONIZATION_FAULT"
  "ptpSlaveFsm s e d = PS_UNCALIBRATED \<Longrightarrow>
    s = PS_UNCALIBRATED \<or> e = EV_RS_SLAVE \<or> s = PS_SLAVE \<and> e = EV_SYNCHRONIZATION_FAULT"
  by (cases s; cases e; simp add: fsm_defs split: if_splits)+

lemma fsm_enter_master:
  "ptpFsm s e d = PS_MASTER \<Longrightarrow> s = PS_MASTER
    \<or> s = PS_PRE_MASTER \<and> e = EV_QUALIFICATION_TIMEOUT_EXPIRES
    \<or> s \<in> {PS_LISTENING, PS_PASSIVE, PS_UNCALIBRATED, PS_SLAVE} \<and> e = EV_ANNOUNCE_RECEIPT_TIMEOUT_EXPIRES"
  by (cases s; cases e; simp add: fsm_defs split: if_splits)

lemma fsm_enter_faulty:
  "ptpFsm s e d = PS_FAULTY \<Longrightarrow> s = PS_FAULTY \<or> e = EV_FAULT_DETECTED"
  "ptpSlaveFsm s e d = PS_FAULTY \<Longrightarrow> s = PS_FAULTY \<or> e = EV_FAULT_DETECTED"
  by (cases s; cases e; simp add: fsm_defs split: if_splits)+

lemma fsm_leave_disabled:
  "ptpFsm PS_DISABLED e d \<noteq> PS_DISABLED \<Longrightarrow> e \<in> {EV_DESIGNATED_ENABLED, EV_INITIALIZE, EV_POWERUP}"
  "ptpSlaveFsm PS_DISABLED e d \<noteq> PS_DISABLED \<Longrightarrow> e \<in> {EV_DESIGNATED_ENABLED, EV_INITIALIZE, EV_POWERUP}"
  by (cases e; simp add: fsm_defs)+

subsection \<open>The slave only machine is the full machine without the master roles\<close>

text \<open>What a slave only port does instead of taking a role that announces.\<close>

definition demote :: "PORT_STATE \<Rightarrow> PORT_STATE" where
  "demote s = (if master_role s then PS_LISTENING else s)"

text \<open>
  A slave only port behaves as a full port whose master and passive roles are replaced by
  listening: in every state it can be in, the slave only machine takes the step of the full
  machine, with the roles master, grandmaster, pre-master and passive turned into listening.
\<close>

lemma slave_fsm_refines_fsm:
  assumes "\<not> master_role s"
  shows "ptpSlaveFsm s e d = demote (ptpFsm s e d)"
  using assms by (cases s; cases e; simp add: fsm_defs demote_def)

lemma slave_fsm_refines_fsm_witness:
  "ptpSlaveFsm PS_SLAVE EV_ANNOUNCE_RECEIPT_TIMEOUT_EXPIRES False
    = demote (ptpFsm PS_SLAVE EV_ANNOUNCE_RECEIPT_TIMEOUT_EXPIRES False)"
  by (rule slave_fsm_refines_fsm) (simp add: master_role_def)

end
