(* ===== verification/Timers.thy ===== *)
theory Timers
  imports Tmv
begin

text \<open>
  The timer settings of src/ptpPort.c (\<open>set_tmo_log\<close>, \<open>set_tmo_lin\<close>, \<open>set_tmo_random\<close>,
  \<open>port_clr_tmo\<close>): the \<open>it_value\<close> that the code hands to \<open>timerfd_settime\<close>. The result of the
  system call itself is an input of the functions that use it. The two properties say which
  time span is set, exactly for the logarithmic timer and as an interval for the random one.
\<close>

subsection \<open>Definitions\<close>

text \<open>\<open>it_value\<close> of a \<open>struct itimerspec\<close>; all zero disarms the timer.\<close>

record itimer =
  it_sec :: int
  it_nsec :: int

definition disarmed :: itimer where
  "disarmed = \<lparr>it_sec = 0, it_nsec = 0\<rparr>"

definition port_clr_tmo :: itimer where
  "port_clr_tmo = disarmed"

text \<open>The loop over \<open>i\<close> that halves \<open>ns\<close> (here \<open>v\<close>), with the number of rounds left.\<close>

fun halve :: "nat \<Rightarrow> u64 \<Rightarrow> u64" where
  "halve 0 v = v"
| "halve (Suc k) v = halve k (drop_bit 1 v)"

text \<open>The loop that moves whole seconds from \<open>tv_nsec\<close> to \<open>tv_sec\<close>.\<close>

function carry_seconds :: "int \<Rightarrow> int \<Rightarrow> itimer" where
  "carry_seconds s n =
    (if n \<ge> 1000000000 then carry_seconds (s + 1) (n - 1000000000)
     else \<lparr>it_sec = s, it_nsec = n\<rparr>)"
  by pat_completeness auto
termination
  by (relation "measure (\<lambda>(s, n). nat n)") auto

declare carry_seconds.simps [simp del]

text \<open>
  \<open>log_seconds\<close> is an int in C; the callers pass an 8 bit field or a configuration value.
  The shift of the second branch is defined in C for counts below 31; the product with the
  unsigned \<open>scale\<close> is a 32 bit one.
\<close>

definition set_tmo_log :: "u32 \<Rightarrow> int \<Rightarrow> itimer" where
  "set_tmo_log scale log_seconds =
    (if log_seconds < 0 then
       (let k = nat (- log_seconds); v = halve (k - 1) (ucast scale * 500000000)
        in carry_seconds 0 (sint v))
     else \<lparr>it_sec = uint (scale * push_bit (nat log_seconds) 1), it_nsec = 0\<rparr>)"

definition set_tmo_lin :: "int \<Rightarrow> itimer" where
  "set_tmo_lin seconds = \<lparr>it_sec = seconds, it_nsec = 0\<rparr>"

text \<open>
  \<open>rnd\<close> is the value of \<open>random()\<close>, which is not negative. \<open>mn\<close> (\<open>min\<close> in C) and \<open>span\<close> are sign extended
  to the type of \<open>NS_PER_SEC\<close>.
\<close>

definition set_tmo_random :: "nat \<Rightarrow> int \<Rightarrow> int \<Rightarrow> int \<Rightarrow> itimer" where
  "set_tmo_random rnd mn span log_seconds =
    (let min_ns :: u64 = (if log_seconds \<ge> 0
           then push_bit (nat log_seconds) (word_of_int mn * NS_PER_SEC)
           else signed_drop_bit (nat (- log_seconds)) (word_of_int mn * NS_PER_SEC));
         span_ns :: u64 = (if log_seconds \<ge> 0
           then push_bit (nat log_seconds) (word_of_int span * NS_PER_SEC)
           else signed_drop_bit (nat (- log_seconds)) (word_of_int span * NS_PER_SEC));
         value_ns = min_ns + drop_bit 15 (span_ns * (word_of_nat (rnd mod 2 ^ 15) + 1))
     in \<lparr>it_sec = uint (value_ns div NS_PER_SEC), it_nsec = uint (value_ns mod NS_PER_SEC)\<rparr>)"

definition timer_ns :: "itimer \<Rightarrow> int" where
  "timer_ns t = it_sec t * 1000000000 + it_nsec t"

subsection \<open>Facts\<close>

lemma halve_drop_bit: "halve k v = drop_bit k v"
  by (induction k arbitrary: v) (simp_all add: drop_bit_drop_bit)

lemma carry_seconds_eq:
  "0 \<le> n \<Longrightarrow> carry_seconds s n = \<lparr>it_sec = s + n div 1000000000, it_nsec = n mod 1000000000\<rparr>"
proof (induction s n rule: carry_seconds.induct)
  case (1 s n)
  then show ?case
    using div_add_self2 [of 1000000000 "n - 1000000000"] mod_add_self2 [of "n - 1000000000" 1000000000]
    by (cases "1000000000 \<le> n") (simp_all add: carry_seconds.simps [of s n])
qed

lemma set_tmo_log_neg:
  assumes "log_seconds < 0"
  shows "set_tmo_log scale log_seconds = (let k = nat (- log_seconds);
      v = uint scale * 500000000 div 2 ^ (k - 1)
    in \<lparr>it_sec = v div 1000000000, it_nsec = v mod 1000000000\<rparr>)"
proof -
  let ?k = "nat (- log_seconds) - 1"
  have s: "uint scale < 2 ^ 32" using unsigned_less [of scale, where 'a=int] by simp
  have u: "uint (ucast scale * 500000000 :: u64) = uint scale * 500000000"
    using s by (simp add: uint_word_ariths unsigned_ucast_eq take_bit_int_eq_self)
  have v: "uint (drop_bit ?k (ucast scale * 500000000 :: u64)) = uint scale * 500000000 div 2 ^ ?k"
    by (simp only: uint_drop_bit_div u)
  have nn: "0 \<le> uint scale * 500000000 div 2 ^ ?k"
    by (simp add: pos_imp_zdiv_nonneg_iff)
  have "uint scale * 500000000 div 2 ^ ?k \<le> uint scale * 500000000"
    using zdiv_mono2 [of "uint scale * 500000000" 1 "2 ^ ?k"] by simp
  with s nn have "signed_take_bit 63 (uint scale * 500000000 div 2 ^ ?k) = uint scale * 500000000 div 2 ^ ?k"
    by (intro signed_take_bit_int_eq_self) simp_all
  then have "sint (drop_bit ?k (ucast scale * 500000000 :: u64)) = uint scale * 500000000 div 2 ^ ?k"
    by (simp only: sint_uint v) simp
  then show ?thesis
    using assms nn by (simp add: set_tmo_log_def halve_drop_bit carry_seconds_eq Let_def)
qed

lemma uint_shift_1: "k < 32 \<Longrightarrow> uint (push_bit k 1 :: u32) = 2 ^ k"
  using unsigned_push_bit_eq [of k "1 :: u32", where 'a=int]
  by (simp add: push_bit_eq_mult take_bit_int_eq_self)

lemma set_tmo_log_nonneg:
  assumes "0 \<le> log_seconds" "log_seconds < 31" "uint scale * 2 ^ nat log_seconds < 2 ^ 32"
  shows "it_sec (set_tmo_log scale log_seconds) = uint scale * 2 ^ nat log_seconds"
  using assms uint_shift_1 [of "nat log_seconds"]
  by (simp add: set_tmo_log_def uint_word_ariths del: push_bit_of_1)

text \<open>
  The logarithmic timer runs for scale * 2 ^ log_seconds seconds: rounded down to the
  nanosecond and split into seconds and a nanosecond part below one second when the exponent
  is negative, and exactly when it is not, as long as the product fits the 32 bit arithmetic
  of the code.
\<close>

lemma set_tmo_log_span:
  assumes "log_seconds < 31" "uint scale * 2 ^ nat log_seconds < 2 ^ 32"
  shows "timer_ns (set_tmo_log scale log_seconds) =
      uint scale * 2 ^ nat log_seconds * 1000000000 div 2 ^ nat (- log_seconds)
    \<and> it_nsec (set_tmo_log scale log_seconds) \<in> {0..<1000000000}"
proof (cases "log_seconds < 0")
  case True
  then obtain k where k: "nat (- log_seconds) = Suc k" "nat log_seconds = 0"
    by (cases "nat (- log_seconds)") auto
  have "uint scale * 1000000000 div 2 ^ Suc k = uint scale * 500000000 div 2 ^ k"
    using div_mult_mult1 [of 2 "uint scale * 500000000" "2 ^ k"] by (simp add: mult.assoc)
  then show ?thesis
    using True k by (simp add: set_tmo_log_neg timer_ns_def Let_def)
next
  case False
  then show ?thesis
    using set_tmo_log_nonneg assms by (simp add: timer_ns_def) (simp add: set_tmo_log_def)
qed

lemma set_tmo_log_span_witness:
  "timer_ns (set_tmo_log 3 (-1)) = 1500000000 \<and> timer_ns (set_tmo_log 3 4) = 48 * 1000000000"
  using set_tmo_log_span [of "-1" 3] set_tmo_log_span [of 4 3] by simp

text \<open>\<open>m\<close> seconds scaled by the power of two, in nanoseconds, rounded down.\<close>

definition tmo_ns :: "int \<Rightarrow> int \<Rightarrow> int" where
  "tmo_ns m log_seconds = m * 1000000000 * 2 ^ nat log_seconds div 2 ^ nat (- log_seconds)"

lemma tmo_ns_word:
  assumes "0 \<le> m" "tmo_ns m log_seconds < 2 ^ 48" "m < 2 ^ 31"
  shows "uint (if log_seconds \<ge> 0 then push_bit (nat log_seconds) (word_of_int m * NS_PER_SEC)
      else signed_drop_bit (nat (- log_seconds)) (word_of_int m * NS_PER_SEC) :: u64) = tmo_ns m log_seconds"
proof -
  let ?w = "word_of_int m * NS_PER_SEC :: u64"
  have m: "uint (word_of_int m :: u64) = m"
    using assms by (simp add: uint_word_of_int_eq take_bit_int_eq_self)
  have w: "uint ?w = m * 1000000000"
    using assms m by (simp add: NS_PER_SEC_def uint_word_ariths)
  show ?thesis
  proof (cases "0 \<le> log_seconds")
    case True
    then have "uint (push_bit (nat log_seconds) ?w) = take_bit 64 (m * 1000000000 * 2 ^ nat log_seconds)"
      using unsigned_push_bit_eq [of "nat log_seconds" ?w, where 'a=int] w by (simp add: push_bit_eq_mult)
    with True assms show ?thesis
      by (simp add: tmo_ns_def take_bit_int_eq_self)
  next
    case False
    have "sint ?w = m * 1000000000"
      using w assms by (simp add: sint_uint signed_take_bit_int_eq_self)
    then have "sint (signed_drop_bit (nat (- log_seconds)) ?w) = tmo_ns m log_seconds"
      using False by (simp add: sint_signed_drop_bit_eq drop_bit_eq_div tmo_ns_def)
    moreover have "0 \<le> tmo_ns m log_seconds"
      using assms by (simp add: tmo_ns_def pos_imp_zdiv_nonneg_iff)
    ultimately show ?thesis
      using False by (simp add: uint_sint take_bit_int_eq_self order.strict_trans [OF assms(2)])
  qed
qed

lemma timer_ns_split: "timer_ns \<lparr>it_sec = v div 1000000000, it_nsec = v mod 1000000000\<rparr> = v"
  by (simp add: timer_ns_def)

lemma random_fraction:
  assumes "0 \<le> s" "s < 2 ^ 48" "0 \<le> m" "m < 2 ^ 48"
    "uint (ms :: u64) = m" "uint (ss :: u64) = s"
  shows "uint (ms + drop_bit 15 (ss * (word_of_nat (rnd mod 2 ^ 15) + 1)))
    = m + s * int (rnd mod 2 ^ 15 + 1) div 2 ^ 15"
proof -
  let ?r = "rnd mod 2 ^ 15 + 1"
  have r: "?r \<le> 32768" by (simp add: Suc_leI)
  have q: "s * int ?r \<le> s * 32768"
    using assms(1) r by (intro mult_left_mono) simp_all
  have w: "word_of_nat (rnd mod 2 ^ 15) + 1 = (word_of_nat ?r :: u64)" by simp
  have u: "uint (word_of_nat ?r :: u64) = int ?r"
    using r by (simp only: uint_nat unat_of_nat) simp
  have p: "uint (ss * word_of_nat ?r) = s * int ?r"
    using q assms by (simp only: uint_word_ariths u assms(6)) simp
  have d: "uint (drop_bit 15 (ss * word_of_nat ?r)) = s * int ?r div 2 ^ 15"
    by (simp only: uint_drop_bit_div p)
  have le: "s * int ?r div 2 ^ 15 \<le> s" and nn: "0 \<le> s * int ?r div 2 ^ 15"
    using q assms(1) by (auto simp: pos_imp_zdiv_nonneg_iff intro: zdiv_mono1 [of _ "s * 32768" 32768, simplified])
  show ?thesis
    unfolding w using assms le nn by (simp only: uint_word_ariths d assms(5)) simp
qed

text \<open>
  The random timer adds to the scaled minimum a share of the scaled span: its value lies
  between the minimum and the sum of both, never above it, and the nanosecond part is below
  one second. The bounds of 2 ^ 48 nanoseconds (three days) keep the 64 bit product of the
  code from wrapping; the announce receipt timeout is below them.
\<close>

lemma set_tmo_random_span:
  assumes "0 \<le> mn" "mn < 2 ^ 31" "0 \<le> span" "span < 2 ^ 31"
    "tmo_ns mn log_seconds < 2 ^ 48" "tmo_ns span log_seconds < 2 ^ 48"
  shows "timer_ns (set_tmo_random rnd mn span log_seconds)
      = tmo_ns mn log_seconds + tmo_ns span log_seconds * int (rnd mod 2 ^ 15 + 1) div 2 ^ 15
    \<and> timer_ns (set_tmo_random rnd mn span log_seconds)
      \<in> {tmo_ns mn log_seconds .. tmo_ns mn log_seconds + tmo_ns span log_seconds}
    \<and> it_nsec (set_tmo_random rnd mn span log_seconds) \<in> {0..<1000000000}"
proof -
  have nn: "0 \<le> tmo_ns mn log_seconds" "0 \<le> tmo_ns span log_seconds"
    using assms by (simp_all add: tmo_ns_def pos_imp_zdiv_nonneg_iff)
  define v where "v = tmo_ns mn log_seconds + tmo_ns span log_seconds * int (rnd mod 2 ^ 15 + 1) div 2 ^ 15"
  have t: "set_tmo_random rnd mn span log_seconds = \<lparr>it_sec = v div 1000000000, it_nsec = v mod 1000000000\<rparr>"
    unfolding set_tmo_random_def Let_def v_def
    by (simp only: uint_div uint_mod
        random_fraction [OF nn(2) assms(6) nn(1) assms(5)
          tmo_ns_word [OF assms(1,5,2)] tmo_ns_word [OF assms(3,6,4)]])
      (simp add: NS_PER_SEC_def)
  have "tmo_ns span log_seconds * int (rnd mod 2 ^ 15 + 1) \<le> tmo_ns span log_seconds * 32768"
    using nn(2) by (intro mult_left_mono) (simp_all add: Suc_leI)
  then have "tmo_ns span log_seconds * int (rnd mod 2 ^ 15 + 1) div 2 ^ 15 \<le> tmo_ns span log_seconds"
    using zdiv_mono1 [of _ "tmo_ns span log_seconds * 32768" 32768] by fastforce
  moreover have "0 \<le> tmo_ns span log_seconds * int (rnd mod 2 ^ 15 + 1) div 2 ^ 15"
    using nn(2) by (simp add: pos_imp_zdiv_nonneg_iff)
  ultimately show ?thesis
    unfolding t timer_ns_split by (simp add: v_def)
qed

lemma set_tmo_random_span_witness:
  "timer_ns (set_tmo_random 16383 3 1 1) = 7000000000"
  using set_tmo_random_span [of 3 1 1 16383] by (simp add: tmo_ns_def)

end
