(* ===== verification/ForeignMaster.thy ===== *)
theory ForeignMaster
  imports Bmc Tmv
begin

text \<open>
  Messages as the port code sees them after reception, reference counts, and the foreign
  master records of a port (\<open>struct foreign_clock\<close>) with the operations of src/ptpPort.c that
  age them: \<open>msg_current\<close>, \<open>fc_clear\<close>, \<open>fc_prune\<close>, \<open>announce_to_dataset\<close>, and the comparisons
  \<open>__announceCompare\<close> and \<open>__msgSourceEqual\<close> of src/ptpPortMsgOrdinary.c.
\<close>

subsection \<open>Messages\<close>

text \<open>
  \<open>struct ptp_message\<close> in host byte order, with the fields the port code reads. \<open>mid\<close> stands
  for the address of the buffer, by which references are counted; \<open>m_tlvs\<close> is the list of the
  message's TLVs, each with the clock identities its bytes hold when they are read as a path
  trace, and whether its type is \<open>TLV_PATH_TRACE\<close>, and \<open>m_slack\<close> the bytes of the suffix, fewer
  than four, behind the last TLV; \<open>fup_info\<close> is what
  \<open>_followUpInfoExtract\<close> finds among the TLVs, \<open>nsm_req\<close> says whether there is a
  \<open>TLV_PTPMON_REQ\<close> among them.
\<close>

record follow_up_info =
  cumulativeScaledRateOffset :: i32
  gmTimeBaseIndicator :: u16
  lastGmPhaseChange :: "u16 \<times> u64 \<times> u16"
  scaledLastGmPhaseChange :: i32

datatype message_tlv = PathTrace (tlv_cids: "ClockIdentity list") | OtherTlv (tlv_cids: "ClockIdentity list")

record ptp_message =
  mid :: nat
  tsmt :: u8
  ver :: u8
  messageLength :: u16
  domainNumber :: u8
  flagField0 :: u8
  flagField1 :: u8
  correction :: i64
  sourcePortIdentity :: PortIdentity
  sequenceId :: u16
  control :: u8
  logMessageInterval :: i8
  currentUtcOffset :: i16
  grandmasterPriority1 :: u8
  grandmasterClockQuality :: ClockQuality
  grandmasterPriority2 :: u8
  grandmasterIdentity :: ClockIdentity
  a_stepsRemoved :: u16
  timeSource :: u8
  m_tlvs :: "message_tlv list"
  m_slack :: "u8 list"
  fup_info :: "follow_up_info option"
  nsm_req :: bool
  requestingPortIdentity :: PortIdentity
  m_address :: "u8 list"
  ts_pdu :: LocalTimeStamp
  ts_host :: timespec
  hwts_ts :: tmv_t
  hwts_sw :: tmv_t

definition zero_cid :: ClockIdentity where "zero_cid = ClockIdentity 0 0 0 0 0 0 0 0"

definition zero_pid :: PortIdentity where "zero_pid = \<lparr>clockIdentity = zero_cid, portNumber = 0\<rparr>"

text \<open>A buffer as \<open>msg_allocate\<close> hands it out, filled with zeros.\<close>

definition zero_msg :: "nat \<Rightarrow> ptp_message" where
  "zero_msg i = \<lparr>mid = i, tsmt = 0, ver = 0, messageLength = 0, domainNumber = 0, flagField0 = 0, flagField1 = 0,
    correction = 0, sourcePortIdentity = zero_pid, sequenceId = 0, control = 0, logMessageInterval = 0,
    currentUtcOffset = 0, grandmasterPriority1 = 0,
    grandmasterClockQuality = \<lparr>clockClass = 0, clockAccuracy = 0, offsetScaledLogVariance = 0\<rparr>,
    grandmasterPriority2 = 0, grandmasterIdentity = zero_cid, a_stepsRemoved = 0, timeSource = 0,
    m_tlvs = [], m_slack = [], fup_info = None, nsm_req = False, requestingPortIdentity = zero_pid,
    m_address = [], ts_pdu = \<lparr>sec = 0, nsec = 0\<rparr>, ts_host = \<lparr>tv_sec = 0, tv_nsec = 0\<rparr>,
    hwts_ts = tmv_zero, hwts_sw = tmv_zero\<rparr>"

text \<open>
  The reference counts of the message buffers, as a port takes and releases them: a buffer in
  the pool has none, so the count of one that \<open>msg_allocate\<close> sets is one more. A count can go
  below zero, as the int \<open>refcnt\<close> of the code can.
\<close>

type_synonym refs = "nat \<Rightarrow> int"

definition msg_allocate :: "nat \<Rightarrow> refs \<Rightarrow> refs" where
  "msg_allocate i r = r(i := r i + 1)"

definition msg_get :: "ptp_message \<Rightarrow> refs \<Rightarrow> refs" where
  "msg_get m r = r(mid m := r (mid m) + 1)"

definition msg_put :: "ptp_message \<Rightarrow> refs \<Rightarrow> refs" where
  "msg_put m r = r(mid m := r (mid m) - 1)"

text \<open>A buffer that is released by the operation that allocated it leaves the counts as they were.\<close>

lemma mid_zero_msg [simp]: "mid (zero_msg i) = i"
  by (simp add: zero_msg_def)

lemma allocate_put [simp]:
  "mid m = i \<Longrightarrow> msg_put m (msg_allocate i r) = r"
  "mid m = i \<Longrightarrow> mid f = j \<Longrightarrow> msg_put f (msg_put m (msg_allocate j (msg_allocate i r))) = r"
  by (auto simp: msg_put_def msg_allocate_def fun_eq_iff)

lemma allocate_is_get: "mid m = i \<Longrightarrow> msg_allocate i r = msg_get m r"
  by (simp add: msg_allocate_def msg_get_def)

lemma put_allocate: "mid m = i \<Longrightarrow> msg_put old (msg_allocate i r) = msg_get m (msg_put old r)"
  by (auto simp: msg_put_def msg_allocate_def msg_get_def fun_eq_iff)

text \<open>Releasing the messages of a list one after the other.\<close>

fun put_all :: "ptp_message list \<Rightarrow> refs \<Rightarrow> refs" where
  "put_all [] r = r"
| "put_all (m # ms) r = put_all ms (msg_put m r)"

definition held_count :: "ptp_message list \<Rightarrow> nat \<Rightarrow> int" where
  "held_count ms i = int (length (filter (\<lambda>m. mid m = i) ms))"

lemma held_count_simps [simp]:
  "held_count [] i = 0"
  "held_count (m # ms) i = (if mid m = i then 1 else 0) + held_count ms i"
  "held_count (xs @ ys) i = held_count xs i + held_count ys i"
  by (simp_all add: held_count_def)

lemma held_count_nonneg [simp]: "0 \<le> held_count ms i"
  by (simp add: held_count_def)

lemma msg_get_apply [simp]: "msg_get m r i = r i + held_count [m] i"
  by (simp add: msg_get_def)

lemma msg_put_apply [simp]: "msg_put m r i = r i - held_count [m] i"
  by (simp add: msg_put_def)

lemma put_all_apply [simp]: "put_all ms r i = r i - held_count ms i"
  by (induction ms arbitrary: r) simp_all

lemma held_count_butlast:
  "ms \<noteq> [] \<Longrightarrow> held_count (butlast ms) i = held_count ms i - (if mid (last ms) = i then 1 else 0)"
  using held_count_simps(3) [of "butlast ms" "[last ms]" i] by simp

subsection \<open>Foreign master records\<close>

text \<open>\<open>n_messages\<close> is maintained beside the queue; the head of the list is the newest message.\<close>

record foreign_clock =
  messages :: "ptp_message list"
  n_messages :: nat
  fc_dataset :: dataset

abbreviation (input) FOREIGN_MASTER_THRESHOLD :: nat where "FOREIGN_MASTER_THRESHOLD \<equiv> 2"

definition announce_to_dataset :: "ptp_message \<Rightarrow> u8 \<Rightarrow> PortIdentity \<Rightarrow> dataset" where
  "announce_to_dataset m port_localPriority portIdentity =
    \<lparr>priority1 = grandmasterPriority1 m, identity = grandmasterIdentity m,
     quality = grandmasterClockQuality m, priority2 = grandmasterPriority2 m,
     localPriority = port_localPriority, stepsRemoved = a_stepsRemoved m,
     sender = sourcePortIdentity m, receiver = portIdentity\<rparr>"

definition NSEC2SEC :: i64 where "NSEC2SEC = 1000000000"

text \<open>
  \<open>1 << n\<close> on the 32 bit int. The count is undefined in C from 32 on (and the sign bit is
  reached at 31); the model takes its low five bits, as the 32 bit shift instructions do.
\<close>

definition int_shl1 :: "nat \<Rightarrow> i32" where
  "int_shl1 n = push_bit (n mod 32) 1"

definition msg_current :: "ptp_message \<Rightarrow> timespec \<Rightarrow> bool" where
  "msg_current m now =
    (let h = ts_host m;
         s1 = tv_sec h * NSEC2SEC + tv_nsec h;
         s2 = tv_sec now * NSEC2SEC + tv_nsec now;
         l = sint (logMessageInterval m);
         tmo = (if l < -63 then 0
                else if l > 31 then 2 ^ 63 - 1
                else if l < 0 then (4 * 1000000000) sdiv sint (int_shl1 (nat (- l)))
                else sint (4 * scast (int_shl1 (nat l)) * NSEC2SEC :: i64))
     in sint (s2 - s1) < tmo)"

text \<open>The loop of \<open>fc_clear\<close> counts \<open>n_messages\<close> down and takes messages from the tail.\<close>

fun fc_clear_loop :: "nat \<Rightarrow> ptp_message list \<Rightarrow> refs \<Rightarrow> ptp_message list \<times> refs" where
  "fc_clear_loop 0 ms r = (ms, r)"
| "fc_clear_loop (Suc n) ms r = fc_clear_loop n (butlast ms) (msg_put (last ms) r)"

definition fc_clear :: "foreign_clock \<Rightarrow> refs \<Rightarrow> foreign_clock \<times> refs" where
  "fc_clear fc r = (let (ms, r) = fc_clear_loop (n_messages fc) (messages fc) r
     in (fc\<lparr>messages := ms, n_messages := 0\<rparr>, r))"

text \<open>The first loop of \<open>fc_prune\<close> bounds the number of messages.\<close>

fun fc_prune_count :: "nat \<Rightarrow> ptp_message list \<Rightarrow> refs \<Rightarrow> nat \<times> ptp_message list \<times> refs" where
  "fc_prune_count 0 ms r = (0, ms, r)"
| "fc_prune_count (Suc n) ms r =
    (if Suc n > FOREIGN_MASTER_THRESHOLD
     then fc_prune_count n (butlast ms) (msg_put (last ms) r)
     else (Suc n, ms, r))"

text \<open>The second removes the messages that have expired, from the oldest.\<close>

function fc_prune_old :: "timespec \<Rightarrow> nat \<Rightarrow> ptp_message list \<Rightarrow> refs \<Rightarrow> nat \<times> ptp_message list \<times> refs" where
  "fc_prune_old now n ms r =
    (if ms = [] \<or> msg_current (last ms) now then (n, ms, r)
     else fc_prune_old now (n - 1) (butlast ms) (msg_put (last ms) r))"
  by pat_completeness auto
termination
  by (relation "measure (\<lambda>(now, n, ms, r). length ms)") auto

declare fc_prune_old.simps [simp del]

definition fc_prune :: "timespec \<Rightarrow> foreign_clock \<Rightarrow> refs \<Rightarrow> foreign_clock \<times> refs" where
  "fc_prune now fc r =
    (let (n, ms, r) = fc_prune_count (n_messages fc) (messages fc) r;
         (n, ms, r) = fc_prune_old now n ms r
     in (fc\<lparr>messages := ms, n_messages := n\<rparr>, r))"

text \<open>
  The bytes of the announce message from \<open>grandmasterPriority1\<close> on that \<open>__announceCompare\<close>
  compares; only whether the result is zero is used.
\<close>

definition u16_bytes :: "u16 \<Rightarrow> u8 list" where
  "u16_bytes x = [ucast x, ucast (drop_bit 8 x)]"

definition announce_bytes :: "ptp_message \<Rightarrow> u8 list" where
  "announce_bytes m = [grandmasterPriority1 m, clockClass (grandmasterClockQuality m),
     clockAccuracy (grandmasterClockQuality m)]
    @ u16_bytes (offsetScaledLogVariance (grandmasterClockQuality m))
    @ [grandmasterPriority2 m] @ octets (grandmasterIdentity m) @ u16_bytes (a_stepsRemoved m)"

definition announceCompare :: "ptp_message \<Rightarrow> ptp_message \<Rightarrow> int" where
  "announceCompare m1 m2 = memcmp (announce_bytes m1) (announce_bytes m2)"

definition msgSourceEqual :: "ptp_message \<Rightarrow> foreign_clock \<Rightarrow> bool" where
  "msgSourceEqual m fc \<longleftrightarrow>
    memcmp (pid_bytes (sourcePortIdentity m)) (pid_bytes (sender (fc_dataset fc))) = 0"

subsection \<open>Facts\<close>

lemma msgSourceEqual_iff: "msgSourceEqual m fc \<longleftrightarrow> sourcePortIdentity m = sender (fc_dataset fc)"
  by (simp add: msgSourceEqual_def)

text \<open>The counter agrees with the queue, and all messages are from the sender of the record.\<close>

definition fc_wf :: "foreign_clock \<Rightarrow> bool" where
  "fc_wf fc \<longleftrightarrow> n_messages fc = length (messages fc)
    \<and> (\<forall>m \<in> set (messages fc). sourcePortIdentity m = sender (fc_dataset fc))"

lemma fc_clear_loop_eq:
  "fc_clear_loop (length ms) ms r = ([], snd (fc_clear_loop (length ms) ms r))
    \<and> snd (fc_clear_loop (length ms) ms r) i = r i - held_count ms i"
proof (induction "length ms" arbitrary: ms r)
  case (Suc n)
  then have "ms \<noteq> []" "n = length (butlast ms)" by auto
  moreover have "fc_clear_loop (length ms) ms r = fc_clear_loop n (butlast ms) (msg_put (last ms) r)"
    using Suc(2) by (simp flip: Suc(2))
  ultimately show ?case
    using Suc(1) [of "butlast ms" "msg_put (last ms) r"] by (simp add: held_count_butlast)
qed simp

lemma fc_clear_wf:
  assumes "fc_wf fc"
  shows "fst (fc_clear fc r) = fc\<lparr>messages := [], n_messages := 0\<rparr>"
    "snd (fc_clear fc r) i = r i - held_count (messages fc) i"
    "fc_wf (fst (fc_clear fc r))"
  using assms fc_clear_loop_eq [of "messages fc" r i]
  by (auto simp: fc_clear_def fc_wf_def split: prod.splits)

lemma fc_prune_count_eq:
  "fc_prune_count (length ms) ms r = (min 2 (length ms), take 2 ms, snd (snd (fc_prune_count (length ms) ms r)))
    \<and> snd (snd (fc_prune_count (length ms) ms r)) i = r i - held_count (drop 2 ms) i"
proof (induction "length ms" arbitrary: ms r)
  case 0
  then show ?case by (simp flip: 0)
next
  case (Suc n)
  have e: "fc_prune_count (length ms) ms r = (if Suc n > 2
     then fc_prune_count n (butlast ms) (msg_put (last ms) r) else (Suc n, ms, r))"
    by (simp flip: Suc(2))
  show ?case
  proof (cases "Suc n > 2")
    case True
    have ne: "ms \<noteq> []" and n: "n = length (butlast ms)" using Suc(2) by auto
    obtain x ys where ms: "ms = ys @ [x]" using ne by (metis append_butlast_last_id)
    have d: "drop 2 ms = drop 2 (butlast ms) @ [last ms]" "take 2 (butlast ms) = take 2 ms"
      using True Suc(2) by (simp_all add: ms)
    show ?thesis
      using Suc(1) [OF n, of "msg_put (last ms) r"] True e n Suc(2) d by simp
  next
    case False
    then show ?thesis using e Suc(2) by simp
  qed
qed

lemma fc_prune_old_eq:
  assumes "fc_prune_old now (length ms) ms r = (n', ms', r')"
  shows "\<exists>k. ms' = take k ms \<and> n' = length ms' \<and> (\<forall>m \<in> set (drop k ms). \<not> msg_current m now)
    \<and> (ms' \<noteq> [] \<longrightarrow> msg_current (last ms') now) \<and> (\<forall>i. r' i = r i - held_count (drop k ms) i)"
  using assms
proof (induction now "length ms" ms r rule: fc_prune_old.induct)
  case (1 now ms r)
  show ?case
  proof (cases "ms = [] \<or> msg_current (last ms) now")
    case True
    then have "fc_prune_old now (length ms) ms r = (length ms, ms, r)"
      by (simp add: fc_prune_old.simps [of now _ ms])
    with 1(2) have "n' = length ms" "ms' = ms" "r' = r" by auto
    then show ?thesis using True by (intro exI [of _ "length ms"]) auto
  next
    case False
    then have "fc_prune_old now (length (butlast ms)) (butlast ms) (msg_put (last ms) r) = (n', ms', r')"
      using 1(2) by (simp add: fc_prune_old.simps [of now _ ms])
    from 1(1) [OF False _ this]
    have "\<exists>k. ms' = take k (butlast ms) \<and> n' = length ms'
      \<and> (\<forall>m \<in> set (drop k (butlast ms)). \<not> msg_current m now)
      \<and> (ms' \<noteq> [] \<longrightarrow> msg_current (last ms') now)
      \<and> (\<forall>i. r' i = msg_put (last ms) r i - held_count (drop k (butlast ms)) i)"
      by (simp del: msg_put_apply)
    then obtain k where
      k: "ms' = take k (butlast ms)" "n' = length ms'" "\<forall>m \<in> set (drop k (butlast ms)). \<not> msg_current m now"
        "ms' \<noteq> [] \<longrightarrow> msg_current (last ms') now"
        "\<forall>i. r' i = msg_put (last ms) r i - held_count (drop k (butlast ms)) i"
      by blast
    define j where "j = min k (length ms - 1)"
    obtain x ys where ms: "ms = ys @ [x]" using False by (metis append_butlast_last_id)
    have j: "drop j ms = drop k (butlast ms) @ [last ms]" "take j ms = take k (butlast ms)"
      unfolding j_def ms by (simp_all add: min_def)
    have "\<not> msg_current (last ms) now" using False by simp
    with k j show ?thesis
      by (intro exI [of _ j]) simp
  qed
qed

text \<open>
  What pruning does to a well-formed record: it keeps a prefix of at most two messages, drops
  only expired ones beyond the first two, ends with a current one, and gives back exactly the
  references it drops.
\<close>

lemma fc_prune_wf:
  assumes "fc_wf fc" "fc_prune now fc r = (fc', r')"
  obtains k where "messages fc' = take k (take 2 (messages fc))" "n_messages fc' = length (messages fc')"
    "fc_dataset fc' = fc_dataset fc" "fc_wf fc'"
    "\<forall>m \<in> set (drop k (take 2 (messages fc))). \<not> msg_current m now"
    "messages fc' \<noteq> [] \<longrightarrow> msg_current (last (messages fc')) now"
    "\<forall>i. r' i - held_count (messages fc') i = r i - held_count (messages fc) i"
proof -
  let ?ms = "messages fc"
  obtain r1 where c: "fc_prune_count (length ?ms) ?ms r = (min 2 (length ?ms), take 2 ?ms, r1)"
    "\<And>i. r1 i = r i - held_count (drop 2 ?ms) i"
    using fc_prune_count_eq [of ?ms r] by (metis prod.collapse snd_conv)
  obtain n' ms' r2 where o: "fc_prune_old now (length (take 2 ?ms)) (take 2 ?ms) r1 = (n', ms', r2)"
    by (metis prod.collapse)
  from fc_prune_old_eq [OF o] obtain k where k: "ms' = take k (take 2 ?ms)" "n' = length ms'"
    "\<forall>m \<in> set (drop k (take 2 ?ms)). \<not> msg_current m now"
    "ms' \<noteq> [] \<longrightarrow> msg_current (last ms') now"
    "\<forall>i. r2 i = r1 i - held_count (drop k (take 2 ?ms)) i" by blast
  have f: "fc' = fc\<lparr>messages := ms', n_messages := n'\<rparr>" "r' = r2"
    using assms c o by (simp_all add: fc_prune_def fc_wf_def min.commute)
  have h: "held_count ?ms i = held_count ms' i + held_count (drop k (take 2 ?ms)) i
      + held_count (drop 2 ?ms) i" for i
    unfolding k(1) using append_take_drop_id [of 2 ?ms] append_take_drop_id [of k "take 2 ?ms"]
    by (metis held_count_simps(3))
  have "set ms' \<subseteq> set ?ms" unfolding k(1) by (meson order_trans set_take_subset)
  then have "fc_wf fc'" using assms(1) f k(2) by (auto simp: fc_wf_def)
  then show ?thesis
    using that [of k] k f h c(2) by simp
qed

end
