(* ===== verification/ClockData.thy ===== *)
theory ClockData
  imports ForeignMaster
begin

text \<open>
  The data sets of the clock, \<open>struct PtpClock\<close> of src/clockPrivate.h as far as the best
  master clock algorithm writes them: default, current, parent and time properties data
  sets, and their update when the clock becomes grandmaster or slave (src/ptpClockPoll.c)
  and the default data set offered for comparison (src/ptpClock.c).
\<close>

text \<open>
  \<open>ptl\<close> holds the \<open>path_length\<close> identities of the path trace list that are valid. Members of
  type int keep their value as an int.
\<close>

record ClockData =
  dds_slave_only :: bool
  dds_priority1 :: u8
  dds_clockQuality :: ClockQuality
  dds_priority2 :: u8
  dds_clockIdentity :: ClockIdentity
  dds_domainNumber :: u8
  grand_master_capable :: bool
  default_localPriority :: u8
  cur_stepsRemoved :: u16
  cur_offsetFromMaster :: i64
  cur_meanPathDelay :: i64
  pds_parentPortIdentity :: PortIdentity
  pds_grandmasterPriority1 :: u8
  pds_grandmasterClockQuality :: ClockQuality
  pds_grandmasterPriority2 :: u8
  pds_grandmasterIdentity :: ClockIdentity
  ptl :: "ClockIdentity list"
  tds_currentUtcOffset :: i16
  tds_flags :: u8
  tds_timeSource :: u8
  utc_offset :: int
  time_flags :: int
  time_source :: int
  status_fui :: follow_up_info

definition clock_default_ds :: "ClockData \<Rightarrow> dataset" where
  "clock_default_ds c =
    \<lparr>priority1 = dds_priority1 c, identity = dds_clockIdentity c, quality = dds_clockQuality c,
     priority2 = dds_priority2 c, localPriority = default_localPriority c, stepsRemoved = 0,
     sender = \<lparr>clockIdentity = dds_clockIdentity c, portNumber = 0\<rparr>,
     receiver = \<lparr>clockIdentity = dds_clockIdentity c, portNumber = 0\<rparr>\<rparr>"

definition clock_class :: "ClockData \<Rightarrow> u8" where
  "clock_class c = clockClass (dds_clockQuality c)"

definition clock_update_grandmaster :: "ClockData \<Rightarrow> ClockData" where
  "clock_update_grandmaster c =
    c\<lparr>cur_stepsRemoved := 0, cur_offsetFromMaster := 0, cur_meanPathDelay := 0,
      ptl := [],
      pds_parentPortIdentity := \<lparr>clockIdentity = dds_clockIdentity c, portNumber = 0\<rparr>,
      pds_grandmasterIdentity := dds_clockIdentity c,
      pds_grandmasterClockQuality := dds_clockQuality c,
      pds_grandmasterPriority1 := dds_priority1 c,
      pds_grandmasterPriority2 := dds_priority2 c,
      tds_currentUtcOffset := word_of_int (utc_offset c),
      tds_flags := word_of_int (time_flags c),
      tds_timeSource := word_of_int (time_source c)\<rparr>"

abbreviation UTC_OFF_VALID :: u8 where "UTC_OFF_VALID \<equiv> 4"
abbreviation TIME_TRACEABLE :: u8 where "TIME_TRACEABLE \<equiv> 16"

text \<open>
  \<open>clock_update_slave\<close> from the best foreign record: its data set and its newest message.
\<close>

definition clock_update_slave :: "dataset \<Rightarrow> ptp_message \<Rightarrow> ClockData \<Rightarrow> ClockData" where
  "clock_update_slave best_ds msg c =
    (let c = c\<lparr>cur_stepsRemoved := 1 + stepsRemoved best_ds,
        pds_parentPortIdentity := sender best_ds,
        pds_grandmasterIdentity := grandmasterIdentity msg,
        pds_grandmasterClockQuality := grandmasterClockQuality msg,
        pds_grandmasterPriority1 := grandmasterPriority1 msg,
        pds_grandmasterPriority2 := grandmasterPriority2 msg,
        tds_currentUtcOffset := currentUtcOffset msg,
        tds_flags := flagField1 msg,
        tds_timeSource := timeSource msg\<rparr>
     in if tds_flags c AND UTC_OFF_VALID \<noteq> 0 \<and> tds_flags c AND TIME_TRACEABLE \<noteq> 0
          \<or> sint (tds_currentUtcOffset c) > utc_offset c
        then c\<lparr>utc_offset := sint (tds_currentUtcOffset c)\<rparr>
        else c)"

text \<open>The members of \<open>status\<close> that a follow up information TLV overwrites.\<close>

definition clock_follow_up_info :: "follow_up_info \<Rightarrow> ClockData \<Rightarrow> ClockData" where
  "clock_follow_up_info f c = c\<lparr>status_fui := f\<rparr>"

definition clock_update_time_properties :: "i16 \<Rightarrow> u8 \<Rightarrow> u8 \<Rightarrow> ClockData \<Rightarrow> ClockData" where
  "clock_update_time_properties off flags src c =
    c\<lparr>tds_currentUtcOffset := off, tds_flags := flags, tds_timeSource := src\<rparr>"

text \<open>The default data set is never received by a port, so it is not disturbed by "error-1".\<close>

lemma clock_default_ds_no_error1 [simp]: "no_error1 (clock_default_ds c)"
  by (simp add: no_error1_def clock_default_ds_def)

lemma clock_default_ds_sel [simp]:
  "identity (clock_default_ds c) = dds_clockIdentity c"
  "stepsRemoved (clock_default_ds c) = 0"
  by (simp_all add: clock_default_ds_def)

end
