(* ===== verification/UnicastTable.thy ===== *)
theory UnicastTable
  imports PtpTypes
begin

text \<open>
  The table of unicast masters of a port and the state machine of its entries
  (src/unicast_client.c \<open>unicast_fsm\<close>, \<open>unicast_client_state_changed\<close>; the structures are in
  include/ptpImplements.h).
\<close>

datatype unicast_state = UC_WAIT | UC_HAVE_ANN | UC_NEED_SYDY | UC_HAVE_SYDY

datatype unicast_event = UC_EV_GRANT_ANN | UC_EV_SELECTED | UC_EV_GRANT_SYDY | UC_EV_UNSELECTED | UC_EV_CANCEL

definition unicast_fsm :: "unicast_state \<Rightarrow> unicast_event \<Rightarrow> unicast_state" where
  "unicast_fsm state ev = (case state of
      UC_WAIT \<Rightarrow> (case ev of
        UC_EV_GRANT_ANN \<Rightarrow> UC_HAVE_ANN
      | _ \<Rightarrow> state)
    | UC_HAVE_ANN \<Rightarrow> (case ev of
        UC_EV_SELECTED \<Rightarrow> UC_NEED_SYDY
      | UC_EV_CANCEL \<Rightarrow> UC_WAIT
      | _ \<Rightarrow> state)
    | UC_NEED_SYDY \<Rightarrow> (case ev of
        UC_EV_GRANT_SYDY \<Rightarrow> UC_HAVE_SYDY
      | UC_EV_UNSELECTED \<Rightarrow> UC_HAVE_ANN
      | UC_EV_CANCEL \<Rightarrow> UC_WAIT
      | _ \<Rightarrow> state)
    | UC_HAVE_SYDY \<Rightarrow> (case ev of
        UC_EV_UNSELECTED \<Rightarrow> UC_HAVE_ANN
      | UC_EV_CANCEL \<Rightarrow> UC_WAIT
      | _ \<Rightarrow> state))"

text \<open>
  An entry of the table. Transport addresses are byte strings; \<open>granted\<close> and \<open>sydymsk\<close> are
  masks indexed by message type.
\<close>

record unicast_master_address =
  uc_portIdentity :: PortIdentity
  uc_type :: nat
  uc_state :: unicast_state
  uc_address :: "u8 list"
  granted :: u32
  sydymsk :: u32
  renewal_tmo :: int

record unicast_master_table =
  addrs :: "unicast_master_address list"
  logQueryInterval :: i8
  peer_addr :: unicast_master_address
  has_peer :: bool

definition unicast_select :: "PortIdentity \<Rightarrow> unicast_master_address \<Rightarrow> unicast_master_address" where
  "unicast_select pid ucma =
    (if pid_eq (uc_portIdentity ucma) pid
     then ucma\<lparr>uc_state := unicast_fsm (uc_state ucma) UC_EV_SELECTED\<rparr>
     else ucma\<lparr>uc_state := unicast_fsm (uc_state ucma) UC_EV_UNSELECTED\<rparr>)"

text \<open>
  \<open>pid\<close> is the parent port identity of the clock, \<^const>\<open>None\<close> a port without a table.
\<close>

definition unicast_client_state_changed ::
  "PortIdentity \<Rightarrow> unicast_master_table option \<Rightarrow> unicast_master_table option" where
  "unicast_client_state_changed pid table = (case table of
      None \<Rightarrow> None
    | Some t \<Rightarrow> Some (t\<lparr>addrs := map (unicast_select pid) (addrs t)\<rparr>))"

subsection \<open>Facts\<close>

definition uc_subscribed :: "unicast_state \<Rightarrow> bool" where
  "uc_subscribed s \<longleftrightarrow> s = UC_NEED_SYDY \<or> s = UC_HAVE_SYDY"

lemma unicast_select_other: "uc_portIdentity u \<noteq> pid \<Longrightarrow> \<not> uc_subscribed (uc_state (unicast_select pid u))"
  by (cases "uc_state u") (simp_all add: unicast_select_def unicast_fsm_def uc_subscribed_def)

lemma unicast_select_portIdentity [simp]: "uc_portIdentity (unicast_select pid u) = uc_portIdentity u"
  by (simp add: unicast_select_def)

lemma unicast_select_parent:
  "uc_portIdentity u = pid \<Longrightarrow> uc_state u \<noteq> UC_WAIT \<Longrightarrow> uc_subscribed (uc_state (unicast_select pid u))"
  by (cases "uc_state u") (simp_all add: unicast_select_def unicast_fsm_def uc_subscribed_def)

lemma unicast_client_state_changed_None [simp]: "unicast_client_state_changed pid None = None"
  by (simp add: unicast_client_state_changed_def)

lemma state_changed_subscribed:
  assumes "unicast_client_state_changed pid (Some t) = Some t'" "u \<in> set (addrs t')"
  shows "uc_subscribed (uc_state u) \<Longrightarrow> uc_portIdentity u = pid"
  using assms unicast_select_other by (fastforce simp: unicast_client_state_changed_def)

end
