(* ===== verification/Port.thy ===== *)
theory Port
  imports ForeignMaster PortFsm UnicastTable Timers Tsproc
begin

text \<open>
  The state of a port, \<open>struct PtpPort\<close> of src/portPrivate.h, and the operations that release
  or set up its resources: the flush functions, \<open>port_nrate_initialize\<close>, the timers and
  \<open>port_capable\<close> of src/ptpPort.c, \<open>port_initialize\<close> of src/ptpPortInit.c and
  \<open>portOpDisable\<close> of src/ptpPortStates.c.
\<close>

subsection \<open>State\<close>

datatype FD = FD_EVENT | FD_GENERAL | FD_DELAY_TIMER | FD_ANNOUNCE_TIMER | FD_SYNC_RX_TIMER
  | FD_QUALIFICATION_TIMER | FD_MANNO_TIMER | FD_SYNC_TX_TIMER | FD_UNICAST_REQ_TIMER
  | FD_UNICAST_SRV_TIMER | FD_RTNL

datatype delay_mechanism = DM_AUTO | DM_E2E | DM_P2P

datatype fault_type = FT_UNSPECIFIED | FT_BAD_PEER_NETWORK | FT_SWITCH_PHC

datatype fault_tmo_type = FTMO_LINEAR_SECONDS | FTMO_LOG2_SECONDS

datatype timestamp_type = TS_SOFTWARE | TS_HARDWARE | TS_LEGACY_HW | TS_ONESTEP | TS_P2P1STEP

record fault_interval =
  fi_type :: fault_tmo_type
  fi_val :: int

datatype SyncFollowupState = SF_EMPTY | SF_HAVE_SYNC | SF_HAVE_FUP

record tc_txd =
  txd_msg :: ptp_message
  residence :: tmv_t
  ingress_port :: nat

text \<open>
  \<open>best\<close> points into \<open>foreign_masters\<close>; a record is addressed by the identity of its sender,
  which no two records of a port share. An open timer is a descriptor with its setting,
  \<^const>\<open>None\<close> a closed one; \<open>trp_open\<close> says whether the sockets are open. \<open>refs\<close> are the
  reference counts of the messages the port handles. \<open>p_config\<close> answers \<open>config_get_int\<close> for
  the port. The members of the structure that only serve input, output and
  statistics are left out.
\<close>

record 'd PtpPort =
  portIdentity :: PortIdentity
  state :: PORT_STATE
  slave_fsm :: bool
  p_config :: "string \<Rightarrow> int"
  jbod :: bool
  best :: "PortIdentity option"
  foreign_masters :: "foreign_clock list"
  syfu :: SyncFollowupState
  last_syncfup :: ptp_message
  delay_req :: "ptp_message list"
  peer_delay_req :: "ptp_message option"
  peer_delay_resp :: "ptp_message option"
  peer_delay_fup :: "ptp_message option"
  peer_portid_valid :: bool
  peer_portid :: PortIdentity
  peer_delay :: tmv_t
  seq_announce :: u16
  seq_delayreq :: u16
  seq_sync :: u16
  p_tsproc :: "'d TimestampProcess"
  log_sync_interval :: int
  nr_ratio :: 'd
  nr_origin1 :: tmv_t
  nr_ingress1 :: tmv_t
  nr_max_count :: u32
  nr_count :: u32
  nr_ratio_valid :: bool
  pdr_missing :: u32
  multiple_seq_pdr_count :: u32
  multiple_pdr_detected :: u32
  asymmetry :: i64
  asCapable :: bool
  logMinDelayReqInterval :: i8
  peerMeanPathDelay :: i64
  logAnnounceInterval :: i8
  announceReceiptTimeout :: u8
  announce_span :: int
  syncReceiptTimeout :: u8
  transportSpecific :: u8
  match_transport_specific :: bool
  p_localPriority :: u8
  logSyncInterval :: i8
  delayMechanism :: delay_mechanism
  logMinPdelayReqInterval :: i8
  neighborPropDelayThresh :: u32
  min_neighbor_prop_delay :: int
  follow_up_info :: bool
  freq_est_interval :: int
  hybrid_e2e :: bool
  net_sync_monitor :: bool
  master_only :: bool
  path_trace_enabled :: bool
  link_up :: bool
  inhibit_multicast_service :: bool
  timestamping :: timestamp_type
  rx_timestamp_offset :: i64
  tx_timestamp_offset :: i64
  flt_interval_pertype :: "fault_type \<Rightarrow> fault_interval"
  last_fault_type :: fault_type
  unicast_table :: "unicast_master_table option"
  tc_transmitted :: "tc_txd list"
  tc_spanning_tree :: bool
  timer :: "FD \<Rightarrow> itimer option"
  trp_open :: bool
  is_uds :: bool
  refs :: refs

datatype servo_state = SERVO_UNLOCKED | SERVO_JUMP | SERVO_LOCKED

text \<open>
  What the operating system and the clock servo answer during one step: the random numbers and the monotonic
  time read, and which of the calls that can fail succeed. \<open>ops\<close> is the floating point
  arithmetic, \<open>c_parent\<close> and \<open>c_steps_removed\<close> are read from the clock's data sets. \<open>pool\<close>
  are the message buffers that \<open>msg_allocate\<close> hands out, \<open>tx_ok\<close> says which of the step's
  transmissions succeed and \<open>tx_hwts\<close> is the time stamp of a transmitted event message, zero
  when there is none.
\<close>

record 'd env =
  ops :: "'d double_ops"
  rnd :: "FD \<Rightarrow> nat"
  mono_now :: timespec
  timerfd_ok :: bool
  transport_ok :: bool
  malloc_ok :: bool
  switch_phc_ok :: bool
  servo_answer :: servo_state
  pool :: "nat list"
  tx_ok :: "nat \<Rightarrow> bool"
  tx_hwts :: tmv_t
  c_parent :: PortIdentity
  c_steps_removed :: u16
  c_rate_ratio :: 'd
  nsm_append :: "ptp_message \<Rightarrow> ptp_message option"

subsection \<open>Timers\<close>

text \<open>\<open>timerfd_settime\<close> on a closed descriptor fails with -1 and changes nothing.\<close>

definition settime :: "FD \<Rightarrow> itimer \<Rightarrow> 'd PtpPort \<Rightarrow> 'd PtpPort" where
  "settime fd v p = p\<lparr>timer := (timer p)(fd := map_option (\<lambda>_. v) (timer p fd))\<rparr>"

definition clr_tmo :: "FD \<Rightarrow> 'd PtpPort \<Rightarrow> 'd PtpPort" where
  "clr_tmo fd p = settime fd port_clr_tmo p"

definition port_set_announce_tmo :: "'d env \<Rightarrow> 'd PtpPort \<Rightarrow> 'd PtpPort" where
  "port_set_announce_tmo e p = settime FD_ANNOUNCE_TIMER
     (set_tmo_random (rnd e FD_ANNOUNCE_TIMER) (uint (announceReceiptTimeout p)) (announce_span p)
       (sint (logAnnounceInterval p))) p"

definition port_set_delay_tmo :: "'d env \<Rightarrow> 'd PtpPort \<Rightarrow> 'd PtpPort" where
  "port_set_delay_tmo e p =
    (if delayMechanism p = DM_P2P
     then settime FD_DELAY_TIMER (set_tmo_log 1 (sint (logMinPdelayReqInterval p))) p
     else settime FD_DELAY_TIMER
       (set_tmo_random (rnd e FD_DELAY_TIMER) 0 2 (sint (logMinDelayReqInterval p))) p)"

definition port_set_qualification_tmo :: "'d env \<Rightarrow> 'd PtpPort \<Rightarrow> 'd PtpPort" where
  "port_set_qualification_tmo e p = settime FD_QUALIFICATION_TIMER
     (set_tmo_log (1 + ucast (c_steps_removed e)) (sint (logAnnounceInterval p))) p"

definition port_set_sync_rx_tmo :: "'d PtpPort \<Rightarrow> 'd PtpPort" where
  "port_set_sync_rx_tmo p = settime FD_SYNC_RX_TIMER
     (set_tmo_log (ucast (syncReceiptTimeout p)) (sint (logSyncInterval p))) p"

definition setSyncTxTmo :: "'d PtpPort \<Rightarrow> 'd PtpPort" where
  "setSyncTxTmo p = settime FD_SYNC_TX_TIMER (set_tmo_log 1 (sint (logSyncInterval p))) p"

definition setMannoTmo :: "'d PtpPort \<Rightarrow> 'd PtpPort" where
  "setMannoTmo p = settime FD_MANNO_TIMER (set_tmo_log 1 (sint (logAnnounceInterval p))) p"

definition unicast_client_set_tmo :: "'d PtpPort \<Rightarrow> 'd PtpPort" where
  "unicast_client_set_tmo p = (case unicast_table p of
      None \<Rightarrow> p
    | Some t \<Rightarrow> settime FD_UNICAST_REQ_TIMER (set_tmo_log 1 (sint (logQueryInterval t))) p)"

subsection \<open>Releasing resources\<close>

definition flush_last_sync :: "'d PtpPort \<Rightarrow> 'd PtpPort" where
  "flush_last_sync p =
    (if syfu p \<noteq> SF_EMPTY
     then p\<lparr>refs := msg_put (last_syncfup p) (refs p), syfu := SF_EMPTY\<rparr>
     else p)"

definition flush_delay_req :: "'d PtpPort \<Rightarrow> 'd PtpPort" where
  "flush_delay_req p = p\<lparr>refs := put_all (delay_req p) (refs p), delay_req := []\<rparr>"

definition put_option :: "ptp_message option \<Rightarrow> refs \<Rightarrow> refs" where
  "put_option m r = (case m of None \<Rightarrow> r | Some m \<Rightarrow> msg_put m r)"

definition flush_peer_delay :: "'d PtpPort \<Rightarrow> 'd PtpPort" where
  "flush_peer_delay p =
    (let p = p\<lparr>refs := put_option (peer_delay_req p) (refs p), peer_delay_req := None\<rparr>;
         p = p\<lparr>refs := put_option (peer_delay_resp p) (refs p), peer_delay_resp := None\<rparr>
     in p\<lparr>refs := put_option (peer_delay_fup p) (refs p), peer_delay_fup := None\<rparr>)"

definition tc_flush :: "'d PtpPort \<Rightarrow> 'd PtpPort" where
  "tc_flush p = p\<lparr>refs := put_all (map txd_msg (tc_transmitted p)) (refs p), tc_transmitted := []\<rparr>"

text \<open>\<open>_freeForeignMasters\<close> clears each record before it is freed.\<close>

fun free_all :: "foreign_clock list \<Rightarrow> refs \<Rightarrow> refs" where
  "free_all [] r = r"
| "free_all (fc # fcs) r = free_all fcs (snd (fc_clear fc r))"

definition freeForeignMasters :: "'d PtpPort \<Rightarrow> 'd PtpPort" where
  "freeForeignMasters p = p\<lparr>refs := free_all (foreign_masters p) (refs p), foreign_masters := []\<rparr>"

definition portOpDisable :: "'d PtpPort \<Rightarrow> 'd PtpPort" where
  "portOpDisable p =
    (let p = tc_flush p;
         p = flush_last_sync p;
         p = flush_delay_req p;
         p = flush_peer_delay p;
         p = p\<lparr>best := None\<rparr>;
         p = freeForeignMasters p
     in p\<lparr>trp_open := False, timer := (\<lambda>_. None)\<rparr>)"

subsection \<open>Initialization\<close>

text \<open>The shift of an int constant by the clamped difference, stored as unsigned.\<close>

definition port_nrate_initialize :: "'d env \<Rightarrow> 'd PtpPort \<Rightarrow> 'd PtpPort" where
  "port_nrate_initialize e p =
    (let shift = freq_est_interval p - sint (logMinPdelayReqInterval p);
         shift = (if shift < 0 then 0 else if shift \<ge> 32 then 31 else shift)
     in p\<lparr>pdr_missing := 4, asCapable := False, peer_portid_valid := False,
          nr_origin1 := tmv_zero, nr_ingress1 := tmv_zero, nr_max_count := push_bit (nat shift) 1,
          nr_count := 0, nr_ratio := d_one (ops e), nr_ratio_valid := False\<rparr>)"

definition port_configure :: "'d PtpPort \<Rightarrow> 'd PtpPort" where
  "port_configure p = (let cfg = p_config p in
    p\<lparr>multiple_seq_pdr_count := 0,
      multiple_pdr_detected := 0,
      last_fault_type := FT_UNSPECIFIED,
      logMinDelayReqInterval := word_of_int (cfg ''logMinDelayReqInterval''),
      peerMeanPathDelay := 0,
      logAnnounceInterval := word_of_int (cfg ''logAnnounceInterval''),
      announceReceiptTimeout := word_of_int (cfg ''announceReceiptTimeout''),
      syncReceiptTimeout := word_of_int (cfg ''syncReceiptTimeout''),
      transportSpecific := push_bit 4 (word_of_int (cfg ''transportSpecific'')),
      match_transport_specific := cfg ''ignore_transport_specific'' = 0,
      master_only := cfg ''masterOnly'' \<noteq> 0,
      p_localPriority := word_of_int (cfg ''G.8275.portDS.localPriority''),
      logSyncInterval := word_of_int (cfg ''logSyncInterval''),
      logMinPdelayReqInterval := word_of_int (cfg ''logMinPdelayReqInterval''),
      neighborPropDelayThresh := word_of_int (cfg ''neighborPropDelayThresh''),
      min_neighbor_prop_delay := cfg ''min_neighbor_prop_delay''\<rparr>)"

definition all_timers :: "FD \<Rightarrow> bool" where
  "all_timers fd \<longleftrightarrow> fd \<notin> {FD_EVENT, FD_GENERAL, FD_RTNL}"

text \<open>
  \<open>port_initialize\<close>; the second component is the error return. With the descriptors open,
  setting a timer succeeds, so the exit \<open>no_tmo\<close> is not taken. The link query of the routing
  socket is input and output only.
\<close>

definition port_initialize :: "'d env \<Rightarrow> 'd PtpPort \<Rightarrow> 'd PtpPort \<times> bool" where
  "port_initialize e p =
    (let p = port_configure p in
     if \<not> timerfd_ok e then (p, True)
     else if \<not> transport_ok e then (p, True)
     else
       let p = p\<lparr>trp_open := True, timer := (\<lambda>fd. if all_timers fd then Some disarmed else timer p fd)\<rparr>;
           p = port_set_announce_tmo e p;
           p = unicast_client_set_tmo p;
           p = port_nrate_initialize e p
       in (p, False))"

text \<open>
  The asCapable decision of 802.1AS ports; the count of lost responses is compared with
  \<open>ALLOWED_LOST_RESPONSES\<close> = 3. The comparisons with the 64 bit delay convert the unsigned
  threshold and the int minimum.
\<close>

definition port_capable :: "'d env \<Rightarrow> 'd PtpPort \<Rightarrow> 'd PtpPort \<times> bool" where
  "port_capable e p =
    (if \<not> follow_up_info p then (p\<lparr>asCapable := True\<rparr>, True)
     else if sint (tmv_to_nanoseconds (peer_delay p)) > uint (neighborPropDelayThresh p)
        \<or> sint (tmv_to_nanoseconds (peer_delay p)) < min_neighbor_prop_delay p
        \<or> pdr_missing p > 3
        \<or> multiple_seq_pdr_count p \<noteq> 0
        \<or> \<not> peer_portid_valid p
        \<or> \<not> nr_ratio_valid p
     then ((if asCapable p then port_nrate_initialize e p else p)\<lparr>asCapable := False\<rparr>, False)
     else (p\<lparr>asCapable := True\<rparr>, True))"

subsection \<open>What the timers do not touch\<close>

text \<open>
  The part of the state that the invariants speak about. Setting timers, configuring and
  initializing a port leave it as it is.
\<close>

definition core where
  "core p = ((state p, slave_fsm p, best p, foreign_masters p, portIdentity p, jbod p, delayMechanism p,
    unicast_table p), syfu p, last_syncfup p, delay_req p, peer_delay_req p, peer_delay_resp p,
    peer_delay_fup p, tc_transmitted p, refs p)"

lemma core_settime [simp]: "core (settime fd v p) = core p"
  by (simp add: core_def settime_def)

lemma core_tmo [simp]:
  "core (clr_tmo fd p) = core p"
  "core (port_set_announce_tmo e p) = core p"
  "core (port_set_delay_tmo e p) = core p"
  "core (port_set_qualification_tmo e p) = core p"
  "core (port_set_sync_rx_tmo p) = core p"
  "core (setSyncTxTmo p) = core p"
  "core (setMannoTmo p) = core p"
  by (simp_all add: clr_tmo_def port_set_announce_tmo_def port_set_delay_tmo_def
      port_set_qualification_tmo_def port_set_sync_rx_tmo_def setSyncTxTmo_def setMannoTmo_def)

lemma core_unicast_tmo [simp]: "core (unicast_client_set_tmo p) = core p"
  by (simp add: unicast_client_set_tmo_def split: option.split)

lemma core_nrate [simp]: "core (port_nrate_initialize e p) = core p"
  by (simp add: core_def port_nrate_initialize_def Let_def)

lemma core_configure [simp]: "core (port_configure p) = core p"
  by (simp add: core_def port_configure_def Let_def)

lemma core_open [simp]: "core (p\<lparr>trp_open := o', timer := t'\<rparr>) = core p"
  by (simp add: core_def)
lemma core_initialize [simp]: "core (fst (port_initialize e p)) = core p"
  by (simp add: port_initialize_def Let_def)

lemma core_eqD:
  assumes "core p' = core p"
  shows "state p' = state p" "slave_fsm p' = slave_fsm p" "best p' = best p"
    "foreign_masters p' = foreign_masters p" "portIdentity p' = portIdentity p" "jbod p' = jbod p"
    "delayMechanism p' = delayMechanism p" "unicast_table p' = unicast_table p" "syfu p' = syfu p"
    "last_syncfup p' = last_syncfup p" "delay_req p' = delay_req p"
    "peer_delay_req p' = peer_delay_req p" "peer_delay_resp p' = peer_delay_resp p"
    "peer_delay_fup p' = peer_delay_fup p" "tc_transmitted p' = tc_transmitted p" "refs p' = refs p"
  using assms by (simp_all add: core_def)

lemmas core_sel [simp] =
  core_settime [THEN core_eqD(1)] core_settime [THEN core_eqD(2)] core_settime [THEN core_eqD(3)]
  core_settime [THEN core_eqD(4)] core_settime [THEN core_eqD(5)] core_settime [THEN core_eqD(6)]
  core_settime [THEN core_eqD(7)] core_settime [THEN core_eqD(8)] core_settime [THEN core_eqD(9)]
  core_settime [THEN core_eqD(10)] core_settime [THEN core_eqD(11)]
  core_tmo [THEN core_eqD(1)] core_tmo [THEN core_eqD(2)] core_tmo [THEN core_eqD(3)]
  core_tmo [THEN core_eqD(4)] core_tmo [THEN core_eqD(5)] core_tmo [THEN core_eqD(6)]
  core_tmo [THEN core_eqD(7)] core_tmo [THEN core_eqD(8)] core_tmo [THEN core_eqD(9)]
  core_tmo [THEN core_eqD(10)] core_tmo [THEN core_eqD(11)]
  core_initialize [THEN core_eqD(1)] core_initialize [THEN core_eqD(2)] core_initialize [THEN core_eqD(3)]
  core_initialize [THEN core_eqD(4)] core_initialize [THEN core_eqD(5)] core_initialize [THEN core_eqD(6)]
  core_initialize [THEN core_eqD(7)] core_initialize [THEN core_eqD(8)] core_initialize [THEN core_eqD(9)]
  core_initialize [THEN core_eqD(10)] core_initialize [THEN core_eqD(11)]

lemma flush_last_sync_alt: "flush_last_sync p =
    p\<lparr>refs := (if syfu p = SF_EMPTY then refs p else msg_put (last_syncfup p) (refs p)), syfu := SF_EMPTY\<rparr>"
  by (cases "syfu p = SF_EMPTY") (simp_all add: flush_last_sync_def)

lemmas flush_ops = flush_last_sync_alt flush_delay_req_def flush_peer_delay_def tc_flush_def
  freeForeignMasters_def

lemma portOpDisable_simps [simp]:
  "state (portOpDisable p) = state p" "slave_fsm (portOpDisable p) = slave_fsm p"
  "best (portOpDisable p) = None" "foreign_masters (portOpDisable p) = []"
  "trp_open (portOpDisable p) = False" "timer (portOpDisable p) = (\<lambda>_. None)"
  "portIdentity (portOpDisable p) = portIdentity p" "jbod (portOpDisable p) = jbod p"
  "delayMechanism (portOpDisable p) = delayMechanism p"
  "unicast_table (portOpDisable p) = unicast_table p"
  "syfu (portOpDisable p) = SF_EMPTY" "delay_req (portOpDisable p) = []"
  "peer_delay_req (portOpDisable p) = None" "peer_delay_resp (portOpDisable p) = None"
  "peer_delay_fup (portOpDisable p) = None" "tc_transmitted (portOpDisable p) = []"
  by (simp_all add: portOpDisable_def Let_def flush_ops)

lemma port_initialize_err: "snd (port_initialize e p) \<longleftrightarrow> \<not> (timerfd_ok e \<and> transport_ok e)"
  by (simp add: port_initialize_def Let_def)

lemma port_configure_open [simp]:
  "trp_open (port_configure p) = trp_open p" "timer (port_configure p) = timer p"
  by (simp_all add: port_configure_def Let_def)

lemma port_initialize_fail:
  assumes "snd (port_initialize e p)"
  shows "trp_open (fst (port_initialize e p)) = trp_open p" "timer (fst (port_initialize e p)) = timer p"
  using assms by (simp_all add: port_initialize_err) (auto simp: port_initialize_def Let_def)

lemma nrate_open [simp]:
  "trp_open (port_nrate_initialize e p) = trp_open p" "timer (port_nrate_initialize e p) = timer p"
  by (simp_all add: port_nrate_initialize_def Let_def)

lemma settime_open [simp]:
  "trp_open (settime fd v p) = trp_open p"
  "(timer (settime fd v p) fd' = None) = (timer p fd' = None)"
  by (simp_all add: settime_def)

lemma tmo_open [simp]:
  "trp_open (clr_tmo fd p) = trp_open p"
  "(timer (clr_tmo fd p) fd' = None) = (timer p fd' = None)"
  "trp_open (port_set_announce_tmo e p) = trp_open p"
  "(timer (port_set_announce_tmo e p) fd' = None) = (timer p fd' = None)"
  "trp_open (port_set_delay_tmo e p) = trp_open p"
  "(timer (port_set_delay_tmo e p) fd' = None) = (timer p fd' = None)"
  "trp_open (port_set_qualification_tmo e p) = trp_open p"
  "(timer (port_set_qualification_tmo e p) fd' = None) = (timer p fd' = None)"
  "trp_open (setSyncTxTmo p) = trp_open p"
  "(timer (setSyncTxTmo p) fd' = None) = (timer p fd' = None)"
  "trp_open (setMannoTmo p) = trp_open p"
  "(timer (setMannoTmo p) fd' = None) = (timer p fd' = None)"
  "trp_open (port_set_sync_rx_tmo p) = trp_open p"
  "(timer (port_set_sync_rx_tmo p) fd' = None) = (timer p fd' = None)"
  "trp_open (unicast_client_set_tmo p) = trp_open p"
  "(timer (unicast_client_set_tmo p) fd' = None) = (timer p fd' = None)"
  by (simp_all add: clr_tmo_def port_set_announce_tmo_def port_set_delay_tmo_def
      port_set_qualification_tmo_def setSyncTxTmo_def setMannoTmo_def port_set_sync_rx_tmo_def
      unicast_client_set_tmo_def split: option.split)

lemma flush_sel [simp]:
  "state (flush_last_sync p) = state p" "slave_fsm (flush_last_sync p) = slave_fsm p"
  "jbod (flush_last_sync p) = jbod p" "delayMechanism (flush_last_sync p) = delayMechanism p"
  "portIdentity (flush_last_sync p) = portIdentity p" "best (flush_last_sync p) = best p"
  "foreign_masters (flush_last_sync p) = foreign_masters p"
  "state (flush_delay_req p) = state p" "slave_fsm (flush_delay_req p) = slave_fsm p"
  "jbod (flush_delay_req p) = jbod p" "delayMechanism (flush_delay_req p) = delayMechanism p"
  "portIdentity (flush_delay_req p) = portIdentity p" "best (flush_delay_req p) = best p"
  "foreign_masters (flush_delay_req p) = foreign_masters p"
  "state (flush_peer_delay p) = state p" "slave_fsm (flush_peer_delay p) = slave_fsm p"
  "jbod (flush_peer_delay p) = jbod p" "delayMechanism (flush_peer_delay p) = delayMechanism p"
  "portIdentity (flush_peer_delay p) = portIdentity p" "best (flush_peer_delay p) = best p"
  "foreign_masters (flush_peer_delay p) = foreign_masters p"
  by (simp_all add: flush_ops Let_def)

lemma flush_open [simp]:
  "trp_open (flush_last_sync p) = trp_open p" "timer (flush_last_sync p) = timer p"
  "trp_open (flush_delay_req p) = trp_open p" "timer (flush_delay_req p) = timer p"
  "trp_open (flush_peer_delay p) = trp_open p" "timer (flush_peer_delay p) = timer p"
  by (simp_all add: flush_ops Let_def)

lemma port_initialize_open:
  assumes "\<not> snd (port_initialize e p)"
  shows "trp_open (fst (port_initialize e p))"
    "all_timers fd \<Longrightarrow> timer (fst (port_initialize e p)) fd \<noteq> None"
  using assms by (auto simp add: port_initialize_err port_initialize_def Let_def simp del: not_None_eq)

end
