(* ===== verification/PortStates.thy ===== *)
theory PortStates
  imports Port
begin

text \<open>
  How an event changes a port: \<open>clear_fault_asap\<close> and \<open>fault_interval\<close> of src/ptpPort.c,
  \<open>portStateUpdate\<close> of src/ptpPortStates.c, and the transitions \<open>_e2eTransition\<close>,
  \<open>_p2pTransition\<close> and \<open>bc_dispatch\<close> of src/ptpPortDevOrdinary.c. The theorems state what holds
  in every state that a port reaches by any sequence of events and answers of the operating
  system: which resources are open, which roles a slave only port can take, and that
  every message reference is accounted for.
\<close>

subsection \<open>Handlers\<close>

definition clear_fault_asap :: "fault_interval \<Rightarrow> bool" where
  "clear_fault_asap faint = (case fi_type faint of
      FTMO_LINEAR_SECONDS \<Rightarrow> fi_val faint = 0
    | FTMO_LOG2_SECONDS \<Rightarrow> fi_val faint = -128)"

definition fault_interval_of :: "'d PtpPort \<Rightarrow> fault_type \<Rightarrow> fault_interval" where
  "fault_interval_of p ft = flt_interval_pertype p ft"

definition state_machine :: "'d PtpPort \<Rightarrow> PORT_STATE \<Rightarrow> PORT_EVENT \<Rightarrow> bool \<Rightarrow> PORT_STATE" where
  "state_machine p = (if slave_fsm p then ptpSlaveFsm else ptpFsm)"

text \<open>
  The second component is the return value. The notification of the subscribers on a change
  (\<open>port_notify_event\<close>) only sends messages.
\<close>

definition portStateUpdate :: "'d env \<Rightarrow> 'd PtpPort \<Rightarrow> PORT_EVENT \<Rightarrow> bool \<Rightarrow> 'd PtpPort \<times> bool" where
  "portStateUpdate e p event mdiff =
    (let nxt = state_machine p (state p) event mdiff;
         nxt = (if nxt = PS_FAULTY \<and> clear_fault_asap (fault_interval_of p (last_fault_type p))
                then state_machine p nxt EV_FAULT_CLEARED False else nxt);
         (p, nxt) =
           (if nxt = PS_INITIALIZING then
              let p = (if portIsEnabled (state p) then portOpDisable p else p);
                  (p, err) = port_initialize e p
              in (p, state_machine p nxt (if err then EV_FAULT_DETECTED else EV_INIT_COMPLETE) False)
            else (p, nxt))
     in if nxt \<noteq> state p
        then (p\<lparr>state := nxt, unicast_table := unicast_client_state_changed (c_parent e) (unicast_table p)\<rparr>,
              True)
        else (p, False))"

definition e2eTransition :: "'d env \<Rightarrow> 'd PtpPort \<Rightarrow> PORT_STATE \<Rightarrow> 'd PtpPort" where
  "e2eTransition e p nxt =
    (let p = clr_tmo FD_ANNOUNCE_TIMER p;
         p = clr_tmo FD_SYNC_RX_TIMER p;
         p = clr_tmo FD_DELAY_TIMER p;
         p = clr_tmo FD_QUALIFICATION_TIMER p;
         p = clr_tmo FD_MANNO_TIMER p;
         p = clr_tmo FD_SYNC_TX_TIMER p
     in case nxt of
         PS_INITIALIZING \<Rightarrow> p
       | PS_FAULTY \<Rightarrow> portOpDisable p
       | PS_DISABLED \<Rightarrow> portOpDisable p
       | PS_LISTENING \<Rightarrow> port_set_announce_tmo e p
       | PS_PRE_MASTER \<Rightarrow> port_set_qualification_tmo e p
       | PS_MASTER \<Rightarrow> setSyncTxTmo (settime FD_MANNO_TIMER (set_tmo_log 1 (-10)) p)
       | PS_GRAND_MASTER \<Rightarrow> setSyncTxTmo (settime FD_MANNO_TIMER (set_tmo_log 1 (-10)) p)
       | PS_PASSIVE \<Rightarrow> port_set_announce_tmo e p
       | PS_UNCALIBRATED \<Rightarrow>
           port_set_delay_tmo e (port_set_announce_tmo e (flush_delay_req (flush_last_sync p)))
       | PS_SLAVE \<Rightarrow> port_set_delay_tmo e (port_set_announce_tmo e p))"

definition p2pTransition :: "'d env \<Rightarrow> 'd PtpPort \<Rightarrow> PORT_STATE \<Rightarrow> 'd PtpPort" where
  "p2pTransition e p nxt =
    (let p = clr_tmo FD_ANNOUNCE_TIMER p;
         p = clr_tmo FD_SYNC_RX_TIMER p;
         p = clr_tmo FD_QUALIFICATION_TIMER p;
         p = clr_tmo FD_MANNO_TIMER p;
         p = clr_tmo FD_SYNC_TX_TIMER p
     in case nxt of
         PS_INITIALIZING \<Rightarrow> p
       | PS_FAULTY \<Rightarrow> portOpDisable p
       | PS_DISABLED \<Rightarrow> portOpDisable p
       | PS_LISTENING \<Rightarrow> port_set_delay_tmo e (port_set_announce_tmo e p)
       | PS_PRE_MASTER \<Rightarrow> port_set_qualification_tmo e p
       | PS_MASTER \<Rightarrow> setSyncTxTmo (settime FD_MANNO_TIMER (set_tmo_log 1 (-10)) p)
       | PS_GRAND_MASTER \<Rightarrow> setSyncTxTmo (settime FD_MANNO_TIMER (set_tmo_log 1 (-10)) p)
       | PS_PASSIVE \<Rightarrow> port_set_announce_tmo e p
       | PS_UNCALIBRATED \<Rightarrow> port_set_announce_tmo e (flush_peer_delay (flush_last_sync p))
       | PS_SLAVE \<Rightarrow> port_set_announce_tmo e p)"

text \<open>
  \<open>bc_dispatch\<close> calls itself with \<open>EV_FAULT_DETECTED\<close> when switching the hardware clock fails.
  The state is then not uncalibrated (lemma \<open>dispatch_fault_state\<close>), so the inner call is
  the part before the switch. A successful switch changes the clock, not the port.
\<close>

definition dispatch_state :: "'d env \<Rightarrow> 'd PtpPort \<Rightarrow> PORT_EVENT \<Rightarrow> bool \<Rightarrow> 'd PtpPort \<times> bool" where
  "dispatch_state e p event mdiff =
    (let (p, changed) = portStateUpdate e p event mdiff
     in if \<not> changed then (p, False)
        else (if delayMechanism p = DM_P2P then p2pTransition e p (state p)
              else e2eTransition e p (state p), True))"

definition bc_dispatch :: "'d env \<Rightarrow> 'd PtpPort \<Rightarrow> PORT_EVENT \<Rightarrow> bool \<Rightarrow> 'd PtpPort" where
  "bc_dispatch e p event mdiff =
    (let (p, changed) = dispatch_state e p event mdiff
     in if changed \<and> jbod p \<and> state p = PS_UNCALIBRATED \<and> \<not> switch_phc_ok e
        then fst (dispatch_state e (p\<lparr>last_fault_type := FT_SWITCH_PHC\<rparr>) EV_FAULT_DETECTED False)
        else p)"

subsection \<open>Memory\<close>

text \<open>How many references the port holds on message \<open>i\<close>.\<close>

definition masters_held :: "foreign_clock list \<Rightarrow> nat \<Rightarrow> int" where
  "masters_held fcs i = sum_list (map (\<lambda>fc. held_count (messages fc) i) fcs)"

definition option_held :: "ptp_message option \<Rightarrow> nat \<Rightarrow> int" where
  "option_held m i = (case m of None \<Rightarrow> 0 | Some m \<Rightarrow> held_count [m] i)"

definition syfu_held :: "SyncFollowupState \<Rightarrow> ptp_message \<Rightarrow> nat \<Rightarrow> int" where
  "syfu_held s m i = (if s = SF_EMPTY then 0 else held_count [m] i)"

definition held :: "'d PtpPort \<Rightarrow> nat \<Rightarrow> int" where
  "held p i = masters_held (foreign_masters p) i
    + syfu_held (syfu p) (last_syncfup p) i
    + held_count (delay_req p) i + option_held (peer_delay_req p) i
    + option_held (peer_delay_resp p) i + option_held (peer_delay_fup p) i
    + held_count (map txd_msg (tc_transmitted p)) i"

abbreviation senders :: "'d PtpPort \<Rightarrow> PortIdentity list" where
  "senders p \<equiv> map (\<lambda>fc. sender (fc_dataset fc)) (foreign_masters p)"

text \<open>
  The foreign master records are well formed and have distinct senders, and \<open>best\<close> is one of
  them. The balance is what the reference counts exceed the references held by: while a
  handler runs, the one reference of the message it handles.
\<close>

definition masters_ok :: "'d PtpPort \<Rightarrow> bool" where
  "masters_ok p \<longleftrightarrow> (\<forall>fc \<in> set (foreign_masters p). fc_wf fc) \<and> distinct (senders p)
    \<and> (\<forall>s. best p = Some s \<longrightarrow> s \<in> set (senders p))"

definition balance :: "'d PtpPort \<Rightarrow> nat \<Rightarrow> int" where
  "balance p = (\<lambda>i. refs p i - held p i)"

lemma masters_held_simps [simp]:
  "masters_held [] i = 0"
  "masters_held (fc # fcs) i = held_count (messages fc) i + masters_held fcs i"
  by (simp_all add: masters_held_def)

lemma option_held_simps [simp]:
  "option_held None i = 0" "option_held (Some m) i = held_count [m] i"
  by (simp_all add: option_held_def)

lemma syfu_held_simps [simp]:
  "syfu_held SF_EMPTY m i = 0" "s \<noteq> SF_EMPTY \<Longrightarrow> syfu_held s m i = held_count [m] i"
  by (simp_all add: syfu_held_def)

lemma put_option_apply [simp]: "put_option m r i = r i - option_held m i"
  by (cases m) (simp_all add: put_option_def)

lemma free_all_apply:
  "\<forall>fc \<in> set fcs. fc_wf fc \<Longrightarrow> free_all fcs r i = r i - masters_held fcs i"
  by (induction fcs arbitrary: r) (simp_all add: fc_clear_wf)

text \<open>Both depend on the core of the state only.\<close>

lemma core_mem: "core p' = core p \<Longrightarrow> masters_ok p' = masters_ok p" "core p' = core p \<Longrightarrow> balance p' = balance p"
  by (simp_all add: masters_ok_def balance_def held_def core_eqD [of p' p])

lemma balance_cong:
  assumes "\<And>i. refs p' i - held p' i = refs p i - held p i"
  shows "balance p' = balance p"
  unfolding balance_def using assms by (rule ext)

lemma mem_flush_last_sync [simp]:
  "masters_ok (flush_last_sync p) = masters_ok p" "balance (flush_last_sync p) = balance p"
  by (simp add: masters_ok_def flush_last_sync_def,
      rule balance_cong, simp add: held_def flush_last_sync_def)

lemma mem_flush_delay_req [simp]:
  "masters_ok (flush_delay_req p) = masters_ok p" "balance (flush_delay_req p) = balance p"
  by (simp add: masters_ok_def flush_delay_req_def,
      rule balance_cong, simp add: held_def flush_delay_req_def)

lemma mem_flush_peer_delay [simp]:
  "masters_ok (flush_peer_delay p) = masters_ok p" "balance (flush_peer_delay p) = balance p"
  by (simp add: masters_ok_def flush_peer_delay_def Let_def,
      rule balance_cong, simp add: held_def flush_peer_delay_def Let_def)

lemma mem_tc_flush [simp]:
  "masters_ok (tc_flush p) = masters_ok p" "balance (tc_flush p) = balance p"
  by (simp add: masters_ok_def tc_flush_def, rule balance_cong, simp add: held_def tc_flush_def)

lemma mem_portOpDisable:
  assumes "masters_ok p"
  shows "masters_ok (portOpDisable p)" "balance (portOpDisable p) = balance p"
proof -
  let ?p = "flush_peer_delay (flush_delay_req (flush_last_sync (tc_flush p)))"
  have "foreign_masters ?p = foreign_masters p" by (simp add: flush_ops Let_def)
  then have "\<forall>fc \<in> set (foreign_masters ?p). fc_wf fc" using assms by (simp add: masters_ok_def)
  then have "balance (portOpDisable p) = balance ?p"
    by (intro balance_cong) (simp add: held_def portOpDisable_def Let_def freeForeignMasters_def free_all_apply)
  then show "balance (portOpDisable p) = balance p" by simp
qed (simp add: masters_ok_def)

subsection \<open>The steps of a state update\<close>

definition finish_update :: "'d env \<Rightarrow> 'd PtpPort \<Rightarrow> PORT_STATE \<Rightarrow> PORT_STATE \<Rightarrow> 'd PtpPort \<times> bool" where
  "finish_update e p old nxt =
    (if nxt \<noteq> old
     then (p\<lparr>state := nxt, unicast_table := unicast_client_state_changed (c_parent e) (unicast_table p)\<rparr>, True)
     else (p, False))"

definition update_next :: "'d PtpPort \<Rightarrow> PORT_EVENT \<Rightarrow> bool \<Rightarrow> PORT_STATE" where
  "update_next p event mdiff =
    (let nxt = state_machine p (state p) event mdiff
     in if nxt = PS_FAULTY \<and> clear_fault_asap (fault_interval_of p (last_fault_type p))
        then PS_INITIALIZING else nxt)"

lemma portStateUpdate_eq:
  "portStateUpdate e p event mdiff =
    (let nxt = update_next p event mdiff
     in if nxt = PS_INITIALIZING
        then let (p', err) = port_initialize e (if portIsEnabled (state p) then portOpDisable p else p)
             in finish_update e p' (state p) (if err then PS_FAULTY else PS_LISTENING)
        else finish_update e p (state p) nxt)"
proof -
  have nx: "(if state_machine p (state p) event mdiff = PS_FAULTY
        \<and> clear_fault_asap (fault_interval_of p (last_fault_type p))
      then state_machine p (state_machine p (state p) event mdiff) EV_FAULT_CLEARED False
      else state_machine p (state p) event mdiff) = update_next p event mdiff"
    by (simp add: update_next_def state_machine_def Let_def)
  obtain p' err where i: "port_initialize e (if portIsEnabled (state p) then portOpDisable p else p) = (p', err)"
    by (cases "port_initialize e (if portIsEnabled (state p) then portOpDisable p else p)")
  have "core p' = core (if portIsEnabled (state p) then portOpDisable p else p)"
    using core_initialize [of e "if portIsEnabled (state p) then portOpDisable p else p"] by (simp add: i)
  from core_eqD [OF this] have st: "state p' = state p" by (simp split: if_splits)
  have sm: "state_machine p' PS_INITIALIZING (if err then EV_FAULT_DETECTED else EV_INIT_COMPLETE) False
      = (if err then PS_FAULTY else PS_LISTENING)"
    by (simp add: state_machine_def)
  show ?thesis
  proof (cases "update_next p event mdiff = PS_INITIALIZING")
    case True
    show ?thesis
      unfolding portStateUpdate_def Let_def nx True finish_update_def
      by (simp only: if_True simp_thms i prod.case sm st)
  next
    case False
    then show ?thesis
      unfolding portStateUpdate_def Let_def nx finish_update_def
      by (simp only: if_False prod.case)
  qed
qed

text \<open>A state is enabled after a step only if it was before, or the port has been initialized.\<close>

lemma update_next_enabled:
  assumes "event \<noteq> EV_INIT_COMPLETE" "portIsEnabled (update_next p event mdiff)"
  shows "portIsEnabled (state p)"
  using assms by (cases "state p"; cases event)
    (simp_all add: update_next_def state_machine_def fsm_defs Let_def split: if_splits)

lemma update_next_role:
  "slave_fsm p \<Longrightarrow> \<not> master_role (state p) \<Longrightarrow> \<not> master_role (update_next p event mdiff)"
  using slave_fsm_no_master [of "state p" event mdiff]
  by (auto simp: update_next_def state_machine_def Let_def master_role_def)

subsection \<open>Transitions\<close>

lemma transition_state [simp]:
  "state (e2eTransition e p s) = state p" "state (p2pTransition e p s) = state p"
  "slave_fsm (e2eTransition e p s) = slave_fsm p" "slave_fsm (p2pTransition e p s) = slave_fsm p"
  "jbod (e2eTransition e p s) = jbod p" "jbod (p2pTransition e p s) = jbod p"
  "delayMechanism (e2eTransition e p s) = delayMechanism p"
  "delayMechanism (p2pTransition e p s) = delayMechanism p"
  "portIdentity (e2eTransition e p s) = portIdentity p" "portIdentity (p2pTransition e p s) = portIdentity p"
  by (cases s; simp add: e2eTransition_def p2pTransition_def Let_def)+

lemma mem_core [simp]:
  "masters_ok (settime fd v p) = masters_ok p" "balance (settime fd v p) = balance p"
  "masters_ok (clr_tmo fd p) = masters_ok p" "balance (clr_tmo fd p) = balance p"
  "masters_ok (port_set_announce_tmo e p) = masters_ok p" "balance (port_set_announce_tmo e p) = balance p"
  "masters_ok (port_set_delay_tmo e p) = masters_ok p" "balance (port_set_delay_tmo e p) = balance p"
  "masters_ok (port_set_qualification_tmo e p) = masters_ok p"
  "balance (port_set_qualification_tmo e p) = balance p"
  "masters_ok (port_set_sync_rx_tmo p) = masters_ok p" "balance (port_set_sync_rx_tmo p) = balance p"
  "masters_ok (setSyncTxTmo p) = masters_ok p" "balance (setSyncTxTmo p) = balance p"
  "masters_ok (fst (port_initialize e p)) = masters_ok p" "balance (fst (port_initialize e p)) = balance p"
  by (rule core_mem, simp)+

lemma transition_mem:
  assumes "masters_ok p"
  shows "masters_ok (e2eTransition e p s)" "balance (e2eTransition e p s) = balance p"
    "masters_ok (p2pTransition e p s)" "balance (p2pTransition e p s) = balance p"
  using assms by (cases s; simp add: e2eTransition_def p2pTransition_def Let_def mem_portOpDisable)+

text \<open>The open resources of a port: its sockets and its timers.\<close>

definition resources_are :: "bool \<Rightarrow> 'd PtpPort \<Rightarrow> bool" where
  "resources_are b p \<longleftrightarrow> trp_open p = b \<and> (\<forall>fd. all_timers fd \<longrightarrow> (timer p fd = None) = (\<not> b))"

lemma resources_settime [simp]:
  "resources_are b (settime fd v p) = resources_are b p"
  "resources_are b (clr_tmo fd p) = resources_are b p"
  "resources_are b (port_set_announce_tmo e p) = resources_are b p"
  "resources_are b (port_set_delay_tmo e p) = resources_are b p"
  "resources_are b (port_set_qualification_tmo e p) = resources_are b p"
  "resources_are b (port_set_sync_rx_tmo p) = resources_are b p"
  "resources_are b (setSyncTxTmo p) = resources_are b p"
  "resources_are b (flush_last_sync p) = resources_are b p"
  "resources_are b (flush_delay_req p) = resources_are b p"
  "resources_are b (flush_peer_delay p) = resources_are b p"
  by (simp_all add: resources_are_def)

lemma resources_portOpDisable [simp]: "resources_are b (portOpDisable p) = (\<not> b)"
  by (auto simp: resources_are_def all_timers_def)

lemma resources_port_initialize:
  "resources_are b p \<Longrightarrow> resources_are (if snd (port_initialize e p) then b else True) (fst (port_initialize e p))"
  using port_initialize_fail [of e p] port_initialize_open [of e p] by (simp add: resources_are_def)

lemma transition_resources:
  "resources_are (portIsEnabled s) p \<or> \<not> portIsEnabled s \<and> s \<noteq> PS_INITIALIZING \<Longrightarrow>
    resources_are (portIsEnabled s) (e2eTransition e p s)
    \<and> resources_are (portIsEnabled s) (p2pTransition e p s)"
  by (cases s) (auto simp: e2eTransition_def p2pTransition_def Let_def portIsEnabled_def)

lemma finish_update_simps [simp]:
  "snd (finish_update e p old nxt) = (nxt \<noteq> old)"
  "state p = old \<Longrightarrow> state (fst (finish_update e p old nxt)) = nxt"
  "slave_fsm (fst (finish_update e p old nxt)) = slave_fsm p"
  "jbod (fst (finish_update e p old nxt)) = jbod p"
  "delayMechanism (fst (finish_update e p old nxt)) = delayMechanism p"
  "masters_ok (fst (finish_update e p old nxt)) = masters_ok p"
  "balance (fst (finish_update e p old nxt)) = balance p"
  "resources_are b (fst (finish_update e p old nxt)) = resources_are b p"
  "best (fst (finish_update e p old nxt)) = best p"
  "foreign_masters (fst (finish_update e p old nxt)) = foreign_masters p"
  by (simp_all add: finish_update_def masters_ok_def balance_def held_def resources_are_def)

text \<open>
  What \<open>portStateUpdate\<close> does, in the two ways it can go: the state machine's step, or a fresh
  initialization, before which an enabled port is closed.
\<close>

lemma portStateUpdate_cases [consumes 1, case_names step init]:
  assumes "portStateUpdate e p event mdiff = (p', changed)"
  obtains "update_next p event mdiff \<noteq> PS_INITIALIZING" "state p' = update_next p event mdiff"
      "(p', changed) = finish_update e p (state p) (update_next p event mdiff)"
    | q s where "q = (if portIsEnabled (state p) then portOpDisable p else p)"
      "update_next p event mdiff = PS_INITIALIZING"
      "s = (if snd (port_initialize e q) then PS_FAULTY else PS_LISTENING)" "state p' = s"
      "(p', changed) = finish_update e (fst (port_initialize e q)) (state p) s"
proof (cases "update_next p event mdiff = PS_INITIALIZING")
  case True
  let ?q = "if portIsEnabled (state p) then portOpDisable p else p"
  let ?s = "if snd (port_initialize e ?q) then PS_FAULTY else PS_LISTENING"
  have f: "(p', changed) = finish_update e (fst (port_initialize e ?q)) (state p) ?s"
    using assms True by (simp add: portStateUpdate_eq Let_def split_beta)
  have "state (fst (port_initialize e ?q)) = state p" by simp
  from finish_update_simps(2) [OF this, of e ?s] have "state p' = ?s"
    by (simp only: f [symmetric] fst_conv)
  with that(2) [OF refl True refl _ f] show thesis by blast
next
  case False
  then have f: "(p', changed) = finish_update e p (state p) (update_next p event mdiff)"
    using assms by (simp add: portStateUpdate_eq Let_def)
  have "state p' = update_next p event mdiff"
    using finish_update_simps(2) [of p "state p" e "update_next p event mdiff"]
    by (simp only: f [symmetric] fst_conv)
  with that(1) [OF False _ f] show thesis by blast
qed

subsection \<open>The invariant of a port\<close>

definition port_inv :: "'d PtpPort \<Rightarrow> bool" where
  "port_inv p \<longleftrightarrow> masters_ok p \<and> resources_are (portIsEnabled (state p)) p
    \<and> (slave_fsm p \<longrightarrow> \<not> master_role (state p))"

lemma portStateUpdate_mem:
  assumes "portStateUpdate e p event mdiff = (p', changed)" "masters_ok p"
  shows "masters_ok p'" "balance p' = balance p" "slave_fsm p' = slave_fsm p"
    "jbod p' = jbod p" "delayMechanism p' = delayMechanism p" "changed = (state p' \<noteq> state p)"
proof -
  have q: "masters_ok (if b then portOpDisable p else p)"
    "balance (if b then portOpDisable p else p) = balance p" for b
    using mem_portOpDisable [OF assms(2)] assms(2) by simp_all
  have "masters_ok p' \<and> balance p' = balance p \<and> slave_fsm p' = slave_fsm p
    \<and> jbod p' = jbod p \<and> delayMechanism p' = delayMechanism p \<and> changed = (state p' \<noteq> state p)"
    using assms(1)
  proof (cases rule: portStateUpdate_cases)
    case step
    then have f: "p' = fst (finish_update e p (state p) (update_next p event mdiff))"
      "changed = snd (finish_update e p (state p) (update_next p event mdiff))"
      by (metis fst_conv snd_conv)+
    show ?thesis using assms(2) step(2) by (simp add: f)
  next
    case (init q s)
    then have f: "p' = fst (finish_update e (fst (port_initialize e q)) (state p) s)"
      "changed = snd (finish_update e (fst (port_initialize e q)) (state p) s)"
      by (metis fst_conv snd_conv)+
    have "masters_ok p' \<and> balance p' = balance p \<and> slave_fsm p' = slave_fsm p
      \<and> jbod p' = jbod p \<and> delayMechanism p' = delayMechanism p"
      unfolding f(1) using init(1) q by (simp split: if_splits)
    then show ?thesis unfolding init(4) f(2) by simp
  qed
  then show "masters_ok p'" "balance p' = balance p" "slave_fsm p' = slave_fsm p"
      "jbod p' = jbod p" "delayMechanism p' = delayMechanism p" "changed = (state p' \<noteq> state p)"
    by blast+
qed

text \<open>After the update the resources are those of the new state, or are still to be closed.\<close>

lemma portStateUpdate_state:
  assumes "portStateUpdate e p event mdiff = (p', changed)" "port_inv p" "event \<noteq> EV_INIT_COMPLETE"
  shows "state p' \<noteq> PS_INITIALIZING" "slave_fsm p \<longrightarrow> \<not> master_role (state p')"
    "resources_are (portIsEnabled (state p')) p' \<or> \<not> portIsEnabled (state p') \<and> changed"
proof -
  have inv: "resources_are (portIsEnabled (state p)) p" "slave_fsm p \<longrightarrow> \<not> master_role (state p)"
    using assms(2) by (simp_all add: port_inv_def)
  have "state p' \<noteq> PS_INITIALIZING \<and> (slave_fsm p \<longrightarrow> \<not> master_role (state p'))
    \<and> (resources_are (portIsEnabled (state p')) p' \<or> \<not> portIsEnabled (state p') \<and> changed)"
    using assms(1)
  proof (cases rule: portStateUpdate_cases)
    case step
    then have f: "p' = fst (finish_update e p (state p) (update_next p event mdiff))"
      "changed = snd (finish_update e p (state p) (update_next p event mdiff))"
      by (metis fst_conv snd_conv)+
    have "portIsEnabled (update_next p event mdiff) \<Longrightarrow> portIsEnabled (state p)"
      using update_next_enabled assms(3) by blast
    then have "resources_are (portIsEnabled (state p')) p' \<or> \<not> portIsEnabled (state p') \<and> changed"
      unfolding step(2) using inv f by (cases "state p = update_next p event mdiff") auto
    then show ?thesis
      using step inv update_next_role [of p event mdiff] by simp
  next
    case (init q s)
    then have f: "p' = fst (finish_update e (fst (port_initialize e q)) (state p) s)"
      by (metis fst_conv)
    have "resources_are False q" using init(1) inv(1) by (cases "portIsEnabled (state p)") simp_all
    from resources_port_initialize [OF this, of e]
    have "resources_are (portIsEnabled s) p'"
      unfolding f using init(3) by (simp add: portIsEnabled_def split: if_splits)
    then show ?thesis
      using init(3,4) by (simp add: master_role_def)
  qed
  then show "state p' \<noteq> PS_INITIALIZING" "slave_fsm p \<longrightarrow> \<not> master_role (state p')"
    "resources_are (portIsEnabled (state p')) p' \<or> \<not> portIsEnabled (state p') \<and> changed"
    by blast+
qed

lemma dispatch_state_inv:
  assumes "port_inv p" "event \<noteq> EV_INIT_COMPLETE"
  shows "port_inv (fst (dispatch_state e p event mdiff))"
    "state (fst (dispatch_state e p event mdiff)) \<noteq> PS_INITIALIZING"
    "state (fst (dispatch_state e p event mdiff)) = state (fst (portStateUpdate e p event mdiff))"
proof -
  obtain p' changed where u: "portStateUpdate e p event mdiff = (p', changed)"
    by (cases "portStateUpdate e p event mdiff")
  have m: "masters_ok p" using assms(1) by (simp_all add: port_inv_def)
  note mem = portStateUpdate_mem [OF u m]
  note st = portStateUpdate_state [OF u assms]
  show "state (fst (dispatch_state e p event mdiff)) = state (fst (portStateUpdate e p event mdiff))"
    by (simp add: dispatch_state_def u)
  show "state (fst (dispatch_state e p event mdiff)) \<noteq> PS_INITIALIZING"
    using st(1) by (simp add: dispatch_state_def u)
  show "port_inv (fst (dispatch_state e p event mdiff))"
  proof (cases changed)
    case True
    have "resources_are (portIsEnabled (state p')) (e2eTransition e p' (state p'))
        \<and> resources_are (portIsEnabled (state p')) (p2pTransition e p' (state p'))"
      using st by (intro transition_resources) blast
    then show ?thesis
      using True mem(1,3) m st transition_mem [OF mem(1)]
      by (simp add: dispatch_state_def u port_inv_def)
  next
    case False
    then show ?thesis
      using mem(1,3) m st by (simp add: dispatch_state_def u port_inv_def)
  qed
qed

lemma port_inv_fault_type [simp]: "port_inv (p\<lparr>last_fault_type := f\<rparr>) = port_inv p"
  by (simp add: port_inv_def masters_ok_def balance_def held_def resources_are_def)

lemma bc_dispatch_inv:
  assumes "port_inv p" "event \<noteq> EV_INIT_COMPLETE"
  shows "port_inv (bc_dispatch e p event mdiff)" "state (bc_dispatch e p event mdiff) \<noteq> PS_INITIALIZING"
  using dispatch_state_inv [OF assms, of e mdiff]
    dispatch_state_inv [of "(fst (dispatch_state e p event mdiff))\<lparr>last_fault_type := FT_SWITCH_PHC\<rparr>"
      EV_FAULT_DETECTED e False]
  by (simp_all add: bc_dispatch_def Let_def split_beta)

lemma update_next_fault: "update_next p EV_FAULT_DETECTED d \<notin> {PS_UNCALIBRATED, PS_SLAVE} \<or> \<not> portIsEnabled (state p)"
  by (cases "state p") (auto simp: update_next_def state_machine_def fsm_defs Let_def)

lemma fault_next:
  assumes "portIsEnabled (state p)" "slave_fsm p \<longrightarrow> \<not> master_role (state p)"
  shows "update_next p EV_FAULT_DETECTED d = PS_FAULTY \<or> update_next p EV_FAULT_DETECTED d = PS_INITIALIZING"
  using assms by (cases "state p") (auto simp: update_next_def state_machine_def fsm_defs)

lemma dispatch_fault_state:
  assumes "port_inv p"
  shows "\<not> (snd (dispatch_state e p EV_FAULT_DETECTED d)
    \<and> state (fst (dispatch_state e p EV_FAULT_DETECTED d)) = PS_UNCALIBRATED)"
proof -
  obtain p' changed where u: "portStateUpdate e p EV_FAULT_DETECTED d = (p', changed)"
    by (cases "portStateUpdate e p EV_FAULT_DETECTED d")
  have "state p' \<noteq> PS_UNCALIBRATED" using u
  proof (cases rule: portStateUpdate_cases)
    case step
    then show ?thesis
      using update_next_fault [of p d] update_next_enabled [of EV_FAULT_DETECTED p d]
      by (auto simp: portIsEnabled_def)
  qed (auto split: if_splits)
  then show ?thesis
    by (simp add: dispatch_state_def u)
qed

lemma dispatch_state_mem:
  assumes "masters_ok p"
  shows "masters_ok (fst (dispatch_state e p event mdiff))"
    "balance (fst (dispatch_state e p event mdiff)) = balance p"
proof -
  obtain p' changed where u: "portStateUpdate e p event mdiff = (p', changed)"
    by (cases "portStateUpdate e p event mdiff")
  note mem = portStateUpdate_mem [OF u assms]
  show "masters_ok (fst (dispatch_state e p event mdiff))"
    "balance (fst (dispatch_state e p event mdiff)) = balance p"
    using mem(1,2) transition_mem [OF mem(1)] by (simp_all add: dispatch_state_def u)
qed

lemma fault_type_mem [simp]:
  "masters_ok (p\<lparr>last_fault_type := f\<rparr>) = masters_ok p" "balance (p\<lparr>last_fault_type := f\<rparr>) = balance p"
  by (simp_all add: masters_ok_def balance_def held_def)

lemma bc_dispatch_mem:
  assumes "masters_ok p"
  shows "masters_ok (bc_dispatch e p event mdiff)" "balance (bc_dispatch e p event mdiff) = balance p"
  using dispatch_state_mem [OF assms, of e event mdiff]
    dispatch_state_mem [of "(fst (dispatch_state e p event mdiff))\<lparr>last_fault_type := FT_SWITCH_PHC\<rparr>"
      e EV_FAULT_DETECTED False]
  by (simp_all add: bc_dispatch_def Let_def split_beta)

subsection \<open>The message kept for pairing\<close>

lemma transition_syfu:
  "last_syncfup (e2eTransition e p s) = last_syncfup p" "last_syncfup (p2pTransition e p s) = last_syncfup p"
  "syfu (e2eTransition e p s) = (if s \<in> {PS_FAULTY, PS_DISABLED, PS_UNCALIBRATED} then SF_EMPTY else syfu p)"
  "syfu (p2pTransition e p s) = (if s \<in> {PS_FAULTY, PS_DISABLED, PS_UNCALIBRATED} then SF_EMPTY else syfu p)"
  by (cases s; simp add: e2eTransition_def p2pTransition_def Let_def flush_ops portOpDisable_def)+

lemma finish_update_syfu [simp]:
  "last_syncfup (fst (finish_update e p old nxt)) = last_syncfup p"
  "syfu (fst (finish_update e p old nxt)) = syfu p"
  by (simp_all add: finish_update_def)

lemma portOpDisable_last [simp]: "last_syncfup (portOpDisable p) = last_syncfup p"
  by (simp add: portOpDisable_def Let_def flush_ops)

lemma portStateUpdate_last: "last_syncfup (fst (portStateUpdate e p event mdiff)) = last_syncfup p"
  by (simp add: portStateUpdate_eq Let_def split_beta)

lemma dispatch_state_last: "last_syncfup (fst (dispatch_state e p event mdiff)) = last_syncfup p"
  using portStateUpdate_last [of e p event mdiff]
  by (simp add: dispatch_state_def Let_def split_beta transition_syfu)

lemma bc_dispatch_last [simp]: "last_syncfup (bc_dispatch e p event mdiff) = last_syncfup p"
  by (simp add: bc_dispatch_def Let_def split_beta dispatch_state_last)

text \<open>The transition of a synchronization fault, and the steps that leave the state alone.\<close>

lemma slave_fault:
  assumes "state p = PS_SLAVE"
  shows "syfu (fst (dispatch_state e p EV_SYNCHRONIZATION_FAULT d)) = SF_EMPTY"
    "state (fst (dispatch_state e p EV_SYNCHRONIZATION_FAULT d)) = PS_UNCALIBRATED"
proof -
  have "update_next p EV_SYNCHRONIZATION_FAULT d = PS_UNCALIBRATED"
    using assms by (simp add: update_next_def state_machine_def fsm_defs)
  then have "portStateUpdate e p EV_SYNCHRONIZATION_FAULT d = finish_update e p PS_SLAVE PS_UNCALIBRATED"
    using assms by (simp add: portStateUpdate_eq)
  then show "syfu (fst (dispatch_state e p EV_SYNCHRONIZATION_FAULT d)) = SF_EMPTY"
    "state (fst (dispatch_state e p EV_SYNCHRONIZATION_FAULT d)) = PS_UNCALIBRATED"
    using assms by (simp_all add: dispatch_state_def finish_update_def transition_syfu)
qed

lemma dispatch_state_syfu:
  "syfu (fst (dispatch_state e p event mdiff)) = SF_EMPTY \<or> syfu (fst (dispatch_state e p event mdiff)) = syfu p"
  by (simp add: dispatch_state_def portStateUpdate_eq Let_def split_beta transition_syfu)

lemma slave_fault_dispatch:
  assumes "state p = PS_SLAVE"
  shows "syfu (bc_dispatch e p EV_SYNCHRONIZATION_FAULT d) = SF_EMPTY"
  using slave_fault [OF assms, of e d]
    dispatch_state_syfu [of e "(fst (dispatch_state e p EV_SYNCHRONIZATION_FAULT d))\<lparr>last_fault_type := FT_SWITCH_PHC\<rparr>"
      EV_FAULT_DETECTED False]
  by (simp add: bc_dispatch_def Let_def split_beta)

lemma no_step_dispatch:
  assumes "state_machine p (state p) event mdiff = state p" "state p \<notin> {PS_INITIALIZING, PS_FAULTY}"
  shows "bc_dispatch e p event mdiff = p"
  using assms by (simp add: bc_dispatch_def dispatch_state_def portStateUpdate_eq update_next_def
      finish_update_def Let_def)

lemma uncalibrated_fault_dispatch:
  "state p = PS_UNCALIBRATED \<Longrightarrow> bc_dispatch e p EV_SYNCHRONIZATION_FAULT d = p"
  by (rule no_step_dispatch) (simp_all add: state_machine_def fsm_defs)

lemma locked_dispatch_syfu:
  assumes "state p = PS_UNCALIBRATED \<or> state p = PS_SLAVE"
  shows "syfu (bc_dispatch e p EV_MASTER_CLOCK_SELECTED d) = syfu p"
    "state (bc_dispatch e p EV_MASTER_CLOCK_SELECTED d) = PS_SLAVE"
proof -
  have "update_next p EV_MASTER_CLOCK_SELECTED d = PS_SLAVE"
    using assms by (auto simp: update_next_def state_machine_def fsm_defs)
  then have "portStateUpdate e p EV_MASTER_CLOCK_SELECTED d = finish_update e p (state p) PS_SLAVE"
    by (simp add: portStateUpdate_eq)
  then have "fst (dispatch_state e p EV_MASTER_CLOCK_SELECTED d) = p \<and> state p = PS_SLAVE
      \<or> syfu (fst (dispatch_state e p EV_MASTER_CLOCK_SELECTED d)) = syfu p
        \<and> state (fst (dispatch_state e p EV_MASTER_CLOCK_SELECTED d)) = PS_SLAVE"
    by (auto simp: dispatch_state_def finish_update_def transition_syfu)
  then show "syfu (bc_dispatch e p EV_MASTER_CLOCK_SELECTED d) = syfu p"
    "state (bc_dispatch e p EV_MASTER_CLOCK_SELECTED d) = PS_SLAVE"
    by (auto simp: bc_dispatch_def Let_def split_beta)
qed

end
