(* ===== verification/PortCreate.thy ===== *)
theory PortCreate
  imports PortStates
begin

text \<open>
  The creation of a port, \<open>portCreate\<close> of src/ptpPortInit.c: the refusals, in the order of the
  code, and the initial state. What the transport, the unicast tables and the kernel answer
  are arguments.
\<close>

datatype CLOCK_TYPE = CLOCK_TYPE_ORDINARY | CLOCK_TYPE_BOUNDARY | CLOCK_TYPE_P2P | CLOCK_TYPE_E2E
  | CLOCK_TYPE_MANAGEMENT

text \<open>
  The arguments and the outside answers. \<open>a_claim\<close> is the outcome of
  \<open>unicast_client_claim_table\<close>: \<^const>\<open>None\<close> the error, otherwise the table claimed, if any.
\<close>

record create_args =
  a_type :: CLOCK_TYPE
  a_identity :: ClockIdentity
  a_slave_only :: bool
  a_number :: nat
  a_phc_index :: int
  a_timestamping :: timestamp_type
  a_transport_uds :: bool
  a_ts_info_valid :: bool
  a_ts_phc_index :: int
  a_alloc :: "nat \<Rightarrow> bool"
  a_transport_created :: bool
  a_claim :: "unicast_master_table option option"
  a_set_hybrid_ok :: bool
  a_unicast_service_ok :: bool
  a_fault_timer_ok :: bool

definition dm_of :: "int \<Rightarrow> delay_mechanism" where
  "dm_of i = (if i = 1 then DM_E2E else if i = 2 then DM_P2P else DM_AUTO)"

definition filter_of :: "int \<Rightarrow> filter_type" where
  "filter_of i = (if i = 0 then FILTER_MOVING_AVERAGE else if i = 1 then FILTER_MOVING_MEDIAN else FILTER_OTHER i)"

text \<open>The fault intervals: 2 ^ 4 seconds, then the two that are configured.\<close>

definition default_faults :: "(string \<Rightarrow> int) \<Rightarrow> fault_type \<Rightarrow> fault_interval" where
  "default_faults cfg ft = (case ft of
      FT_BAD_PEER_NETWORK \<Rightarrow> \<lparr>fi_type = FTMO_LINEAR_SECONDS, fi_val = cfg ''fault_badpeernet_interval''\<rparr>
    | FT_UNSPECIFIED \<Rightarrow> \<lparr>fi_type = FTMO_LOG2_SECONDS, fi_val = cfg ''fault_reset_interval''\<rparr>
    | FT_SWITCH_PHC \<Rightarrow> \<lparr>fi_type = FTMO_LOG2_SECONDS, fi_val = 4\<rparr>)"

text \<open>The configuration after a unicast table has turned on \<open>hybrid_e2e\<close>.\<close>

definition unicast_config :: "unicast_master_table option \<Rightarrow> (string \<Rightarrow> int) \<Rightarrow> string \<Rightarrow> int" where
  "unicast_config table cfg = (if table = None then cfg else cfg(''hybrid_e2e'' := 1))"

text \<open>The state of the port at the end of a creation that succeeds.\<close>

definition init_port :: "'d double_ops \<Rightarrow> (string \<Rightarrow> int) \<Rightarrow> create_args \<Rightarrow> unicast_master_table option
    \<Rightarrow> delay_mechanism \<Rightarrow> bool \<Rightarrow> 'd TimestampProcess \<Rightarrow> 'd PtpPort" where
  "init_port fp cfg a table dm hybrid tsp = \<lparr>
    portIdentity = \<lparr>clockIdentity = a_identity a, portNumber = word_of_nat (a_number a)\<rparr>,
    state = PS_INITIALIZING,
    slave_fsm = a_slave_only a,
    p_config = cfg,
    jbod = cfg ''boundary_clock_jbod'' \<noteq> 0,
    best = None,
    foreign_masters = [],
    syfu = SF_EMPTY,
    last_syncfup = zero_msg 0,
    delay_req = [],
    peer_delay_req = None,
    peer_delay_resp = None,
    peer_delay_fup = None,
    peer_portid_valid = False,
    peer_portid = zero_pid,
    peer_delay = tmv_zero,
    seq_announce = 0,
    seq_delayreq = 0,
    seq_sync = 0,
    p_tsproc = tsp,
    log_sync_interval = 0,
    nr_ratio = d_one fp,
    nr_origin1 = tmv_zero,
    nr_ingress1 = tmv_zero,
    nr_max_count = 0,
    nr_count = 0,
    nr_ratio_valid = False,
    pdr_missing = 0,
    multiple_seq_pdr_count = 0,
    multiple_pdr_detected = 0,
    asymmetry = push_bit 16 (word_of_int (cfg ''delayAsymmetry'')),
    asCapable = False,
    logMinDelayReqInterval = 0,
    peerMeanPathDelay = 0,
    logAnnounceInterval = 0,
    announceReceiptTimeout = 0,
    announce_span = (if a_transport_uds a then 0 else 1),
    syncReceiptTimeout = 0,
    transportSpecific = 0,
    match_transport_specific = False,
    p_localPriority = 0,
    logSyncInterval = 0,
    delayMechanism = dm,
    logMinPdelayReqInterval = 0,
    neighborPropDelayThresh = 0,
    min_neighbor_prop_delay = 0,
    follow_up_info = cfg ''follow_up_info'' \<noteq> 0,
    freq_est_interval = cfg ''freq_est_interval'',
    hybrid_e2e = hybrid,
    net_sync_monitor = cfg ''net_sync_monitor'' \<noteq> 0,
    master_only = False,
    path_trace_enabled = cfg ''path_trace_enabled'' \<noteq> 0,
    link_up = True,
    inhibit_multicast_service = False,
    timestamping = a_timestamping a,
    rx_timestamp_offset = push_bit 16 (word_of_int (cfg ''ingressLatency'')),
    tx_timestamp_offset = push_bit 16 (word_of_int (cfg ''egressLatency'')),
    flt_interval_pertype = default_faults cfg,
    last_fault_type = FT_UNSPECIFIED,
    unicast_table = table,
    tc_transmitted = [], tc_spanning_tree = cfg ''tc_spanning_tree'' \<noteq> 0,
    timer = (\<lambda>_. None),
    trp_open = False,
    is_uds = a_transport_uds a,
    refs = (\<lambda>_. 0)\<rparr>"

definition portCreate :: "'d double_ops \<Rightarrow> (string \<Rightarrow> int) \<Rightarrow> create_args \<Rightarrow> 'd PtpPort option" where
  "portCreate fp cfg a =
    (if \<not> a_alloc a 0 then None
     else if a_type a = CLOCK_TYPE_MANAGEMENT then None
     else if \<not> a_transport_uds a \<and> a_ts_info_valid a \<and> a_phc_index a \<ge> 0
        \<and> a_phc_index a \<noteq> a_ts_phc_index a \<and> cfg ''boundary_clock_jbod'' = 0 then None
     else if \<not> a_transport_created a then None
     else if a_number a \<noteq> 0 \<and> a_claim a = None then None
     else
       let table = (if a_number a = 0 then None else the (a_claim a));
           dm = dm_of (cfg ''delay_mechanism'')
       in if table \<noteq> None \<and> \<not> a_set_hybrid_ok a then None
       else if a_number a \<noteq> 0 \<and> \<not> a_unicast_service_ok a then None
       else
         let cfg = unicast_config table cfg;
             hybrid = cfg ''hybrid_e2e'' \<noteq> 0
         in if a_number a \<noteq> 0 \<and> a_type a = CLOCK_TYPE_P2P \<and> dm \<noteq> DM_P2P then None
         else if a_number a \<noteq> 0 \<and> a_type a = CLOCK_TYPE_E2E \<and> dm \<noteq> DM_E2E then None
         else case tsproc_create fp (a_alloc a) (cfg ''tsproc_mode'') (filter_of (cfg ''delay_filter''))
               (cfg ''delay_filter_length'') of
             None \<Rightarrow> None
           | Some tsp \<Rightarrow>
               (if a_number a \<noteq> 0 \<and> \<not> a_fault_timer_ok a then None
                else Some (init_port fp cfg a table dm hybrid tsp)))"

text \<open>A created port is closed, holds no message, and is initializing.\<close>

lemma init_port_sel [simp]:
  "state (init_port fp cfg a table dm hybrid tsp) = PS_INITIALIZING"
  "best (init_port fp cfg a table dm hybrid tsp) = None"
  "foreign_masters (init_port fp cfg a table dm hybrid tsp) = []"
  "slave_fsm (init_port fp cfg a table dm hybrid tsp) = a_slave_only a"
  "trp_open (init_port fp cfg a table dm hybrid tsp) = False"
  "timer (init_port fp cfg a table dm hybrid tsp) fd = None"
  by (simp_all add: init_port_def)

lemma init_port_inv: "port_inv (init_port fp cfg a table dm hybrid tsp)"
  by (simp add: port_inv_def masters_ok_def resources_are_def portIsEnabled_def master_role_def)

lemma init_port_balance: "balance (init_port fp cfg a table dm hybrid tsp) = (\<lambda>_. 0)"
  by (simp add: balance_def held_def init_port_def)

lemma portCreate_Some:
  assumes "portCreate fp cfg a = Some p"
  shows "\<exists>cfg' table dm hybrid tsp. p = init_port fp cfg' a table dm hybrid tsp"
proof -
  define table where "table = (if a_number a = 0 then None else the (a_claim a))"
  define cfg' where "cfg' = unicast_config table cfg"
  show ?thesis
    using assms unfolding portCreate_def Let_def table_def [symmetric] cfg'_def [symmetric]
    by (simp only: option.distinct split: if_split_asm option.split_asm) blast
qed

lemma portCreate_initial:
  assumes "portCreate fp cfg a = Some p"
  shows "port_inv p" "balance p = (\<lambda>_. 0)" "state p = PS_INITIALIZING" "best p = None"
    "slave_fsm p = a_slave_only a"
  using portCreate_Some [OF assms] init_port_inv init_port_balance by auto

end
