(* ===== verification/Samples.thy ===== *)
theory Samples
  imports PortCreate ClockData
begin

text \<open>
  A concrete clock, port and environment, on which the witnesses apply the theorems: an
  ordinary clock with the default configuration, the integers in place of the floating point
  numbers, and an environment in which every call succeeds.
\<close>

definition sample_cid :: "u8 \<Rightarrow> ClockIdentity" where
  "sample_cid i = ClockIdentity 0 0 0 0xFF 0xFE 0 0 i"

definition sample_cfg :: "string \<Rightarrow> int" where
  "sample_cfg s =
    (if s = ''logAnnounceInterval'' then 1
     else if s = ''announceReceiptTimeout'' then 3
     else if s = ''syncReceiptTimeout'' then 0
     else if s = ''G.8275.portDS.localPriority'' then 128
     else if s = ''neighborPropDelayThresh'' then 20000000
     else if s = ''min_neighbor_prop_delay'' then -20000000
     else if s = ''delay_mechanism'' then 1
     else if s = ''delay_filter'' then 1
     else if s = ''delay_filter_length'' then 10
     else if s = ''fault_reset_interval'' then 4
     else if s = ''fault_badpeernet_interval'' then 16
     else if s = ''freq_est_interval'' then 1
     else 0)"

definition sample_args :: "nat \<Rightarrow> create_args" where
  "sample_args n = \<lparr>a_type = CLOCK_TYPE_BOUNDARY, a_identity = sample_cid 9, a_slave_only = False, a_number = n,
    a_phc_index = -1, a_timestamping = TS_SOFTWARE, a_transport_uds = False, a_ts_info_valid = False,
    a_ts_phc_index = -1, a_alloc = (\<lambda>_. True), a_transport_created = True, a_claim = Some None,
    a_set_hybrid_ok = True, a_unicast_service_ok = True, a_fault_timer_ok = True\<rparr>"

definition sample_port :: "nat \<Rightarrow> int PtpPort" where
  "sample_port n = the (portCreate int_ops sample_cfg (sample_args n))"

definition sample_env :: "int env" where
  "sample_env = \<lparr>ops = int_ops, rnd = (\<lambda>_. 0), mono_now = \<lparr>tv_sec = 0, tv_nsec = 0\<rparr>, timerfd_ok = True,
    transport_ok = True, malloc_ok = True, switch_phc_ok = True, servo_answer = SERVO_UNLOCKED,
    pool = [0, 1], tx_ok = (\<lambda>_. True), tx_hwts = tmv_of 1000, c_parent = zero_pid, c_steps_removed = 0, c_rate_ratio = 1,
    nsm_append = (\<lambda>_. None)\<rparr>"

definition sample_quality :: ClockQuality where
  "sample_quality = \<lparr>clockClass = 248, clockAccuracy = 0xFE, offsetScaledLogVariance = 0xFFFF\<rparr>"

definition sample_data :: ClockData where
  "sample_data = clock_update_grandmaster
    \<lparr>dds_slave_only = False, dds_priority1 = 128, dds_clockQuality = sample_quality, dds_priority2 = 128,
     dds_clockIdentity = sample_cid 9, dds_domainNumber = 0, grand_master_capable = True,
     default_localPriority = 128, cur_stepsRemoved = 0, cur_offsetFromMaster = 0, cur_meanPathDelay = 0,
     pds_parentPortIdentity = zero_pid, pds_grandmasterPriority1 = 0,
     pds_grandmasterClockQuality = sample_quality, pds_grandmasterPriority2 = 0,
     pds_grandmasterIdentity = zero_cid, ptl = [], tds_currentUtcOffset = 37, tds_flags = 0, tds_timeSource = 0xA0,
     utc_offset = 37, time_flags = 0, time_source = 0xA0,
     status_fui = \<lparr>cumulativeScaledRateOffset = 0, gmTimeBaseIndicator = 0, lastGmPhaseChange = (0, 0, 0),
       scaledLastGmPhaseChange = 0\<rparr>\<rparr>"

text \<open>An announce message of the foreign master \<open>i\<close>, which is better the smaller \<open>p\<close> is.\<close>

definition sample_announce :: "nat \<Rightarrow> u8 \<Rightarrow> u8 \<Rightarrow> ptp_message" where
  "sample_announce n i p = (zero_msg n)\<lparr>tsmt := 11, ver := 2, messageLength := 64, control := 5,
     sourcePortIdentity := \<lparr>clockIdentity = sample_cid i, portNumber = 1\<rparr>, sequenceId := word_of_nat n,
     logMessageInterval := 1, currentUtcOffset := 37, grandmasterPriority1 := p,
     grandmasterClockQuality := sample_quality, grandmasterPriority2 := 128,
     grandmasterIdentity := sample_cid i\<rparr>"

definition started_port :: "nat \<Rightarrow> int PtpPort" where
  "started_port n = bc_dispatch sample_env (sample_port n) EV_INITIALIZE False"

lemma sample_tsproc: "tsproc_create int_ops (\<lambda>_. True) 0 FILTER_MOVING_MEDIAN 10 =
   Some \<lparr>mode = TSPROC_FILTER, clock_rate_ratio = 1, t1 = tmv_zero, t2 = tmv_zero,
      t3 = tmv_zero, t4 = tmv_zero, filtered_delay = tmv_zero, filtered_delay_valid = False,
      delay_filter = MedianFilter \<lparr>mm_cnt = 0, mm_len = 10, mm_index = 0, mm_order = replicate 10 0,
        mm_samples = replicate 10 tmv_zero\<rparr>\<rparr>"
  by code_simp

lemma sample_port_created: "portCreate int_ops sample_cfg (sample_args n) = Some (sample_port n)"
proof -
  have "portCreate int_ops sample_cfg (sample_args n) \<noteq> None"
    using sample_tsproc
    by (simp add: portCreate_def sample_args_def sample_cfg_def unicast_config_def filter_of_def dm_of_def)
  then show ?thesis by (auto simp: sample_port_def)
qed

lemma initialize_listening:
  assumes "state p = PS_INITIALIZING" "timerfd_ok e" "transport_ok e"
  shows "state (bc_dispatch e p EV_INITIALIZE d) = PS_LISTENING"
    "foreign_masters (bc_dispatch e p EV_INITIALIZE d) = foreign_masters p"
    "best (bc_dispatch e p EV_INITIALIZE d) = best p"
proof -
  have n: "update_next p EV_INITIALIZE d = PS_INITIALIZING"
    by (simp add: update_next_def state_machine_def fsm_defs)
  obtain q where i: "port_initialize e p = (q, False)"
    using assms(2,3) by (cases "port_initialize e p") (auto simp: port_initialize_def Let_def)
  have q: "foreign_masters q = foreign_masters p" "best q = best p" using core_initialize [of e p] core_eqD [of q p] by (simp_all add: i)
  have u: "portStateUpdate e p EV_INITIALIZE d = finish_update e q PS_INITIALIZING PS_LISTENING"
    using assms(1) by (simp add: portStateUpdate_eq n i portIsEnabled_def)
  show "state (bc_dispatch e p EV_INITIALIZE d) = PS_LISTENING"
    "foreign_masters (bc_dispatch e p EV_INITIALIZE d) = foreign_masters p"
    "best (bc_dispatch e p EV_INITIALIZE d) = best p"
    using q by (simp_all add: bc_dispatch_def dispatch_state_def u finish_update_def e2eTransition_def p2pTransition_def Let_def)
qed

lemma started_port_sel: "state (started_port n) = PS_LISTENING" "foreign_masters (started_port n) = []"
  "best (started_port n) = None"
  unfolding started_port_def
  using initialize_listening [of "sample_port n" sample_env False] portCreate_Some [OF sample_port_created, of n]
  by (auto simp: sample_env_def)

lemma started_port_masters_ok: "masters_ok (started_port n)"
  by (simp add: masters_ok_def started_port_sel)

end
