(* ===== verification/PortAnnounce.thy ===== *)
theory PortAnnounce
  imports Samples
begin

text \<open>
  Announce messages: qualification of foreign masters, the update of the current master and
  the choice of a port's best one (\<open>_addForeignMaster\<close>, \<open>_updateCurrentMaster\<close> and
  \<open>portMsgProAnnounce\<close> of src/ptpPortMsgOrdinary.c, \<open>port_compute_best\<close> of src/ptpPort.c).
  A dereference of a null pointer is the value \<^const>\<open>None\<close>.
\<close>

subsection \<open>Operations\<close>

text \<open>The record of a sender, and its replacement in the list.\<close>

definition find_master :: "PortIdentity \<Rightarrow> foreign_clock list \<Rightarrow> foreign_clock option" where
  "find_master s fcs = find (\<lambda>fc. sender (fc_dataset fc) = s) fcs"

fun replace_master :: "PortIdentity \<Rightarrow> foreign_clock \<Rightarrow> foreign_clock list \<Rightarrow> foreign_clock list" where
  "replace_master s fc' [] = []"
| "replace_master s fc' (fc # fcs) =
    (if sender (fc_dataset fc) = s then fc' # fcs else fc # replace_master s fc' fcs)"

text \<open>A record filled with zeros but for the sender.\<close>

definition new_master :: "PortIdentity \<Rightarrow> foreign_clock" where
  "new_master s = \<lparr>messages = [], n_messages = 0, fc_dataset =
    \<lparr>priority1 = 0, identity = zero_cid,
     quality = \<lparr>clockClass = 0, clockAccuracy = 0, offsetScaledLogVariance = 0\<rparr>,
     priority2 = 0, localPriority = 0, stepsRemoved = 0, sender = s,
     receiver = zero_pid\<rparr>\<rparr>"

text \<open>Taking a reference and queueing the message at the head.\<close>

definition enqueue :: "ptp_message \<Rightarrow> foreign_clock \<Rightarrow> foreign_clock" where
  "enqueue m fc = fc\<lparr>n_messages := n_messages fc + 1, messages := m # messages fc\<rparr>"

text \<open>The comparison with the message before, when there is one.\<close>

definition announce_diff :: "ptp_message \<Rightarrow> foreign_clock \<Rightarrow> bool" where
  "announce_diff m fc \<longleftrightarrow> n_messages fc > 1 \<and> announceCompare m (messages fc ! 1) \<noteq> 0"

definition addForeignMaster :: "'d env \<Rightarrow> 'd PtpPort \<Rightarrow> ptp_message \<Rightarrow> 'd PtpPort \<times> bool" where
  "addForeignMaster e p m =
    (case find (msgSourceEqual m) (foreign_masters p) of
       None \<Rightarrow>
         (if \<not> malloc_ok e then (p, False)
          else (p\<lparr>foreign_masters := new_master (sourcePortIdentity m) # foreign_masters p\<rparr>, False))
     | Some fc \<Rightarrow>
         (let (fc, r) = fc_prune (mono_now e) fc (refs p);
              broke_threshold = FOREIGN_MASTER_THRESHOLD - 1 = n_messages fc;
              r = msg_get m r;
              fc = enqueue m fc;
              diff = announce_diff m fc
          in (p\<lparr>foreign_masters := replace_master (sourcePortIdentity m) fc (foreign_masters p), refs := r\<rparr>,
              broke_threshold \<or> diff)))"

text \<open>
  The path that \<open>_updateCurrentMaster\<close> copies from the start of the suffix, whatever is there:
  the bytes of the first TLV, whether it is a path trace or not. Without a TLV it reads the
  bytes behind the message, which \<open>msg_allocate\<close> has cleared, but for those of an incomplete
  TLV: the third of them is then the low byte of the length (on a little endian machine). In
  each case the copy stays inside the buffer of 1500 bytes, and so within the 179 identities
  that \<open>ptl\<close> has room for.
\<close>

definition suffix_path :: "ptp_message \<Rightarrow> ClockIdentity list" where
  "suffix_path m =
    (case m_tlvs m of
       ptt # _ \<Rightarrow> tlv_cids ptt
     | [] \<Rightarrow> (case m_slack m of
           [_, _, l] \<Rightarrow> replicate (unat l div 8) zero_cid
         | _ \<Rightarrow> []))"

definition updateCurrentMaster ::
  "'d env \<Rightarrow> ClockData \<Rightarrow> 'd PtpPort \<Rightarrow> ptp_message \<Rightarrow> (ClockData \<times> 'd PtpPort \<times> bool) option" where
  "updateCurrentMaster e c p m =
    (case best p of
       None \<Rightarrow> None
     | Some b \<Rightarrow>
       (case find_master b (foreign_masters p) of
          None \<Rightarrow> None
        | Some fc \<Rightarrow>
          (if \<not> msgSourceEqual m fc
           then (let (p, changed) = addForeignMaster e p m in Some (c, p, changed))
           else
             let c = (if state p \<noteq> PS_PASSIVE
                      then clock_update_time_properties (currentUtcOffset m) (flagField1 m) (timeSource m) c
                      else c);
                 c = (if path_trace_enabled p then c\<lparr>ptl := suffix_path m\<rparr> else c);
                 p = port_set_announce_tmo e p;
                 (fc, r) = fc_prune (mono_now e) fc (refs p);
                 r = msg_get m r;
                 fc = enqueue m fc
             in Some (c, p\<lparr>foreign_masters := replace_master b fc (foreign_masters p), refs := r\<rparr>,
                  announce_diff m fc))))"

definition portMsgProAnnounce ::
  "'d env \<Rightarrow> ClockData \<Rightarrow> 'd PtpPort \<Rightarrow> ptp_message \<Rightarrow> (ClockData \<times> 'd PtpPort \<times> bool) option" where
  "portMsgProAnnounce e c p m =
    (if a_stepsRemoved m \<ge> 255 then Some (c, p, False)
     else case state p of
         PS_INITIALIZING \<Rightarrow> Some (c, p, False)
       | PS_FAULTY \<Rightarrow> Some (c, p, False)
       | PS_DISABLED \<Rightarrow> Some (c, p, False)
       | PS_LISTENING \<Rightarrow> (let (p, r) = addForeignMaster e p m in Some (c, p, r))
       | PS_PRE_MASTER \<Rightarrow> (let (p, r) = addForeignMaster e p m in Some (c, p, r))
       | PS_MASTER \<Rightarrow> (let (p, r) = addForeignMaster e p m in Some (c, p, r))
       | PS_GRAND_MASTER \<Rightarrow> (let (p, r) = addForeignMaster e p m in Some (c, p, r))
       | PS_PASSIVE \<Rightarrow> updateCurrentMaster e c p m
       | PS_UNCALIBRATED \<Rightarrow> updateCurrentMaster e c p m
       | PS_SLAVE \<Rightarrow> updateCurrentMaster e c p m)"

text \<open>
  The loop of \<open>port_compute_best\<close> over the foreign masters: the list as it is left, the data set
  of the best record so far, and the reference counts.
\<close>

fun best_loop :: "timespec \<Rightarrow> (dataset option \<Rightarrow> dataset option \<Rightarrow> int) \<Rightarrow> u8 \<Rightarrow> PortIdentity
    \<Rightarrow> foreign_clock list \<Rightarrow> dataset option \<Rightarrow> refs \<Rightarrow> foreign_clock list \<times> dataset option \<times> refs" where
  "best_loop now compare lp pid [] b r = ([], b, r)"
| "best_loop now compare lp pid (fc # fcs) b r =
    (case messages fc of
       [] \<Rightarrow> (let (fcs', b', r') = best_loop now compare lp pid fcs b r in (fc # fcs', b', r'))
     | tmp # _ \<Rightarrow>
         (let fc = fc\<lparr>fc_dataset := announce_to_dataset tmp lp pid\<rparr>;
              (fc, r) = fc_prune now fc r;
              (fc, b, r) =
                (if n_messages fc < FOREIGN_MASTER_THRESHOLD then (fc, b, r)
                 else case b of
                     None \<Rightarrow> (fc, Some (fc_dataset fc), r)
                   | Some x \<Rightarrow>
                       (if compare (Some (fc_dataset fc)) (Some x) > 0 then (fc, Some (fc_dataset fc), r)
                        else let (fc, r) = fc_clear fc r in (fc, b, r)));
              (fcs', b', r') = best_loop now compare lp pid fcs b r
          in (fc # fcs', b', r')))"

definition port_compute_best :: "'d env \<Rightarrow> (dataset option \<Rightarrow> dataset option \<Rightarrow> int) \<Rightarrow> 'd PtpPort
    \<Rightarrow> 'd PtpPort \<times> dataset option" where
  "port_compute_best e compare p =
    (let p = p\<lparr>best := None\<rparr>
     in if master_only p then (p, None)
        else let (fcs, b, r) = best_loop (mono_now e) compare (p_localPriority p) (portIdentity p)
                                 (foreign_masters p) None (refs p)
             in (p\<lparr>foreign_masters := fcs, refs := r, best := map_option sender b\<rparr>, b))"

text \<open>The data set that \<open>PORT_BEST_FOREIGN_DS\<close> reads.\<close>

definition best_foreign_ds :: "'d PtpPort \<Rightarrow> dataset option" where
  "best_foreign_ds p = (case best p of None \<Rightarrow> None
     | Some s \<Rightarrow> map_option fc_dataset (find_master s (foreign_masters p)))"

subsection \<open>Facts about the list of masters\<close>

lemma find_msgSource: "find (msgSourceEqual m) fcs = find_master (sourcePortIdentity m) fcs"
  unfolding find_master_def by (rule arg_cong2 [of _ _ _ _ find]) (auto simp: msgSourceEqual_iff)

lemma find_master_Some:
  assumes "find_master s fcs = Some fc"
  shows "fc \<in> set fcs" "sender (fc_dataset fc) = s"
  using assms by (auto simp: find_master_def find_Some_iff in_set_conv_nth)

lemma find_master_None_iff: "find_master s fcs = None \<longleftrightarrow> s \<notin> set (map (\<lambda>fc. sender (fc_dataset fc)) fcs)"
  by (auto simp: find_master_def find_None_iff)

lemma replace_master_held:
  "find_master s fcs = Some fc \<Longrightarrow> masters_held (replace_master s fc' fcs) i =
    masters_held fcs i - held_count (messages fc) i + held_count (messages fc') i"
  by (induction fcs) (auto simp: find_master_def split: if_splits)

lemma replace_master_senders:
  "sender (fc_dataset fc') = s \<Longrightarrow>
    map (\<lambda>fc. sender (fc_dataset fc)) (replace_master s fc' fcs) = map (\<lambda>fc. sender (fc_dataset fc)) fcs"
  by (induction fcs) auto

lemma replace_master_set: "set (replace_master s fc' fcs) \<subseteq> insert fc' (set fcs)"
  by (induction fcs) auto

lemma replace_masters_ok:
  assumes "masters_ok p" "fc_wf fc'" "sender (fc_dataset fc') = s"
  shows "masters_ok (p\<lparr>foreign_masters := replace_master s fc' (foreign_masters p), refs := r\<rparr>)"
  using assms replace_master_set [of s fc' "foreign_masters p"]
  by (auto simp: masters_ok_def replace_master_senders)

lemma replace_balance:
  assumes "find_master s (foreign_masters p) = Some fc"
    "\<And>i. r i - held_count (messages fc') i = refs p i - held_count (messages fc) i"
  shows "balance (p\<lparr>foreign_masters := replace_master s fc' (foreign_masters p), refs := r\<rparr>) = balance p"
proof (rule balance_cong)
  fix i
  show "refs (p\<lparr>foreign_masters := replace_master s fc' (foreign_masters p), refs := r\<rparr>) i
      - held (p\<lparr>foreign_masters := replace_master s fc' (foreign_masters p), refs := r\<rparr>) i
    = refs p i - held p i"
    using assms(2) [of i] by (simp add: held_def replace_master_held [OF assms(1)])
qed

text \<open>Pruning a record and queueing a message from its sender.\<close>

lemma prune_enqueue:
  assumes "fc_wf fc" "sourcePortIdentity m = sender (fc_dataset fc)" "fc_prune now fc r = (fc', r')"
  shows "fc_wf (enqueue m fc')" "sender (fc_dataset (enqueue m fc')) = sender (fc_dataset fc)"
    "msg_get m r' i - held_count (messages (enqueue m fc')) i = r i - held_count (messages fc) i"
proof -
  from fc_prune_wf [OF assms(1,3)] obtain k where
    k: "n_messages fc' = length (messages fc')" "fc_dataset fc' = fc_dataset fc" "fc_wf fc'"
      "\<forall>i. r' i - held_count (messages fc') i = r i - held_count (messages fc) i" by metis
  show "fc_wf (enqueue m fc')" "sender (fc_dataset (enqueue m fc')) = sender (fc_dataset fc)"
    using k assms(2) by (auto simp: enqueue_def fc_wf_def)
  show "msg_get m r' i - held_count (messages (enqueue m fc')) i = r i - held_count (messages fc) i"
    using k(4) by (simp add: enqueue_def algebra_simps)
qed

subsection \<open>What the announce handlers keep\<close>

text \<open>The announce handlers change the records and the counts of a port, and its announce timer.\<close>

definition same_control :: "'d PtpPort \<Rightarrow> 'd PtpPort \<Rightarrow> bool" where
  "same_control p p' \<longleftrightarrow> state p' = state p \<and> slave_fsm p' = slave_fsm p \<and> best p' = best p
    \<and> set (senders p) \<subseteq> set (senders p') \<and> (\<forall>b. resources_are b p' = resources_are b p)
    \<and> portIdentity p' = portIdentity p"

lemma same_control_refl [simp]: "same_control p p"
  by (simp add: same_control_def)

lemma resources_masters [simp]:
  "resources_are b (p\<lparr>foreign_masters := fs, refs := r\<rparr>) = resources_are b p"
  "resources_are b (p\<lparr>foreign_masters := fs\<rparr>) = resources_are b p"
  by (simp_all add: resources_are_def)

lemma addForeignMaster_keeps:
  assumes "masters_ok p" "addForeignMaster e p m = (p', r)"
  shows "masters_ok p' \<and> balance p' = balance p \<and> same_control p p'"
proof (cases "find_master (sourcePortIdentity m) (foreign_masters p)")
  case None
  then have n: "sourcePortIdentity m \<notin> set (senders p)" by (simp add: find_master_None_iff)
  have "balance (p\<lparr>foreign_masters := new_master (sourcePortIdentity m) # foreign_masters p\<rparr>) = balance p"
    by (rule balance_cong) (simp add: held_def new_master_def)
  moreover have "masters_ok (p\<lparr>foreign_masters := new_master (sourcePortIdentity m) # foreign_masters p\<rparr>)"
    using assms(1) n by (auto simp: masters_ok_def new_master_def fc_wf_def)
  ultimately show ?thesis
    using assms None by (auto simp: addForeignMaster_def find_msgSource same_control_def split: if_splits)
next
  case (Some fc)
  note f = find_master_Some [OF Some]
  have wf: "fc_wf fc" using assms(1) f(1) by (simp add: masters_ok_def)
  obtain fc' r' where pr: "fc_prune (mono_now e) fc (refs p) = (fc', r')"
    by (cases "fc_prune (mono_now e) fc (refs p)")
  note q = prune_enqueue [OF wf f(2) [symmetric] pr]
  have p': "p' = p\<lparr>foreign_masters := replace_master (sourcePortIdentity m) (enqueue m fc') (foreign_masters p),
      refs := msg_get m r'\<rparr>"
    using assms(2) Some pr by (simp add: addForeignMaster_def find_msgSource Let_def)
  show ?thesis
    unfolding p' using replace_masters_ok [OF assms(1) q(1)] replace_balance [OF Some q(3)] q(2) f(2)
    by (simp add: same_control_def replace_master_senders del: msg_get_apply)
qed

lemma announce_tmo_keeps:
  "masters_ok p \<Longrightarrow> masters_ok (port_set_announce_tmo e p)"
  "find_master s (foreign_masters (port_set_announce_tmo e p)) = find_master s (foreign_masters p)"
  by simp_all

lemma updateCurrentMaster_total:
  assumes "masters_ok p" "best p = Some b"
  shows "updateCurrentMaster e c p m \<noteq> None"
proof -
  have "b \<in> set (senders p)" using assms by (auto simp: masters_ok_def)
  then obtain fc where "find_master b (foreign_masters p) = Some fc"
    using find_master_None_iff by fastforce
  then show ?thesis
    using assms(2) by (simp add: updateCurrentMaster_def Let_def split: prod.splits if_splits)
qed

lemma updateCurrentMaster_keeps:
  assumes "masters_ok p" "updateCurrentMaster e c p m = Some (c', p', r)"
  shows "masters_ok p' \<and> balance p' = balance p \<and> same_control p p'"
proof -
  from assms(2) obtain b fc where b: "best p = Some b" and f: "find_master b (foreign_masters p) = Some fc"
    by (auto simp: updateCurrentMaster_def split: option.splits)
  note g = find_master_Some [OF f]
  have wf: "fc_wf fc" using assms(1) g(1) by (simp add: masters_ok_def)
  show ?thesis
  proof (cases "msgSourceEqual m fc")
    case False
    then have "addForeignMaster e p m = (p', r)"
      using assms(2) b f by (simp add: updateCurrentMaster_def split: prod.splits)
    with addForeignMaster_keeps [OF assms(1)] show ?thesis by blast
  next
    case True
    then have s: "sourcePortIdentity m = sender (fc_dataset fc)" by (simp add: msgSourceEqual_iff)
    let ?q = "port_set_announce_tmo e p"
    obtain fc' r' where pr: "fc_prune (mono_now e) fc (refs ?q) = (fc', r')"
      by (cases "fc_prune (mono_now e) fc (refs ?q)")
    note q = prune_enqueue [OF wf s pr]
    have p': "p' = ?q\<lparr>foreign_masters := replace_master b (enqueue m fc') (foreign_masters ?q),
        refs := msg_get m r'\<rparr>"
      using assms(2) b f True pr by (simp add: updateCurrentMaster_def Let_def split_beta)
    have fq: "find_master b (foreign_masters ?q) = Some fc" using f by simp
    have sq: "sender (fc_dataset (enqueue m fc')) = b" using q(2) g(2) by simp
    have "masters_ok ?q" using assms(1) by simp
    from replace_masters_ok [OF this q(1) sq] replace_balance [OF fq q(3)] show ?thesis
      unfolding p' using sq by (simp add: same_control_def replace_master_senders del: msg_get_apply)
  qed
qed

lemma portMsgProAnnounce_keeps:
  assumes "masters_ok p" "portMsgProAnnounce e c p m = Some (c', p', r)"
  shows "masters_ok p' \<and> balance p' = balance p \<and> same_control p p'"
  using assms addForeignMaster_keeps [OF assms(1), of e m] updateCurrentMaster_keeps [OF assms(1), of e c m c' p' r]
  by (cases "state p") (auto simp: portMsgProAnnounce_def split: if_splits prod.splits)

subsection \<open>The choice of the best master of a port\<close>

text \<open>
  A record qualifies with two announce messages of which the older one is still current.
\<close>

definition qualifies :: "timespec \<Rightarrow> foreign_clock \<Rightarrow> bool" where
  "qualifies now fc \<longleftrightarrow> length (messages fc) \<ge> 2 \<and> msg_current (messages fc ! 1) now"

definition candidates :: "timespec \<Rightarrow> u8 \<Rightarrow> PortIdentity \<Rightarrow> foreign_clock list \<Rightarrow> dataset list" where
  "candidates now lp pid fcs =
    map (\<lambda>fc. announce_to_dataset (hd (messages fc)) lp pid) (filter (qualifies now) fcs)"

definition choose_best :: "(dataset option \<Rightarrow> dataset option \<Rightarrow> int) \<Rightarrow> dataset option \<Rightarrow> dataset \<Rightarrow> dataset option" where
  "choose_best compare b d = (case b of None \<Rightarrow> Some d
     | Some x \<Rightarrow> if compare (Some d) (Some x) > 0 then Some d else b)"

lemma fc_prune_qualified:
  assumes "fc_wf fc" "fc_prune now fc r = (fc', r')"
  shows "FOREIGN_MASTER_THRESHOLD \<le> n_messages fc' \<longleftrightarrow> qualifies now fc"
proof -
  obtain k where k: "messages fc' = take k (take 2 (messages fc))" "n_messages fc' = length (messages fc')"
    "\<forall>m \<in> set (drop k (take 2 (messages fc))). \<not> msg_current m now"
    "messages fc' \<noteq> [] \<longrightarrow> msg_current (last (messages fc')) now"
    using fc_prune_wf [OF assms] by metis
  show ?thesis
  proof (cases "messages fc")
    case Nil
    then show ?thesis using k by (simp add: qualifies_def)
  next
    case (Cons x xs)
    show ?thesis
    proof (cases xs)
      case Nil
      then show ?thesis using k Cons by (simp add: qualifies_def)
    next
      case (Cons y ys)
      with \<open>messages fc = x # xs\<close> have t: "take 2 (messages fc) = [x, y]" "messages fc ! 1 = y" "2 \<le> length (messages fc)"
        by simp_all
      consider "k = 0" | "k = 1" | "k \<ge> 2" by linarith
      then show ?thesis
        using k t by cases (auto simp: qualifies_def)
    qed
  qed
qed

lemma dataset_update_wf:
  "fc_wf fc \<Longrightarrow> messages fc = m # ms \<Longrightarrow> fc_wf (fc\<lparr>fc_dataset := announce_to_dataset m lp pid\<rparr>)"
  "fc_wf fc \<Longrightarrow> messages fc = m # ms \<Longrightarrow>
    sender (fc_dataset (fc\<lparr>fc_dataset := announce_to_dataset m lp pid\<rparr>)) = sender (fc_dataset fc)"
  by (auto simp: fc_wf_def announce_to_dataset_def)

lemma qualified_dataset [simp]: "qualifies now (fc\<lparr>fc_dataset := d\<rparr>) = qualifies now fc"
  by (simp add: qualifies_def)

text \<open>The loop keeps the records well formed and the references balanced, and chooses among the candidates.\<close>

lemma best_loop_eq:
  assumes "\<forall>fc \<in> set fcs. fc_wf fc" "best_loop now compare lp pid fcs b r = (fcs', b', r')"
  shows "b' = foldl (choose_best compare) b (candidates now lp pid fcs)
    \<and> (\<forall>fc \<in> set fcs'. fc_wf fc)
    \<and> map (\<lambda>fc. sender (fc_dataset fc)) fcs' = map (\<lambda>fc. sender (fc_dataset fc)) fcs
    \<and> (\<forall>i. r' i - masters_held fcs' i = r i - masters_held fcs i)
    \<and> (\<forall>d. b' = Some d \<longrightarrow> b = Some d \<or> (\<exists>fc \<in> set fcs'. fc_dataset fc = d \<and> n_messages fc \<ge> 2))"
  using assms
proof (induction fcs arbitrary: b r fcs' b' r')
  case (Cons fc fcs)
  have wf: "fc_wf fc" and wfs: "\<forall>fc \<in> set fcs. fc_wf fc" using Cons.prems(1) by simp_all
  show ?case
  proof (cases "messages fc")
    case Nil
    obtain fs b1 r1 where l: "best_loop now compare lp pid fcs b r = (fs, b1, r1)"
      by (cases "best_loop now compare lp pid fcs b r")
    have "fcs' = fc # fs" "b' = b1" "r' = r1" using Cons.prems(2) Nil l by simp_all
    with Cons.IH [OF wfs l] Nil wf show ?thesis
      by (auto simp: candidates_def qualifies_def)
  next
    case (Cons m ms)
    let ?d = "announce_to_dataset m lp pid"
    let ?fc = "fc\<lparr>fc_dataset := ?d\<rparr>"
    obtain fc1 r1 where pr: "fc_prune now ?fc r = (fc1, r1)" by (cases "fc_prune now ?fc r")
    note wf' = dataset_update_wf [OF wf Cons, of lp pid]
    have f1: "fc_dataset fc1 = ?d" "fc_wf fc1"
      "\<forall>i. r1 i - held_count (messages fc1) i = r i - held_count (messages fc) i"
      by (rule fc_prune_wf [OF wf'(1) pr], simp)+
    have qual: "n_messages fc1 < 2 \<longleftrightarrow> \<not> qualifies now fc"
      using fc_prune_qualified [OF wf'(1) pr] by auto
    define keep where "keep = (\<not> qualifies now fc \<or> b = None \<or> compare (Some ?d) b > 0)"
    define fc2 where "fc2 = (if keep then fc1 else fst (fc_clear fc1 r1))"
    define r2 where "r2 = (if keep then r1 else snd (fc_clear fc1 r1))"
    define b2 where "b2 = (if qualifies now fc then choose_best compare b ?d else b)"
    have f2: "fc_wf fc2" "sender (fc_dataset fc2) = sender (fc_dataset fc)"
      "r2 i - held_count (messages fc2) i = r i - held_count (messages fc) i" for i
      using f1 wf'(2) fc_clear_wf [OF f1(2), of r1] by (auto simp: fc2_def r2_def)
    obtain fs b1 r3 where l: "best_loop now compare lp pid fcs b2 r2 = (fs, b1, r3)"
      by (cases "best_loop now compare lp pid fcs b2 r2")
    have e: "fcs' = fc2 # fs" "b' = b1" "r' = r3"
    proof -
      have s: "(if n_messages fc1 < FOREIGN_MASTER_THRESHOLD then (fc1, b, r1)
                else case b of
                     None \<Rightarrow> (fc1, Some (fc_dataset fc1), r1)
                   | Some x \<Rightarrow>
                       (if compare (Some (fc_dataset fc1)) (Some x) > 0 then (fc1, Some (fc_dataset fc1), r1)
                        else let (fc, r) = fc_clear fc1 r1 in (fc, b, r))) = (fc2, b2, r2)"
      proof (cases "qualifies now fc")
        case False
        then show ?thesis by (simp add: qual fc2_def r2_def b2_def keep_def)
      next
        case True
        then have n: "(n_messages fc1 < FOREIGN_MASTER_THRESHOLD) = False" by (simp only: qual) simp
        show ?thesis
          unfolding n if_False fc2_def r2_def b2_def keep_def f1(1) using True
          by (cases b) (auto simp: choose_best_def split_beta)
      qed
      have "(fcs', b', r') = (let (fc, b, r) = (fc2, b2, r2);
              (fcs', b', r') = best_loop now compare lp pid fcs b r
          in (fc # fcs', b', r'))"
        unfolding s [symmetric] Cons.prems(2) [symmetric] by (simp only: best_loop.simps Cons list.case pr Let_def prod.case)
      then show "fcs' = fc2 # fs" "b' = b1" "r' = r3" by (simp_all add: l)
    qed
    have c: "candidates now lp pid (fc # fcs) =
        (if qualifies now fc then ?d # candidates now lp pid fcs else candidates now lp pid fcs)"
      using Cons by (simp add: candidates_def)
    note ih = Cons.IH [OF wfs l]
    have "r3 i - masters_held (fc2 # fs) i = r i - masters_held (fc # fcs) i" for i
    proof -
      have "r3 i - masters_held fs i = r2 i - masters_held fcs i" using ih by blast
      then show ?thesis using f2(3) [of i] by simp
    qed
    moreover have "b = Some d \<or> (\<exists>fc \<in> set (fc2 # fs). fc_dataset fc = d \<and> n_messages fc \<ge> 2)"
      if "b1 = Some d" for d
    proof -
      have "b2 = Some d \<Longrightarrow> b \<noteq> Some d \<Longrightarrow> d = ?d \<and> keep \<and> qualifies now fc"
        by (auto simp: b2_def choose_best_def keep_def split: option.splits if_splits)
      then have "b2 = Some d \<Longrightarrow> b \<noteq> Some d \<Longrightarrow> fc_dataset fc2 = d \<and> n_messages fc2 \<ge> 2"
        using qual f1(1) by (simp add: fc2_def)
      then show ?thesis using ih that by auto
    qed
    ultimately show ?thesis
      unfolding e c using ih f2(1,2) by (simp add: b2_def)
  qed
qed (simp add: candidates_def)

text \<open>With a comparison that meets its contract, the choice is optimal.\<close>

context dataset_compare
begin

lemma foldl_choose_Some:
  assumes "\<forall>x \<in> insert b (set ds). \<forall>y \<in> insert b (set ds). compatible x y"
  shows "\<exists>d \<in> insert b (set ds). foldl (choose_best compare) (Some b) ds = Some d
    \<and> (\<forall>x \<in> insert b (set ds). key d \<le> key x)"
  using assms
proof (induction ds arbitrary: b)
  case (Cons x ds)
  show ?case
  proof (cases "compare (Some x) (Some b) > 0")
    case True
    then have "key x < key b" using Cons.prems compare_key [of x b] by simp
    with Cons.IH [of x] Cons.prems True show ?thesis
      by (auto simp: choose_best_def)
  next
    case False
    then have "key b \<le> key x" using Cons.prems compare_key [of x b] by simp
    with Cons.IH [of b] Cons.prems False show ?thesis
      by (auto simp: choose_best_def)
  qed
qed simp

lemma foldl_choose_None:
  assumes "\<forall>x \<in> set ds. \<forall>y \<in> set ds. compatible x y"
  shows "foldl (choose_best compare) None ds = None \<longleftrightarrow> ds = []"
    "foldl (choose_best compare) None ds = Some d \<Longrightarrow> d \<in> set ds \<and> (\<forall>x \<in> set ds. key d \<le> key x)"
  using assms foldl_choose_Some [of "hd ds" "tl ds"] by (cases ds; force simp: choose_best_def)+

end

lemma port_compute_best_keeps:
  assumes "masters_ok p" "port_compute_best e compare p = (p', b)"
  shows "masters_ok p'" "balance p' = balance p" "senders p' = senders p" "best_foreign_ds p' = b"
    "b = (if master_only p then None else foldl (choose_best compare) None
      (candidates (mono_now e) (p_localPriority p) (portIdentity p) (foreign_masters p)))"
    "best p' = map_option sender b"
    "b = Some d \<Longrightarrow> \<exists>fc. find_master (sender d) (foreign_masters p') = Some fc \<and> fc_dataset fc = d
      \<and> messages fc \<noteq> []"
proof -
  obtain fcs b1 r where l: "best_loop (mono_now e) compare (p_localPriority p) (portIdentity p)
      (foreign_masters p) None (refs p) = (fcs, b1, r)"
    by (cases "best_loop (mono_now e) compare (p_localPriority p) (portIdentity p) (foreign_masters p) None (refs p)")
  have "\<forall>fc \<in> set (foreign_masters p). fc_wf fc" using assms(1) by (simp add: masters_ok_def)
  note eq = best_loop_eq [OF this l]
  have p': "p' = (if master_only p then p\<lparr>best := None\<rparr>
      else p\<lparr>foreign_masters := fcs, refs := r, best := map_option sender b1\<rparr>)"
    and b: "b = (if master_only p then None else b1)"
    using assms(2) l by (auto simp: port_compute_best_def Let_def split: if_splits)
  have find: "\<exists>fc. find_master (sender d) fcs = Some fc \<and> fc_dataset fc = d \<and> messages fc \<noteq> []"
    if bd: "b1 = Some d" for d
  proof -
    have "\<forall>d. b1 = Some d \<longrightarrow> None = Some d \<or> (\<exists>fc \<in> set fcs. fc_dataset fc = d \<and> n_messages fc \<ge> 2)"
      using eq by (elim conjE)
    then obtain fc where fc: "fc \<in> set fcs" "fc_dataset fc = d" "n_messages fc \<ge> 2" using bd by auto
    moreover have "distinct (map (\<lambda>fc. sender (fc_dataset fc)) fcs)"
      using assms(1) eq by (simp add: masters_ok_def)
    ultimately have "find_master (sender d) fcs = Some fc"
      unfolding find_master_def find_Some_iff distinct_conv_nth in_set_conv_nth
      by (auto simp: in_set_conv_nth)
    moreover have "messages fc \<noteq> []" using fc eq by (auto simp: fc_wf_def)
    ultimately show ?thesis using fc(2) by blast
  qed
  have s: "b1 = Some d \<Longrightarrow> sender d \<in> (\<lambda>fc. sender (fc_dataset fc)) ` set fcs" for d
    using find [of d] find_master_Some by blast
  show "masters_ok p'" unfolding p' using assms(1) eq s
    by (auto simp: masters_ok_def)
  show "balance p' = balance p" unfolding p' using eq
    by (intro balance_cong) (simp add: held_def algebra_simps)
  show "senders p' = senders p" unfolding p' using eq by simp
  show "best p' = map_option sender b" unfolding p' b by simp
  show "b = (if master_only p then None else foldl (choose_best compare) None
      (candidates (mono_now e) (p_localPriority p) (portIdentity p) (foreign_masters p)))"
    unfolding b using eq by simp
  show "best_foreign_ds p' = b"
    unfolding p' b best_foreign_ds_def using find by (cases b1) auto
  show "b = Some d \<Longrightarrow> \<exists>fc. find_master (sender d) (foreign_masters p') = Some fc \<and> fc_dataset fc = d
      \<and> messages fc \<noteq> []"
    unfolding p' b using find [of d] by (simp split: if_splits)
qed

subsection \<open>Properties\<close>

text \<open>
  C4: A port selects the best of its qualified foreign masters. A record qualifies with two
  announce messages received of which the older is not expired. No master is selected exactly
  when none qualifies, and otherwise the one selected has the least key of the best master
  clock comparison among all that qualify.
\<close>

theorem port_best_optimal:
  assumes "masters_ok p" "\<not> master_only p"
    and "D = candidates (mono_now e) (p_localPriority p) (portIdentity p) (foreign_masters p)"
    and "\<forall>x \<in> set D. no_error1 x" "\<forall>x \<in> set D. \<forall>y \<in> set D. same_gm_consistent x y"
    and "port_compute_best e dscmp p = (p', b)"
  shows "(b = None \<longleftrightarrow> D = []) \<and> best_foreign_ds p' = b
    \<and> (\<forall>d. b = Some d \<longrightarrow> d \<in> set D \<and> (\<forall>x \<in> set D. ieee_key d \<le> ieee_key x))"
proof -
  have "b = foldl (choose_best dscmp) None D"
    using port_compute_best_keeps(5) [OF assms(1,6)] assms(2,3) by simp
  moreover have c: "\<forall>x \<in> set D. \<forall>y \<in> set D. no_error1 x \<and> no_error1 y \<and> same_gm_consistent x y"
    using assms(4,5) by blast
  ultimately show ?thesis
    using ieee.foldl_choose_None(1) [OF c] ieee.foldl_choose_None(2) [OF c]
      port_compute_best_keeps(4) [OF assms(1,6)] by simp
qed

text \<open>A port with two qualified masters.\<close>

definition sample_record :: "u8 \<Rightarrow> u8 \<Rightarrow> foreign_clock" where
  "sample_record i p = \<lparr>messages = [sample_announce 2 i p, sample_announce 1 i p], n_messages = 2,
     fc_dataset = announce_to_dataset (sample_announce 1 i p) 128 zero_pid\<rparr>"

definition two_masters :: "int PtpPort" where
  "two_masters = (started_port 1)\<lparr>master_only := False, p_localPriority := 128,
     portIdentity := \<lparr>clockIdentity = sample_cid 9, portNumber = 1\<rparr>,
     foreign_masters := [sample_record 5 100, sample_record 6 90]\<rparr>"

theorem port_best_optimal_witness:
  "\<exists>p' b. port_compute_best sample_env dscmp two_masters = (p', b) \<and> best_foreign_ds p' = b
    \<and> (\<exists>d. b = Some d \<and> ieee_key d \<le> ieee_key (announce_to_dataset (sample_announce 2 5 100) 128 (portIdentity two_masters))
        \<and> ieee_key d \<le> ieee_key (announce_to_dataset (sample_announce 2 6 90) 128 (portIdentity two_masters)))"
proof -
  let ?D = "[announce_to_dataset (sample_announce 2 5 100) 128 \<lparr>clockIdentity = sample_cid 9, portNumber = 1\<rparr>,
    announce_to_dataset (sample_announce 2 6 90) 128 \<lparr>clockIdentity = sample_cid 9, portNumber = 1\<rparr>]"
  have q: "qualifies \<lparr>tv_sec = 0, tv_nsec = 0\<rparr> (sample_record 5 100) \<and> qualifies \<lparr>tv_sec = 0, tv_nsec = 0\<rparr> (sample_record 6 90)"
    by code_simp
  have D: "?D = candidates (mono_now sample_env) (p_localPriority two_masters) (portIdentity two_masters) (foreign_masters two_masters)"
    using q by (simp add: candidates_def two_masters_def sample_env_def) (simp add: sample_record_def)
  have "fc_wf (sample_record 5 100) \<and> fc_wf (sample_record 6 90)
      \<and> sender (fc_dataset (sample_record 5 100)) \<noteq> sender (fc_dataset (sample_record 6 90))"
    by (simp add: fc_wf_def sample_record_def announce_to_dataset_def sample_announce_def sample_cid_def)
  then have m: "masters_ok two_masters"
    by (simp add: masters_ok_def two_masters_def started_port_sel)
  have mo: "\<not> master_only two_masters" by (simp add: two_masters_def)
  have ne: "\<forall>x \<in> set ?D. no_error1 x" by code_simp
  have sg: "\<forall>x \<in> set ?D. \<forall>y \<in> set ?D. same_gm_consistent x y" by code_simp
  obtain p' b where c: "port_compute_best sample_env dscmp two_masters = (p', b)"
    by (cases "port_compute_best sample_env dscmp two_masters")
  show ?thesis
    using port_best_optimal [OF m mo D ne sg c] c by (auto simp: two_masters_def)
qed

end
