(* ===== verification/PortSync.thy ===== *)
theory PortSync
  imports PortAnnounce
begin

text \<open>
  Synchronization messages (src/ptpPortMsgOrdinary.c): the pairing of Sync and Follow_Up
  messages in either order by \<open>port_syfufsm\<close>, the handlers \<open>portMsgProSync\<close>,
  \<open>portMsgProFollowUp\<close> and \<open>portMsgProDelayResp\<close>, and the synchronization of the clock with
  its effect on the port. The calls to the clock, \<open>ptpClockSynchronize(t2, t1c)\<close> and
  \<open>ptpClockPathDelay(t3, t4c)\<close>, are outputs; the servo state that the first returns is the
  field \<open>servo_answer\<close> of the environment.
\<close>

subsection \<open>Operations\<close>

abbreviation TWO_STEP :: u8 where "TWO_STEP \<equiv> 2"
abbreviation UNICAST :: u8 where "UNICAST \<equiv> 4"

definition msg_unicast :: "ptp_message \<Rightarrow> bool" where
  "msg_unicast m \<longleftrightarrow> flagField0 m AND UNICAST \<noteq> 0"

text \<open>\<open>assume_two_step\<close> is a global variable set from the configuration.\<close>

definition one_step :: "bool \<Rightarrow> ptp_message \<Rightarrow> bool" where
  "one_step assume_two_step m \<longleftrightarrow> \<not> assume_two_step \<and> flagField0 m AND TWO_STEP = 0"

datatype 'd clock_call = ClockSynchronize tmv_t tmv_t | ClockPathDelay tmv_t tmv_t | ClockSyncInterval int
  | ClockCheckTs tmv_t | ClockPeerDelay tmv_t tmv_t tmv_t 'd

datatype syfu_event = SYNC_MISMATCH | SYNC_MATCH | FUP_MISMATCH | FUP_MATCH

definition fupSync_ok :: "ptp_message \<Rightarrow> ptp_message \<Rightarrow> bool" where
  "fupSync_ok fup sync \<longleftrightarrow> \<not> tmv_cmp (hwts_sw fup) (hwts_sw sync) < 0"

text \<open>
  \<open>PORT_DISPATCH\<close> calls the dispatch function of the port, \<open>bc_dispatch\<close> or one of those of a
  transparent clock. The handlers that use it have it as a parameter (\<open>_by\<close>); without the
  parameter they are those of an ordinary or boundary clock. A synchronization fault that takes
  a slave back can release the messages the port keeps.
\<close>

type_synonym 'd dispatch = "'d PtpPort \<Rightarrow> PORT_EVENT \<Rightarrow> bool \<Rightarrow> 'd PtpPort"

definition portSynchronize_by :: "'d dispatch \<Rightarrow> 'd env \<Rightarrow> 'd PtpPort \<Rightarrow> tmv_t \<Rightarrow> LocalTimeStamp \<Rightarrow> i64 \<Rightarrow> i64
    \<Rightarrow> 'd PtpPort \<times> 'd clock_call list" where
  "portSynchronize_by dispatch e p ingress_ts origin_ts correction1 correction2 =
    (let p = port_set_sync_rx_tmo p;
         c1 = correction_to_tmv correction1;
         c2 = correction_to_tmv correction2;
         t1c = tmv_add (timestamp_to_tmv origin_ts) (tmv_add c1 c2);
         p = (case servo_answer e of
            SERVO_UNLOCKED \<Rightarrow> dispatch p EV_SYNCHRONIZATION_FAULT False
          | SERVO_JUMP \<Rightarrow>
              (let p = dispatch p EV_SYNCHRONIZATION_FAULT False;
                   p = flush_delay_req p
               in p\<lparr>refs := put_option (peer_delay_req p) (refs p), peer_delay_req := None\<rparr>)
          | SERVO_LOCKED \<Rightarrow> dispatch p EV_MASTER_CLOCK_SELECTED False)
     in (p, [ClockSynchronize ingress_ts t1c]))"

definition portSynchronize :: "'d env \<Rightarrow> 'd PtpPort \<Rightarrow> tmv_t \<Rightarrow> LocalTimeStamp \<Rightarrow> i64 \<Rightarrow> i64
    \<Rightarrow> 'd PtpPort \<times> 'd clock_call list" where
  portSynchronize_bc: "portSynchronize e = portSynchronize_by (bc_dispatch e) e"

lemma portSynchronize_def:
  "portSynchronize e p ingress_ts origin_ts correction1 correction2 =
    (let p = port_set_sync_rx_tmo p;
         c1 = correction_to_tmv correction1;
         c2 = correction_to_tmv correction2;
         t1c = tmv_add (timestamp_to_tmv origin_ts) (tmv_add c1 c2);
         p = (case servo_answer e of
            SERVO_UNLOCKED \<Rightarrow> bc_dispatch e p EV_SYNCHRONIZATION_FAULT False
          | SERVO_JUMP \<Rightarrow>
              (let p = bc_dispatch e p EV_SYNCHRONIZATION_FAULT False;
                   p = flush_delay_req p
               in p\<lparr>refs := put_option (peer_delay_req p) (refs p), peer_delay_req := None\<rparr>)
          | SERVO_LOCKED \<Rightarrow> bc_dispatch e p EV_MASTER_CLOCK_SELECTED False)
     in (p, [ClockSynchronize ingress_ts t1c]))"
  by (simp only: portSynchronize_bc portSynchronize_by_def)

text \<open>Taking a reference to the message and keeping it.\<close>

definition keep_syncfup :: "ptp_message \<Rightarrow> SyncFollowupState \<Rightarrow> 'd PtpPort \<Rightarrow> 'd PtpPort" where
  "keep_syncfup m s p = p\<lparr>refs := msg_get m (refs p), last_syncfup := m, syfu := s\<rparr>"

definition put_syncfup :: "'d PtpPort \<Rightarrow> 'd PtpPort" where
  "put_syncfup p = p\<lparr>refs := msg_put (last_syncfup p) (refs p)\<rparr>"

text \<open>
  After a complete pair the code releases \<open>last_syncfup\<close> through the pointer the port keeps,
  also when the dispatch inside \<open>portSynchronize\<close> has released it already. Releasing only
  counts in the model, so this shows as a count that is one too low
  (\<open>syfufsm_reference_balance\<close>).
\<close>

definition port_syfufsm_by :: "'d dispatch \<Rightarrow> 'd env \<Rightarrow> 'd PtpPort \<Rightarrow> syfu_event \<Rightarrow> ptp_message
    \<Rightarrow> 'd PtpPort \<times> 'd clock_call list" where
  "port_syfufsm_by dispatch e p event m =
    (case syfu p of
       SF_EMPTY \<Rightarrow> (case event of
           SYNC_MISMATCH \<Rightarrow> (keep_syncfup m SF_HAVE_SYNC p, [])
         | FUP_MISMATCH \<Rightarrow> (keep_syncfup m SF_HAVE_FUP p, [])
         | SYNC_MATCH \<Rightarrow> (p, [])
         | FUP_MATCH \<Rightarrow> (p, []))
     | SF_HAVE_SYNC \<Rightarrow> (case event of
           SYNC_MISMATCH \<Rightarrow> (keep_syncfup m SF_HAVE_SYNC (put_syncfup p), [])
         | SYNC_MATCH \<Rightarrow> (p, [])
         | FUP_MISMATCH \<Rightarrow> (keep_syncfup m SF_HAVE_FUP (put_syncfup p), [])
         | FUP_MATCH \<Rightarrow>
             (let syn = last_syncfup p;
                  (p, calls) = portSynchronize_by dispatch e p (hwts_ts syn) (ts_pdu m) (correction syn) (correction m)
              in ((put_syncfup p)\<lparr>syfu := SF_EMPTY\<rparr>, calls)))
     | SF_HAVE_FUP \<Rightarrow> (case event of
           SYNC_MISMATCH \<Rightarrow> (keep_syncfup m SF_HAVE_SYNC (put_syncfup p), [])
         | SYNC_MATCH \<Rightarrow>
             (let fup = last_syncfup p;
                  (p, calls) = portSynchronize_by dispatch e p (hwts_ts m) (ts_pdu fup) (correction m) (correction fup)
              in ((put_syncfup p)\<lparr>syfu := SF_EMPTY\<rparr>, calls))
         | FUP_MISMATCH \<Rightarrow> (keep_syncfup m SF_HAVE_FUP (put_syncfup p), [])
         | FUP_MATCH \<Rightarrow> (p, [])))"

definition port_syfufsm :: "'d env \<Rightarrow> 'd PtpPort \<Rightarrow> syfu_event \<Rightarrow> ptp_message
    \<Rightarrow> 'd PtpPort \<times> 'd clock_call list" where
  port_syfufsm_bc: "port_syfufsm e = port_syfufsm_by (bc_dispatch e) e"

lemma port_syfufsm_def:
  "port_syfufsm e p event m =
    (case syfu p of
       SF_EMPTY \<Rightarrow> (case event of
           SYNC_MISMATCH \<Rightarrow> (keep_syncfup m SF_HAVE_SYNC p, [])
         | FUP_MISMATCH \<Rightarrow> (keep_syncfup m SF_HAVE_FUP p, [])
         | SYNC_MATCH \<Rightarrow> (p, [])
         | FUP_MATCH \<Rightarrow> (p, []))
     | SF_HAVE_SYNC \<Rightarrow> (case event of
           SYNC_MISMATCH \<Rightarrow> (keep_syncfup m SF_HAVE_SYNC (put_syncfup p), [])
         | SYNC_MATCH \<Rightarrow> (p, [])
         | FUP_MISMATCH \<Rightarrow> (keep_syncfup m SF_HAVE_FUP (put_syncfup p), [])
         | FUP_MATCH \<Rightarrow>
             (let syn = last_syncfup p;
                  (p, calls) = portSynchronize e p (hwts_ts syn) (ts_pdu m) (correction syn) (correction m)
              in ((put_syncfup p)\<lparr>syfu := SF_EMPTY\<rparr>, calls)))
     | SF_HAVE_FUP \<Rightarrow> (case event of
           SYNC_MISMATCH \<Rightarrow> (keep_syncfup m SF_HAVE_SYNC (put_syncfup p), [])
         | SYNC_MATCH \<Rightarrow>
             (let fup = last_syncfup p;
                  (p, calls) = portSynchronize e p (hwts_ts m) (ts_pdu fup) (correction m) (correction fup)
              in ((put_syncfup p)\<lparr>syfu := SF_EMPTY\<rparr>, calls))
         | FUP_MISMATCH \<Rightarrow> (keep_syncfup m SF_HAVE_FUP (put_syncfup p), [])
         | FUP_MATCH \<Rightarrow> (p, [])))"
  by (simp only: port_syfufsm_bc port_syfufsm_by_def portSynchronize_bc)

definition synchronizing :: "PORT_STATE \<Rightarrow> bool" where
  "synchronizing s \<longleftrightarrow> s = PS_UNCALIBRATED \<or> s = PS_SLAVE"

definition portMsgProSync_by :: "'d dispatch \<Rightarrow> 'd env \<Rightarrow> bool \<Rightarrow> ClockData \<Rightarrow> 'd PtpPort \<Rightarrow> ptp_message
    \<Rightarrow> 'd PtpPort \<times> 'd clock_call list" where
  "portMsgProSync_by dispatch e assume_two_step c p m =
    (if \<not> synchronizing (state p) then (p, [])
     else if \<not> pid_eq (pds_parentPortIdentity c) (sourcePortIdentity m) then (p, [])
     else
       let (p, calls) = (if \<not> msg_unicast m \<and> sint (logMessageInterval m) \<noteq> log_sync_interval p
              then (p\<lparr>log_sync_interval := sint (logMessageInterval m)\<rparr>,
                    [ClockSyncInterval (sint (logMessageInterval m))])
              else (p, []));
           m = m\<lparr>correction := correction m + asymmetry p\<rparr>
       in if one_step assume_two_step m
          then (let (p, calls') = portSynchronize_by dispatch e p (hwts_ts m) (ts_pdu m) (correction m) 0
                in (flush_last_sync p, calls @ calls'))
          else
            let event = (if syfu p = SF_HAVE_FUP \<and> fupSync_ok (last_syncfup p) m
                   \<and> sequenceId (last_syncfup p) = sequenceId m
                 then SYNC_MATCH else SYNC_MISMATCH);
                (p, calls') = port_syfufsm_by dispatch e p event m
            in (p, calls @ calls'))"

definition portMsgProSync :: "'d env \<Rightarrow> bool \<Rightarrow> ClockData \<Rightarrow> 'd PtpPort \<Rightarrow> ptp_message
    \<Rightarrow> 'd PtpPort \<times> 'd clock_call list" where
  portMsgProSync_bc: "portMsgProSync e = portMsgProSync_by (bc_dispatch e) e"

lemma portMsgProSync_def:
  "portMsgProSync e assume_two_step c p m =
    (if \<not> synchronizing (state p) then (p, [])
     else if \<not> pid_eq (pds_parentPortIdentity c) (sourcePortIdentity m) then (p, [])
     else
       let (p, calls) = (if \<not> msg_unicast m \<and> sint (logMessageInterval m) \<noteq> log_sync_interval p
              then (p\<lparr>log_sync_interval := sint (logMessageInterval m)\<rparr>,
                    [ClockSyncInterval (sint (logMessageInterval m))])
              else (p, []));
           m = m\<lparr>correction := correction m + asymmetry p\<rparr>
       in if one_step assume_two_step m
          then (let (p, calls') = portSynchronize e p (hwts_ts m) (ts_pdu m) (correction m) 0
                in (flush_last_sync p, calls @ calls'))
          else
            let event = (if syfu p = SF_HAVE_FUP \<and> fupSync_ok (last_syncfup p) m
                   \<and> sequenceId (last_syncfup p) = sequenceId m
                 then SYNC_MATCH else SYNC_MISMATCH);
                (p, calls') = port_syfufsm e p event m
            in (p, calls @ calls'))"
  by (simp only: portMsgProSync_bc portMsgProSync_by_def portSynchronize_bc port_syfufsm_bc)

definition portMsgProFollowUp_by :: "'d dispatch \<Rightarrow> 'd env \<Rightarrow> ClockData \<Rightarrow> 'd PtpPort \<Rightarrow> ptp_message
    \<Rightarrow> ClockData \<times> 'd PtpPort \<times> 'd clock_call list" where
  "portMsgProFollowUp_by dispatch e c p m =
    (if \<not> synchronizing (state p) then (c, p, [])
     else if \<not> pid_eq (pds_parentPortIdentity c) (sourcePortIdentity m) then (c, p, [])
     else if follow_up_info p \<and> fup_info m = None then (c, p, [])
     else
       let c = (if follow_up_info p then clock_follow_up_info (the (fup_info m)) c else c);
           event = (if syfu p = SF_HAVE_SYNC \<and> sequenceId (last_syncfup p) = sequenceId m
                    then FUP_MATCH else FUP_MISMATCH);
           (p, calls) = port_syfufsm_by dispatch e p event m
       in (c, p, calls))"

definition portMsgProFollowUp :: "'d env \<Rightarrow> ClockData \<Rightarrow> 'd PtpPort \<Rightarrow> ptp_message
    \<Rightarrow> ClockData \<times> 'd PtpPort \<times> 'd clock_call list" where
  portMsgProFollowUp_bc: "portMsgProFollowUp e = portMsgProFollowUp_by (bc_dispatch e) e"

lemma portMsgProFollowUp_def:
  "portMsgProFollowUp e c p m =
    (if \<not> synchronizing (state p) then (c, p, [])
     else if \<not> pid_eq (pds_parentPortIdentity c) (sourcePortIdentity m) then (c, p, [])
     else if follow_up_info p \<and> fup_info m = None then (c, p, [])
     else
       let c = (if follow_up_info p then clock_follow_up_info (the (fup_info m)) c else c);
           event = (if syfu p = SF_HAVE_SYNC \<and> sequenceId (last_syncfup p) = sequenceId m
                    then FUP_MATCH else FUP_MISMATCH);
           (p, calls) = port_syfufsm e p event m
       in (c, p, calls))"
  by (simp only: portMsgProFollowUp_bc portMsgProFollowUp_by_def port_syfufsm_bc)

text \<open>
  The pending delay request with the sequence number of the response is removed. The
  requested interval is taken over when it is plausible.
\<close>

definition portMsgProDelayResp :: "'d env \<Rightarrow> ClockData \<Rightarrow> 'd PtpPort \<Rightarrow> ptp_message
    \<Rightarrow> 'd PtpPort \<times> 'd clock_call list" where
  "portMsgProDelayResp e c p m =
    (if \<not> synchronizing (state p) then (p, [])
     else if \<not> pid_eq (requestingPortIdentity m) (portIdentity p) then (p, [])
     else if \<not> pid_eq (pds_parentPortIdentity c) (sourcePortIdentity m) then (p, [])
     else case find (\<lambda>req. sequenceId m = sequenceId req) (delay_req p) of
         None \<Rightarrow> (p, [])
       | Some req \<Rightarrow>
           (let c3 = correction_to_tmv (correction m);
                t4c = tmv_sub (timestamp_to_tmv (ts_pdu m)) c3;
                calls = [ClockPathDelay (hwts_ts req) t4c];
                p = p\<lparr>delay_req := remove1 req (delay_req p), refs := msg_put req (refs p)\<rparr>
            in if logMinDelayReqInterval p = logMessageInterval m then (p, calls)
               else if msg_unicast m then (p, calls)
               else if sint (logMessageInterval m) < -10 \<or> sint (logMessageInterval m) > 22 then (p, calls)
               else (port_set_delay_tmo e (p\<lparr>logMinDelayReqInterval := logMessageInterval m\<rparr>), calls)))"

subsection \<open>What the handlers keep\<close>

lemma port_inv_core_fields [simp]:
  "port_inv (p\<lparr>refs := r\<rparr>) = port_inv p"
  "port_inv (p\<lparr>refs := r, last_syncfup := m, syfu := s\<rparr>) = port_inv p"
  "port_inv (p\<lparr>refs := r, peer_delay_req := q\<rparr>) = port_inv p"
  "port_inv (p\<lparr>syfu := s\<rparr>) = port_inv p"
  "port_inv (p\<lparr>log_sync_interval := n\<rparr>) = port_inv p"
  "port_inv (p\<lparr>logMinDelayReqInterval := l\<rparr>) = port_inv p"
  "port_inv (p\<lparr>delay_req := d, refs := r\<rparr>) = port_inv p"
  "port_inv (p\<lparr>delay_req := d\<rparr>) = port_inv p"
  by (simp_all add: port_inv_def masters_ok_def resources_are_def)

lemma port_inv_ops [simp]:
  "port_inv (port_set_sync_rx_tmo p) = port_inv p"
  "port_inv (port_set_delay_tmo e p) = port_inv p"
  "port_inv (port_set_announce_tmo e p) = port_inv p"
  "port_inv (flush_last_sync p) = port_inv p"
  "port_inv (flush_delay_req p) = port_inv p"
  "port_inv (keep_syncfup m s p) = port_inv p"
  "port_inv (put_syncfup p) = port_inv p"
  by (simp_all add: port_inv_def keep_syncfup_def put_syncfup_def masters_ok_def resources_are_def)

lemma portSynchronize_inv:
  "port_inv p \<Longrightarrow> port_inv (fst (portSynchronize e p t ots k1 k2))"
  "port_inv p \<Longrightarrow> state (fst (portSynchronize e p t ots k1 k2)) \<noteq> PS_INITIALIZING"
  by (cases "servo_answer e"; simp add: portSynchronize_def Let_def bc_dispatch_inv)+

lemma portSynchronize_mem:
  assumes "masters_ok p"
  shows "masters_ok (fst (portSynchronize e p t ots k1 k2))"
    "balance (fst (portSynchronize e p t ots k1 k2)) = balance p"
proof -
  have j: "masters_ok (q\<lparr>refs := put_option (peer_delay_req q) (refs q), peer_delay_req := None\<rparr>) = masters_ok q"
    "balance (q\<lparr>refs := put_option (peer_delay_req q) (refs q), peer_delay_req := None\<rparr>) = balance q"
    for q :: "'a PtpPort"
    by (simp add: masters_ok_def) (rule balance_cong, simp add: held_def)
  show "masters_ok (fst (portSynchronize e p t ots k1 k2))"
    "balance (fst (portSynchronize e p t ots k1 k2)) = balance p"
    using assms by (cases "servo_answer e"; simp add: portSynchronize_def Let_def bc_dispatch_mem j)+
qed

lemma port_syfufsm_inv: "port_inv p \<Longrightarrow> port_inv (fst (port_syfufsm e p event m))"
  using portSynchronize_inv(1) [of p e]
  by (cases "syfu p"; cases event) (simp_all add: port_syfufsm_def Let_def split_beta)

lemma keep_put_balance:
  "syfu p = SF_EMPTY \<Longrightarrow> s \<noteq> SF_EMPTY \<Longrightarrow> balance (keep_syncfup m s p) = balance p"
  "syfu p \<noteq> SF_EMPTY \<Longrightarrow> s \<noteq> SF_EMPTY \<Longrightarrow> balance (keep_syncfup m s (put_syncfup p)) = balance p"
  by (rule balance_cong, simp add: held_def keep_syncfup_def put_syncfup_def)+

text \<open>
  Releasing the kept message after the synchronization gives back the reference held for it.
  When the synchronization has already released it, by the transition to uncalibrated, the
  reference is given back twice.
\<close>

lemma put_syncfup_balance:
  "balance ((put_syncfup q)\<lparr>syfu := SF_EMPTY\<rparr>) i
    = balance q i - (if syfu q = SF_EMPTY then held_count [last_syncfup q] i else 0)"
  by (cases "syfu q = SF_EMPTY") (simp_all add: balance_def held_def put_syncfup_def)

lemma portMsgProSync_inv: "port_inv p \<Longrightarrow> port_inv (fst (portMsgProSync e ats c p m))"
  using portSynchronize_inv(1) [of _ e] port_syfufsm_inv [of _ e]
  by (auto simp: portMsgProSync_def Let_def split_beta)

lemma portMsgProFollowUp_inv: "port_inv p \<Longrightarrow> port_inv (fst (snd (portMsgProFollowUp e c p m)))"
  using port_syfufsm_inv [of p e] by (simp add: portMsgProFollowUp_def Let_def split_beta)

lemma portMsgProDelayResp_inv: "port_inv p \<Longrightarrow> port_inv (fst (portMsgProDelayResp e c p m))"
  by (auto simp: portMsgProDelayResp_def Let_def split: option.split)

text \<open>The message kept after a synchronization, and whether it has been released.\<close>

definition servo_faults :: "'d env \<Rightarrow> 'd PtpPort \<Rightarrow> bool" where
  "servo_faults e p \<longleftrightarrow> state p = PS_SLAVE \<and> servo_answer e \<noteq> SERVO_LOCKED"

lemma sync_rx_tmo_sel [simp]:
  "state (port_set_sync_rx_tmo p) = state p" "syfu (port_set_sync_rx_tmo p) = syfu p"
  "last_syncfup (port_set_sync_rx_tmo p) = last_syncfup p"
  by simp_all

lemma portSynchronize_last [simp]:
  "last_syncfup (fst (portSynchronize e p t ots k1 k2)) = last_syncfup p"
  by (cases "servo_answer e") (simp_all add: portSynchronize_def Let_def flush_delay_req_def)

lemma portSynchronize_syfu:
  assumes "synchronizing (state p)"
  shows "syfu (fst (portSynchronize e p t ots k1 k2)) = (if servo_faults e p then SF_EMPTY else syfu p)"
  using assms slave_fault_dispatch [of "port_set_sync_rx_tmo p" e]
    uncalibrated_fault_dispatch [of "port_set_sync_rx_tmo p" e]
    locked_dispatch_syfu [of "port_set_sync_rx_tmo p" e]
  by (cases "servo_answer e")
    (auto simp: portSynchronize_def Let_def servo_faults_def synchronizing_def flush_delay_req_def)

lemma portSynchronize_calls [simp]:
  "snd (portSynchronize e p t ots k1 k2) = [ClockSynchronize t
     (tmv_add (timestamp_to_tmv ots) (tmv_add (correction_to_tmv k1) (correction_to_tmv k2)))]"
  by (simp add: portSynchronize_def Let_def)

subsection \<open>Either order\<close>

lemma clock_follow_up_info_parent [simp]:
  "pds_parentPortIdentity (clock_follow_up_info g c) = pds_parentPortIdentity c"
  by (simp add: clock_follow_up_info_def)

lemma keep_syncfup_sel [simp]:
  "state (keep_syncfup m s p) = state p" "syfu (keep_syncfup m s p) = s"
  "last_syncfup (keep_syncfup m s p) = m" "asymmetry (keep_syncfup m s p) = asymmetry p"
  "log_sync_interval (keep_syncfup m s p) = log_sync_interval p"
  "follow_up_info (keep_syncfup m s p) = follow_up_info p"
  by (simp_all add: keep_syncfup_def)

lemma one_step_correction [simp]: "one_step ats (s\<lparr>correction := x\<rparr>) = one_step ats s"
  by (simp add: one_step_def)

lemma sync_then_followup:
  assumes "synchronizing (state p)" "syfu p = SF_EMPTY"
    and "sourcePortIdentity s = pds_parentPortIdentity c" "sourcePortIdentity f = pds_parentPortIdentity c"
    and "sequenceId f = sequenceId s" "\<not> one_step ats s" "follow_up_info p \<longrightarrow> fup_info f \<noteq> None"
    and "sint (logMessageInterval s) = log_sync_interval p"
  shows "(let (p1, calls1) = portMsgProSync e ats c p s;
           (c2, p2, calls2) = portMsgProFollowUp e c p1 f in (calls1 @ calls2, syfu p2))
    = ([ClockSynchronize (hwts_ts s) (tmv_add (timestamp_to_tmv (ts_pdu f))
             (tmv_add (correction_to_tmv (correction s + asymmetry p)) (correction_to_tmv (correction f))))],
           SF_EMPTY)"
proof -
  let ?ps = "keep_syncfup (s\<lparr>correction := correction s + asymmetry p\<rparr>) SF_HAVE_SYNC p"
  have 1: "portMsgProSync e ats c p s = (?ps, [])"
    using assms by (simp add: portMsgProSync_def port_syfufsm_def Let_def)
  show ?thesis
    unfolding 1 Let_def prod.case
    using assms by (simp add: portMsgProFollowUp_def port_syfufsm_def Let_def split_beta)
qed

lemma followup_then_sync:
  assumes "synchronizing (state p)" "syfu p = SF_EMPTY"
    and "sourcePortIdentity s = pds_parentPortIdentity c" "sourcePortIdentity f = pds_parentPortIdentity c"
    and "sequenceId f = sequenceId s" "\<not> one_step ats s" "\<not> tmv_cmp (hwts_sw f) (hwts_sw s) < 0"
    and "follow_up_info p \<longrightarrow> fup_info f \<noteq> None" "sint (logMessageInterval s) = log_sync_interval p"
  shows "(let (c1, p1, calls1) = portMsgProFollowUp e c p f;
           (p2, calls2) = portMsgProSync e ats c1 p1 s in (calls1 @ calls2, syfu p2))
    = ([ClockSynchronize (hwts_ts s) (tmv_add (timestamp_to_tmv (ts_pdu f))
             (tmv_add (correction_to_tmv (correction s + asymmetry p)) (correction_to_tmv (correction f))))],
           SF_EMPTY)"
proof -
  let ?pf = "keep_syncfup f SF_HAVE_FUP p"
  have "\<exists>c'. portMsgProFollowUp e c p f = (c', ?pf, []) \<and> pds_parentPortIdentity c' = pds_parentPortIdentity c"
    using assms by (auto simp: portMsgProFollowUp_def port_syfufsm_def Let_def)
  then obtain c' where 2: "portMsgProFollowUp e c p f = (c', ?pf, [])"
    and c': "pds_parentPortIdentity c' = pds_parentPortIdentity c" by blast
  show ?thesis
    unfolding 2 Let_def prod.case
    using assms c' by (simp add: portMsgProSync_def port_syfufsm_def Let_def split_beta fupSync_ok_def)
qed

subsection \<open>Properties\<close>

text \<open>
  C5: A two step Sync and its Follow_Up synchronize the clock once, with the same time stamps
  and corrections, in whichever order they arrive: the ingress time of the Sync against the
  precise origin time of the Follow_Up plus both correction fields and the asymmetry of the
  port; nothing is kept afterwards. (The sequence numbers agree, both are from the parent, the
  software time stamp of the Follow_Up is not before that of the Sync.)
\<close>

theorem sync_followup_any_order:
  assumes "synchronizing (state p)" "syfu p = SF_EMPTY"
    and "sourcePortIdentity s = pds_parentPortIdentity c" "sourcePortIdentity f = pds_parentPortIdentity c"
    and "sequenceId f = sequenceId s" "\<not> one_step ats s" "\<not> tmv_cmp (hwts_sw f) (hwts_sw s) < 0"
    and "follow_up_info p \<longrightarrow> fup_info f \<noteq> None"
    and "sint (logMessageInterval s) = log_sync_interval p"
    and "sync_first = (let (p1, calls1) = portMsgProSync e ats c p s;
           (c2, p2, calls2) = portMsgProFollowUp e c p1 f in (calls1 @ calls2, syfu p2))"
    and "fup_first = (let (c1, p1, calls1) = portMsgProFollowUp e c p f;
           (p2, calls2) = portMsgProSync e ats c1 p1 s in (calls1 @ calls2, syfu p2))"
  shows "sync_first = ([ClockSynchronize (hwts_ts s) (tmv_add (timestamp_to_tmv (ts_pdu f))
             (tmv_add (correction_to_tmv (correction s + asymmetry p)) (correction_to_tmv (correction f))))],
           SF_EMPTY)
    \<and> fup_first = sync_first"
  unfolding assms(10,11) using sync_then_followup [OF assms(1-6,8,9)] followup_then_sync [OF assms(1-9)] by simp

text \<open>A slave with its parent, and a pair of messages from it.\<close>

definition sample_slave :: "PORT_STATE \<Rightarrow> int PtpPort" where
  "sample_slave s = (started_port 1)\<lparr>state := s, syfu := SF_EMPTY, follow_up_info := False,
     log_sync_interval := 0, asymmetry := 65536 * 20\<rparr>"

definition sample_parent :: PortIdentity where
  "sample_parent = \<lparr>clockIdentity = sample_cid 5, portNumber = 1\<rparr>"

definition sample_sync :: ptp_message where
  "sample_sync = (zero_msg 3)\<lparr>flagField0 := 2, sourcePortIdentity := sample_parent, sequenceId := 7,
     hwts_ts := tmv_of 5000, correction := 65536 * 100\<rparr>"

definition sample_follow_up :: ptp_message where
  "sample_follow_up = (zero_msg 4)\<lparr>tsmt := 8, sourcePortIdentity := sample_parent, sequenceId := 7,
     ts_pdu := \<lparr>sec = 0, nsec = 4000\<rparr>, correction := 65536 * 30\<rparr>"

theorem sync_followup_any_order_witness:
  "(let (p1, calls1) = portMsgProSync sample_env False (sample_data\<lparr>pds_parentPortIdentity := sample_parent\<rparr>)
          (sample_slave PS_SLAVE) sample_sync;
        (c2, p2, calls2) = portMsgProFollowUp sample_env (sample_data\<lparr>pds_parentPortIdentity := sample_parent\<rparr>) p1 sample_follow_up
    in (calls1 @ calls2, syfu p2)) = ([ClockSynchronize (tmv_of 5000) (tmv_of 4150)], SF_EMPTY)
   \<and> (let (c1, p1, calls1) = portMsgProFollowUp sample_env (sample_data\<lparr>pds_parentPortIdentity := sample_parent\<rparr>)
          (sample_slave PS_SLAVE) sample_follow_up;
        (p2, calls2) = portMsgProSync sample_env False c1 p1 sample_sync
    in (calls1 @ calls2, syfu p2)) = ([ClockSynchronize (tmv_of 5000) (tmv_of 4150)], SF_EMPTY)"
proof -
  have h: "synchronizing (state (sample_slave PS_SLAVE))" "syfu (sample_slave PS_SLAVE) = SF_EMPTY"
    "sourcePortIdentity sample_sync = pds_parentPortIdentity (sample_data\<lparr>pds_parentPortIdentity := sample_parent\<rparr>)"
    "sourcePortIdentity sample_follow_up = pds_parentPortIdentity (sample_data\<lparr>pds_parentPortIdentity := sample_parent\<rparr>)"
    "sequenceId sample_follow_up = sequenceId sample_sync"
    "follow_up_info (sample_slave PS_SLAVE) \<longrightarrow> fup_info sample_follow_up \<noteq> None"
    "sint (logMessageInterval sample_sync) = log_sync_interval (sample_slave PS_SLAVE)"
    by (simp_all add: sample_slave_def synchronizing_def sample_sync_def sample_follow_up_def zero_msg_def)
  have os: "\<not> one_step False sample_sync" by code_simp
  have sw: "\<not> tmv_cmp (hwts_sw sample_follow_up) (hwts_sw sample_sync) < 0" by code_simp
  have v: "tmv_add (timestamp_to_tmv (ts_pdu sample_follow_up)) (tmv_add
      (correction_to_tmv (correction sample_sync + 65536 * 20)) (correction_to_tmv (correction sample_follow_up)))
      = tmv_of 4150" "hwts_ts sample_sync = tmv_of 5000"
    by code_simp+
  have a: "asymmetry (sample_slave PS_SLAVE) = 65536 * 20" by (simp add: sample_slave_def)
  show ?thesis
    using sync_followup_any_order [OF h(1-5) os sw h(6,7) refl refl, of sample_env] unfolding a v by simp
qed

text \<open>
  The references the port holds on messages agree with the reference counts through every
  event of the pairing of Sync and Follow_Up, except one: when a pair is complete, the port is
  slave and the servo does not report lock, the dispatch of the synchronization fault
  already releases the kept message and \<open>port_syfufsm\<close> releases it a second time.
\<close>

lemma syfufsm_reference_balance:
  assumes "masters_ok p" "synchronizing (state p)"
  shows "balance (fst (port_syfufsm e p event m)) i
    = balance p i
      - (if (syfu p = SF_HAVE_SYNC \<and> event = FUP_MATCH \<or> syfu p = SF_HAVE_FUP \<and> event = SYNC_MATCH)
            \<and> servo_faults e p
         then held_count [last_syncfup p] i else 0)"
proof -
  have b: "balance (fst (portSynchronize e p t ots k1 k2)) i = balance p i" for t ots k1 k2
    by (simp add: portSynchronize_mem [OF assms(1)])
  have s: "syfu p \<noteq> SF_EMPTY \<Longrightarrow>
      balance ((put_syncfup (fst (portSynchronize e p t ots k1 k2)))\<lparr>syfu := SF_EMPTY\<rparr>) i
    = balance p i - (if servo_faults e p then held_count [last_syncfup p] i else 0)" for t ots k1 k2
    unfolding put_syncfup_balance b portSynchronize_syfu [OF assms(2)] portSynchronize_last by auto
  show ?thesis
    by (cases "syfu p"; cases event)
      (simp_all add: port_syfufsm_def Let_def split_beta s keep_put_balance del: held_count_simps)
qed

lemma syfufsm_reference_balance_witness:
  "let p = (sample_slave PS_SLAVE)\<lparr>syfu := SF_HAVE_SYNC, last_syncfup := sample_sync\<rparr>
   in balance (fst (port_syfufsm sample_env p FUP_MATCH sample_follow_up)) 3 = balance p 3 - 1"
proof -
  let ?p = "(sample_slave PS_SLAVE)\<lparr>syfu := SF_HAVE_SYNC, last_syncfup := sample_sync\<rparr>"
  have m: "masters_ok ?p" by (simp add: masters_ok_def sample_slave_def started_port_sel)
  have s: "synchronizing (state ?p)" by (simp add: synchronizing_def sample_slave_def)
  have k: "servo_faults sample_env ?p" "held_count [sample_sync] 3 = 1"
    by (simp_all add: servo_faults_def sample_slave_def sample_env_def sample_sync_def zero_msg_def)
  show ?thesis
    using syfufsm_reference_balance [OF m s, of sample_env FUP_MATCH sample_follow_up 3] k by (simp add: Let_def)
qed

end
