(* ===== verification/PortTx.thy ===== *)
theory PortTx
  imports PortSync
begin

text \<open>
  The messages a port sends on its timers (src/ptpPort.c): announce messages with the path
  trace, Sync and Follow_Up, and delay requests of both mechanisms. The message as handed to
  the transport is an output; its fields are those of the header and body in host order.
\<close>

subsection \<open>Building messages\<close>

abbreviation SYNC :: u8 where "SYNC \<equiv> 0"
abbreviation DELAY_REQ :: u8 where "DELAY_REQ \<equiv> 1"
abbreviation PDELAY_REQ :: u8 where "PDELAY_REQ \<equiv> 2"
abbreviation FOLLOW_UP :: u8 where "FOLLOW_UP \<equiv> 8"
abbreviation PDELAY_RESP :: u8 where "PDELAY_RESP \<equiv> 3"
abbreviation DELAY_RESP :: u8 where "DELAY_RESP \<equiv> 9"
abbreviation PDELAY_RESP_FOLLOW_UP :: u8 where "PDELAY_RESP_FOLLOW_UP \<equiv> 10"
abbreviation ANNOUNCE :: u8 where "ANNOUNCE \<equiv> 11"

definition msg_type :: "ptp_message \<Rightarrow> u8" where
  "msg_type m = tsmt m AND 15"

abbreviation PATH_TRACE_MAX :: nat where "PATH_TRACE_MAX \<equiv> 179"

definition ts_add :: "tmv_t \<Rightarrow> i64 \<Rightarrow> tmv_t" where
  "ts_add ts corr = (if corr = 0 then ts else tmv_add ts (correction_to_tmv corr))"

text \<open>
  \<open>port_prepare_and_send\<close> and \<open>peer_prepare_and_send\<close>, the \<open>n\<close>-th transmission of the step:
  \<^const>\<open>None\<close> is the error return, otherwise the message as sent. Only the transport event
  \<open>TRANS_EVENT\<close> (\<open>event\<close>) reads back a transmission time stamp, to which the offset of the
  port is added.
\<close>

definition prepare_and_send :: "'d env \<Rightarrow> 'd PtpPort \<Rightarrow> nat \<Rightarrow> bool \<Rightarrow> ptp_message \<Rightarrow> ptp_message option" where
  "prepare_and_send e p n event m =
    (if \<not> tx_ok e n then None
     else let t = (if event then tx_hwts e else hwts_ts m)
       in Some (m\<lparr>hwts_ts := (if tmv_is_zero t then t else ts_add t (tx_timestamp_offset p))\<rparr>))"

definition path_trace_append :: "ClockData \<Rightarrow> ptp_message \<Rightarrow> ptp_message option" where
  "path_trace_append c m =
    (if 1 + length (ptl c) > PATH_TRACE_MAX then None
     else Some (m\<lparr>m_tlvs := m_tlvs m @ [PathTrace (ptl c @ [dds_clockIdentity c])],
            messageLength := messageLength m + word_of_nat (8 * (1 + length (ptl c)) + 4)\<rparr>))"

definition zero_fui :: follow_up_info where
  "zero_fui = \<lparr>cumulativeScaledRateOffset = 0, gmTimeBaseIndicator = 0, lastGmPhaseChange = (0, 0, 0),
     scaledLastGmPhaseChange = 0\<rparr>"

definition follow_up_info_append :: "ptp_message \<Rightarrow> ptp_message" where
  "follow_up_info_append m = m\<lparr>fup_info := Some zero_fui, messageLength := messageLength m + 32\<rparr>"

subsection \<open>Announce\<close>

definition announce_message :: "ClockData \<Rightarrow> 'd PtpPort \<Rightarrow> nat \<Rightarrow> u8 list option \<Rightarrow> ptp_message" where
  "announce_message c p i dst =
    (let m = (zero_msg i)\<lparr>
        tsmt := ANNOUNCE OR transportSpecific p,
        ver := 2,
        messageLength := 64,
        domainNumber := dds_domainNumber c,
        sourcePortIdentity := portIdentity p,
        sequenceId := seq_announce p,
        control := 5,
        logMessageInterval := logAnnounceInterval p,
        flagField1 := tds_flags c\<rparr>;
      m = (case dst of None \<Rightarrow> m
           | Some a \<Rightarrow> m\<lparr>m_address := a, flagField0 := flagField0 m OR UNICAST\<rparr>)
     in m\<lparr>currentUtcOffset := tds_currentUtcOffset c,
          grandmasterPriority1 := pds_grandmasterPriority1 c,
          grandmasterClockQuality := pds_grandmasterClockQuality c,
          grandmasterPriority2 := pds_grandmasterPriority2 c,
          grandmasterIdentity := pds_grandmasterIdentity c,
          a_stepsRemoved := cur_stepsRemoved c,
          timeSource := tds_timeSource c\<rparr>)"

text \<open>
  The results are the port, the messages sent, and the error return. A path trace that does
  not fit is only logged. The buffer is released at the end.
\<close>

definition port_tx_announce :: "'d env \<Rightarrow> ClockData \<Rightarrow> 'd PtpPort \<Rightarrow> u8 list option
    \<Rightarrow> 'd PtpPort \<times> ptp_message list \<times> bool" where
  "port_tx_announce e c p dst =
    (if inhibit_multicast_service p \<and> dst = None then (p, [], False)
     else let (p, capable) = port_capable e p in
       if \<not> capable then (p, [], False)
       else case pool e of
           [] \<Rightarrow> (p, [], True)
         | i # _ \<Rightarrow>
             (let p = p\<lparr>refs := msg_allocate i (refs p)\<rparr>;
                  msg = announce_message c p i dst;
                  p = p\<lparr>seq_announce := seq_announce p + 1\<rparr>;
                  msg = (if path_trace_enabled p
                       then case path_trace_append c msg of None \<Rightarrow> msg | Some m' \<Rightarrow> m' else msg);
                  (sent, err) = (case prepare_and_send e p 0 False msg of
                       None \<Rightarrow> ([], True)
                     | Some m \<Rightarrow> ([m], False))
              in (p\<lparr>refs := msg_put msg (refs p)\<rparr>, sent, err)))"

lemma mid_messages [simp]:
  "mid (announce_message c p i dst) = i" "path_trace_append c m = Some m' \<Longrightarrow> mid m' = mid m"
  by (auto simp: announce_message_def path_trace_append_def Let_def split: option.split if_splits)

lemma prepare_and_send_refs [simp]:
  "prepare_and_send e (p\<lparr>refs := r\<rparr>) n ev m = prepare_and_send e p n ev m"
  "prepare_and_send e (p\<lparr>seq_delayreq := s\<rparr>) n ev m = prepare_and_send e p n ev m"
  by (simp_all add: prepare_and_send_def Let_def)

lemma announce_message_refs [simp]: "announce_message c (p\<lparr>refs := r\<rparr>) i dst = announce_message c p i dst"
  by (simp add: announce_message_def)

text \<open>The references cancel, so the rest of the library works with the operation without them.\<close>

lemma port_tx_announce_eq:
  "port_tx_announce e c p dst =
    (if inhibit_multicast_service p \<and> dst = None then (p, [], False)
     else let (p, capable) = port_capable e p in
       if \<not> capable then (p, [], False)
       else case pool e of
           [] \<Rightarrow> (p, [], True)
         | i # _ \<Rightarrow>
             (let m = announce_message c p i dst;
                  p = p\<lparr>seq_announce := seq_announce p + 1\<rparr>;
                  m = (if path_trace_enabled p
                       then case path_trace_append c m of None \<Rightarrow> m | Some m' \<Rightarrow> m' else m)
              in case prepare_and_send e p 0 False m of
                   None \<Rightarrow> (p, [], True)
                 | Some m \<Rightarrow> (p, [m], False)))"
proof -
  have refs_seq: "p\<lparr>refs := r, seq_announce := s\<rparr> = p\<lparr>seq_announce := s, refs := r\<rparr>" for p :: "'a PtpPort" and r s
    by simp
  show ?thesis
    by (simp add: port_tx_announce_def Let_def split_beta refs_seq split: list.split option.split)
qed

subsection \<open>Sync and Follow_Up\<close>

definition port_sync_incapable :: "ClockData \<Rightarrow> 'd PtpPort \<Rightarrow> bool" where
  "port_sync_incapable c p \<longleftrightarrow> follow_up_info p \<and> \<not> grand_master_capable c
    \<and> cid_eq (dds_clockIdentity c) (clockIdentity (pds_parentPortIdentity c))"

definition one_step_stamping :: "timestamp_type \<Rightarrow> bool" where
  "one_step_stamping t \<longleftrightarrow> t = TS_ONESTEP \<or> t = TS_P2P1STEP"

definition sync_message :: "ClockData \<Rightarrow> 'd PtpPort \<Rightarrow> nat \<Rightarrow> u8 list option \<Rightarrow> ptp_message" where
  "sync_message c p i dst =
    (let m = (zero_msg i)\<lparr>
        tsmt := SYNC OR transportSpecific p,
        ver := 2,
        messageLength := 44,
        domainNumber := dds_domainNumber c,
        sourcePortIdentity := portIdentity p,
        sequenceId := seq_sync p,
        control := 0,
        logMessageInterval := logSyncInterval p\<rparr>;
      m = (if \<not> one_step_stamping (timestamping p) then m\<lparr>flagField0 := flagField0 m OR TWO_STEP\<rparr> else m)
     in case dst of None \<Rightarrow> m
      | Some a \<Rightarrow> m\<lparr>m_address := a, flagField0 := flagField0 m OR UNICAST, logMessageInterval := 0x7f\<rparr>)"

definition follow_up_message :: "ClockData \<Rightarrow> 'd PtpPort \<Rightarrow> nat \<Rightarrow> u8 list option \<Rightarrow> tmv_t \<Rightarrow> ptp_message" where
  "follow_up_message c p i dst ts =
    (let m = (zero_msg i)\<lparr>
        tsmt := FOLLOW_UP OR transportSpecific p,
        ver := 2,
        messageLength := 44,
        domainNumber := dds_domainNumber c,
        sourcePortIdentity := portIdentity p,
        sequenceId := seq_sync p - 1,
        control := 2,
        logMessageInterval := logSyncInterval p,
        ts_pdu := wire_to_local (tmv_to_Timestamp ts)\<rparr>
     in case dst of None \<Rightarrow> m
      | Some a \<Rightarrow> m\<lparr>m_address := a, flagField0 := flagField0 m OR UNICAST\<rparr>)"

definition port_tx_sync :: "'d env \<Rightarrow> ClockData \<Rightarrow> 'd PtpPort \<Rightarrow> u8 list option
    \<Rightarrow> 'd PtpPort \<times> ptp_message list \<times> bool" where
  "port_tx_sync e c p dst =
    (if inhibit_multicast_service p \<and> dst = None then (p, [], False)
     else let (p, capable) = port_capable e p in
       if \<not> capable then (p, [], False)
       else if port_sync_incapable c p then (p, [], False)
       else case pool e of
           [] \<Rightarrow> (p, [], True)
         | i # rest \<Rightarrow>
            (let p = p\<lparr>refs := msg_allocate i (refs p)\<rparr> in
             case rest of
               [] \<Rightarrow> (p\<lparr>refs := msg_put (zero_msg i) (refs p)\<rparr>, [], True)
             | j # _ \<Rightarrow>
               (let p = p\<lparr>refs := msg_allocate j (refs p)\<rparr>;
                    msg = sync_message c p i dst;
                    p = p\<lparr>seq_sync := seq_sync p + 1\<rparr>;
                    (sent, err) =
                      (case prepare_and_send e p 0 (\<not> one_step_stamping (timestamping p)) msg of
                         None \<Rightarrow> ([], True)
                       | Some m \<Rightarrow>
                          (if one_step_stamping (timestamping p) then ([m], False)
                           else if tmv_is_zero (hwts_ts m) then ([m], True)
                           else
                             let fup = follow_up_message c p j dst (hwts_ts m);
                                 fup = (if follow_up_info p then follow_up_info_append fup else fup)
                             in case prepare_and_send e p 1 False fup of
                                  None \<Rightarrow> ([m], True)
                                | Some fup \<Rightarrow> ([m, fup], False)));
                    p = p\<lparr>refs := msg_put msg (refs p)\<rparr>;
                    p = p\<lparr>refs := msg_put (zero_msg j) (refs p)\<rparr>
                in (p, sent, err))))"

lemma mid_sync_message [simp]: "mid (sync_message c p i dst) = i"
  by (simp add: sync_message_def Let_def split: option.split)

lemma sync_messages_refs [simp]:
  "sync_message c (p\<lparr>refs := r\<rparr>) i dst = sync_message c p i dst"
  "follow_up_message c (p\<lparr>refs := r\<rparr>) j dst ts = follow_up_message c p j dst ts"
  by (simp_all add: sync_message_def follow_up_message_def)

lemma port_tx_sync_eq:
  "port_tx_sync e c p dst =
    (if inhibit_multicast_service p \<and> dst = None then (p, [], False)
     else let (p, capable) = port_capable e p in
       if \<not> capable then (p, [], False)
       else if port_sync_incapable c p then (p, [], False)
       else case pool e of
           [] \<Rightarrow> (p, [], True)
         | [_] \<Rightarrow> (p, [], True)
         | i # j # _ \<Rightarrow>
             (let m = sync_message c p i dst;
                  p = p\<lparr>seq_sync := seq_sync p + 1\<rparr>
              in case prepare_and_send e p 0 (\<not> one_step_stamping (timestamping p)) m of
                   None \<Rightarrow> (p, [], True)
                 | Some m \<Rightarrow>
                    (if one_step_stamping (timestamping p) then (p, [m], False)
                     else if tmv_is_zero (hwts_ts m) then (p, [m], True)
                     else
                       let fup = follow_up_message c p j dst (hwts_ts m);
                           fup = (if follow_up_info p then follow_up_info_append fup else fup)
                       in case prepare_and_send e p 1 False fup of
                            None \<Rightarrow> (p, [m], True)
                          | Some fup \<Rightarrow> (p, [m, fup], False))))"
proof -
  have refs_seq: "p\<lparr>refs := r, seq_sync := s\<rparr> = p\<lparr>seq_sync := s, refs := r\<rparr>" for p :: "'a PtpPort" and r s
    by simp
  show ?thesis
    by (simp add: port_tx_sync_def Let_def split_beta refs_seq split: list.split option.split)
qed

lemma port_capable_refs:
  "port_capable e (p\<lparr>refs := r\<rparr>) = ((fst (port_capable e p))\<lparr>refs := r\<rparr>, snd (port_capable e p))"
  by (simp add: port_capable_def port_nrate_initialize_def Let_def)

lemma refs_port_capable [simp]: "refs (fst (port_capable e p)) = refs p"
  by (simp add: port_capable_def port_nrate_initialize_def Let_def)

lemma refs_port_tx_sync [simp]: "refs (fst (port_tx_sync e c p dst)) = refs p"
  by (simp add: port_tx_sync_eq Let_def split_beta split: list.split option.split)

lemma port_tx_sync_refs:
  "port_tx_sync e c (p\<lparr>refs := r\<rparr>) dst
    = ((fst (port_tx_sync e c p dst))\<lparr>refs := r\<rparr>, snd (port_tx_sync e c p dst))"
proof -
  have [simp]: "port_sync_incapable c (p\<lparr>refs := r\<rparr>) = port_sync_incapable c p" for p :: "'a PtpPort"
    by (simp add: port_sync_incapable_def)
  have refs_seq: "p\<lparr>refs := r, seq_sync := s\<rparr> = p\<lparr>seq_sync := s, refs := r\<rparr>" for p :: "'a PtpPort" and s
    by simp
  show ?thesis
    by (simp add: port_tx_sync_eq port_capable_refs Let_def split_beta refs_seq split: list.split option.split)
qed

subsection \<open>Delay requests\<close>

definition delay_request_message :: "u8 \<Rightarrow> u16 \<Rightarrow> u8 \<Rightarrow> ClockData \<Rightarrow> 'd PtpPort \<Rightarrow> nat \<Rightarrow> i8 \<Rightarrow> ptp_message" where
  "delay_request_message type len ctl c p i interval = (zero_msg i)\<lparr>
     tsmt := type OR transportSpecific p,
     ver := 2,
     messageLength := len,
     domainNumber := dds_domainNumber c,
     correction := - asymmetry p,
     sourcePortIdentity := portIdentity p,
     sequenceId := seq_delayreq p,
     control := ctl,
     logMessageInterval := interval\<rparr>"

definition put_pending :: "'d PtpPort \<Rightarrow> 'd PtpPort" where
  "put_pending p =
    (let p = p\<lparr>refs := put_option (peer_delay_resp p) (refs p), peer_delay_resp := None\<rparr>
     in p\<lparr>refs := put_option (peer_delay_fup p) (refs p), peer_delay_fup := None\<rparr>)"

definition pdelay_request_message :: "ClockData \<Rightarrow> 'd PtpPort \<Rightarrow> nat \<Rightarrow> ptp_message" where
  "pdelay_request_message c p i =
    (let m = delay_request_message PDELAY_REQ 54 5 c p i
               (if follow_up_info p then logMinPdelayReqInterval p else 0x7f)
     in case unicast_table p of
          None \<Rightarrow> m
        | Some t \<Rightarrow> if has_peer t
            then m\<lparr>m_address := uc_address (peer_addr t), flagField0 := flagField0 m OR UNICAST\<rparr>
            else m)"

text \<open>
  \<open>port_pdelay_request\<close>. A request without a reply counts as a lost response.
\<close>

definition port_pdelay_request :: "'d env \<Rightarrow> ClockData \<Rightarrow> 'd PtpPort \<Rightarrow> 'd PtpPort \<times> ptp_message list \<times> bool" where
  "port_pdelay_request e c p =
    (let p = (if multiple_pdr_detected p = 0 then p\<lparr>multiple_seq_pdr_count := 0\<rparr> else p);
         p = p\<lparr>multiple_pdr_detected := 0\<rparr>
     in case pool e of
          [] \<Rightarrow> (p, [], True)
        | i # _ \<Rightarrow>
          (let p = p\<lparr>refs := msg_allocate i (refs p)\<rparr>;
               m = pdelay_request_message c p i;
               p = p\<lparr>seq_delayreq := seq_delayreq p + 1\<rparr>
           in case prepare_and_send e p 0 True m of
                None \<Rightarrow> (p\<lparr>refs := msg_put m (refs p)\<rparr>, [], True)
              | Some m \<Rightarrow>
                (if tmv_is_zero (hwts_ts m) then (p\<lparr>refs := msg_put m (refs p)\<rparr>, [m], True)
                 else
                   let p = (case peer_delay_req p of
                              None \<Rightarrow> p
                            | Some old \<Rightarrow>
                                (let (p, capable) = port_capable e p;
                                     p = (if capable then p\<lparr>pdr_missing := pdr_missing p + 1\<rparr> else p)
                                 in p\<lparr>refs := msg_put old (refs p)\<rparr>))
                   in (p\<lparr>peer_delay_req := Some m\<rparr>, [m], False))))"

lemma mid_delay_request [simp]:
  "mid (delay_request_message ty len ctl c p i v) = i" "mid (pdelay_request_message c p i) = i"
  by (simp_all add: delay_request_message_def pdelay_request_message_def Let_def split: option.split)

lemma prepare_and_send_mid: "prepare_and_send e p n ev m = Some m' \<Longrightarrow> mid m' = mid m"
  by (auto simp: prepare_and_send_def Let_def split: if_splits)

lemma delay_request_refs [simp]:
  "delay_request_message ty len ctl c (p\<lparr>refs := r\<rparr>) i v = delay_request_message ty len ctl c p i v"
  "pdelay_request_message c (p\<lparr>refs := r\<rparr>) i = pdelay_request_message c p i"
  by (simp_all add: delay_request_message_def pdelay_request_message_def)

text \<open>
  The reference the buffer is allocated with is released after a failure, and becomes that of
  the pending request otherwise.
\<close>

lemma port_pdelay_request_eq:
  "port_pdelay_request e c p =
    (let p = (if multiple_pdr_detected p = 0 then p\<lparr>multiple_seq_pdr_count := 0\<rparr> else p);
         p = p\<lparr>multiple_pdr_detected := 0\<rparr>
     in case pool e of
          [] \<Rightarrow> (p, [], True)
        | i # _ \<Rightarrow>
          (let m = pdelay_request_message c p i;
               p = p\<lparr>seq_delayreq := seq_delayreq p + 1\<rparr>
           in case prepare_and_send e p 0 True m of
                None \<Rightarrow> (p, [], True)
              | Some m \<Rightarrow>
                (if tmv_is_zero (hwts_ts m) then (p, [m], True)
                 else
                   let p = (case peer_delay_req p of
                              None \<Rightarrow> p
                            | Some old \<Rightarrow>
                                (let (p, capable) = port_capable e p;
                                     p = (if capable then p\<lparr>pdr_missing := pdr_missing p + 1\<rparr> else p)
                                 in p\<lparr>refs := msg_put old (refs p)\<rparr>))
                   in (p\<lparr>peer_delay_req := Some m, refs := msg_get m (refs p)\<rparr>, [m], False))))"
proof -
  define q where "q = (if multiple_pdr_detected p = 0 then p\<lparr>multiple_seq_pdr_count := 0\<rparr> else p)\<lparr>multiple_pdr_detected := 0\<rparr>"
  have refs_seq: "p\<lparr>refs := r, seq_delayreq := s\<rparr> = p\<lparr>seq_delayreq := s, refs := r\<rparr>"
    "p\<lparr>refs := r, pdr_missing := t\<rparr> = p\<lparr>pdr_missing := t, refs := r\<rparr>" for p :: "'a PtpPort" and r s t
    by simp_all
  show ?thesis
  proof (cases "pool e")
    case (Cons i rest)
    define m where "m = pdelay_request_message c q i"
    have mid: "mid m = i" by (simp add: m_def)
    show ?thesis
    proof (cases "prepare_and_send e q 0 True m")
      case None
      then show ?thesis unfolding port_pdelay_request_def Let_def q_def [symmetric]
        by (simp add: Cons m_def [symmetric] mid refs_seq)
    next
      case (Some m')
      then have mid': "mid m' = i" using mid by (simp add: prepare_and_send_mid)
      show ?thesis unfolding port_pdelay_request_def Let_def q_def [symmetric]
        using Some by (cases "peer_delay_req q")
          (simp_all add: Cons m_def [symmetric] mid' refs_seq port_capable_refs split_beta put_allocate allocate_is_get)
    qed
  qed (simp add: port_pdelay_request_def)
qed

text \<open>
  The address a request goes to: that of the best master's newest message with \<open>hybrid_e2e\<close>,
  where \<^const>\<open>None\<close> is the dereference of a null pointer, and the multicast address otherwise.
\<close>

definition delay_request_dst :: "'d PtpPort \<Rightarrow> u8 list option option" where
  "delay_request_dst p =
    (if hybrid_e2e p
     then Option.bind (best p) (\<lambda>b. Option.bind (find_master b (foreign_masters p))
            (\<lambda>fc. case messages fc of [] \<Rightarrow> None | d # _ \<Rightarrow> Some (Some (m_address d))))
     else Some None)"

definition addressed :: "u8 list option \<Rightarrow> ptp_message \<Rightarrow> ptp_message" where
  "addressed dst m = (case dst of None \<Rightarrow> m
     | Some a \<Rightarrow> m\<lparr>m_address := a, flagField0 := flagField0 m OR UNICAST\<rparr>)"

lemma mid_addressed [simp]: "mid (addressed dst m) = mid m"
  by (simp add: addressed_def split: option.split)

lemma delay_request_dst_more [simp]:
  "delay_request_dst (p\<lparr>refs := r\<rparr>) = delay_request_dst p"
  "delay_request_dst (p\<lparr>seq_delayreq := s\<rparr>) = delay_request_dst p"
  by (simp_all add: delay_request_dst_def)

text \<open>
  \<open>port_delay_request\<close>: \<^const>\<open>None\<close> is the dereference of a null pointer, when \<open>hybrid_e2e\<close> is
  set and the best master or its newest message is missing. The reference the buffer is
  allocated with becomes that of the list.
\<close>

definition port_delay_request :: "'d env \<Rightarrow> ClockData \<Rightarrow> 'd PtpPort
    \<Rightarrow> ('d PtpPort \<times> ptp_message list \<times> bool) option" where
  "port_delay_request e c p =
    (let p = put_pending p in
     if delayMechanism p = DM_P2P then Some (port_pdelay_request e c p)
     else case pool e of
         [] \<Rightarrow> Some (p, [], True)
       | i # _ \<Rightarrow>
         (let p = p\<lparr>refs := msg_allocate i (refs p)\<rparr>;
              m = delay_request_message DELAY_REQ 44 1 c p i 0x7f;
              p = p\<lparr>seq_delayreq := seq_delayreq p + 1\<rparr>
          in case delay_request_dst p of
               None \<Rightarrow> None
             | Some dst \<Rightarrow>
               (let m = addressed dst m
                in Some (case prepare_and_send e p 0 True m of
                     None \<Rightarrow> (p\<lparr>refs := msg_put m (refs p)\<rparr>, [], True)
                   | Some m \<Rightarrow>
                       (if tmv_is_zero (hwts_ts m) then (p\<lparr>refs := msg_put m (refs p)\<rparr>, [m], True)
                        else (p\<lparr>delay_req := m # delay_req p\<rparr>, [m], False))))))"

lemma port_delay_request_eq:
  "port_delay_request e c p =
    (let p = put_pending p in
     if delayMechanism p = DM_P2P then Some (port_pdelay_request e c p)
     else case pool e of
         [] \<Rightarrow> Some (p, [], True)
       | i # _ \<Rightarrow>
         (let m = delay_request_message DELAY_REQ 44 1 c p i 0x7f;
              p = p\<lparr>seq_delayreq := seq_delayreq p + 1\<rparr>
          in case delay_request_dst p of
               None \<Rightarrow> None
             | Some dst \<Rightarrow>
               (let m = addressed dst m
                in Some (case prepare_and_send e p 0 True m of
                     None \<Rightarrow> (p, [], True)
                   | Some m \<Rightarrow>
                       (if tmv_is_zero (hwts_ts m) then (p, [m], True)
                        else (p\<lparr>delay_req := m # delay_req p, refs := msg_get m (refs p)\<rparr>, [m], False))))))"
proof -
  define q where "q = put_pending p"
  have refs_seq: "p\<lparr>refs := r, seq_delayreq := s\<rparr> = p\<lparr>seq_delayreq := s, refs := r\<rparr>"
    "p\<lparr>refs := r, delay_req := l\<rparr> = p\<lparr>delay_req := l, refs := r\<rparr>" for p :: "'a PtpPort" and r s l
    by simp_all
  show ?thesis
  proof (cases "pool e")
    case (Cons i rest)
    show ?thesis
    proof (cases "delay_request_dst q")
      case None
      then show ?thesis unfolding port_delay_request_def Let_def q_def [symmetric]
        by (simp add: Cons refs_seq)
    next
      case (Some d)
      define m where "m = addressed d (delay_request_message DELAY_REQ 44 1 c q i 0x7f)"
      have mid: "mid m = i" by (simp add: m_def)
      note mid' = prepare_and_send_mid [of e q 0 True m, unfolded mid]
      show ?thesis unfolding port_delay_request_def Let_def q_def [symmetric]
        by (cases "prepare_and_send e q 0 True m")
          (simp_all add: Cons Some m_def [symmetric] mid mid' refs_seq allocate_is_get)
    qed
  qed (simp add: port_delay_request_def Let_def)
qed

end
