(* ===== verification/PeerDelay.thy ===== *)
theory PeerDelay
  imports PortTx
begin

text \<open>
  Answering delay requests, and the peer delay mechanism: \<open>portMsgProDelayReq\<close> of
  src/ptpPortMsgOrdinary.c, and the handlers of src/ptpPortMsgTransp.c for the messages
  Pdelay_Req, Pdelay_Resp and Pdelay_Resp_Follow_Up with the neighbour rate estimation
  (\<open>port_nrate_calculate\<close>) and the path delay computation (\<open>port_peer_delay\<close>).
\<close>

subsection \<open>Delay requests of the end to end mechanism\<close>

definition portNsmReply :: "'d PtpPort \<Rightarrow> ptp_message \<Rightarrow> bool" where
  "portNsmReply p m \<longleftrightarrow> net_sync_monitor p \<and> hybrid_e2e p \<and> msg_unicast m \<and> nsm_req m"

definition delay_resp_message :: "'d PtpPort \<Rightarrow> nat \<Rightarrow> ptp_message \<Rightarrow> ptp_message" where
  "delay_resp_message p i m =
    (let r = (zero_msg i)\<lparr>
        tsmt := DELAY_RESP OR transportSpecific p,
        ver := 2,
        messageLength := 54,
        domainNumber := domainNumber m,
        correction := correction m,
        sourcePortIdentity := portIdentity p,
        sequenceId := sequenceId m,
        control := 3,
        logMessageInterval := logMinDelayReqInterval p,
        ts_pdu := wire_to_local (tmv_to_Timestamp (hwts_ts m)),
        requestingPortIdentity := sourcePortIdentity m\<rparr>
     in if hybrid_e2e p \<and> msg_unicast m
        then r\<lparr>m_address := m_address m, flagField0 := flagField0 r OR UNICAST, logMessageInterval := 0x7f\<rparr>
        else r)"

text \<open>
  The reply to a monitoring request ends with a Sync that carries the sequence number of the
  request; the port's own number is put back. The Sync takes the next buffers and
  transmissions of the step.
\<close>

definition portMsgProDelayReq :: "'d env \<Rightarrow> ClockData \<Rightarrow> 'd PtpPort \<Rightarrow> ptp_message
    \<Rightarrow> 'd PtpPort \<times> ptp_message list \<times> bool" where
  "portMsgProDelayReq e c p m =
    (let nsm = portNsmReply p m in
     if \<not> nsm \<and> state p \<noteq> PS_MASTER \<and> state p \<noteq> PS_GRAND_MASTER then (p, [], False)
     else if delayMechanism p = DM_P2P then (p, [], False)
     else case pool e of
         [] \<Rightarrow> (p, [], True)
       | i # rest \<Rightarrow>
         (let p = p\<lparr>refs := msg_allocate i (refs p)\<rparr>;
              msg = delay_resp_message p i m;
              (p, sent, err) =
                (case (if nsm then nsm_append e msg else Some msg) of
                   None \<Rightarrow> (p, [], True)
                 | Some r \<Rightarrow>
                   (case prepare_and_send e p 0 False r of
                      None \<Rightarrow> (p, [], True)
                    | Some r \<Rightarrow>
                      (if nsm then
                         let saved = seq_sync p;
                             p = p\<lparr>seq_sync := sequenceId m\<rparr>;
                             (p, sent, err) = port_tx_sync (e\<lparr>pool := rest, tx_ok := \<lambda>n. tx_ok e (n + 1)\<rparr>) c p
                               (Some (m_address m))
                         in (p\<lparr>seq_sync := saved\<rparr>, r # sent, err)
                       else (p, [r], False))))
          in (p\<lparr>refs := msg_put msg (refs p)\<rparr>, sent, err)))"

lemma mid_delay_resp [simp]: "mid (delay_resp_message p i m) = i"
  by (simp add: delay_resp_message_def Let_def)

lemma delay_resp_refs [simp]: "delay_resp_message (p\<lparr>refs := r\<rparr>) i m = delay_resp_message p i m"
  by (simp add: delay_resp_message_def)

lemma portMsgProDelayReq_eq:
  "portMsgProDelayReq e c p m =
    (let nsm = portNsmReply p m in
     if \<not> nsm \<and> state p \<noteq> PS_MASTER \<and> state p \<noteq> PS_GRAND_MASTER then (p, [], False)
     else if delayMechanism p = DM_P2P then (p, [], False)
     else case pool e of
         [] \<Rightarrow> (p, [], True)
       | i # rest \<Rightarrow>
         (case (if nsm then nsm_append e (delay_resp_message p i m) else Some (delay_resp_message p i m)) of
            None \<Rightarrow> (p, [], True)
          | Some r \<Rightarrow>
            (case prepare_and_send e p 0 False r of
               None \<Rightarrow> (p, [], True)
             | Some r \<Rightarrow>
               (if nsm then
                  let saved = seq_sync p;
                      p = p\<lparr>seq_sync := sequenceId m\<rparr>;
                      (p, sent, err) = port_tx_sync (e\<lparr>pool := rest, tx_ok := \<lambda>n. tx_ok e (n + 1)\<rparr>) c p
                        (Some (m_address m))
                  in (p\<lparr>seq_sync := saved\<rparr>, r # sent, err)
                else (p, [r], False)))))"
proof -
  define nsm where "nsm = portNsmReply p m"
  have refs_seq: "p\<lparr>refs := r, seq_sync := s\<rparr> = p\<lparr>seq_sync := s, refs := r\<rparr>" for p :: "'a PtpPort" and r s
    by simp
  show ?thesis
  proof (cases "pool e")
    case (Cons i rest)
    show ?thesis
    proof (cases "if nsm then nsm_append e (delay_resp_message p i m) else Some (delay_resp_message p i m)")
      case None
      note s = portMsgProDelayReq_def Let_def nsm_def [symmetric] Cons list.case delay_resp_refs None option.case
      show ?thesis unfolding s by simp
    next
      case (Some r)
      note s = portMsgProDelayReq_def Let_def nsm_def [symmetric] Cons list.case delay_resp_refs Some
        option.case prepare_and_send_refs
      show ?thesis
      proof (cases "prepare_and_send e p 0 False r")
        case None
        then show ?thesis unfolding s by simp
      next
        case (Some r')
        then show ?thesis unfolding s by (cases nsm) (simp_all add: split_beta refs_seq port_tx_sync_refs)
      qed
    qed
  qed (simp add: portMsgProDelayReq_def Let_def)
qed

subsection \<open>Peer delay requests\<close>

text \<open>
  The peer is learnt from its first message; a message of another one makes it unknown again.
\<close>

definition check_peer :: "'d env \<Rightarrow> 'd PtpPort \<Rightarrow> ptp_message \<Rightarrow> 'd PtpPort" where
  "check_peer e p m =
    (if peer_portid_valid p
     then if \<not> pid_eq (peer_portid p) (sourcePortIdentity m)
          then fst (port_capable e (p\<lparr>peer_portid_valid := False\<rparr>))
          else p
     else p\<lparr>peer_portid_valid := True, peer_portid := sourcePortIdentity m\<rparr>)"

definition pdelay_resp_message :: "'d PtpPort \<Rightarrow> nat \<Rightarrow> ptp_message \<Rightarrow> ptp_message" where
  "pdelay_resp_message p i m =
    (let r = (zero_msg i)\<lparr>
        tsmt := PDELAY_RESP OR transportSpecific p,
        ver := 2,
        messageLength := 54,
        domainNumber := domainNumber m,
        sourcePortIdentity := portIdentity p,
        sequenceId := sequenceId m,
        control := 5,
        logMessageInterval := 0x7f\<rparr>;
      r = (if timestamping p = TS_P2P1STEP
           then r\<lparr>correction := correction m + tx_timestamp_offset p + rx_timestamp_offset p\<rparr>
           else r\<lparr>flagField0 := flagField0 r OR TWO_STEP,
                  ts_pdu := wire_to_local (tmv_to_Timestamp (hwts_ts m))\<rparr>);
      r = r\<lparr>requestingPortIdentity := sourcePortIdentity m\<rparr>
     in if msg_unicast m then r\<lparr>m_address := m_address m, flagField0 := flagField0 r OR UNICAST\<rparr> else r)"

definition pdelay_fup_message :: "'d PtpPort \<Rightarrow> nat \<Rightarrow> ptp_message \<Rightarrow> tmv_t \<Rightarrow> ptp_message" where
  "pdelay_fup_message p i m ts3 =
    (let f = (zero_msg i)\<lparr>
        tsmt := PDELAY_RESP_FOLLOW_UP OR transportSpecific p,
        ver := 2,
        messageLength := 54,
        domainNumber := domainNumber m,
        correction := correction m,
        sourcePortIdentity := portIdentity p,
        sequenceId := sequenceId m,
        control := 5,
        logMessageInterval := 0x7f,
        requestingPortIdentity := sourcePortIdentity m,
        ts_pdu := wire_to_local (tmv_to_Timestamp ts3)\<rparr>
     in if msg_unicast m then f\<lparr>m_address := m_address m, flagField0 := flagField0 f OR UNICAST\<rparr> else f)"

text \<open>
  Both buffers are allocated before anything is sent and released at the label \<open>out\<close>, whatever
  has failed. The results are the port, the messages sent, and whether the return value is an
  error.
\<close>

definition portMsgProPDelayReq :: "'d env \<Rightarrow> 'd PtpPort \<Rightarrow> ptp_message
    \<Rightarrow> 'd PtpPort \<times> ptp_message list \<times> bool" where
  "portMsgProPDelayReq e p m =
    (if delayMechanism p = DM_E2E then (p, [], False)
     else
       let p = (if delayMechanism p = DM_AUTO then port_set_delay_tmo e (p\<lparr>delayMechanism := DM_P2P\<rparr>) else p);
           p = check_peer e p m
       in case pool e of
            [] \<Rightarrow> (p, [], True)
          | i # rest \<Rightarrow>
            (let p = p\<lparr>refs := msg_allocate i (refs p)\<rparr> in
             case rest of
               [] \<Rightarrow> (p\<lparr>refs := msg_put (zero_msg i) (refs p)\<rparr>, [], True)
             | j # _ \<Rightarrow>
               (let p = p\<lparr>refs := msg_allocate j (refs p)\<rparr>;
                    rsp = pdelay_resp_message p i m;
                    (sent, err) =
                      (case prepare_and_send e p 0 (timestamping p \<noteq> TS_P2P1STEP) rsp of
                         None \<Rightarrow> ([], True)
                       | Some rsp \<Rightarrow>
                         (if timestamping p = TS_P2P1STEP then ([rsp], False)
                          else if tmv_is_zero (hwts_ts rsp) then ([rsp], True)
                          else case prepare_and_send e p 1 False (pdelay_fup_message p j m (hwts_ts rsp)) of
                              None \<Rightarrow> ([rsp], True)
                            | Some fup \<Rightarrow> ([rsp, fup], False)));
                    p = p\<lparr>refs := msg_put rsp (refs p)\<rparr>;
                    p = p\<lparr>refs := msg_put (zero_msg j) (refs p)\<rparr>
                in (p, sent, err))))"

lemma mid_pdelay_resp [simp]: "mid (pdelay_resp_message p i m) = i"
  by (simp add: pdelay_resp_message_def Let_def)

lemma pdelay_messages_refs [simp]:
  "pdelay_resp_message (p\<lparr>refs := r\<rparr>) i m = pdelay_resp_message p i m"
  "pdelay_fup_message (p\<lparr>refs := r\<rparr>) j m t = pdelay_fup_message p j m t"
  by (simp_all add: pdelay_resp_message_def pdelay_fup_message_def Let_def)

lemma portMsgProPDelayReq_eq:
  "portMsgProPDelayReq e p m =
    (if delayMechanism p = DM_E2E then (p, [], False)
     else
       let p = (if delayMechanism p = DM_AUTO then port_set_delay_tmo e (p\<lparr>delayMechanism := DM_P2P\<rparr>) else p);
           p = check_peer e p m
       in case pool e of
            [] \<Rightarrow> (p, [], True)
          | [_] \<Rightarrow> (p, [], True)
          | i # j # _ \<Rightarrow>
            (case prepare_and_send e p 0 (timestamping p \<noteq> TS_P2P1STEP) (pdelay_resp_message p i m) of
               None \<Rightarrow> (p, [], True)
             | Some rsp \<Rightarrow>
               (if timestamping p = TS_P2P1STEP then (p, [rsp], False)
                else if tmv_is_zero (hwts_ts rsp) then (p, [rsp], True)
                else case prepare_and_send e p 1 False (pdelay_fup_message p j m (hwts_ts rsp)) of
                    None \<Rightarrow> (p, [rsp], True)
                  | Some fup \<Rightarrow> (p, [rsp, fup], False))))"
proof -
  define q where "q = (if delayMechanism p = DM_AUTO
          then port_set_delay_tmo e (p\<lparr>delayMechanism := DM_P2P\<rparr>) else p)"
  define c where "c = check_peer e q m"
  show ?thesis
    unfolding portMsgProPDelayReq_def Let_def q_def [symmetric] c_def [symmetric]
    by (simp add: split_beta split: list.split option.split)
qed

subsection \<open>Peer delay responses\<close>

definition port_nrate_calculate :: "'d env \<Rightarrow> 'd PtpPort \<Rightarrow> tmv_t \<Rightarrow> tmv_t \<Rightarrow> 'd PtpPort" where
  "port_nrate_calculate e p origin ingress =
    (let p = p\<lparr>pdr_missing := 0\<rparr> in
     if tmv_is_zero (nr_ingress1 p) then p\<lparr>nr_ingress1 := ingress, nr_origin1 := origin\<rparr>
     else
       let p = p\<lparr>nr_count := nr_count p + 1\<rparr> in
       if nr_count p < nr_max_count p then p
       else if tmv_cmp ingress (nr_ingress1 p) = 0 then p
       else p\<lparr>nr_ratio := d_div (ops e) (tmv_dbl (ops e) (tmv_sub origin (nr_origin1 p)))
                (tmv_dbl (ops e) (tmv_sub ingress (nr_ingress1 p))),
              nr_ingress1 := ingress, nr_origin1 := origin, nr_count := 0, nr_ratio_valid := True\<rparr>)"

text \<open>
  The part of \<open>port_peer_delay\<close> from the label \<open>calc\<close> on: \<open>ts3c\<close> is the corrected transmission
  time of the response. Nothing is reported, and the request stays pending, when the time
  stamp processor has no delay.
\<close>

definition peer_delay_calc :: "'d env \<Rightarrow> 'd PtpPort \<Rightarrow> ptp_message \<Rightarrow> tmv_t \<Rightarrow> tmv_t \<Rightarrow> tmv_t
    \<Rightarrow> 'd PtpPort \<times> 'd clock_call list" where
  "peer_delay_calc e p req ts2 ts3c ts4 =
    (let ts1 = hwts_ts req;
         p = (if follow_up_info p then port_nrate_calculate e p ts3c ts4 else p);
         tsp = tsproc_set_clock_rate_ratio (p_tsproc p) (d_mul (ops e) (nr_ratio p) (c_rate_ratio e));
         tsp = tsproc_up_ts tsp ts1 ts2;
         tsp = tsproc_down_ts tsp ts3c ts4;
         p = p\<lparr>p_tsproc := tsp\<rparr>
     in case tsproc_update_delay (ops e) (p_tsproc p) True of
          Some (tsp, Some delay) \<Rightarrow>
            (let p = p\<lparr>p_tsproc := tsp, peer_delay := delay, peerMeanPathDelay := tmv_to_TimeInterval delay\<rparr>;
                 calls = (if synchronizing (state p) then [ClockPeerDelay delay ts1 ts2 (nr_ratio p)] else [])
             in (p\<lparr>refs := msg_put req (refs p), peer_delay_req := None\<rparr>, calls))
        | _ \<Rightarrow> (p, []))"

text \<open>
  The pending request is never missing where \<open>port_peer_delay\<close> is called. Its sequence number
  is stored in network byte order, which \<open>ntohs\<close> undoes.
\<close>

definition port_peer_delay :: "'d env \<Rightarrow> bool \<Rightarrow> 'd PtpPort \<Rightarrow> ptp_message \<Rightarrow> 'd PtpPort \<times> 'd clock_call list" where
  "port_peer_delay e assume_two_step p req =
    (case peer_delay_resp p of
       None \<Rightarrow> (p, [])
     | Some rsp \<Rightarrow>
       (if \<not> pid_eq (requestingPortIdentity rsp) (portIdentity p) then (p, [])
        else if sequenceId rsp \<noteq> sequenceId req then (p, [])
        else
          let ts4 = hwts_ts rsp;
              c1 = correction_to_tmv (correction rsp + asymmetry p)
          in if one_step assume_two_step rsp
             then peer_delay_calc e p req tmv_zero (tmv_add tmv_zero (tmv_add c1 tmv_zero)) ts4
             else case peer_delay_fup p of
                 None \<Rightarrow> (p, [])
               | Some fup \<Rightarrow>
                 (if \<not> pid_eq (requestingPortIdentity fup) (portIdentity p) then (p, [])
                  else if sequenceId fup \<noteq> sequenceId rsp then (p, [])
                  else if \<not> pid_eq (sourcePortIdentity fup) (sourcePortIdentity rsp) then (p, [])
                  else
                    let ts2 = timestamp_to_tmv (ts_pdu rsp);
                        ts3 = timestamp_to_tmv (ts_pdu fup);
                        c2 = correction_to_tmv (correction fup)
                    in peer_delay_calc e p req ts2 (tmv_add ts3 (tmv_add c1 c2)) ts4)))"

definition count_responder :: "'d PtpPort \<Rightarrow> ptp_message \<Rightarrow> 'd PtpPort \<times> bool" where
  "count_responder p m =
    (case peer_delay_resp p of
       None \<Rightarrow> (p, False)
     | Some rsp \<Rightarrow>
       (if pid_eq (sourcePortIdentity rsp) (sourcePortIdentity m) then (p, False)
        else
          let p = (if multiple_pdr_detected p = 0
                   then p\<lparr>multiple_pdr_detected := 1, multiple_seq_pdr_count := multiple_seq_pdr_count p + 1\<rparr>
                   else p)
          in if multiple_seq_pdr_count p \<ge> 3 then (p\<lparr>last_fault_type := FT_BAD_PEER_NETWORK\<rparr>, True)
             else (p, False)))"

text \<open>The third result is the error return.\<close>

definition portMsgProPDelayResp :: "'d env \<Rightarrow> bool \<Rightarrow> 'd PtpPort \<Rightarrow> ptp_message
    \<Rightarrow> 'd PtpPort \<times> 'd clock_call list \<times> bool" where
  "portMsgProPDelayResp e ats p m =
    (let (p, bad) = count_responder p m in
     if bad then (p, [], True)
     else case peer_delay_req p of
         None \<Rightarrow> (p, [], True)
       | Some req \<Rightarrow>
         (let p = check_peer e p m;
              p = p\<lparr>refs := put_option (peer_delay_resp p) (refs p)\<rparr>;
              p = p\<lparr>refs := msg_get m (refs p), peer_delay_resp := Some m\<rparr>;
              (p, calls) = port_peer_delay e ats p req
          in (p, calls, False)))"

definition portMsgProPDelayRespFollowUp :: "'d env \<Rightarrow> bool \<Rightarrow> 'd PtpPort \<Rightarrow> ptp_message
    \<Rightarrow> 'd PtpPort \<times> 'd clock_call list" where
  "portMsgProPDelayRespFollowUp e ats p m =
    (case peer_delay_req p of
       None \<Rightarrow> (p, [])
     | Some req \<Rightarrow>
       (let p = p\<lparr>refs := put_option (peer_delay_fup p) (refs p)\<rparr>;
            p = p\<lparr>refs := msg_get m (refs p), peer_delay_fup := Some m\<rparr>
        in port_peer_delay e ats p req))"

subsection \<open>Memory\<close>

lemma core_more [simp]:
  "core (p\<lparr>asCapable := b\<rparr>) = core p" "core (p\<lparr>pdr_missing := w\<rparr>) = core p"
  "core (p\<lparr>peer_portid_valid := b\<rparr>) = core p"
  "core (p\<lparr>peer_portid_valid := b, peer_portid := i\<rparr>) = core p"
  "core (p\<lparr>nr_ingress1 := x, nr_origin1 := y\<rparr>) = core p" "core (p\<lparr>nr_count := n\<rparr>) = core p"
  "core (p\<lparr>nr_ratio := d, nr_ingress1 := x, nr_origin1 := y, nr_count := n, nr_ratio_valid := b\<rparr>) = core p"
  "core (p\<lparr>multiple_pdr_detected := n\<rparr>) = core p" "core (p\<lparr>multiple_seq_pdr_count := n\<rparr>) = core p"
  "core (p\<lparr>multiple_pdr_detected := n, multiple_seq_pdr_count := k\<rparr>) = core p"
  "core (p\<lparr>last_fault_type := f\<rparr>) = core p" "core (p\<lparr>p_tsproc := tsp\<rparr>) = core p"
  "core (p\<lparr>seq_delayreq := sd\<rparr>) = core p"
  "core (p\<lparr>p_tsproc := tsp, peer_delay := d', peerMeanPathDelay := m\<rparr>) = core p"
  by (simp_all add: core_def)

lemma core_port_capable [simp]: "core (fst (port_capable e p)) = core p"
  by (simp add: port_capable_def)

lemma core_check_peer [simp]: "core (check_peer e p m) = core p"
  by (simp add: check_peer_def)

lemma core_nrate_calculate [simp]: "core (port_nrate_calculate e p x y) = core p"
  by (simp add: port_nrate_calculate_def Let_def)

lemma core_count_responder [simp]: "core (fst (count_responder p m)) = core p"
  by (simp add: count_responder_def Let_def split: option.split)

lemma balance_put_req:
  "peer_delay_req p = Some req \<Longrightarrow> balance (p\<lparr>refs := msg_put req (refs p), peer_delay_req := None\<rparr>) = balance p"
  by (rule balance_cong) (simp add: held_def)

lemma balance_keep_resp:
  "balance (p\<lparr>refs := msg_get m (put_option (peer_delay_resp p) (refs p)), peer_delay_resp := Some m\<rparr>) = balance p"
  by (rule balance_cong) (simp add: held_def)

lemma balance_keep_fup:
  "balance (p\<lparr>refs := msg_get m (put_option (peer_delay_fup p) (refs p)), peer_delay_fup := Some m\<rparr>) = balance p"
  by (rule balance_cong) (simp add: held_def)

lemma peer_delay_calc_cases:
  obtains q where "core q = core p" "fst (peer_delay_calc e p req ts2 ts3c ts4) = q"
  | q where "core q = core p" "fst (peer_delay_calc e p req ts2 ts3c ts4) = q\<lparr>refs := msg_put req (refs q), peer_delay_req := None\<rparr>"
proof -
  define q where "q = (if follow_up_info p then port_nrate_calculate e p ts3c ts4 else p)"
  define r where "r = q\<lparr>p_tsproc := tsproc_down_ts (tsproc_up_ts (tsproc_set_clock_rate_ratio (p_tsproc q)
       (d_mul (ops e) (nr_ratio q) (c_rate_ratio e))) (hwts_ts req) ts2) ts3c ts4\<rparr>"
  have c: "core r = core p" by (simp add: r_def q_def)
  have e: "peer_delay_calc e p req ts2 ts3c ts4 = (case tsproc_update_delay (ops e) (p_tsproc r) True of
          Some (tsp, Some delay) \<Rightarrow>
            (let p = r\<lparr>p_tsproc := tsp, peer_delay := delay, peerMeanPathDelay := tmv_to_TimeInterval delay\<rparr>
             in (p\<lparr>refs := msg_put req (refs p), peer_delay_req := None\<rparr>,
                 if synchronizing (state p) then [ClockPeerDelay delay (hwts_ts req) ts2 (nr_ratio p)] else []))
        | _ \<Rightarrow> (r, []))"
    unfolding peer_delay_calc_def Let_def q_def [symmetric] r_def by simp
  show thesis
  proof (cases "tsproc_update_delay (ops e) (p_tsproc r) True")
    case None
    show thesis by (rule that(1) [of r]) (simp_all add: e None c)
  next
    case (Some a)
    then obtain tsp x where s: "tsproc_update_delay (ops e) (p_tsproc r) True = Some (tsp, x)" by (cases a) simp
    show thesis
    proof (cases x)
      case None
      show thesis by (rule that(1) [of r]) (simp_all add: e s None c)
    next
      case (Some delay)
      show thesis
        by (rule that(2) [of "r\<lparr>p_tsproc := tsp, peer_delay := delay, peerMeanPathDelay := tmv_to_TimeInterval delay\<rparr>"])
          (simp_all add: e s Some c Let_def)
    qed
  qed
qed

lemma balance_peer_delay_calc:
  assumes "peer_delay_req p = Some req"
  shows "balance (fst (peer_delay_calc e p req ts2 ts3c ts4)) = balance p"
proof (cases rule: peer_delay_calc_cases [of p e req ts2 ts3c ts4])
  case (1 q)
  show ?thesis unfolding 1(2) by (rule core_mem(2) [OF 1(1)])
next
  case (2 q)
  have "peer_delay_req q = Some req" using core_eqD(12) [OF 2(1)] assms by simp
  then show ?thesis unfolding 2(2) by (simp only: balance_put_req core_mem(2) [OF 2(1)])
qed

lemma balance_port_peer_delay:
  assumes "peer_delay_req p = Some req"
  shows "balance (fst (port_peer_delay e ats p req)) = balance p"
  using balance_peer_delay_calc [OF assms]
  by (simp add: port_peer_delay_def Let_def split: option.split)

lemma balance_PDelayResp: "balance (fst (portMsgProPDelayResp e ats p m)) = balance p"
proof -
  let ?p = "fst (count_responder p m)"
  have c: "core ?p = core p" by simp
  have "balance (fst (portMsgProPDelayResp e ats p m)) = balance ?p"
  proof (cases "peer_delay_req ?p")
    case None
    then show ?thesis by (simp add: portMsgProPDelayResp_def Let_def split_beta)
  next
    case (Some req)
    have k: "core (check_peer e ?p m) = core ?p" by simp
    let ?q = "(check_peer e ?p m)\<lparr>refs := msg_get m (put_option (peer_delay_resp (check_peer e ?p m)) (refs (check_peer e ?p m))), peer_delay_resp := Some m\<rparr>"
    have r: "peer_delay_req ?q = Some req" using core_eqD(12) [OF k] Some by simp
    have "balance (fst (portMsgProPDelayResp e ats p m))
      = (if snd (count_responder p m) then balance ?p else balance (fst (port_peer_delay e ats ?q req)))"
      by (simp add: portMsgProPDelayResp_def Let_def split_beta Some)
    also have "\<dots> = balance ?p"
      unfolding balance_port_peer_delay [OF r] balance_keep_resp core_mem(2) [OF k] by simp
    finally show ?thesis .
  qed
  then show ?thesis by (simp only: core_mem(2) [OF c])
qed

lemma balance_PDelayRespFollowUp: "balance (fst (portMsgProPDelayRespFollowUp e ats p m)) = balance p"
proof (cases "peer_delay_req p")
  case (Some req)
  let ?q = "p\<lparr>refs := msg_get m (put_option (peer_delay_fup p) (refs p)), peer_delay_fup := Some m\<rparr>"
  have r: "peer_delay_req ?q = Some req" using Some by simp
  have "balance (fst (portMsgProPDelayRespFollowUp e ats p m)) = balance (fst (port_peer_delay e ats ?q req))"
    by (simp add: portMsgProPDelayRespFollowUp_def Let_def Some)
  then show ?thesis unfolding balance_port_peer_delay [OF r] balance_keep_fup .
qed (simp add: portMsgProPDelayRespFollowUp_def)


lemma balance_put_pending [simp]: "balance (put_pending p) = balance p"
  by (rule balance_cong) (simp add: held_def put_pending_def Let_def)

lemma balance_new_request:
  "balance (p\<lparr>delay_req := m # delay_req p, refs := msg_get m (refs p)\<rparr>) = balance p"
  "peer_delay_req p = None \<Longrightarrow>
     balance (p\<lparr>peer_delay_req := Some m, refs := msg_get m (refs p)\<rparr>) = balance p"
  by (rule balance_cong, simp add: held_def)+

lemma balance_replace_request:
  "peer_delay_req p = Some old \<Longrightarrow>
     balance (p\<lparr>peer_delay_req := Some m, refs := msg_get m (msg_put old (refs p))\<rparr>) = balance p"
  by (rule balance_cong) (simp add: held_def)

lemma balance_mechanism: "balance (p\<lparr>delayMechanism := d\<rparr>) = balance p"
  by (rule balance_cong) (simp add: held_def)

lemma core_seq_more [simp]:
  "core (p\<lparr>seq_sync := s\<rparr>) = core p" "core (p\<lparr>seq_announce := s\<rparr>) = core p"
  by (simp_all add: core_def)

lemma core_tx_sync: "core (fst (port_tx_sync e c p dst)) = core p"
  by (simp add: port_tx_sync_eq Let_def split_beta split: list.split option.split)

lemma core_tx_announce: "core (fst (port_tx_announce e c p dst)) = core p"
  by (simp add: port_tx_announce_eq Let_def split_beta split: list.split option.split)

lemma core_DelayReq: "core (fst (portMsgProDelayReq e c p m)) = core p"
  by (simp add: portMsgProDelayReq_eq Let_def split_beta core_tx_sync split: list.split option.split)

lemmas balance_tx = core_mem(2) [OF core_tx_sync] core_mem(2) [OF core_tx_announce]
  and balance_DelayReq = core_mem(2) [OF core_DelayReq]

text \<open>The port after a request: before it is built, after a failure, or with the request pending.\<close>

definition pdr_prepared :: "'d PtpPort \<Rightarrow> 'd PtpPort" where
  "pdr_prepared p = (let p = (if multiple_pdr_detected p = 0 then p\<lparr>multiple_seq_pdr_count := 0\<rparr> else p);
         p = p\<lparr>multiple_pdr_detected := 0\<rparr> in p)"

definition pdr_counted :: "'d PtpPort \<Rightarrow> 'd PtpPort" where
  "pdr_counted p = (let p = pdr_prepared p in p\<lparr>seq_delayreq := seq_delayreq p + 1\<rparr>)"

definition pdr_replaced :: "'d env \<Rightarrow> 'd PtpPort \<Rightarrow> 'd PtpPort" where
  "pdr_replaced e p = (case peer_delay_req (pdr_counted p) of
      None \<Rightarrow> pdr_counted p
    | Some old \<Rightarrow>
        (let (p, capable) = port_capable e (pdr_counted p);
             p = (if capable then p\<lparr>pdr_missing := pdr_missing p + 1\<rparr> else p)
         in p\<lparr>refs := msg_put old (refs p)\<rparr>))"

lemma pdelay_request_cases:
  "fst (port_pdelay_request e c p) = pdr_prepared p \<or> fst (port_pdelay_request e c p) = pdr_counted p
    \<or> (\<exists>m. fst (port_pdelay_request e c p) = (pdr_replaced e p)\<lparr>peer_delay_req := Some m, refs := msg_get m (refs (pdr_replaced e p))\<rparr>)"
proof -
  define q1 where "q1 = (if multiple_pdr_detected p = 0 then p\<lparr>multiple_seq_pdr_count := 0\<rparr> else p)\<lparr>multiple_pdr_detected := 0\<rparr>"
  define q2 where "q2 = q1\<lparr>seq_delayreq := seq_delayreq q1 + 1\<rparr>"
  define q3 where "q3 = (case peer_delay_req q2 of
                              None \<Rightarrow> q2
                            | Some old \<Rightarrow>
                                (let (p, capable) = port_capable e q2;
                                     p = (if capable then p\<lparr>pdr_missing := pdr_missing p + 1\<rparr> else p)
                                 in p\<lparr>refs := msg_put old (refs p)\<rparr>))"
  have q: "pdr_prepared p = q1" "pdr_counted p = q2"
    by (simp_all add: pdr_prepared_def pdr_counted_def q1_def q2_def Let_def)
  then have q: "pdr_prepared p = q1" "pdr_counted p = q2" "pdr_replaced e p = q3"
    by (simp_all only: pdr_replaced_def q3_def)
  show ?thesis
    unfolding q port_pdelay_request_eq Let_def q1_def [symmetric] q2_def [symmetric]
    unfolding q3_def Let_def
    by (cases "pool e") (auto simp only: list.case fst_conv split: option.split if_split)
qed

lemma balance_pdelay_request: "balance (fst (port_pdelay_request e c p)) = balance p"
proof -
  let ?q = "pdr_counted p"
  have c: "core (pdr_prepared p) = core p" "core ?q = core p"
    by (simp_all add: pdr_prepared_def pdr_counted_def Let_def)
  note b = core_mem(2) [OF c(1)] core_mem(2) [OF c(2)]
  have r: "balance ((pdr_replaced e p)\<lparr>peer_delay_req := Some m, refs := msg_get m (refs (pdr_replaced e p))\<rparr>) = balance p" for m
  proof (cases "peer_delay_req ?q")
    case None
    then show ?thesis using balance_new_request(2) [of ?q m] b by (simp add: pdr_replaced_def)
  next
    case (Some old)
    define q3 where "q3 = (if snd (port_capable e ?q)
      then (fst (port_capable e ?q))\<lparr>pdr_missing := pdr_missing (fst (port_capable e ?q)) + 1\<rparr> else fst (port_capable e ?q))"
    have c3: "core q3 = core ?q" by (simp add: q3_def)
    have e: "pdr_replaced e p = q3\<lparr>refs := msg_put old (refs q3)\<rparr>"
      by (simp add: pdr_replaced_def Some q3_def Let_def split_beta)
    have "peer_delay_req q3 = Some old" using core_eqD(12) [OF c3] Some by simp
    from balance_replace_request [OF this, of m] show ?thesis
      using core_mem(2) [OF c3] b(2) by (simp add: e)
  qed
  from pdelay_request_cases [of e c p] show ?thesis by (elim disjE exE) (simp_all only: b r)
qed

text \<open>
  C13: The peer delay mechanism balances its references to message buffers: a response or a
  follow up, expected or not, an answer to a request, and a request of the port's own, in any
  state of the port and wherever an allocation, a transmission or a time stamp fails, change
  the reference count of every buffer by exactly what the port holds of it afterwards. The
  buffers an operation allocates are counted: none is kept unless it is the pending request,
  and none is released twice. The same holds of the answer to a delay request and of the
  transmission of Sync, Follow_Up and Announce messages.
\<close>

theorem peer_delay_reference_balance:
  "balance (fst (portMsgProPDelayResp e ats p m)) = balance p
   \<and> balance (fst (portMsgProPDelayRespFollowUp e ats p m)) = balance p
   \<and> balance (fst (portMsgProPDelayReq e p m)) = balance p
   \<and> balance (fst (port_pdelay_request e c p)) = balance p
   \<and> balance (fst (portMsgProDelayReq e c p m)) = balance p
   \<and> balance (fst (port_tx_sync e c p dst)) = balance p
   \<and> balance (fst (port_tx_announce e c p dst)) = balance p"
proof -
  define q where "q = (if delayMechanism p = DM_AUTO
          then port_set_delay_tmo e (p\<lparr>delayMechanism := DM_P2P\<rparr>) else p)"
  have "fst (portMsgProPDelayReq e p m) = p \<or> fst (portMsgProPDelayReq e p m) = check_peer e q m"
    unfolding portMsgProPDelayReq_eq Let_def q_def [symmetric] by (auto split: list.split option.split)
  moreover have "core (check_peer e q m) = core q" by simp
  from core_mem(2) [OF this] have "balance (check_peer e q m) = balance q" .
  moreover have "balance q = balance p" by (simp add: q_def balance_mechanism)
  ultimately have "balance (fst (portMsgProPDelayReq e p m)) = balance p" by metis
  then show ?thesis by (simp add: balance_PDelayResp balance_PDelayRespFollowUp balance_pdelay_request
      balance_DelayReq balance_tx)
qed

lemma check_peer_commutes:
  "check_peer e (p\<lparr>refs := r, peer_delay_fup := f\<rparr>) m = (check_peer e p m)\<lparr>refs := r, peer_delay_fup := f\<rparr>"
  by (simp add: check_peer_def port_capable_def port_nrate_initialize_def Let_def)

lemma msg_get_commute: "msg_get a (msg_get b r) = msg_get b (msg_get a r)"
  by (auto simp: msg_get_def fun_upd_def)

text \<open>
  C16: A peer delay response and its follow up may arrive in either order: the resulting state
  of the port, the calls to the clock and the return value are the same, whatever the two
  messages contain.
\<close>

theorem peer_delay_any_order:
  assumes "peer_delay_req p \<noteq> None" "peer_delay_resp p = None" "peer_delay_fup p = None" "\<not> one_step ats rsp"
  shows "(let (p1, calls1, err) = portMsgProPDelayResp e ats p rsp;
              (p2, calls2) = portMsgProPDelayRespFollowUp e ats p1 fup in (p2, calls1 @ calls2, err))
       = (let (p1, calls1) = portMsgProPDelayRespFollowUp e ats p fup;
              (p2, calls2, err) = portMsgProPDelayResp e ats p1 rsp in (p2, calls1 @ calls2, err))"
proof -
  obtain req where req: "peer_delay_req p = Some req" using assms(1) by blast
  let ?c = "check_peer e p rsp"
  have c: "core ?c = core p" by simp
  note k = core_eqD(12,13,14,16) [OF c, unfolded req assms(2,3)]
  let ?q = "?c\<lparr>refs := msg_get fup (msg_get rsp (refs p)), peer_delay_resp := Some rsp, peer_delay_fup := Some fup\<rparr>"
  let ?r = "?c\<lparr>refs := msg_get rsp (refs p), peer_delay_resp := Some rsp\<rparr>"
  let ?f = "p\<lparr>refs := msg_get fup (refs p), peer_delay_fup := Some fup\<rparr>"
  have q: "?c\<lparr>peer_delay_fup := Some fup, refs := msg_get fup (msg_get rsp (refs p)), peer_delay_resp := Some rsp\<rparr> = ?q"
    "?c\<lparr>peer_delay_resp := Some rsp, refs := msg_get fup (msg_get rsp (refs p)), peer_delay_fup := Some fup\<rparr> = ?q"
    by (cases ?c, simp)+
  have 1: "portMsgProPDelayResp e ats p rsp = (?r, [], False)"
    using assms by (simp add: portMsgProPDelayResp_def count_responder_def req Let_def k put_option_def port_peer_delay_def)
  have 2: "portMsgProPDelayRespFollowUp e ats ?r fup = port_peer_delay e ats ?q req"
    using assms by (simp add: portMsgProPDelayRespFollowUp_def req Let_def k put_option_def q)
  have 3: "portMsgProPDelayRespFollowUp e ats p fup = (?f, [])"
    using assms by (simp add: portMsgProPDelayRespFollowUp_def req Let_def put_option_def port_peer_delay_def)
  have 4: "portMsgProPDelayResp e ats ?f rsp = (let (p, calls) = port_peer_delay e ats ?q req in (p, calls, False))"
    using assms by (simp add: portMsgProPDelayResp_def count_responder_def req Let_def put_option_def
        check_peer_commutes msg_get_commute [of rsp] k q)
  show ?thesis unfolding 1 2 3 4 Let_def prod.case by (simp add: split_beta)
qed

text \<open>A slave with a pending peer delay request.\<close>

definition sample_peer :: "int PtpPort" where
  "sample_peer = (sample_slave PS_SLAVE)\<lparr>peer_delay_req := Some sample_sync, peer_delay_resp := None,
     peer_delay_fup := None\<rparr>"

theorem peer_delay_any_order_witness:
  "(let (p1, calls1, err) = portMsgProPDelayResp sample_env False sample_peer sample_sync;
        (p2, calls2) = portMsgProPDelayRespFollowUp sample_env False p1 sample_follow_up in (p2, calls1 @ calls2, err))
     = (let (p1, calls1) = portMsgProPDelayRespFollowUp sample_env False sample_peer sample_follow_up;
            (p2, calls2, err) = portMsgProPDelayResp sample_env False p1 sample_sync in (p2, calls1 @ calls2, err))"
proof -
  have "\<not> one_step False sample_sync" by code_simp
  then show ?thesis by (intro peer_delay_any_order) (simp_all add: sample_peer_def)
qed

end
