(* ===== verification/Exchange.thy ===== *)
theory Exchange
  imports PeerDelay
begin

text \<open>
  What two ports make of an exchange of messages: the messages that one port's operation sends
  are handed to the other's handlers, with the time stamps at which they arrive. The theorems
  state the time stamps and delays the clock of the receiver gets to see.
\<close>

text \<open>
  A message as the other end receives it: byte order and time stamp formats are the same on
  both ends after \<open>ptpMsgReceive\<close>; the receiver adds the time stamp of its arrival.
\<close>

definition received :: "tmv_t \<Rightarrow> ptp_message \<Rightarrow> ptp_message" where
  "received t m = m\<lparr>hwts_ts := t\<rparr>"

lemma received_sel [simp]:
  "hwts_ts (received t m) = t" "correction (received t m) = correction m" "ts_pdu (received t m) = ts_pdu m"
  "sequenceId (received t m) = sequenceId m" "sourcePortIdentity (received t m) = sourcePortIdentity m"
  "requestingPortIdentity (received t m) = requestingPortIdentity m" "flagField0 (received t m) = flagField0 m"
  "logMessageInterval (received t m) = logMessageInterval m" "fup_info (received t m) = fup_info m"
  "hwts_sw (received t m) = hwts_sw m" "domainNumber (received t m) = domainNumber m"
  "one_step ats (received t m) = one_step ats m" "msg_unicast (received t m) = msg_unicast m"
  by (simp_all add: received_def one_step_def msg_unicast_def)

lemma correction_to_tmv_0 [simp]: "correction_to_tmv 0 = tmv_zero"
  by (simp add: correction_to_tmv_def tmv_zero_def)

lemma tmv_add_0 [simp]: "tmv_add t tmv_zero = t" "tmv_add tmv_zero t = t"
  by (cases t; simp add: tmv_add_def tmv_zero_def)+

lemma prepare_and_send_Some:
  "prepare_and_send e p n ev m = Some m' \<Longrightarrow> m' = m\<lparr>hwts_ts := hwts_ts m'\<rparr>"
  by (auto simp: prepare_and_send_def Let_def split: if_splits)

lemma port_capable_keeps [simp]:
  "portIdentity (fst (port_capable e p)) = portIdentity p" "seq_sync (fst (port_capable e p)) = seq_sync p"
  "logSyncInterval (fst (port_capable e p)) = logSyncInterval p"
  "timestamping (fst (port_capable e p)) = timestamping p" "follow_up_info (fst (port_capable e p)) = follow_up_info p"
  by (simp_all add: port_capable_def port_nrate_initialize_def Let_def)

lemma port_tx_sync_pair:
  assumes "port_tx_sync e c p None = (p', [s, f], err)"
  shows "sourcePortIdentity s = portIdentity p" "sourcePortIdentity f = portIdentity p"
    "sequenceId f = sequenceId s" "sequenceId s = seq_sync p" "\<not> one_step ats s"
    "logMessageInterval s = logSyncInterval p"
    "ts_pdu f = wire_to_local (tmv_to_Timestamp (hwts_ts s))" "correction s = 0" "correction f = 0"
    "fup_info f \<noteq> None \<longleftrightarrow> follow_up_info p"
proof -
  let ?q = "fst (port_capable e p)"
  obtain i j rest where pool: "pool e = i # j # rest"
    using assms by (cases "pool e"; cases "tl (pool e)") (auto simp: port_tx_sync_eq Let_def split_beta split: if_splits)
  let ?q' = "?q\<lparr>seq_sync := seq_sync ?q + 1\<rparr>"
  let ?f = "\<lambda>s. if follow_up_info ?q' then follow_up_info_append (follow_up_message c ?q' j None (hwts_ts s))
     else follow_up_message c ?q' j None (hwts_ts s)"
  have "\<not> one_step_stamping (timestamping ?q') \<and> prepare_and_send e ?q' 0 True (sync_message c ?q i None) = Some s
     \<and> prepare_and_send e ?q' 1 False (?f s) = Some f"
    using assms unfolding port_tx_sync_eq Let_def split_beta pool
    by (auto split: if_splits option.splits)
  note x = this
  have "\<exists>ts. s = received ts (sync_message c ?q i None)" "\<exists>tf. f = received tf (?f s)"
    using x prepare_and_send_Some by (metis received_def)+
  then obtain ts tf where s: "s = received ts (sync_message c ?q i None)" and f: "f = received tf (?f s)" by blast
  show "sourcePortIdentity s = portIdentity p" "sourcePortIdentity f = portIdentity p"
    "sequenceId f = sequenceId s" "sequenceId s = seq_sync p" "\<not> one_step ats s"
    "logMessageInterval s = logSyncInterval p"
    "ts_pdu f = wire_to_local (tmv_to_Timestamp (hwts_ts s))" "correction s = 0" "correction f = 0"
    "fup_info f \<noteq> None \<longleftrightarrow> follow_up_info p"
    using x by (simp_all add: s f sync_message_def follow_up_message_def follow_up_info_append_def
        zero_msg_def one_step_def Let_def)
qed

subsection \<open>Examples\<close>

text \<open>A master and a slave.\<close>

definition sample_master :: "int PtpPort" where
  "sample_master = (started_port 2)\<lparr>state := PS_MASTER, follow_up_info := False, timestamping := TS_SOFTWARE,
     inhibit_multicast_service := False, net_sync_monitor := False, delayMechanism := DM_E2E,
     tx_timestamp_offset := 0, seq_sync := 65535, logSyncInterval := 0\<rparr>"

definition sample_following :: "ClockData" where
  "sample_following = sample_data\<lparr>pds_parentPortIdentity := portIdentity sample_master\<rparr>"

lemma sample_sync_sent:
  "\<exists>pm' s f. port_tx_sync sample_env sample_data sample_master None = (pm', [s, f], False)
    \<and> hwts_ts s = tmv_of 1000"
proof -
  have "tmv_is_zero (tmv_of 1000) = False" by code_simp
  then show ?thesis
    by (simp add: port_tx_sync_eq sample_master_def port_capable_def port_sync_incapable_def
        sample_env_def prepare_and_send_def one_step_stamping_def ts_add_def Let_def)
qed

text \<open>A pending delay request.\<close>

definition sample_request :: ptp_message where
  "sample_request = (zero_msg 3)\<lparr>tsmt := 1, sequenceId := 9, hwts_ts := tmv_of 300\<rparr>"

definition sample_asking :: "int PtpPort" where
  "sample_asking = (sample_slave PS_SLAVE)\<lparr>portIdentity := zero_pid, delay_req := [sample_request],
     peer_delay_req := Some sample_request, peer_delay_resp := None, peer_delay_fup := None, asymmetry := 0,
     nr_ratio := 1, p_tsproc := the (tsproc_create int_ops (\<lambda>_. True) 0 FILTER_MOVING_MEDIAN 10)\<rparr>"

subsection \<open>Synchronization\<close>

text \<open>
  C10: The two step Sync of a master, delivered with its Follow_Up to a port that follows it,
  synchronizes that port's clock once: the arrival time against exactly the transmission time
  stamp the master read back (with its offset), plus the asymmetry of the receiving port. The
  sequence number wraps with the counter of the master, and the time stamp survives the wire
  format.
\<close>

theorem sync_exchange:
  assumes "port_tx_sync em cm pm None = (pm', [s, f], err)"
    and "synchronizing (state p)" "syfu p = SF_EMPTY" "pds_parentPortIdentity c = portIdentity pm"
    and "follow_up_info p = follow_up_info pm" "log_sync_interval p = sint (logSyncInterval pm)"
  shows "(let (p1, calls1) = portMsgProSync e ats c p (received t s);
              (c2, p2, calls2) = portMsgProFollowUp e c p1 (received t' f) in (calls1 @ calls2, syfu p2))
       = ([ClockSynchronize t (tmv_add (hwts_ts s) (correction_to_tmv (asymmetry p)))], SF_EMPTY)"
proof -
  note m = port_tx_sync_pair [OF assms(1)]
  have k: "sourcePortIdentity (received t s) = pds_parentPortIdentity c"
    "sourcePortIdentity (received t' f) = pds_parentPortIdentity c"
    "sequenceId (received t' f) = sequenceId (received t s)" "\<not> one_step ats (received t s)"
    "follow_up_info p \<longrightarrow> fup_info (received t' f) \<noteq> None"
    "sint (logMessageInterval (received t s)) = log_sync_interval p"
    using m(1-3,5,6,10) assms(4-6) by simp_all
  have v: "timestamp_to_tmv (ts_pdu (received t' f)) = hwts_ts s" "correction (received t s) = 0"
    "correction (received t' f) = 0" "hwts_ts (received t s) = t"
    using m(7-9) by (simp_all add: Timestamp_back)
  show ?thesis
    using sync_then_followup [OF assms(2,3) k, of e] unfolding v by simp
qed

theorem sync_exchange_witness:
  "\<exists>pm' s f. port_tx_sync sample_env sample_data sample_master None = (pm', [s, f], False) \<and>
     (let (p1, calls1) = portMsgProSync sample_env False sample_following (sample_slave PS_SLAVE) (received (tmv_of 5000) s);
          (c2, p2, calls2) = portMsgProFollowUp sample_env sample_following p1 (received tmv_zero f)
      in (calls1 @ calls2, syfu p2)) = ([ClockSynchronize (tmv_of 5000) (tmv_of 1020)], SF_EMPTY)"
proof -
  obtain pm' s f where s: "port_tx_sync sample_env sample_data sample_master None = (pm', [s, f], False)"
    "hwts_ts s = tmv_of 1000" using sample_sync_sent by blast
  have h: "synchronizing (state (sample_slave PS_SLAVE))" "syfu (sample_slave PS_SLAVE) = SF_EMPTY"
    "pds_parentPortIdentity sample_following = portIdentity sample_master"
    "follow_up_info (sample_slave PS_SLAVE) = follow_up_info sample_master"
    "log_sync_interval (sample_slave PS_SLAVE) = sint (logSyncInterval sample_master)"
    by (simp_all add: sample_slave_def synchronizing_def sample_following_def sample_master_def)
  have v: "tmv_add (tmv_of 1000) (correction_to_tmv (65536 * 20)) = tmv_of 1020" by code_simp
  have a: "asymmetry (sample_slave PS_SLAVE) = 65536 * 20" by (simp add: sample_slave_def)
  show ?thesis
    using s(1) sync_exchange [OF s(1) h, of sample_env False "tmv_of 5000" tmv_zero] unfolding s(2) a v by blast
qed

subsection \<open>Delay request and response\<close>

lemma delay_resp_fields:
  "sequenceId (delay_resp_message p i m) = sequenceId m"
  "requestingPortIdentity (delay_resp_message p i m) = sourcePortIdentity m"
  "sourcePortIdentity (delay_resp_message p i m) = portIdentity p"
  "correction (delay_resp_message p i m) = correction m"
  "ts_pdu (delay_resp_message p i m) = wire_to_local (tmv_to_Timestamp (hwts_ts m))"
  by (simp_all add: delay_resp_message_def Let_def)

lemma find_unique:
  "x \<in> set xs \<Longrightarrow> P x \<Longrightarrow> \<forall>y \<in> set xs. P y \<longrightarrow> y = x \<Longrightarrow> find P xs = Some x"
proof (induction xs)
  case (Cons a xs)
  show ?case
  proof (cases "P a")
    case True
    then have "a = x" using Cons.prems(3) by (metis list.set_intros(1))
    then show ?thesis using True by simp
  next
    case False
    then have "x \<in> set xs" using Cons.prems(1,2) by (metis set_ConsD)
    moreover have "\<forall>y \<in> set xs. P y \<longrightarrow> y = x" using Cons.prems(3) by (meson list.set_intros(2))
    ultimately have "find P xs = Some x" using Cons.prems(2) by (intro Cons.IH)
    then show ?thesis using False by simp
  qed
qed simp

lemma balance_answered:
  assumes "req \<in> set (delay_req p)"
  shows "balance (p\<lparr>delay_req := remove1 req (delay_req p), refs := msg_put req (refs p)\<rparr>) = balance p"
proof (rule balance_cong)
  have "held_count (remove1 req xs) i = held_count xs i - held_count [req] i" if "req \<in> set xs" for xs i
    using that by (induction xs) auto
  from this [OF assms] show "refs (p\<lparr>delay_req := remove1 req (delay_req p), refs := msg_put req (refs p)\<rparr>) i
      - held (p\<lparr>delay_req := remove1 req (delay_req p), refs := msg_put req (refs p)\<rparr>) i = refs p i - held p i" for i
    by (simp add: held_def)
qed

lemma core_min_delay [simp]: "core (p\<lparr>logMinDelayReqInterval := x\<rparr>) = core p"
  by (simp add: core_def)

lemma delay_resp_answer:
  assumes "req \<in> set (delay_req p)" "\<forall>r \<in> set (delay_req p). sequenceId r = sequenceId req \<longrightarrow> r = req"
    and "synchronizing (state p)" "pds_parentPortIdentity c = sourcePortIdentity m"
    and "requestingPortIdentity m = portIdentity p" "sequenceId m = sequenceId req"
  shows "snd (portMsgProDelayResp e c p m)
      = [ClockPathDelay (hwts_ts req) (tmv_sub (timestamp_to_tmv (ts_pdu m)) (correction_to_tmv (correction m)))]"
    "core (fst (portMsgProDelayResp e c p m))
      = core (p\<lparr>delay_req := remove1 req (delay_req p), refs := msg_put req (refs p)\<rparr>)"
proof -
  have "find (\<lambda>r. sequenceId m = sequenceId r) (delay_req p) = Some req"
    using assms(1,2,6) by (intro find_unique) auto
  then show "snd (portMsgProDelayResp e c p m)
      = [ClockPathDelay (hwts_ts req) (tmv_sub (timestamp_to_tmv (ts_pdu m)) (correction_to_tmv (correction m)))]"
    "core (fst (portMsgProDelayResp e c p m))
      = core (p\<lparr>delay_req := remove1 req (delay_req p), refs := msg_put req (refs p)\<rparr>)"
    using assms(3-5) by (simp_all add: portMsgProDelayResp_def Let_def)
qed

text \<open>
  C11: A delay request that a slave has pending, answered by its master, gives the slave's clock
  the transmission time of the request and the master's receive time, less the corrections
  that the request collected on its way; the request is no longer pending and its buffer is
  released. (The sequence numbers of the pending requests are distinct, the master answers in
  the end to end mechanism and its transmission succeeds.)
\<close>

theorem delay_exchange:
  assumes "req \<in> set (delay_req p)" "\<forall>r \<in> set (delay_req p). sequenceId r = sequenceId req \<longrightarrow> r = req"
    and "sourcePortIdentity req = portIdentity p"
    and "m = received ingress (req\<lparr>correction := correction req + residence_time\<rparr>)"
    and "state pm = PS_MASTER \<or> state pm = PS_GRAND_MASTER" "delayMechanism pm \<noteq> DM_P2P" "\<not> net_sync_monitor pm"
    and "pool em \<noteq> []" "tx_ok em 0"
    and "synchronizing (state p)" "pds_parentPortIdentity c = portIdentity pm"
  shows "\<exists>resp. portMsgProDelayReq em cm pm m = (pm, [resp], False) \<and>
    (let (p', calls) = portMsgProDelayResp e c p (received t resp) in
      calls = [ClockPathDelay (hwts_ts req) (tmv_sub ingress (correction_to_tmv (correction req + residence_time)))]
      \<and> delay_req p' = remove1 req (delay_req p) \<and> balance p' = balance p)"
proof -
  obtain i rest where pool: "pool em = i # rest" using assms(8) by (cases "pool em") auto
  have n: "\<not> portNsmReply pm m" using assms(7) by (simp add: portNsmReply_def)
  obtain resp where "prepare_and_send em pm 0 False (delay_resp_message pm i m) = Some resp"
    using assms(9) by (simp add: prepare_and_send_def Let_def)
  then have p: "portMsgProDelayReq em cm pm m = (pm, [resp], False)" and "\<exists>ts. resp = received ts (delay_resp_message pm i m)"
    using assms(5,6) prepare_and_send_Some
    by (simp add: portMsgProDelayReq_eq n pool, metis received_def)
  then obtain ts where r: "resp = received ts (delay_resp_message pm i m)" by blast
  have a: "pds_parentPortIdentity c = sourcePortIdentity (received t resp)"
    "requestingPortIdentity (received t resp) = portIdentity p" "sequenceId (received t resp) = sequenceId req"
    using assms(3,11) by (simp_all add: r delay_resp_fields assms(4))
  note d = delay_resp_answer [OF assms(1,2,10) a, of e]
  have c: "correction (received t resp) = correction req + residence_time"
    "timestamp_to_tmv (ts_pdu (received t resp)) = ingress"
    by (simp_all add: r delay_resp_fields assms(4) Timestamp_back)
  show ?thesis
    using p d(1) [unfolded c] core_eqD(11) [OF d(2)] core_mem(2) [OF d(2)] balance_answered [OF assms(1)]
    by (auto simp: Let_def split_beta)
qed

theorem delay_exchange_witness:
  "\<exists>resp. portMsgProDelayReq sample_env sample_data sample_master
       (received (tmv_of 900) (sample_request\<lparr>correction := correction sample_request + 65536 * 50\<rparr>))
      = (sample_master, [resp], False) \<and>
    (let (p', calls) = portMsgProDelayResp sample_env sample_following sample_asking (received tmv_zero resp) in
      calls = [ClockPathDelay (tmv_of 300) (tmv_of 850)] \<and> delay_req p' = [] \<and> balance p' = balance sample_asking)"
proof -
  have h: "sample_request \<in> set (delay_req sample_asking)"
    "\<forall>r \<in> set (delay_req sample_asking). sequenceId r = sequenceId sample_request \<longrightarrow> r = sample_request"
    "sourcePortIdentity sample_request = portIdentity sample_asking"
    by (simp_all add: sample_asking_def sample_request_def zero_msg_def)
  have g: "state sample_master = PS_MASTER \<or> state sample_master = PS_GRAND_MASTER"
    "delayMechanism sample_master \<noteq> DM_P2P" "\<not> net_sync_monitor sample_master"
    "pool sample_env \<noteq> []" "tx_ok sample_env 0"
    "synchronizing (state sample_asking)" "pds_parentPortIdentity sample_following = portIdentity sample_master"
    by (simp_all add: sample_master_def sample_env_def sample_asking_def sample_slave_def synchronizing_def
        sample_following_def)
  have v: "tmv_sub (tmv_of 900) (correction_to_tmv (correction sample_request + 65536 * 50)) = tmv_of 850"
    "hwts_ts sample_request = tmv_of 300" by code_simp+
  have d: "remove1 sample_request (delay_req sample_asking) = []" by (simp add: sample_asking_def)
  show ?thesis
    using delay_exchange [OF h refl g, where ingress = "tmv_of 900" and residence_time = "65536 * 50" and cm = sample_data and e = sample_env and t = tmv_zero] unfolding v d .
qed

subsection \<open>Peer delay\<close>

lemma check_peer_keeps [simp]:
  "p_tsproc (check_peer e p m) = p_tsproc p" 
  "follow_up_info (check_peer e p m) = follow_up_info p" "asymmetry (check_peer e p m) = asymmetry p"
  "timestamping (check_peer e p m) = timestamping p" "state (check_peer e p m) = state p"
  "portIdentity (check_peer e p m) = portIdentity p"
  "tx_timestamp_offset (check_peer e p m) = tx_timestamp_offset p"
  "\<not> follow_up_info p \<Longrightarrow> nr_ratio (check_peer e p m) = nr_ratio p"
  by (simp_all add: check_peer_def port_capable_def port_nrate_initialize_def Let_def)

text \<open>What the requester makes of a complete exchange with two step stamps.\<close>

lemma peer_delay_complete:
  assumes "peer_delay_req p = Some req" "peer_delay_resp p = None" "\<not> one_step ats rsp"
    and "requestingPortIdentity rsp = portIdentity p" "requestingPortIdentity fup = portIdentity p"
    and "sequenceId rsp = sequenceId req" "sequenceId fup = sequenceId rsp"
    and "sourcePortIdentity fup = sourcePortIdentity rsp" "peer_delay_fup p = None"
    and "portMsgProPDelayResp e ats p rsp = (p1, calls1, err)"
    and "portMsgProPDelayRespFollowUp e ats p1 fup = (p2, calls2)"
  shows "\<exists>q. (p2, calls1 @ calls2) = peer_delay_calc e q req (timestamp_to_tmv (ts_pdu rsp))
      (tmv_add (timestamp_to_tmv (ts_pdu fup)) (tmv_add (correction_to_tmv (correction rsp + asymmetry p))
         (correction_to_tmv (correction fup)))) (hwts_ts rsp)
      \<and> p_tsproc q = p_tsproc p \<and> follow_up_info q = follow_up_info p \<and> state q = state p
      \<and> (\<not> follow_up_info p \<longrightarrow> nr_ratio q = nr_ratio p) \<and> \<not> err"
proof -
  let ?c = "check_peer e p rsp"
  have c: "core ?c = core p" by simp
  note k = core_eqD(12,13,14,16) [OF c, unfolded assms(1,2,9)]
  let ?r = "?c\<lparr>refs := msg_get rsp (refs p), peer_delay_resp := Some rsp\<rparr>"
  let ?q = "?r\<lparr>refs := msg_get fup (msg_get rsp (refs p)), peer_delay_fup := Some fup\<rparr>"
  have 1: "portMsgProPDelayResp e ats p rsp = (?r, [], False)"
    using assms(1-3) by (simp add: portMsgProPDelayResp_def count_responder_def Let_def k put_option_def port_peer_delay_def)
  have 2: "portMsgProPDelayRespFollowUp e ats ?r fup = port_peer_delay e ats ?q req"
    using assms(1) by (simp add: portMsgProPDelayRespFollowUp_def Let_def k put_option_def)
  have 3: "port_peer_delay e ats ?q req = peer_delay_calc e ?q req (timestamp_to_tmv (ts_pdu rsp))
      (tmv_add (timestamp_to_tmv (ts_pdu fup)) (tmv_add (correction_to_tmv (correction rsp + asymmetry p))
         (correction_to_tmv (correction fup)))) (hwts_ts rsp)"
    using assms(3-8) by (simp add: port_peer_delay_def Let_def)
  have p: "p1 = ?r" "calls1 = []" "\<not> err" using assms(10) by (simp_all add: 1)
  have "(p2, calls1 @ calls2) = portMsgProPDelayRespFollowUp e ats p1 fup" using assms(11) p(2) by simp
  also have "\<dots> = port_peer_delay e ats ?q req" by (simp only: p(1) 2)
  also note 3
  finally show ?thesis using p(3) by (intro exI [of _ ?q]) simp
qed

lemma peer_delay_settled:
  assumes "\<not> follow_up_info p" "filter_settled (tmv_of d) (delay_filter (p_tsproc p))"
    and "\<not> d_neq (ops e) (d_mul (ops e) (nr_ratio p) (c_rate_ratio e)) (d_one (ops e))"
    and "exchange_ok d theta s q" "hwts_ts req = tmv_of q"
    and "peer_delay_calc e p req (tmv_of (q - theta + d)) (tmv_of s) (tmv_of (s + d + theta)) = (p', calls)"
  shows "peer_delay p' = tmv_of d" "peerMeanPathDelay p' = tmv_to_TimeInterval (tmv_of d)"
    "peer_delay_req p' = None" "filter_settled (tmv_of d) (delay_filter (p_tsproc p'))"
    "calls = (if synchronizing (state p) then [ClockPeerDelay (tmv_of d) (tmv_of q) (tmv_of (q - theta + d)) (nr_ratio p)] else [])"
proof -
  let ?t = "tsproc_set_clock_rate_ratio (p_tsproc p) (d_mul (ops e) (nr_ratio p) (c_rate_ratio e))"
  let ?x = "exchange ?t d theta s q"
  have x: "tsproc_down_ts (tsproc_up_ts ?t (tmv_of q) (tmv_of (q - theta + d))) (tmv_of s) (tmv_of (s + d + theta)) = ?x"
    by (simp add: exchange_def tsproc_up_ts_def tsproc_down_ts_def)
  have f: "delay_filter ?t = delay_filter (p_tsproc p)" "clock_rate_ratio ?t = d_mul (ops e) (nr_ratio p) (c_rate_ratio e)"
    by (simp_all add: tsproc_set_clock_rate_ratio_def)
  obtain tsp where t: "tsproc_update_delay (ops e) ?x True = Some (tsp, Some (tmv_of d))"
    "filter_settled (tmv_of d) (delay_filter tsp)"
    by (rule settled_update [of d ?t, unfolded f, OF assms(2-4)]) simp
  have "peer_delay_calc e p req (tmv_of (q - theta + d)) (tmv_of s) (tmv_of (s + d + theta))
    = (p\<lparr>p_tsproc := tsp, peer_delay := tmv_of d, peerMeanPathDelay := tmv_to_TimeInterval (tmv_of d),
        refs := msg_put req (refs p), peer_delay_req := None\<rparr>,
       if synchronizing (state p) then [ClockPeerDelay (tmv_of d) (tmv_of q) (tmv_of (q - theta + d)) (nr_ratio p)] else [])"
    unfolding peer_delay_calc_def Let_def if_not_P [OF assms(1)] assms(5) x by (simp add: t(1))
  then show "peer_delay p' = tmv_of d" "peerMeanPathDelay p' = tmv_to_TimeInterval (tmv_of d)"
    "peer_delay_req p' = None" "filter_settled (tmv_of d) (delay_filter (p_tsproc p'))"
    "calls = (if synchronizing (state p) then [ClockPeerDelay (tmv_of d) (tmv_of q) (tmv_of (q - theta + d)) (nr_ratio p)] else [])"
    using assms(6) t(2) by auto
qed

lemma pdelay_resp_fields:
  "requestingPortIdentity (pdelay_resp_message p i m) = sourcePortIdentity m"
  "sequenceId (pdelay_resp_message p i m) = sequenceId m"
  "sourcePortIdentity (pdelay_resp_message p i m) = portIdentity p"
  "timestamping p \<noteq> TS_P2P1STEP \<Longrightarrow> correction (pdelay_resp_message p i m) = 0"
  "timestamping p \<noteq> TS_P2P1STEP \<Longrightarrow> ts_pdu (pdelay_resp_message p i m) = wire_to_local (tmv_to_Timestamp (hwts_ts m))"
  "timestamping p \<noteq> TS_P2P1STEP \<Longrightarrow> \<not> one_step ats (pdelay_resp_message p i m)"
  "requestingPortIdentity (pdelay_fup_message p j m x) = sourcePortIdentity m"
  "sequenceId (pdelay_fup_message p j m x) = sequenceId m"
  "sourcePortIdentity (pdelay_fup_message p j m x) = portIdentity p"
  "correction (pdelay_fup_message p j m x) = correction m"
  "ts_pdu (pdelay_fup_message p j m x) = wire_to_local (tmv_to_Timestamp x)"
  by (simp_all add: pdelay_resp_message_def pdelay_fup_message_def zero_msg_def Let_def one_step_def)

lemma PDelayReq_pair:
  assumes "portMsgProPDelayReq e p m = (p', [rsp, fup], err)"
  shows "requestingPortIdentity rsp = sourcePortIdentity m" "sequenceId rsp = sequenceId m"
    "sourcePortIdentity rsp = portIdentity p" "correction rsp = 0"
    "ts_pdu rsp = wire_to_local (tmv_to_Timestamp (hwts_ts m))" "\<not> one_step ats rsp"
    "requestingPortIdentity fup = sourcePortIdentity m" "sequenceId fup = sequenceId m"
    "sourcePortIdentity fup = portIdentity p" "correction fup = correction m"
    "ts_pdu fup = wire_to_local (tmv_to_Timestamp (hwts_ts rsp))"
proof -
  define q where "q = (if delayMechanism p = DM_AUTO
          then port_set_delay_tmo e (p\<lparr>delayMechanism := DM_P2P\<rparr>) else p)"
  define c where "c = check_peer e q m"
  obtain i j rest where pool: "pool e = i # j # rest"
    using assms by (cases "pool e"; cases "tl (pool e)") (auto simp: portMsgProPDelayReq_eq Let_def split: if_splits)
  have "timestamping c \<noteq> TS_P2P1STEP
      \<and> prepare_and_send e c 0 (timestamping c \<noteq> TS_P2P1STEP) (pdelay_resp_message c i m) = Some rsp
      \<and> prepare_and_send e c 1 False (pdelay_fup_message c j m (hwts_ts rsp)) = Some fup"
    using assms unfolding portMsgProPDelayReq_eq Let_def q_def [symmetric] c_def [symmetric] pool
    by (auto split: if_splits option.splits)
  note x = this
  then have "\<exists>ts. rsp = received ts (pdelay_resp_message c i m)"
    "\<exists>ts. fup = received ts (pdelay_fup_message c j m (hwts_ts rsp))"
    using prepare_and_send_Some by (metis received_def)+
  then obtain ts tf where r: "rsp = received ts (pdelay_resp_message c i m)"
    and f: "fup = received tf (pdelay_fup_message c j m (hwts_ts rsp))" by blast
  have c: "portIdentity c = portIdentity p" "timestamping c \<noteq> TS_P2P1STEP"
    using x by (simp_all add: c_def q_def)
  show "requestingPortIdentity rsp = sourcePortIdentity m" "sequenceId rsp = sequenceId m"
    "sourcePortIdentity rsp = portIdentity p" "correction rsp = 0"
    "ts_pdu rsp = wire_to_local (tmv_to_Timestamp (hwts_ts m))" "\<not> one_step ats rsp"
    "requestingPortIdentity fup = sourcePortIdentity m" "sequenceId fup = sequenceId m"
    "sourcePortIdentity fup = portIdentity p" "correction fup = correction m"
    "ts_pdu fup = wire_to_local (tmv_to_Timestamp (hwts_ts rsp))"
    using c by (simp_all add: f r pdelay_resp_fields)
qed


text \<open>
  C8: A complete exchange of the peer delay mechanism between two ports measures the link
  exactly: over a link with the delay \<open>d\<close> in both directions, and whatever the offset \<open>theta\<close>
  between the two clocks, the request of one port, answered by the other, sets the peer delay
  to \<open>d\<close>, reports it to the clock when the port is synchronizing, completes the request, and
  keeps the delay filter settled for the next exchange.
\<close>

theorem peer_delay_exchange:
  assumes "peer_delay_req p = Some req" "peer_delay_resp p = None" "peer_delay_fup p = None"
    and "hwts_ts req = tmv_of q" "sourcePortIdentity req = portIdentity p"
    and "portMsgProPDelayReq er r (received (tmv_of (q - theta + d)) (req\<lparr>correction := 0\<rparr>)) = (r', [rsp, fup], err)"
    and "hwts_ts rsp = tmv_of s" "exchange_ok d theta s q" "asymmetry p = 0"
    and "\<not> follow_up_info p" "filter_settled (tmv_of d) (delay_filter (p_tsproc p))"
    and "\<not> d_neq (ops e) (d_mul (ops e) (nr_ratio p) (c_rate_ratio e)) (d_one (ops e))"
    and "portMsgProPDelayResp e ats p (received (tmv_of (s + d + theta)) rsp) = (p1, calls1, err1)"
    and "portMsgProPDelayRespFollowUp e ats p1 (received t fup) = (p2, calls2)"
  shows "peer_delay p2 = tmv_of d \<and> peerMeanPathDelay p2 = tmv_to_TimeInterval (tmv_of d)
    \<and> peer_delay_req p2 = None \<and> \<not> err1
    \<and> filter_settled (tmv_of d) (delay_filter (p_tsproc p2))
    \<and> calls1 @ calls2 = (if synchronizing (state p)
         then [ClockPeerDelay (tmv_of d) (tmv_of q) (tmv_of (q - theta + d)) (nr_ratio p)] else [])"
proof -
  note m = PDelayReq_pair [OF assms(6)]
  let ?rsp = "received (tmv_of (s + d + theta)) rsp" and ?fup = "received t fup"
  have k: "\<not> one_step ats ?rsp" "requestingPortIdentity ?rsp = portIdentity p" "requestingPortIdentity ?fup = portIdentity p"
    "sequenceId ?rsp = sequenceId req" "sequenceId ?fup = sequenceId ?rsp" "sourcePortIdentity ?fup = sourcePortIdentity ?rsp"
    using m assms(5) by simp_all
  have v: "timestamp_to_tmv (ts_pdu ?rsp) = tmv_of (q - theta + d)" "timestamp_to_tmv (ts_pdu ?fup) = tmv_of s"
    "correction ?rsp = 0" "correction ?fup = 0" "hwts_ts ?rsp = tmv_of (s + d + theta)"
    using m(4,5,10,11) assms(7) by (simp_all add: Timestamp_back)
  obtain p' where p': "(p2, calls1 @ calls2) = peer_delay_calc e p' req (tmv_of (q - theta + d)) (tmv_of s) (tmv_of (s + d + theta))"
    "p_tsproc p' = p_tsproc p" "follow_up_info p' = follow_up_info p" "state p' = state p" "nr_ratio p' = nr_ratio p" "\<not> err1"
    using peer_delay_complete [OF assms(1,2) k assms(3,13,14)] assms(9,10) unfolding v by auto
  have h: "\<not> follow_up_info p'" "filter_settled (tmv_of d) (delay_filter (p_tsproc p'))"
    "\<not> d_neq (ops e) (d_mul (ops e) (nr_ratio p') (c_rate_ratio e)) (d_one (ops e))"
    using assms(10-12) p' by simp_all
  from peer_delay_settled [OF h assms(8,4) p'(1) [symmetric]] p'(4-6) show ?thesis by simp
qed

lemma sample_pdelay_reply:
  "\<exists>r' rsp fup. portMsgProPDelayReq sample_env (sample_master\<lparr>delayMechanism := DM_P2P\<rparr>)
      (received (tmv_of 700) (sample_request\<lparr>correction := 0\<rparr>)) = (r', [rsp, fup], False) \<and> hwts_ts rsp = tmv_of 1000"
proof -
  have "tmv_is_zero (tmv_of 1000) = False" by code_simp
  then show ?thesis
    by (simp add: portMsgProPDelayReq_eq Let_def sample_master_def sample_env_def prepare_and_send_def ts_add_def)
qed

theorem peer_delay_exchange_witness:
  "\<exists>r' rsp fup. portMsgProPDelayReq sample_env (sample_master\<lparr>delayMechanism := DM_P2P\<rparr>)
      (received (tmv_of 700) (sample_request\<lparr>correction := 0\<rparr>)) = (r', [rsp, fup], False) \<and>
    (let (p1, calls1, err1) = portMsgProPDelayResp sample_env False sample_asking (received (tmv_of 1000) rsp);
         (p2, calls2) = portMsgProPDelayRespFollowUp sample_env False p1 (received tmv_zero fup)
     in peer_delay p2 = tmv_of 200 \<and> peer_delay_req p2 = None
        \<and> calls1 @ calls2 = [ClockPeerDelay (tmv_of 200) (tmv_of 300) (tmv_of 700) 1])"
proof -
  obtain r' rsp fup where r: "portMsgProPDelayReq sample_env (sample_master\<lparr>delayMechanism := DM_P2P\<rparr>)
      (received (tmv_of 700) (sample_request\<lparr>correction := 0\<rparr>)) = (r', [rsp, fup], False)" "hwts_ts rsp = tmv_of 1000"
    using sample_pdelay_reply by blast
  have h: "peer_delay_req sample_asking = Some sample_request" "peer_delay_resp sample_asking = None"
    "peer_delay_fup sample_asking = None" "hwts_ts sample_request = tmv_of 300"
    "sourcePortIdentity sample_request = portIdentity sample_asking"
    by (simp_all add: sample_asking_def sample_request_def zero_msg_def)
  have x: "exchange_ok 200 (-200) 1000 300" by (simp add: exchange_ok_def)
  have g: "asymmetry sample_asking = 0" "\<not> follow_up_info sample_asking"
     "\<not> d_neq (ops sample_env) (d_mul (ops sample_env) (nr_ratio sample_asking) (c_rate_ratio sample_env)) (d_one (ops sample_env))"
     "synchronizing (state sample_asking)" "nr_ratio sample_asking = 1"
    by (simp_all add: sample_asking_def sample_slave_def sample_env_def int_ops_def synchronizing_def)
  have f: "filter_settled (tmv_of 200) (delay_filter (p_tsproc sample_asking))"
  proof -
    have "filter_create (\<lambda>_. True) FILTER_MOVING_MEDIAN 10 = Some (MedianFilter \<lparr>mm_cnt = 0, mm_len = 10,
        mm_index = 0, mm_order = replicate 10 0, mm_samples = replicate 10 tmv_zero\<rparr>)"
      by code_simp
    moreover have "delay_filter (p_tsproc sample_asking) = MedianFilter \<lparr>mm_cnt = 0, mm_len = 10,
        mm_index = 0, mm_order = replicate 10 0, mm_samples = replicate 10 tmv_zero\<rparr>"
      by (simp only: sample_asking_def sample_tsproc option.sel) simp
    ultimately show ?thesis
      using filter_create_settled [of "\<lambda>_. True" FILTER_MOVING_MEDIAN 10 _ "tmv_of 200"]
      by (simp add: tmv_val_of i64_range_def)
  qed
  obtain p1 calls1 err1 where 1: "portMsgProPDelayResp sample_env False sample_asking (received (tmv_of (1000 + 200 + -200)) rsp) = (p1, calls1, err1)"
    by (metis prod_cases3)
  obtain p2 calls2 where 2: "portMsgProPDelayRespFollowUp sample_env False p1 (received tmv_zero fup) = (p2, calls2)"
    by (cases "portMsgProPDelayRespFollowUp sample_env False p1 (received tmv_zero fup)")
  have r1: "portMsgProPDelayReq sample_env (sample_master\<lparr>delayMechanism := DM_P2P\<rparr>)
      (received (tmv_of (300 - (-200) + 200)) (sample_request\<lparr>correction := 0\<rparr>)) = (r', [rsp, fup], False)"
    using r(1) by simp
  show ?thesis
    using r(1) peer_delay_exchange [OF h r1 r(2) x g(1,2) f g(3) 1 2] g(4,5) 1 2 by (simp add: Let_def)
qed

end
