(* ===== verification/PortEvent.thy ===== *)
theory PortEvent
  imports PeerDelay
begin

text \<open>
  The events of a port of an ordinary or boundary clock, \<open>bc_event\<close> of
  src/ptpPortDevOrdinary.c with its helpers: what the port does when a timer expires or a
  message has arrived, and which event it reports for dispatch. Covered are all timers but
  those of the unicast negotiation, and all messages but Signaling and Management, which are left
  to their own handlers.
\<close>

subsection \<open>Timers\<close>

definition delay_req_current :: "ptp_message \<Rightarrow> timespec \<Rightarrow> bool" where
  "delay_req_current m now =
    (let h = ts_host m;
         s1 = tv_sec h * NSEC2SEC + tv_nsec h;
         s2 = tv_sec now * NSEC2SEC + tv_nsec now
     in sint (s2 - s1) < 5 * 1000000000)"

function delay_req_prune_loop :: "timespec \<Rightarrow> ptp_message list \<Rightarrow> refs \<Rightarrow> ptp_message list \<times> refs" where
  "delay_req_prune_loop now ms r =
    (if ms = [] \<or> delay_req_current (last ms) now then (ms, r)
     else delay_req_prune_loop now (butlast ms) (msg_put (last ms) r))"
  by pat_completeness auto
termination
  by (relation "measure (\<lambda>(now, ms, r). length ms)") auto

declare delay_req_prune_loop.simps [simp del]

definition delay_req_prune :: "'d env \<Rightarrow> 'd PtpPort \<Rightarrow> 'd PtpPort" where
  "delay_req_prune e p = (let (ms, r) = delay_req_prune_loop (mono_now e) (delay_req p) (refs p)
     in p\<lparr>delay_req := ms, refs := r\<rparr>)"

text \<open>\<open>_renewTransport\<close>; true is the error return of \<open>transport_open\<close>.\<close>

definition renewTransport :: "'d env \<Rightarrow> 'd PtpPort \<Rightarrow> 'd PtpPort \<times> bool" where
  "renewTransport e p =
    (if \<not> portIsEnabled (state p) then (p, False)
     else (p\<lparr>trp_open := transport_ok e\<rparr>, \<not> transport_ok e))"

definition clear_best :: "'d PtpPort \<Rightarrow> 'd PtpPort" where
  "clear_best p = (case best p of
      None \<Rightarrow> p
    | Some b \<Rightarrow> (case find_master b (foreign_masters p) of
         None \<Rightarrow> p
       | Some fc \<Rightarrow> (let (fc, r) = fc_clear fc (refs p)
           in p\<lparr>foreign_masters := replace_master b fc (foreign_masters p), refs := r\<rparr>)))"

definition receipt_timeout :: "'d env \<Rightarrow> ClockData \<Rightarrow> 'd PtpPort \<Rightarrow> 'd PtpPort \<times> PORT_EVENT" where
  "receipt_timeout e c p =
    (let p = clear_best p;
         p = port_set_announce_tmo e p;
         p = delay_req_prune e p
     in if dds_slave_only c \<and> delayMechanism p \<noteq> DM_P2P
        then (let (p, err) = renewTransport e p
              in (p, if err then EV_FAULT_DETECTED else EV_ANNOUNCE_RECEIPT_TIMEOUT_EXPIRES))
        else (p, EV_ANNOUNCE_RECEIPT_TIMEOUT_EXPIRES))"

subsection \<open>Messages that are ignored\<close>

definition incapableIgnore :: "'d env \<Rightarrow> 'd PtpPort \<Rightarrow> ptp_message \<Rightarrow> 'd PtpPort \<times> bool" where
  "incapableIgnore e p m =
    (let (p, capable) = port_capable e p
     in (p, \<not> capable \<and> (msg_type m = ANNOUNCE \<or> msg_type m = SYNC)))"

definition pathTraceIgnore :: "ClockData \<Rightarrow> 'd PtpPort \<Rightarrow> ptp_message \<Rightarrow> bool" where
  "pathTraceIgnore c p m \<longleftrightarrow> path_trace_enabled p \<and> msg_type m = ANNOUNCE
    \<and> list_ex (\<lambda>ptt. case ptt of
          PathTrace cids \<Rightarrow> list_ex (\<lambda>i. cid_eq i (dds_clockIdentity c)) cids
        | OtherTlv _ \<Rightarrow> False) (m_tlvs m)"

definition portIgnore :: "'d env \<Rightarrow> ClockData \<Rightarrow> 'd PtpPort \<Rightarrow> ptp_message \<Rightarrow> 'd PtpPort \<times> bool" where
  "portIgnore e c p m =
    (let (p, ignore) = incapableIgnore e p m in
     (p, if ignore then True
         else if pathTraceIgnore c p m then True
         else if match_transport_specific p \<and> tsmt m AND 0xf0 \<noteq> transportSpecific p then True
         else if pid_eq (sourcePortIdentity m) (portIdentity p) then True
         else if domainNumber m \<noteq> dds_domainNumber c then True
         else cid_eq (dds_clockIdentity c) (clockIdentity (sourcePortIdentity m))))"

definition msg_sots_missing :: "ptp_message \<Rightarrow> bool" where
  "msg_sots_missing m \<longleftrightarrow> msg_type m \<in> {SYNC, DELAY_REQ, PDELAY_REQ, PDELAY_RESP} \<and> tmv_is_zero (hwts_ts m)"

subsection \<open>The event function\<close>

text \<open>
  \<open>Timer fd\<close> is the expiry of a timer, \<open>Receive m\<close> a message that passed \<open>ptpMsgReceive\<close>,
  \<open>ReceiveFailed\<close> and \<open>ReceiveBad\<close> the failures before, \<open>Link up label info\<close> a link
  notification: whether the link is up, whether the time stamping label has changed, and what
  \<open>port_link_status\<close> learns of the hardware clock: nothing to compare, required modes that are
  missing, the same clock as before, or another one, with the result of switching to it.
\<close>

datatype link_info = NoPhc | ModesMissing | SamePhc | NewPhc bool

datatype port_input = Timer FD | Receive ptp_message | ReceiveFailed | ReceiveBad
  | Link bool bool link_info

abbreviation SIGNALING :: u8 where "SIGNALING \<equiv> 12"
abbreviation MANAGEMENT :: u8 where "MANAGEMENT \<equiv> 13"

definition input_modelled :: "port_input \<Rightarrow> bool" where
  "input_modelled inp \<longleftrightarrow> (case inp of
      Timer fd \<Rightarrow> fd \<in> {FD_ANNOUNCE_TIMER, FD_SYNC_RX_TIMER, FD_DELAY_TIMER, FD_QUALIFICATION_TIMER,
        FD_MANNO_TIMER, FD_SYNC_TX_TIMER}
    | Receive m \<Rightarrow> msg_type m \<noteq> SIGNALING \<and> msg_type m \<noteq> MANAGEMENT
    | _ \<Rightarrow> True)"

record 'd result =
  r_data :: ClockData
  r_port :: "'d PtpPort"
  r_event :: PORT_EVENT
  r_calls :: "'d clock_call list"
  r_sent :: "ptp_message list"
  r_sde :: bool

abbreviation fault_if :: "bool \<Rightarrow> PORT_EVENT" where
  "fault_if err \<equiv> (if err then EV_FAULT_DETECTED else EV_NONE)"

definition timer_event :: "'d env \<Rightarrow> ClockData \<Rightarrow> 'd PtpPort \<Rightarrow> FD \<Rightarrow> 'd result option" where
  "timer_event e c p fd =
    (case fd of
       FD_ANNOUNCE_TIMER \<Rightarrow> (let (p, ev) = receipt_timeout e c p in Some \<lparr>r_data = c, r_port = p, r_event = ev, r_calls = [], r_sent = [], r_sde = False\<rparr>)
     | FD_SYNC_RX_TIMER \<Rightarrow> (let (p, ev) = receipt_timeout e c p in Some \<lparr>r_data = c, r_port = p, r_event = ev, r_calls = [], r_sent = [], r_sde = False\<rparr>)
     | FD_DELAY_TIMER \<Rightarrow>
         (let p = port_set_delay_tmo e p;
              p = delay_req_prune e p
          in case port_delay_request e c p of
               None \<Rightarrow> None
             | Some (p, sent, err) \<Rightarrow> Some \<lparr>r_data = c, r_port = p, r_event = fault_if err, r_calls = [], r_sent = sent, r_sde = False\<rparr>)
     | FD_QUALIFICATION_TIMER \<Rightarrow> Some \<lparr>r_data = c, r_port = p, r_event = EV_QUALIFICATION_TIMEOUT_EXPIRES, r_calls = [], r_sent = [], r_sde = False\<rparr>
     | FD_MANNO_TIMER \<Rightarrow>
         (let p = setMannoTmo p;
              (p, sent, err) = port_tx_announce e c p None
          in Some \<lparr>r_data = c, r_port = p, r_event = fault_if err, r_calls = [], r_sent = sent, r_sde = False\<rparr>)
     | FD_SYNC_TX_TIMER \<Rightarrow>
         (let p = setSyncTxTmo p;
              (p, sent, err) = port_tx_sync e c p None
          in Some \<lparr>r_data = c, r_port = p, r_event = fault_if err, r_calls = [], r_sent = sent, r_sde = False\<rparr>)
     | _ \<Rightarrow> Some \<lparr>r_data = c, r_port = p, r_event = EV_NONE, r_calls = [], r_sent = [], r_sde = False\<rparr>)"

abbreviation outcome :: "ClockData \<Rightarrow> 'd PtpPort \<Rightarrow> PORT_EVENT \<Rightarrow> 'd clock_call list
    \<Rightarrow> ptp_message list \<Rightarrow> 'd result" where
  "outcome c p event calls sent \<equiv>
    \<lparr>r_data = c, r_port = p, r_event = event, r_calls = calls, r_sent = sent, r_sde = False\<rparr>"

text \<open>The switch over the type of a received message.\<close>

definition handle_message_by :: "'d dispatch \<Rightarrow> 'd env \<Rightarrow> bool \<Rightarrow> ClockData \<Rightarrow> 'd PtpPort \<Rightarrow> ptp_message \<Rightarrow> 'd result option" where
  "handle_message_by dispatch e ats c p m =
    (if msg_type m = SYNC then
       (let (p, calls) = portMsgProSync_by dispatch e ats c p m in Some (outcome c p EV_NONE calls []))
     else if msg_type m = DELAY_REQ then
       (let (p, sent, err) = portMsgProDelayReq e c p m in Some (outcome c p (fault_if err) [] sent))
     else if msg_type m = PDELAY_REQ then
       (let (p, sent, err) = portMsgProPDelayReq e p m in Some (outcome c p (fault_if err) [] sent))
     else if msg_type m = PDELAY_RESP then
       (let (p, calls, err) = portMsgProPDelayResp e ats p m in Some (outcome c p (fault_if err) calls []))
     else if msg_type m = FOLLOW_UP then
       (let (c, p, calls) = portMsgProFollowUp_by dispatch e c p m in Some (outcome c p EV_NONE calls []))
     else if msg_type m = DELAY_RESP then
       (let (p, calls) = portMsgProDelayResp e c p m in Some (outcome c p EV_NONE calls []))
     else if msg_type m = PDELAY_RESP_FOLLOW_UP then
       (let (p, calls) = portMsgProPDelayRespFollowUp e ats p m in Some (outcome c p EV_NONE calls []))
     else if msg_type m = ANNOUNCE then
       (case portMsgProAnnounce e c p m of
          None \<Rightarrow> None
        | Some (c, p, changed) \<Rightarrow> Some (outcome c p (if changed then EV_STATE_DECISION_EVENT else EV_NONE) [] []))
     else Some (outcome c p EV_NONE [] []))"

definition handle_message :: "'d env \<Rightarrow> bool \<Rightarrow> ClockData \<Rightarrow> 'd PtpPort \<Rightarrow> ptp_message \<Rightarrow> 'd result option" where
  handle_message_bc: "handle_message e = handle_message_by (bc_dispatch e) e"

lemma handle_message_def:
  "handle_message e ats c p m =
    (if msg_type m = SYNC then
       (let (p, calls) = portMsgProSync e ats c p m in Some (outcome c p EV_NONE calls []))
     else if msg_type m = DELAY_REQ then
       (let (p, sent, err) = portMsgProDelayReq e c p m in Some (outcome c p (fault_if err) [] sent))
     else if msg_type m = PDELAY_REQ then
       (let (p, sent, err) = portMsgProPDelayReq e p m in Some (outcome c p (fault_if err) [] sent))
     else if msg_type m = PDELAY_RESP then
       (let (p, calls, err) = portMsgProPDelayResp e ats p m in Some (outcome c p (fault_if err) calls []))
     else if msg_type m = FOLLOW_UP then
       (let (c, p, calls) = portMsgProFollowUp e c p m in Some (outcome c p EV_NONE calls []))
     else if msg_type m = DELAY_RESP then
       (let (p, calls) = portMsgProDelayResp e c p m in Some (outcome c p EV_NONE calls []))
     else if msg_type m = PDELAY_RESP_FOLLOW_UP then
       (let (p, calls) = portMsgProPDelayRespFollowUp e ats p m in Some (outcome c p EV_NONE calls []))
     else if msg_type m = ANNOUNCE then
       (case portMsgProAnnounce e c p m of
          None \<Rightarrow> None
        | Some (c, p, changed) \<Rightarrow> Some (outcome c p (if changed then EV_STATE_DECISION_EVENT else EV_NONE) [] []))
     else Some (outcome c p EV_NONE [] []))"
  by (simp only: handle_message_bc handle_message_by_def portMsgProSync_bc portMsgProFollowUp_bc)

text \<open>
  A received message: its buffer carries one reference, taken here and given back at the end.
  A time stamp is corrected by the offset of the port and handed to the clock check.
\<close>

definition stamp_received :: "'d PtpPort \<Rightarrow> ptp_message \<Rightarrow> ptp_message \<times> 'd clock_call list" where
  "stamp_received p m =
    (if tmv_is_zero (hwts_ts m) then (m, [])
     else let t = ts_add (hwts_ts m) (- rx_timestamp_offset p) in (m\<lparr>hwts_ts := t\<rparr>, [ClockCheckTs t]))"

definition message_event :: "'d env \<Rightarrow> bool \<Rightarrow> ClockData \<Rightarrow> 'd PtpPort \<Rightarrow> ptp_message \<Rightarrow> 'd result option" where
  "message_event e ats c p m =
    (let (p, ignore) = portIgnore e c p m in
     if ignore \<or> msg_sots_missing m \<and> \<not> (timestamping p = TS_P2P1STEP \<and> msg_type m = PDELAY_REQ)
     then Some (outcome c p EV_NONE [] [])
     else
       let p = p\<lparr>refs := msg_get m (refs p)\<rparr>;
           (m', checks) = stamp_received p m
       in map_option (\<lambda>res. res\<lparr>r_port := (r_port res)\<lparr>refs := msg_put m (refs (r_port res))\<rparr>,
             r_calls := checks @ r_calls res\<rparr>) (handle_message e ats c p m'))"

text \<open>
  \<open>port_link_status\<close>, with the dispatch function of the port for a fault, and the event for a
  link notification. \<open>link_up\<close> is the bit of
  \<open>link_status\<close> that outlives the notification; \<open>changed\<close> and \<open>label\<close> are the two other
  bits. A link that goes down forces a state decision, unless switching the clock failed.
\<close>

definition link_status_by :: "('d PtpPort \<Rightarrow> 'd PtpPort) \<Rightarrow> 'd PtpPort \<Rightarrow> bool \<Rightarrow> bool \<Rightarrow> link_info
    \<Rightarrow> 'd PtpPort \<times> bool \<times> bool \<times> bool \<times> 'd clock_call list" where
  "link_status_by fault_dispatch p up label info =
    (let changed = (link_up p \<noteq> up);
         p = p\<lparr>link_up := up\<rparr>
     in if \<not> (up \<and> (changed \<or> label)) then (p, changed, label, \<not> up, [])
        else case info of
            NoPhc \<Rightarrow> (p, changed, label, False, [])
          | SamePhc \<Rightarrow> (p, changed, label, False, [])
          | ModesMissing \<Rightarrow> (p\<lparr>link_up := False\<rparr>, True, False, True, [])
          | NewPhc ok \<Rightarrow>
              (if ok then (p, changed, label, False, [ClockSyncInterval (log_sync_interval p)])
               else (fault_dispatch (p\<lparr>last_fault_type := FT_SWITCH_PHC\<rparr>), changed, label, False, [])))"

definition port_link_status :: "'d env \<Rightarrow> 'd PtpPort \<Rightarrow> bool \<Rightarrow> bool \<Rightarrow> link_info
    \<Rightarrow> 'd PtpPort \<times> bool \<times> bool \<times> bool \<times> 'd clock_call list" where
  "port_link_status e p up label info =
    link_status_by (\<lambda>p. bc_dispatch e p EV_FAULT_DETECTED False) p up label info"

definition link_outcome :: "ClockData \<Rightarrow> 'd PtpPort \<times> bool \<times> bool \<times> bool \<times> 'd clock_call list \<Rightarrow> 'd result" where
  "link_outcome c st =
    (let (p, changed, label, down, calls) = st
     in \<lparr>r_data = c, r_port = p,
          r_event = (if link_up p \<and> changed \<and> \<not> label then EV_FAULT_CLEARED
                     else if \<not> link_up p \<and> changed \<and> \<not> label \<or> label then EV_FAULT_DETECTED
                     else EV_NONE),
          r_calls = calls, r_sent = [], r_sde = down\<rparr>)"

definition link_event :: "'d env \<Rightarrow> ClockData \<Rightarrow> 'd PtpPort \<Rightarrow> bool \<Rightarrow> bool \<Rightarrow> link_info \<Rightarrow> 'd result" where
  "link_event e c p up label info = link_outcome c (port_link_status e p up label info)"

definition bc_event :: "'d env \<Rightarrow> bool \<Rightarrow> ClockData \<Rightarrow> 'd PtpPort \<Rightarrow> port_input \<Rightarrow> 'd result option" where
  "bc_event e ats c p inp =
    (case inp of
       Timer fd \<Rightarrow> timer_event e c p fd
     | Receive m \<Rightarrow> message_event e ats c p m
     | ReceiveFailed \<Rightarrow> Some \<lparr>r_data = c, r_port = p, r_event = EV_FAULT_DETECTED, r_calls = [], r_sent = [], r_sde = False\<rparr>
     | ReceiveBad \<Rightarrow> Some \<lparr>r_data = c, r_port = p, r_event = EV_NONE, r_calls = [], r_sent = [], r_sde = False\<rparr>
     | Link up label info \<Rightarrow> Some (link_event e c p up label info))"

end
