(* ===== verification/PortRole.thy ===== *)
theory PortRole
  imports PortEvent
begin

text \<open>
  What the events of a port keep: the invariant of the port, and that no event but a
  recommendation of the state decision brings a port into a role that follows a master. From
  this follows that the handlers never dereference a missing best master.
\<close>

subsection \<open>Roles that follow a master\<close>

definition needs_best :: "PORT_STATE \<Rightarrow> bool" where
  "needs_best s \<longleftrightarrow> s = PS_PASSIVE \<or> synchronizing s"

text \<open>
  A step that does not bring the port into a role that needs a best master, and keeps its
  best master while it is in one.
\<close>

definition no_new_role :: "'d PtpPort \<Rightarrow> 'd PtpPort \<Rightarrow> bool" where
  "no_new_role p p' \<longleftrightarrow> (needs_best (state p') \<longrightarrow> needs_best (state p)
      \<and> (synchronizing (state p') \<longrightarrow> synchronizing (state p)) \<and> best p' = best p)
    \<and> slave_fsm p' = slave_fsm p"

lemma no_new_role_refl [simp]: "no_new_role p p"
  by (simp add: no_new_role_def)

lemma no_new_role_trans: "no_new_role p q \<Longrightarrow> no_new_role q r \<Longrightarrow> no_new_role p r"
  by (auto simp: no_new_role_def)

lemma no_new_role_same:
  "state p' = state p \<Longrightarrow> best p' = best p \<Longrightarrow> slave_fsm p' = slave_fsm p \<Longrightarrow> no_new_role p p'"
  by (auto simp: no_new_role_def)

lemma transition_masters:
  assumes "s \<noteq> PS_FAULTY" "s \<noteq> PS_DISABLED"
  shows "best (e2eTransition e p s) = best p" "best (p2pTransition e p s) = best p"
    "foreign_masters (e2eTransition e p s) = foreign_masters p"
    "foreign_masters (p2pTransition e p s) = foreign_masters p"
  using assms by (cases s; simp add: e2eTransition_def p2pTransition_def Let_def)+

lemma fsm_needs_best:
  assumes "\<not> recommendation event"
  shows "needs_best (state_machine p s event d) \<Longrightarrow> needs_best s \<and> (synchronizing (state_machine p s event d) \<longrightarrow> synchronizing s)"
  using assms by (cases s; cases event)
    (auto simp: needs_best_def synchronizing_def state_machine_def fsm_defs recommendation_def split: if_splits)

lemma update_next_needs_best:
  assumes "\<not> recommendation event" "needs_best (update_next p event d)"
  shows "needs_best (state p) \<and> (synchronizing (update_next p event d) \<longrightarrow> synchronizing (state p))"
  using fsm_needs_best [OF assms(1), of p "state p" d] assms(2)
  by (auto simp: update_next_def Let_def needs_best_def synchronizing_def split: if_splits)

lemma needs_best_enabled: "needs_best s \<Longrightarrow> s \<noteq> PS_FAULTY \<and> s \<noteq> PS_DISABLED \<and> s \<noteq> PS_INITIALIZING \<and> s \<noteq> PS_LISTENING"
  by (auto simp: needs_best_def synchronizing_def)

lemma finish_update_slave [simp]: "slave_fsm (fst (finish_update e p old nxt)) = slave_fsm p" by simp

lemma dispatch_state_no_new_role:
  assumes "masters_ok p" "\<not> recommendation event"
  shows "no_new_role p (fst (dispatch_state e p event d))"
proof -
  obtain p' changed where u: "portStateUpdate e p event d = (p', changed)"
    by (cases "portStateUpdate e p event d")
  let ?q = "fst (dispatch_state e p event d)"
  have s: "state ?q = state p'" "slave_fsm ?q = slave_fsm p"
    using portStateUpdate_mem(3) [OF u assms(1)] by (simp_all add: dispatch_state_def u)
  have b: "needs_best (state p') \<Longrightarrow> best ?q = best p'"
    using needs_best_enabled [of "state p'"] transition_masters(1,2) [of "state p'" e p'] by (simp add: dispatch_state_def u)
  have "needs_best (state p') \<Longrightarrow> needs_best (state p)
      \<and> (synchronizing (state p') \<longrightarrow> synchronizing (state p)) \<and> best p' = best p"
    using u
  proof (cases rule: portStateUpdate_cases)
    case step
    assume n: "needs_best (state p')"
    have "p' = fst (finish_update e p (state p) (update_next p event d))" using step(3) by (metis fst_conv)
    then show ?thesis
      using n update_next_needs_best [OF assms(2), of p d] step(2) by simp
  next
    case (init q s)
    assume "needs_best (state p')"
    then show ?thesis using init(3,4) by (simp add: needs_best_def synchronizing_def split: if_splits)
  qed
  with s b show ?thesis by (simp add: no_new_role_def)
qed

lemma bc_dispatch_no_new_role:
  assumes "masters_ok p" "\<not> recommendation event"
  shows "no_new_role p (bc_dispatch e p event d)"
proof -
  let ?q = "fst (dispatch_state e p event d)"
  note 1 = dispatch_state_no_new_role [OF assms, of e d]
  have m: "masters_ok (?q\<lparr>last_fault_type := FT_SWITCH_PHC\<rparr>)"
    using dispatch_state_mem(1) [OF assms(1)] by simp
  have "\<not> recommendation EV_FAULT_DETECTED" by (simp add: recommendation_def)
  note 2 = dispatch_state_no_new_role [OF m this, of e False]
  have "no_new_role ?q (?q\<lparr>last_fault_type := FT_SWITCH_PHC\<rparr>)" by (rule no_new_role_same) simp_all
  from no_new_role_trans [OF 1 no_new_role_trans [OF this 2]] 1 show ?thesis
    by (simp add: bc_dispatch_def Let_def split_beta)
qed

subsection \<open>Handlers\<close>

text \<open>
  A handler keeps the port's invariant and takes no new role; for the latter the records of the
  foreign masters have to be in order, and stay so.
\<close>

definition follow_step :: "'d PtpPort \<Rightarrow> 'd PtpPort \<Rightarrow> bool" where
  "follow_step p p' \<longleftrightarrow> (masters_ok p \<longrightarrow> masters_ok p' \<and> no_new_role p p')"

lemma follow_step_refl [simp]: "follow_step p p"
  by (simp add: follow_step_def)

lemma follow_step_trans: "follow_step p q \<Longrightarrow> follow_step q r \<Longrightarrow> follow_step p r"
  unfolding follow_step_def using no_new_role_trans by blast

definition good_step :: "'d PtpPort \<Rightarrow> 'd PtpPort \<Rightarrow> bool" where
  "good_step p p' \<longleftrightarrow> (port_inv p \<longrightarrow> port_inv p') \<and> follow_step p p'"

lemma good_stepD: "good_step p p' \<Longrightarrow> port_inv p \<Longrightarrow> port_inv p' \<and> no_new_role p p'"
  by (simp add: good_step_def follow_step_def port_inv_def)

lemma good_step_refl [simp]: "good_step p p"
  by (simp add: good_step_def)

lemma good_step_trans: "good_step p q \<Longrightarrow> good_step q r \<Longrightarrow> good_step p r"
  unfolding good_step_def using follow_step_trans by blast

lemma good_step_same:
  "port_inv p' = port_inv p \<Longrightarrow> masters_ok p' = masters_ok p \<Longrightarrow> state p' = state p \<Longrightarrow> best p' = best p
    \<Longrightarrow> slave_fsm p' = slave_fsm p \<Longrightarrow> good_step p p'"
  by (simp add: good_step_def follow_step_def no_new_role_same)

lemma good_step_control:
  assumes "masters_ok p \<Longrightarrow> masters_ok p' \<and> same_control p p'"
  shows "good_step p p'"
  using assms by (auto simp: good_step_def follow_step_def port_inv_def same_control_def intro: no_new_role_same)

lemma good_step_keeps:
  assumes "good_step p q" "port_inv q' = port_inv q" "masters_ok q' = masters_ok q" "state q' = state q"
    "best q' = best q" "slave_fsm q' = slave_fsm q"
  shows "good_step p q'"
  using good_step_trans [OF assms(1) good_step_same [OF assms(2-6)]] .

text \<open>
  Each operation of a handler extends a good step; as conditional rewrite rules these carry
  the handlers below.
\<close>

named_theorems good_steps

lemma good_dispatch [good_steps]:
  assumes "good_step p q" "\<not> recommendation event" "event \<noteq> EV_INIT_COMPLETE"
  shows "good_step p (bc_dispatch e q event d)"
proof (rule good_step_trans [OF assms(1)])
  show "good_step q (bc_dispatch e q event d)"
    using bc_dispatch_inv(1) [of q event e d] bc_dispatch_no_new_role [of q event e d] bc_dispatch_mem(1) [of q e event d]
      assms(2,3) by (simp add: good_step_def follow_step_def)
qed

lemma good_tmo [good_steps]:
  assumes "good_step p q"
  shows "good_step p (port_set_announce_tmo e q)" "good_step p (port_set_delay_tmo e q)"
    "good_step p (port_set_sync_rx_tmo q)" "good_step p (setSyncTxTmo q)" "good_step p (setMannoTmo q)"
    "good_step p (flush_last_sync q)" "good_step p (flush_delay_req q)"
    "good_step p (keep_syncfup m s q)" "good_step p (put_syncfup q)"
  by (rule good_step_keeps [OF assms]; simp add: port_inv_def setMannoTmo_def masters_ok_def)
     (rule good_step_keeps [OF assms]; simp add: keep_syncfup_def put_syncfup_def port_inv_def
        masters_ok_def resources_are_def)+

lemma good_fields [good_steps]:
  assumes "good_step p q"
  shows "good_step p (q\<lparr>refs := r\<rparr>)"
    "good_step p (q\<lparr>refs := r, peer_delay_req := x\<rparr>)"
    "good_step p (q\<lparr>syfu := s\<rparr>)"
    "good_step p (q\<lparr>log_sync_interval := n\<rparr>)"
    "good_step p (q\<lparr>logMinDelayReqInterval := l\<rparr>)"
    "good_step p (q\<lparr>delay_req := d, refs := r\<rparr>)"
  by (rule good_step_keeps [OF assms]; simp add: masters_ok_def)+

lemma not_recommended [simp]:
  "\<not> recommendation EV_SYNCHRONIZATION_FAULT" "\<not> recommendation EV_MASTER_CLOCK_SELECTED"
  "\<not> recommendation EV_FAULT_DETECTED" "\<not> recommendation EV_FAULT_CLEARED" "\<not> recommendation EV_NONE"
  by (simp_all add: recommendation_def)

lemma good_portSynchronize [good_steps]:
  assumes "good_step p q"
  shows "good_step p (fst (portSynchronize e q t ots k1 k2))"
  using assms by (cases "servo_answer e") (simp_all add: portSynchronize_def Let_def good_steps)

lemma good_port_syfufsm [good_steps]:
  assumes "good_step p q"
  shows "good_step p (fst (port_syfufsm e q event m))"
  using assms by (cases "syfu q"; cases event) (simp_all add: port_syfufsm_def Let_def split_beta good_steps)

lemma good_portMsgProSync [good_steps]:
  assumes "good_step p q"
  shows "good_step p (fst (portMsgProSync e ats c q m))"
  using assms by (simp add: portMsgProSync_def Let_def split_beta good_steps)

lemma good_portMsgProFollowUp [good_steps]:
  assumes "good_step p q"
  shows "good_step p (fst (snd (portMsgProFollowUp e c q m)))"
  using assms by (simp add: portMsgProFollowUp_def Let_def split_beta good_steps)

lemma good_portMsgProDelayResp [good_steps]:
  assumes "good_step p q"
  shows "good_step p (fst (portMsgProDelayResp e c q m))"
  using assms by (simp add: portMsgProDelayResp_def Let_def good_steps split: option.split)

lemma good_same_core [good_steps]:
  assumes "good_step p q"
  shows "good_step p (q\<lparr>seq_announce := n\<rparr>)" "good_step p (q\<lparr>seq_sync := n\<rparr>)"
    "good_step p (q\<lparr>seq_delayreq := n\<rparr>)" "good_step p (q\<lparr>pdr_missing := w\<rparr>)"
    "good_step p (q\<lparr>multiple_seq_pdr_count := w\<rparr>)" "good_step p (q\<lparr>multiple_pdr_detected := w\<rparr>)"
    "good_step p (q\<lparr>link_up := b\<rparr>)" "good_step p (q\<lparr>asCapable := b\<rparr>)"
    "good_step p (q\<lparr>peer_delay_req := m, refs := r\<rparr>)"
    "good_step p (q\<lparr>refs := r, peer_delay_resp := m\<rparr>)" "good_step p (q\<lparr>refs := r, peer_delay_fup := m\<rparr>)"
    "good_step p (port_nrate_initialize e q)"
  using core_eqD [OF core_nrate, of e q]
  by - (rule good_step_keeps [OF assms]; simp add: port_inv_def masters_ok_def resources_are_def)+

lemma good_port_capable [good_steps]:
  assumes "good_step p q"
  shows "good_step p (fst (port_capable e q))"
  using assms by (simp add: port_capable_def good_steps)

lemma good_put_pending [good_steps]:
  "good_step p q \<Longrightarrow> good_step p (put_pending q)"
  by (rule good_step_keeps) (simp_all add: put_pending_def Let_def port_inv_def masters_ok_def resources_are_def)

lemma good_prune [good_steps]:
  "good_step p q \<Longrightarrow> good_step p (delay_req_prune e q)"
  by (simp add: delay_req_prune_def Let_def split_beta good_steps)

subsection \<open>Transmissions\<close>

lemma good_port_tx_announce [good_steps]:
  "good_step p q \<Longrightarrow> good_step p (fst (port_tx_announce e c q dst))"
  by (simp add: port_tx_announce_eq Let_def split_beta good_steps split: list.split option.split)

lemma good_port_tx_sync [good_steps]:
  "good_step p q \<Longrightarrow> good_step p (fst (port_tx_sync e c q dst))"
  by (simp add: port_tx_sync_eq Let_def split_beta good_steps split: list.split option.split)

lemma good_port_pdelay_request [good_steps]:
  assumes "good_step p q"
  shows "good_step p (fst (port_pdelay_request e c q))"
proof -
  have g: "good_step p (pdr_prepared q)" "good_step p (pdr_counted q)"
    using assms by (simp_all add: pdr_prepared_def pdr_counted_def Let_def good_steps)
  then have "good_step p (fst (port_capable e (pdr_counted q)))" by (simp add: good_steps)
  with g(2) have r: "good_step p (pdr_replaced e q)"
    by (simp add: pdr_replaced_def Let_def split_beta good_steps split: option.split)
  from pdelay_request_cases [of e c q] g good_same_core(9) [OF r] show ?thesis by metis
qed

lemma good_port_delay_request:
  assumes "good_step p q" "port_delay_request e c q = Some (q', sent, err)"
  shows "good_step p q'"
proof -
  have g: "good_step p (put_pending q)" using assms(1) by (simp add: good_steps)
  show ?thesis
  proof (cases "delayMechanism (put_pending q) = DM_P2P")
    case True
    then have "q' = fst (port_pdelay_request e c (put_pending q))"
      using assms(2) by (simp add: port_delay_request_eq Let_def)
    then show ?thesis using g by (simp add: good_steps)
  next
    case False
    then show ?thesis
      using assms(2) g
      by (auto simp: port_delay_request_eq Let_def good_steps split: list.splits option.splits if_splits)
  qed
qed

subsection \<open>Announce messages and the receipt timeout\<close>

lemma good_portMsgProAnnounce:
  assumes "good_step p q" "portMsgProAnnounce e c q m = Some (c', q', r)"
  shows "good_step p q'"
  using good_step_trans [OF assms(1) good_step_control] portMsgProAnnounce_keeps [OF _ assms(2)] by blast

lemma portMsgProAnnounce_total:
  assumes "masters_ok p" "needs_best (state p) \<longrightarrow> best p \<noteq> None"
  shows "portMsgProAnnounce e c p m \<noteq> None"
  using assms updateCurrentMaster_total [of p _ e c m]
  by (cases "state p") (auto simp: portMsgProAnnounce_def needs_best_def synchronizing_def split_beta)

lemma good_clear_best [good_steps]:
  assumes "good_step p q"
  shows "good_step p (clear_best q)"
proof (rule good_step_trans [OF assms], cases "best q")
  case (Some b)
  show "good_step q (clear_best q)"
  proof (cases "find_master b (foreign_masters q)")
    case None
    then show ?thesis using Some by (simp add: clear_best_def)
  next
    case (Some fc)
    note f = find_master_Some [OF this]
    show ?thesis
    proof (rule good_step_control)
      assume m: "masters_ok q"
      then have "fc_wf fc" using f(1) by (simp add: masters_ok_def)
      then have "fc_wf (fst (fc_clear fc (refs q)))" "fc_dataset (fst (fc_clear fc (refs q))) = fc_dataset fc"
        using fc_clear_wf(3) [of fc "refs q"] by (simp, simp add: fc_clear_wf(1))
      with replace_masters_ok [OF m this(1)] Some \<open>best q = Some b\<close> f(2)
      show "masters_ok (clear_best q) \<and> same_control q (clear_best q)"
        by (simp add: clear_best_def split_beta Let_def same_control_def replace_master_senders)
    qed
  qed
qed (simp add: clear_best_def)

text \<open>
  The transport is renewed in place; when that fails the sockets are closed and the port
  faults. From an enabled port the fault closes everything, so whether the sockets were open
  makes no difference.
\<close>

lemma portOpDisable_open [simp]: "portOpDisable (p\<lparr>trp_open := b\<rparr>) = portOpDisable p"
  by (simp add: portOpDisable_def Let_def flush_ops)

lemma open_commutes:
  "clr_tmo fd (p\<lparr>trp_open := b\<rparr>) = (clr_tmo fd p)\<lparr>trp_open := b\<rparr>"
  "p\<lparr>trp_open := b, state := s, unicast_table := t\<rparr> = p\<lparr>state := s, unicast_table := t, trp_open := b\<rparr>"
  by (simp_all add: clr_tmo_def settime_def)

lemma fault_transition_open:
  "e2eTransition e (p\<lparr>trp_open := b\<rparr>) PS_FAULTY = e2eTransition e p PS_FAULTY"
  "p2pTransition e (p\<lparr>trp_open := b\<rparr>) PS_FAULTY = p2pTransition e p PS_FAULTY"
  by (simp_all add: e2eTransition_def p2pTransition_def Let_def open_commutes(1))

lemma fault_dispatch_open:
  assumes "portIsEnabled (state p)" "slave_fsm p \<longrightarrow> \<not> master_role (state p)"
  shows "dispatch_state e (p\<lparr>trp_open := b\<rparr>) EV_FAULT_DETECTED d = dispatch_state e p EV_FAULT_DETECTED d"
proof -
  have u: "update_next (p\<lparr>trp_open := b\<rparr>) EV_FAULT_DETECTED d = update_next p EV_FAULT_DETECTED d"
    by (simp add: update_next_def state_machine_def fault_interval_of_def)
  have f: "state p \<noteq> PS_FAULTY" using assms(1) by (auto simp: portIsEnabled_def)
  from fault_next [OF assms, of d] show ?thesis
  proof
    assume n: "update_next p EV_FAULT_DETECTED d = PS_FAULTY"
    show ?thesis
      using f by (simp add: dispatch_state_def portStateUpdate_eq u n finish_update_def open_commutes(2)
          fault_transition_open)
  next
    assume n: "update_next p EV_FAULT_DETECTED d = PS_INITIALIZING"
    show ?thesis
      using assms(1) by (simp add: dispatch_state_def portStateUpdate_eq u n)
  qed
qed

lemma fault_bc_dispatch_open:
  assumes "portIsEnabled (state p)" "slave_fsm p \<longrightarrow> \<not> master_role (state p)"
  shows "bc_dispatch e (p\<lparr>trp_open := b\<rparr>) EV_FAULT_DETECTED d = bc_dispatch e p EV_FAULT_DETECTED d"
  by (simp add: bc_dispatch_def fault_dispatch_open [OF assms])

subsection \<open>The event function\<close>

text \<open>
  What an event leaves behind: a good step, or sockets that are closed together with a fault
  event. The dispatch of the reported event makes a good step of either.
\<close>

definition kept_step :: "'d PtpPort \<Rightarrow> 'd PtpPort \<Rightarrow> bool" where
  "kept_step p p' \<longleftrightarrow> (port_inv p \<longrightarrow> port_inv p' \<and> no_new_role p p')"

lemma good_kept: "good_step p q \<Longrightarrow> kept_step p q"
  by (simp add: kept_step_def good_stepD)

lemma kept_dispatch:
  assumes "kept_step p q" "\<not> recommendation event" "event \<noteq> EV_INIT_COMPLETE"
  shows "kept_step p (bc_dispatch e q event d)"
  using assms(1) good_kept [OF good_dispatch [OF good_step_refl assms(2,3)], of q e d] no_new_role_trans
  unfolding kept_step_def by blast

definition good_result :: "'d PtpPort \<Rightarrow> 'd PtpPort \<Rightarrow> PORT_EVENT \<Rightarrow> bool" where
  "good_result p q event \<longleftrightarrow> \<not> recommendation event \<and> event \<noteq> EV_INIT_COMPLETE
    \<and> (kept_step p q \<or> event = EV_FAULT_DETECTED \<and> portIsEnabled (state q)
         \<and> (\<exists>b. kept_step p (q\<lparr>trp_open := b\<rparr>)))"

lemma good_result_dispatch:
  assumes "good_result p q event"
  shows "kept_step p (bc_dispatch e q event d)"
proof (cases "kept_step p q")
  case True
  then show ?thesis using assms by (simp add: good_result_def kept_dispatch)
next
  case False
  then obtain b where b: "event = EV_FAULT_DETECTED" "portIsEnabled (state q)" "kept_step p (q\<lparr>trp_open := b\<rparr>)"
    using assms by (auto simp: good_result_def)
  have "kept_step p (bc_dispatch e (q\<lparr>trp_open := b\<rparr>) EV_FAULT_DETECTED d)"
    using b(3) by (rule kept_dispatch) simp_all
  moreover have "bc_dispatch e (q\<lparr>trp_open := b\<rparr>) EV_FAULT_DETECTED d = bc_dispatch e q EV_FAULT_DETECTED d"
    if "port_inv p"
  proof (rule fault_bc_dispatch_open [OF b(2)])
    have "port_inv (q\<lparr>trp_open := b\<rparr>)" using b(3) that by (simp add: kept_step_def)
    then show "slave_fsm q \<longrightarrow> \<not> master_role (state q)" by (simp add: port_inv_def)
  qed
  ultimately show ?thesis using b(1) by (simp add: kept_step_def)
qed

lemma good_resultI:
  "good_step p q \<Longrightarrow> \<not> recommendation event \<Longrightarrow> event \<noteq> EV_INIT_COMPLETE \<Longrightarrow> good_result p q event"
  by (simp add: good_result_def good_kept)

lemma good_fault_type [good_steps]:
  "good_step p q \<Longrightarrow> good_step p (q\<lparr>last_fault_type := f\<rparr>)"
  by (rule good_step_keeps) (simp_all add: masters_ok_def)

lemma plain_events [simp]:
  "\<not> recommendation EV_ANNOUNCE_RECEIPT_TIMEOUT_EXPIRES" "\<not> recommendation EV_QUALIFICATION_TIMEOUT_EXPIRES"
  "\<not> recommendation EV_STATE_DECISION_EVENT" "\<not> recommendation EV_INITIALIZE"
  by (simp_all add: recommendation_def)

lemma open_idem: "q\<lparr>trp_open := a, trp_open := b\<rparr> = q\<lparr>trp_open := b\<rparr>" by simp

lemma good_receipt_timeout:
  assumes "good_step p q"
  shows "good_result p (fst (receipt_timeout e c q)) (snd (receipt_timeout e c q))"
proof -
  define q1 where "q1 = delay_req_prune e (port_set_announce_tmo e (clear_best q))"
  have g: "good_step p q1" unfolding q1_def using assms by (simp add: good_steps)
  have r: "receipt_timeout e c q = (if dds_slave_only c \<and> delayMechanism q1 \<noteq> DM_P2P
        then (let (p, err) = renewTransport e q1
              in (p, if err then EV_FAULT_DETECTED else EV_ANNOUNCE_RECEIPT_TIMEOUT_EXPIRES))
        else (q1, EV_ANNOUNCE_RECEIPT_TIMEOUT_EXPIRES))"
    by (simp only: receipt_timeout_def Let_def q1_def)
  have o: "kept_step p (q1\<lparr>trp_open := True\<rparr>)" if "portIsEnabled (state q1)"
  proof -
    have "port_inv q1 \<Longrightarrow> q1\<lparr>trp_open := True\<rparr> = q1"
      using that by (simp add: port_inv_def resources_are_def)
    then show ?thesis using g by (simp add: good_step_def follow_step_def kept_step_def port_inv_def)
  qed
  show ?thesis
  proof (cases "dds_slave_only c \<and> delayMechanism q1 \<noteq> DM_P2P \<and> portIsEnabled (state q1)")
    case False
    then have "receipt_timeout e c q = (q1, EV_ANNOUNCE_RECEIPT_TIMEOUT_EXPIRES)"
      unfolding r by (auto simp: renewTransport_def)
    then show ?thesis using g by (simp add: good_resultI)
  next
    case True
    then have q: "receipt_timeout e c q = (q1\<lparr>trp_open := transport_ok e\<rparr>,
        if transport_ok e then EV_ANNOUNCE_RECEIPT_TIMEOUT_EXPIRES else EV_FAULT_DETECTED)"
      unfolding r by (simp add: renewTransport_def)
    have "\<exists>b. kept_step p (q1\<lparr>trp_open := False, trp_open := b\<rparr>)"
      using o True by (intro exI [of _ True]) (simp only: open_idem)
    then show ?thesis using o True by (cases "transport_ok e") (simp_all add: q good_result_def)
  qed
qed

lemma good_portIgnore [good_steps]:
  "good_step p q \<Longrightarrow> good_step p (fst (portIgnore e c q m))"
  by (simp add: portIgnore_def incapableIgnore_def Let_def split_beta good_steps)

lemma good_port_link_status [good_steps]:
  "good_step p q \<Longrightarrow> good_step p (fst (port_link_status e q up label info))"
  by (cases info) (simp_all add: port_link_status_def link_status_by_def Let_def good_steps)

lemma good_link_event:
  assumes "good_step p q"
  shows "good_result p (r_port (link_event e c q up label info)) (r_event (link_event e c q up label info))"
proof (rule good_resultI)
  show "good_step p (r_port (link_event e c q up label info))"
    using good_port_link_status [OF assms, of e up label info] by (simp add: link_event_def link_outcome_def Let_def split_beta)
qed (simp_all add: link_event_def link_outcome_def Let_def split_beta)

lemma good_timer_event:
  assumes "good_step p q" "timer_event e c q fd = Some res"
  shows "good_result p (r_port res) (r_event res)"
proof -
  note g = good_steps
  consider "fd = FD_ANNOUNCE_TIMER \<or> fd = FD_SYNC_RX_TIMER" | "fd = FD_DELAY_TIMER"
    | "fd \<noteq> FD_ANNOUNCE_TIMER \<and> fd \<noteq> FD_SYNC_RX_TIMER \<and> fd \<noteq> FD_DELAY_TIMER" by blast
  then show ?thesis
  proof cases
    case 1
    then show ?thesis
      using assms(2) good_receipt_timeout [OF assms(1), of e c] by (auto simp: timer_event_def split_beta)
  next
    case 2
    have "good_step p (delay_req_prune e (port_set_delay_tmo e q))" using assms(1) by (simp add: g)
    note good_port_delay_request [OF this]
    then show ?thesis
      using assms(2) 2 by (auto simp: timer_event_def Let_def intro!: good_resultI split: option.splits if_splits)
  next
    case 3
    show ?thesis
    proof (rule good_resultI)
      show "good_step p (r_port res)"
        using assms 3 by (cases fd; elim conjE; simp add: timer_event_def split_beta Let_def; hypsubst?; simp add: good_steps)
      have "r_event res \<in> {EV_NONE, EV_FAULT_DETECTED, EV_QUALIFICATION_TIMEOUT_EXPIRES}"
        using assms(2) 3 by (cases fd; elim conjE; simp add: timer_event_def split_beta Let_def; hypsubst?; simp)
      then show "\<not> recommendation (r_event res)" "r_event res \<noteq> EV_INIT_COMPLETE" by auto
    qed
  qed
qed

lemma good_delay_mechanism [good_steps]:
  assumes "good_step p q"
  shows "good_step p (q\<lparr>delayMechanism := x\<rparr>)" "good_step p (q\<lparr>peer_portid_valid := b\<rparr>)"
    "good_step p (q\<lparr>peer_portid_valid := b, peer_portid := i\<rparr>)"
    "good_step p (q\<lparr>refs := r, peer_delay_resp := m\<rparr>)" "good_step p (q\<lparr>refs := r, peer_delay_fup := m\<rparr>)"
    "good_step p (q\<lparr>p_tsproc := tsp\<rparr>)"
    "good_step p (q\<lparr>p_tsproc := tsp, peer_delay := t, peerMeanPathDelay := u\<rparr>)"
    "good_step p (q\<lparr>nr_ingress1 := t, nr_origin1 := t'\<rparr>)" "good_step p (q\<lparr>nr_count := n\<rparr>)"
    "good_step p (q\<lparr>nr_ratio := d, nr_ingress1 := t, nr_origin1 := t', nr_count := n, nr_ratio_valid := b\<rparr>)"
    "good_step p (q\<lparr>multiple_pdr_detected := n, multiple_seq_pdr_count := n'\<rparr>)"
  by (rule good_step_keeps [OF assms]; simp add: port_inv_def masters_ok_def resources_are_def)+

lemma good_check_peer [good_steps]: "good_step p q \<Longrightarrow> good_step p (check_peer e q m)"
  by (simp add: check_peer_def good_steps)

lemma good_portMsgProDelayReq [good_steps]:
  "good_step p q \<Longrightarrow> good_step p (fst (portMsgProDelayReq e c q m))"
  by (simp add: portMsgProDelayReq_eq Let_def split_beta good_steps split: list.split option.split)

lemma good_portMsgProPDelayReq [good_steps]:
  assumes "good_step p q"
  shows "good_step p (fst (portMsgProPDelayReq e q m))"
proof -
  define q1 where "q1 = check_peer e (if delayMechanism q = DM_AUTO
    then port_set_delay_tmo e (q\<lparr>delayMechanism := DM_P2P\<rparr>) else q) m"
  have "good_step p q1" unfolding q1_def using assms by (simp add: good_steps)
  moreover have "fst (portMsgProPDelayReq e q m) = q \<or> fst (portMsgProPDelayReq e q m) = q1"
    unfolding portMsgProPDelayReq_eq Let_def q1_def [symmetric] by (auto split: list.split option.split)
  ultimately show ?thesis using assms by metis
qed

lemma good_port_nrate_calculate [good_steps]:
  "good_step p q \<Longrightarrow> good_step p (port_nrate_calculate e q origin ingress)"
  by (simp add: port_nrate_calculate_def Let_def good_steps)

lemma good_peer_delay_calc [good_steps]:
  "good_step p q \<Longrightarrow> good_step p (fst (peer_delay_calc e q req ts2 ts3c ts4))"
  by (simp add: peer_delay_calc_def Let_def good_steps split: option.split)

lemma good_port_peer_delay [good_steps]:
  "good_step p q \<Longrightarrow> good_step p (fst (port_peer_delay e ats q req))"
  by (simp add: port_peer_delay_def Let_def good_steps split: option.split)

lemma good_count_responder [good_steps]:
  "good_step p q \<Longrightarrow> good_step p (fst (count_responder q m))"
  by (simp add: count_responder_def Let_def good_steps split: option.split)

lemma good_portMsgProPDelayResp [good_steps]:
  assumes "good_step p q"
  shows "good_step p (fst (portMsgProPDelayResp e ats q m))"
proof -
  have "good_step p (fst (count_responder q m))" using assms by (rule good_steps)
  then show ?thesis
    by (simp add: portMsgProPDelayResp_def Let_def split_beta good_steps split: option.split)
qed

lemma good_portMsgProPDelayRespFollowUp [good_steps]:
  "good_step p q \<Longrightarrow> good_step p (fst (portMsgProPDelayRespFollowUp e ats q m))"
  by (simp add: portMsgProPDelayRespFollowUp_def Let_def good_steps split: option.split)

lemma good_handle_message:
  assumes "good_step p q" "handle_message e ats c q m = Some res"
  shows "good_step p (r_port res)" "\<not> recommendation (r_event res)" "r_event res \<noteq> EV_INIT_COMPLETE"
proof -
  have a: "portMsgProAnnounce e c q m = Some (c', q', r) \<Longrightarrow> good_step p q'" for c' q' r
    by (rule good_portMsgProAnnounce [OF assms(1)])
  show "good_step p (r_port res)"
    using assms unfolding handle_message_def
    by (auto simp: split_beta good_steps dest!: a split: if_split_asm option.split_asm)
  have "r_event res \<in> {EV_NONE, EV_STATE_DECISION_EVENT, EV_FAULT_DETECTED}"
    using assms(2) unfolding handle_message_def by (auto simp: split_beta split: if_split_asm option.split_asm)
  then show "\<not> recommendation (r_event res)" "r_event res \<noteq> EV_INIT_COMPLETE" by auto
qed

lemma good_message_event:
  assumes "good_step p q" "message_event e ats c q m = Some res"
  shows "good_result p (r_port res) (r_event res)"
proof -
  obtain q1 ig where i: "portIgnore e c q m = (q1, ig)" by (cases "portIgnore e c q m")
  have g: "good_step p q1" using good_portIgnore [OF assms(1), of e c m] by (simp add: i)
  show ?thesis
  proof (cases "ig \<or> msg_sots_missing m \<and> \<not> (timestamping q1 = TS_P2P1STEP \<and> msg_type m = PDELAY_REQ)")
    case True
    then have "res = outcome c q1 EV_NONE [] []"
      using assms(2) unfolding message_event_def i by simp
    then show ?thesis using g by (simp add: good_resultI)
  next
    case False
    let ?q = "q1\<lparr>refs := msg_get m (refs q1)\<rparr>"
    have q: "good_step p ?q" using g by (rule good_steps)
    obtain m' checks where m': "stamp_received ?q m = (m', checks)" by fastforce
    from assms(2) obtain res' where r: "handle_message e ats c ?q m' = Some res'"
      and res: "res = res'\<lparr>r_port := (r_port res')\<lparr>refs := msg_put m (refs (r_port res'))\<rparr>,
             r_calls := checks @ r_calls res'\<rparr>"
      unfolding message_event_def i Let_def prod.case if_not_P [OF False] m' by blast
    from good_handle_message [OF q r] show ?thesis
      unfolding res by (intro good_resultI) (simp_all add: good_steps)
  qed
qed

lemma good_bc_event:
  assumes "bc_event e ats c q inp = Some res"
  shows "good_result q (r_port res) (r_event res)"
  using assms good_timer_event [of q q e c _ res] good_message_event [of q q e ats c _ res]
    good_link_event [of q q e c]
  by (cases inp) (auto simp: bc_event_def good_resultI)

end
