(* ===== verification/StateDecision.thy ===== *)
theory StateDecision
  imports PortRole PortCreate
begin

text \<open>
  The clock with its ports: the state decision over all ports
  (\<open>handle_state_decision_event\<close> of src/ptpClockPoll.c) and the steps of \<open>clock_poll\<close>, one
  ready descriptor at a time. The step relation lets the steps happen in any order, which
  includes the order of the loop in the code.
\<close>

subsection \<open>The clock\<close>

text \<open>
  \<open>c_best\<close> points to a foreign master record: the index of its port and its sender. A pointer
  whose record is gone is dangling; using it is the outcome \<^const>\<open>None\<close> of an operation.
\<close>

record 'd PtpClock =
  cdata :: ClockData
  ports :: "'d PtpPort list"
  c_dscmp :: "dataset option \<Rightarrow> dataset option \<Rightarrow> int"
  c_best :: "(nat \<times> PortIdentity) option"
  best_id :: ClockIdentity
  sde :: bool
  c_tsproc :: "'d TimestampProcess"
  fest_origin1 :: tmv_t
  fest_ingress1 :: tmv_t
  fest_count :: u32
  initial_delay :: tmv_t
  ingress_ts :: tmv_t
  path_delay :: tmv_t
  nrr :: 'd

text \<open>The answers of the system with what dispatch reads of the clock.\<close>

definition with_clock :: "ClockData \<Rightarrow> 'd env \<Rightarrow> 'd env" where
  "with_clock d e = e\<lparr>c_parent := pds_parentPortIdentity d, c_steps_removed := cur_stepsRemoved d\<rparr>"

definition clock_freq_est_reset :: "'d PtpClock \<Rightarrow> 'd PtpClock" where
  "clock_freq_est_reset c = c\<lparr>fest_origin1 := tmv_zero, fest_ingress1 := tmv_zero, fest_count := 0\<rparr>"

subsection \<open>The state decision\<close>

text \<open>The first loop: every port computes its best master, and the best of these is kept.\<close>

fun compute_all :: "(nat \<Rightarrow> 'd env) \<Rightarrow> (dataset option \<Rightarrow> dataset option \<Rightarrow> int) \<Rightarrow> nat \<Rightarrow> 'd PtpPort list
    \<Rightarrow> (nat \<times> dataset) option \<Rightarrow> 'd PtpPort list \<times> (nat \<times> dataset) option" where
  "compute_all es compare i [] b = ([], b)"
| "compute_all es compare i (p # ps) b =
    (let (p, fc) = port_compute_best (es i) compare p;
         b = (case fc of
                None \<Rightarrow> b
              | Some d \<Rightarrow> (case b of
                    None \<Rightarrow> Some (i, d)
                  | Some (j, x) \<Rightarrow> if compare (Some d) (Some x) > 0 then Some (i, d) else b));
         (ps, b) = compute_all es compare (i + 1) ps b
     in (p # ps, b))"

text \<open>The record a pointer \<open>c->best\<close> designates; the inner \<^const>\<open>None\<close> is a null pointer.\<close>

definition best_record :: "'d PtpClock \<Rightarrow> foreign_clock option option" where
  "best_record c = (case c_best c of
      None \<Rightarrow> Some None
    | Some (i, s) \<Rightarrow> (if i < length (ports c)
        then map_option Some (find_master s (foreign_masters (ports c ! i))) else None))"

text \<open>The reset of the clock when its best master is another one than before.\<close>

definition reset_for_master :: "'d double_ops \<Rightarrow> 'd PtpClock \<Rightarrow> 'd PtpClock" where
  "reset_for_master fp c =
    (let c = clock_freq_est_reset c;
         c = c\<lparr>c_tsproc := tsproc_reset fp (c_tsproc c) True\<rparr>;
         c = (if \<not> tmv_is_zero (initial_delay c)
              then c\<lparr>c_tsproc := tsproc_set_delay (c_tsproc c) (initial_delay c)\<rparr> else c)
     in c\<lparr>ingress_ts := tmv_zero, path_delay := initial_delay c, nrr := d_one fp\<rparr>)"

definition decision_event :: "PORT_STATE \<Rightarrow> PORT_EVENT" where
  "decision_event ps = (case ps of
      PS_LISTENING \<Rightarrow> EV_NONE
    | PS_GRAND_MASTER \<Rightarrow> EV_RS_GRAND_MASTER
    | PS_MASTER \<Rightarrow> EV_RS_MASTER
    | PS_PASSIVE \<Rightarrow> EV_RS_PASSIVE
    | PS_SLAVE \<Rightarrow> EV_RS_SLAVE
    | _ \<Rightarrow> EV_FAULT_DETECTED)"

text \<open>The body of the second loop, for port \<open>i\<close>.\<close>

definition decide_port :: "(nat \<Rightarrow> 'd env) \<Rightarrow> bool \<Rightarrow> nat \<Rightarrow> 'd PtpClock \<Rightarrow> 'd PtpClock option" where
  "decide_port es fresh_best i c =
    (case best_record c of
       None \<Rightarrow> None
     | Some b \<Rightarrow>
        (let p = ports c ! i;
             ps = bmc_state_decision (c_dscmp c) (clock_default_ds (cdata c)) (clock_class (cdata c))
                    (map_option fc_dataset b) (map_option fst (c_best c) = Some i) (best_foreign_ds p) (state p);
             d = (if ps = PS_GRAND_MASTER then Some (clock_update_grandmaster (cdata c))
                  else if ps = PS_SLAVE then
                    (case b of
                       None \<Rightarrow> None
                     | Some fc \<Rightarrow> (case messages fc of
                         [] \<Rightarrow> None
                       | m # _ \<Rightarrow> Some (clock_update_slave (fc_dataset fc) m (cdata c))))
                  else Some (cdata c))
         in case d of
              None \<Rightarrow> None
            | Some d \<Rightarrow>
                Some (c\<lparr>cdata := d,
                  ports := (ports c)[i := bc_dispatch (with_clock d (es i)) p (decision_event ps) fresh_best]\<rparr>)))"

fun decide_ports :: "(nat \<Rightarrow> 'd env) \<Rightarrow> bool \<Rightarrow> nat list \<Rightarrow> 'd PtpClock \<Rightarrow> 'd PtpClock option" where
  "decide_ports es fresh_best [] c = Some c"
| "decide_ports es fresh_best (i # is) c =
    (case decide_port es fresh_best i c of
       None \<Rightarrow> None
     | Some c \<Rightarrow> decide_ports es fresh_best is c)"

definition handle_state_decision_event :: "'d double_ops \<Rightarrow> (nat \<Rightarrow> 'd env) \<Rightarrow> 'd PtpClock \<Rightarrow> 'd PtpClock option" where
  "handle_state_decision_event fp es c =
    (let (ps, b) = compute_all es (c_dscmp c) 0 (ports c) None;
         c = c\<lparr>ports := ps\<rparr>;
         bid = (case b of Some (i, d) \<Rightarrow> identity d | None \<Rightarrow> dds_clockIdentity (cdata c));
         fresh_best = (\<not> cid_eq bid (best_id c));
         c = (if fresh_best then reset_for_master fp c else c);
         c = c\<lparr>c_best := map_option (\<lambda>(i, d). (i, sender d)) b, best_id := bid\<rparr>
     in decide_ports es fresh_best [0..<length ps] c)"

subsection \<open>Polling\<close>

text \<open>
  One ready descriptor of port \<open>i\<close>, as the loop of \<open>clock_poll\<close> handles it. The fault timer
  that a faulty port gets is not part of the port's own timers.
\<close>

definition poll_input :: "(nat \<Rightarrow> 'd env) \<Rightarrow> bool \<Rightarrow> nat \<Rightarrow> port_input \<Rightarrow> 'd PtpClock \<Rightarrow> 'd PtpClock option" where
  "poll_input es ats i inp c =
    (let e = with_clock (cdata c) (es i) in
     case bc_event e ats (cdata c) (ports c ! i) inp of
       None \<Rightarrow> None
     | Some res \<Rightarrow>
        Some (c\<lparr>cdata := r_data res,
          sde := sde c \<or> r_event res = EV_STATE_DECISION_EVENT
            \<or> r_event res = EV_ANNOUNCE_RECEIPT_TIMEOUT_EXPIRES \<or> r_sde res,
          ports := (ports c)[i := bc_dispatch (with_clock (r_data res) (es i)) (r_port res) (r_event res) False]\<rparr>))"

text \<open>The expiry of the fault timer clears the fault when the link is up.\<close>

definition poll_fault_timer :: "(nat \<Rightarrow> 'd env) \<Rightarrow> nat \<Rightarrow> 'd PtpClock \<Rightarrow> 'd PtpClock" where
  "poll_fault_timer es i c =
    (if link_up (ports c ! i)
     then c\<lparr>ports := (ports c)[i := bc_dispatch (with_clock (cdata c) (es i)) (ports c ! i) EV_FAULT_CLEARED False]\<rparr>
     else c)"

definition poll_decide :: "'d double_ops \<Rightarrow> (nat \<Rightarrow> 'd env) \<Rightarrow> 'd PtpClock \<Rightarrow> 'd PtpClock option" where
  "poll_decide fp es c =
    (if sde c then map_option (\<lambda>c. c\<lparr>sde := False\<rparr>) (handle_state_decision_event fp es c) else Some c)"

end
