(* ===== verification/ClockSafety.thy ===== *)
theory ClockSafety
  imports StateDecision
begin

text \<open>
  The clock with its ports as a transition system: every reachable state satisfies an
  invariant from which follow that at most one port is synchronizing, that no port of a slave
  only clock is a master, that the resources of a port are open exactly while it is enabled,
  and that neither the state decision nor the event handlers use a pointer to a foreign master
  record that is missing. The decision is proved against the contract of the data set comparison
  (locale \<open>dataset_compare\<close>), which both comparisons of the code meet.
\<close>

subsection \<open>The decision on one port\<close>

lemma decision_next:
  assumes "event \<in> {EV_NONE, EV_RS_MASTER, EV_RS_GRAND_MASTER, EV_RS_SLAVE, EV_RS_PASSIVE}"
  shows "update_next p event d = state p \<or> portIsEnabled (state p) \<and> portIsEnabled (update_next p event d)
    \<or> \<not> portIsEnabled (state p) \<and> update_next p event d = PS_INITIALIZING"
  using assms by (cases "state p") (auto simp: update_next_def state_machine_def fsm_defs Let_def)

lemma dispatch_keeps_masters:
  assumes "event \<in> {EV_NONE, EV_RS_MASTER, EV_RS_GRAND_MASTER, EV_RS_SLAVE, EV_RS_PASSIVE}" "switch_phc_ok e" "state p \<noteq> PS_INITIALIZING"
  shows "foreign_masters (bc_dispatch e p event d) = foreign_masters p"
    "best (bc_dispatch e p event d) = best p"
    "slave_fsm (bc_dispatch e p event d) = slave_fsm p"
    "state (bc_dispatch e p event d) = update_next p event d \<or> \<not> needs_best (state (bc_dispatch e p event d))"
proof -
  obtain p' changed where u: "portStateUpdate e p event d = (p', changed)"
    by (cases "portStateUpdate e p event d")
  have b: "bc_dispatch e p event d = (if changed then (if delayMechanism p' = DM_P2P then p2pTransition e p' (state p')
        else e2eTransition e p' (state p')) else p')"
    using assms(2) by (simp add: bc_dispatch_def dispatch_state_def u)
  have "foreign_masters (bc_dispatch e p event d) = foreign_masters p
    \<and> best (bc_dispatch e p event d) = best p \<and> slave_fsm (bc_dispatch e p event d) = slave_fsm p
    \<and> (state (bc_dispatch e p event d) = update_next p event d \<or> \<not> needs_best (state (bc_dispatch e p event d)))"
    using u
  proof (cases rule: portStateUpdate_cases)
    case step
    then have f: "p' = fst (finish_update e p (state p) (update_next p event d))"
      "changed = (update_next p event d \<noteq> state p)"
      by (metis fst_conv, metis finish_update_simps(1) snd_conv)
    have p': "foreign_masters p' = foreign_masters p" "best p' = best p" "slave_fsm p' = slave_fsm p"
      unfolding f by simp_all
    have "changed \<Longrightarrow> state p' \<noteq> PS_FAULTY \<and> state p' \<noteq> PS_DISABLED"
      using decision_next [OF assms(1), of p d] step(1,2) f(2) by (auto simp: portIsEnabled_def)
    then show ?thesis
      unfolding b using p' step(2) transition_masters [of "state p'" e p'] by simp
  next
    case (init q s)
    have ne: "\<not> portIsEnabled (state p) \<and> state p = PS_FAULTY"
      using assms(1,3) init(2) by (cases "state p") (auto simp: update_next_def state_machine_def fsm_defs Let_def split: if_splits)
    have f: "p' = fst (finish_update e (fst (port_initialize e p)) (state p) s)" "changed = (s \<noteq> state p)"
      using init(1,5) ne by (metis fst_conv, metis finish_update_simps(1) snd_conv)
    have p': "foreign_masters p' = foreign_masters p" "best p' = best p" "slave_fsm p' = slave_fsm p"
      unfolding f by simp_all
    have "changed \<Longrightarrow> state p' = PS_LISTENING" "\<not> needs_best (state p')"
      using init(3,4) f(2) ne by (auto simp: needs_best_def synchronizing_def)
    then show ?thesis
      unfolding b using p' transition_masters [of "state p'" e p'] by (cases changed) simp_all
  qed
  then show "foreign_masters (bc_dispatch e p event d) = foreign_masters p"
    "best (bc_dispatch e p event d) = best p"
    "slave_fsm (bc_dispatch e p event d) = slave_fsm p"
    "state (bc_dispatch e p event d) = update_next p event d \<or> \<not> needs_best (state (bc_dispatch e p event d))"
    by blast+
qed

context dataset_compare
begin

lemma decision_role:
  assumes "event = decision_event (bmc_state_decision compare (ds :: dataset) cls cb br pb (state p))"
    "slave_fsm p \<longrightarrow> \<not> master_role (state p)"
  shows "synchronizing (update_next p event d) \<Longrightarrow> br"
    "needs_best (update_next p event d) \<Longrightarrow> br \<or> pb \<noteq> None"
proof -
  let ?ps = "bmc_state_decision compare ds cls cb br pb (state p)"
  have 1: "?ps = PS_LISTENING \<longrightarrow> state p = PS_LISTENING" "?ps = PS_SLAVE \<longrightarrow> br"
    by (simp_all add: bmc_state_decision_def)
  have 2: "?ps = PS_PASSIVE \<longrightarrow> pb \<noteq> None"
    by (cases pb; cases cb) (simp_all add: bmc_state_decision_def compare_None compare_None_left)
  show "synchronizing (update_next p event d) \<Longrightarrow> br"
    "needs_best (update_next p event d) \<Longrightarrow> br \<or> pb \<noteq> None"
    using 1 2 bmc_range [of compare ds cls cb br pb "state p"] assms(2) unfolding assms(1)
    by (cases "state p"; auto simp: update_next_def state_machine_def fsm_defs decision_event_def synchronizing_def
        needs_best_def Let_def split: if_splits)+
qed
end

subsection \<open>No event misses a master record\<close>



lemma masters_ok_refs [simp]: "masters_ok (p\<lparr>refs := r\<rparr>) = masters_ok p"
  by (simp add: masters_ok_def)





lemma dispatch_not_initializing: "state (bc_dispatch e p event d) \<noteq> PS_INITIALIZING"
proof -
  have "state (fst (dispatch_state e p event d)) \<noteq> PS_INITIALIZING" for p event d
  proof -
    obtain p' changed where u: "portStateUpdate e p event d = (p', changed)"
      by (cases "portStateUpdate e p event d")
    then have "state p' \<noteq> PS_INITIALIZING"
      by (cases rule: portStateUpdate_cases) (auto split: if_splits)
    then show ?thesis by (simp add: dispatch_state_def u)
  qed
  then show ?thesis by (simp add: bc_dispatch_def Let_def split_beta)
qed

subsection \<open>The first loop\<close>

text \<open>A port after its best master has been computed.\<close>

definition computed :: "'d PtpPort \<Rightarrow> 'd PtpPort \<Rightarrow> bool" where
  "computed p p' \<longleftrightarrow> (port_inv p \<longrightarrow> port_inv p') \<and> state p' = state p \<and> slave_fsm p' = slave_fsm p"

lemma computed_best:
  "computed p (fst (port_compute_best e compare p))"
proof (cases "port_inv p")
  case True
  obtain p' b where c: "port_compute_best e compare p = (p', b)" by (cases "port_compute_best e compare p")
  have "state p' = state p \<and> slave_fsm p' = slave_fsm p \<and> (\<forall>b. resources_are b p' = resources_are b p)"
    using c by (auto simp: port_compute_best_def Let_def split_beta resources_are_def split: if_splits)
  then show ?thesis
    using port_compute_best_keeps(1) [OF _ c] True by (simp add: computed_def c port_inv_def)
next
  case False
  then show ?thesis by (auto simp: computed_def port_compute_best_def Let_def split_beta)
qed

definition is_best :: "'d PtpPort \<Rightarrow> dataset \<Rightarrow> bool" where
  "is_best p d \<longleftrightarrow> best p = Some (sender d) \<and> (\<exists>fc. find_master (sender d) (foreign_masters p) = Some fc
     \<and> fc_dataset fc = d \<and> messages fc \<noteq> [])"

lemma compute_all_Cons:
  assumes "compute_all es compare i (p # ps) b = (ps', b')"
  obtains qs b1 where "compute_all es compare (i + 1) ps b1 = (qs, b')"
    "ps' = fst (port_compute_best (es i) compare p) # qs"
    "b1 = b \<or> (\<exists>d. snd (port_compute_best (es i) compare p) = Some d \<and> b1 = Some (i, d))"
proof -
  define b1 where "b1 = (case snd (port_compute_best (es i) compare p) of
                None \<Rightarrow> b
              | Some d \<Rightarrow> (case b of
                    None \<Rightarrow> Some (i, d)
                  | Some (j, x) \<Rightarrow> if compare (Some d) (Some x) > 0 then Some (i, d) else b))"
  have "b1 = b \<or> (\<exists>d. snd (port_compute_best (es i) compare p) = Some d \<and> b1 = Some (i, d))"
    by (auto simp: b1_def split: option.split)
  moreover have "compute_all es compare (i + 1) ps b1 = (tl ps', b')"
    "ps' = fst (port_compute_best (es i) compare p) # tl ps'"
    using assms by (auto simp: b1_def split_beta Let_def)
  ultimately show thesis using that by blast
qed

lemma compute_all_spec:
  assumes "compute_all es compare i ps b = (ps', b')" "\<forall>p \<in> set ps. port_inv p"
  shows "length ps' = length ps"
    "k < length ps \<Longrightarrow> computed (ps ! k) (ps' ! k)"
    "b' = Some (j, d) \<Longrightarrow> b = Some (j, d) \<or> (\<exists>k < length ps. j = i + k \<and> is_best (ps' ! k) d)"
  using assms
proof (induction ps arbitrary: i b ps' b' k)
  case (Cons p ps)
  {
    case 1
    from 1(1) obtain qs b1 where "compute_all es compare (i + 1) ps b1 = (qs, b')" "length ps' = Suc (length qs)"
      by (rule compute_all_Cons) simp
    with Cons.IH(1) [OF this(1)] 1(2) show ?case by simp
  next
    case 2
    from 2(2) obtain qs b1 where r: "compute_all es compare (i + 1) ps b1 = (qs, b')"
      "ps' = fst (port_compute_best (es i) compare p) # qs"
      by (rule compute_all_Cons) simp
    show ?case
    proof (cases k)
      case (Suc l)
      then show ?thesis using Cons.IH(2) [OF _ r(1), of l] 2(1,3) r(2) by simp
    qed (simp add: r(2) computed_best)
  next
    case 3
    from 3(2) obtain qs b1 q where q: "q = fst (port_compute_best (es i) compare p)"
        "b1 = b \<or> (\<exists>d. snd (port_compute_best (es i) compare p) = Some d \<and> b1 = Some (i, d))"
      and r: "compute_all es compare (i + 1) ps b1 = (qs, b')" "ps' = q # qs"
      by (rule compute_all_Cons) simp
    have m: "masters_ok p" using 3(3) by (simp add: port_inv_def)
    have "snd (port_compute_best (es i) compare p) = Some d \<Longrightarrow> is_best q d" for d
      using port_compute_best_keeps(6) [OF m prod.collapse [symmetric], of "es i" compare]
        port_compute_best_keeps(7) [OF m prod.collapse [symmetric], of "es i" compare d]
      by (simp add: is_best_def q(1))
    then have "b1 = Some (j, d) \<Longrightarrow> b = Some (j, d) \<or> j = i \<and> is_best q d"
      using q(2) by auto
    moreover have "b1 = Some (j, d) \<or> (\<exists>k < length ps. j = i + 1 + k \<and> is_best (qs ! k) d)"
      using Cons.IH(3) [OF 3(1) r(1)] 3(3) by simp
    ultimately show ?case
      unfolding r(2) by (auto intro: exI [of _ 0] exI [of _ "Suc _"])
  }
qed auto

subsection \<open>The second loop\<close>

lemma best_foreign_ds_None: "masters_ok p \<Longrightarrow> best_foreign_ds p = None \<longleftrightarrow> best p = None"
  using find_master_None_iff [of "the (best p)" "foreign_masters p"]
  by (cases "best p") (auto simp: best_foreign_ds_def masters_ok_def)

text \<open>The state of a port between two steps of the clock; \<open>b\<close> is the clock's best master.\<close>

definition port_ok :: "(nat \<times> PortIdentity) option \<Rightarrow> nat \<Rightarrow> 'd PtpPort \<Rightarrow> bool" where
  "port_ok b i p \<longleftrightarrow> port_inv p \<and> state p \<noteq> PS_INITIALIZING \<and> (needs_best (state p) \<longrightarrow> best p \<noteq> None)
    \<and> (synchronizing (state p) \<longrightarrow> (\<exists>s. b = Some (i, s)))"

text \<open>While the decision runs the best master of the clock is one of its port's records, with messages.\<close>

definition deciding :: "(nat \<times> PortIdentity) option \<Rightarrow> 'd PtpPort list \<Rightarrow> bool" where
  "deciding b ps \<longleftrightarrow> (\<forall>p \<in> set ps. port_inv p \<and> state p \<noteq> PS_INITIALIZING)
    \<and> (\<forall>j s. b = Some (j, s) \<longrightarrow> j < length ps \<and> best (ps ! j) = Some s
         \<and> (\<exists>fc. find_master s (foreign_masters (ps ! j)) = Some fc \<and> messages fc \<noteq> []))"

lemma deciding_update:
  assumes "deciding b ps" "i < length ps" "port_inv p" "state p \<noteq> PS_INITIALIZING"
    "foreign_masters p = foreign_masters (ps ! i)" "best p = best (ps ! i)"
  shows "deciding b (ps[i := p])"
  using assms set_update_subset_insert [of ps i p]
  by (auto simp: deciding_def nth_list_update)

context dataset_compare
begin

lemma decide_port_step:
  assumes "c_dscmp c = compare" "deciding (c_best c) (ports c)" "i < length (ports c)" "switch_phc_ok (es i)"
  obtains d p where "decide_port es fb i c = Some (c\<lparr>cdata := d, ports := (ports c)[i := p]\<rparr>)"
    "port_ok (c_best c) i p" "deciding (c_best c) ((ports c)[i := p])"
proof -
  let ?q = "ports c ! i"
  have q: "port_inv ?q" "state ?q \<noteq> PS_INITIALIZING" using assms(2,3) by (simp_all add: deciding_def)
  obtain b where b: "best_record c = Some b"
    "\<And>j s. c_best c = Some (j, s) \<Longrightarrow> \<exists>fc m ms. b = Some fc \<and> messages fc = m # ms"
    using assms(2) by (cases "c_best c") (auto simp: best_record_def deciding_def neq_Nil_conv)
  define br where "br = (map_option fst (c_best c) = Some i)"
  define ps where "ps = bmc_state_decision compare (clock_default_ds (cdata c)) (clock_class (cdata c))
                    (map_option fc_dataset b) br (best_foreign_ds ?q) (state ?q)"
  have sl: "ps = PS_SLAVE \<Longrightarrow> \<exists>fc m ms. b = Some fc \<and> messages fc = m # ms"
    using b(2) by (auto simp: ps_def bmc_slave_iff br_def)
  have "\<exists>d. (if ps = PS_GRAND_MASTER then Some (clock_update_grandmaster (cdata c))
                  else if ps = PS_SLAVE then
                    (case b of
                       None \<Rightarrow> None
                     | Some fc \<Rightarrow> (case messages fc of
                         [] \<Rightarrow> None
                       | m # _ \<Rightarrow> Some (clock_update_slave (fc_dataset fc) m (cdata c))))
                  else Some (cdata c)) = Some d"
    using sl by (cases "ps = PS_SLAVE") auto
  then obtain d where d: "(if ps = PS_GRAND_MASTER then Some (clock_update_grandmaster (cdata c))
                  else if ps = PS_SLAVE then
                    (case b of
                       None \<Rightarrow> None
                     | Some fc \<Rightarrow> (case messages fc of
                         [] \<Rightarrow> None
                       | m # _ \<Rightarrow> Some (clock_update_slave (fc_dataset fc) m (cdata c))))
                  else Some (cdata c)) = Some d" ..
  define p where "p = bc_dispatch (with_clock d (es i)) ?q (decision_event ps) fb"
  have e: "decide_port es fb i c = Some (c\<lparr>cdata := d, ports := (ports c)[i := p]\<rparr>)"
    unfolding decide_port_def b(1) option.case Let_def assms(1) br_def [symmetric] ps_def [symmetric] d p_def
    by (rule refl)
  have sw: "switch_phc_ok (with_clock d (es i))" using assms(4) by (simp add: with_clock_def)
  have ev: "decision_event ps \<in> {EV_NONE, EV_RS_MASTER, EV_RS_GRAND_MASTER, EV_RS_SLAVE, EV_RS_PASSIVE}"
  proof -
    have "ps \<in> {PS_LISTENING, PS_GRAND_MASTER, PS_PASSIVE, PS_SLAVE, PS_MASTER}"
      unfolding ps_def by (rule bmc_range)
    then show ?thesis by (auto simp: decision_event_def)
  qed
  note k = dispatch_keeps_masters [OF ev sw q(2), of fb, folded p_def]
  have inv: "port_inv p" "state p \<noteq> PS_INITIALIZING"
    using bc_dispatch_inv [OF q(1), of "decision_event ps" "with_clock d (es i)" fb] ev unfolding p_def by auto
  have role: "slave_fsm ?q \<longrightarrow> \<not> master_role (state ?q)" using q(1) by (simp add: port_inv_def)
  note r = decision_role [OF arg_cong [OF ps_def, of decision_event] role, of fb]
  have m: "best_foreign_ds ?q = None \<longleftrightarrow> best ?q = None"
    using q(1) by (intro best_foreign_ds_None) (simp add: port_inv_def)
  have n: "br \<Longrightarrow> best ?q \<noteq> None" using assms(2) by (auto simp: br_def deciding_def)
  have s: "synchronizing (state p) \<Longrightarrow> br" "needs_best (state p) \<Longrightarrow> best p \<noteq> None"
    using k(4) r m n unfolding k(2) by (auto simp: needs_best_def)
  have "port_ok (c_best c) i p" using inv s by (simp add: port_ok_def br_def)
  from that [OF e this deciding_update [OF assms(2,3) inv k(1,2)]] show thesis .
qed

lemma decide_ports_loop:
  assumes "c_dscmp c = compare" "deciding (c_best c) (ports c)" "\<forall>i. switch_phc_ok (es i)"
    "\<forall>i \<in> set is. i < length (ports c)"
  shows "\<exists>c'. decide_ports es fb is c = Some c' \<and> c_best c' = c_best c \<and> c_dscmp c' = compare
    \<and> length (ports c') = length (ports c)
    \<and> (\<forall>k < length (ports c). k \<in> set is \<or> port_ok (c_best c) k (ports c ! k)
          \<longrightarrow> port_ok (c_best c) k (ports c' ! k))"
  using assms
proof (induction "is" arbitrary: c)
  case (Cons i "is")
  from Cons.prems(3,4) have i: "switch_phc_ok (es i)" "i < length (ports c)" by simp_all
  obtain d p where p: "decide_port es fb i c = Some (c\<lparr>cdata := d, ports := (ports c)[i := p]\<rparr>)"
    "port_ok (c_best c) i p" "deciding (c_best c) ((ports c)[i := p])"
    by (rule decide_port_step [where fb = fb and es = es and i = i and c = c, OF Cons.prems(1,2) i(2,1)])
  let ?c = "c\<lparr>cdata := d, ports := (ports c)[i := p]\<rparr>"
  have "\<exists>c'. decide_ports es fb is ?c = Some c' \<and> c_best c' = c_best ?c \<and> c_dscmp c' = compare
    \<and> length (ports c') = length (ports ?c)
    \<and> (\<forall>k < length (ports ?c). k \<in> set is \<or> port_ok (c_best ?c) k (ports ?c ! k)
          \<longrightarrow> port_ok (c_best ?c) k (ports c' ! k))"
    by (rule Cons.IH) (use Cons.prems p(3) in simp_all)
  then obtain c' where c': "decide_ports es fb is ?c = Some c'" "c_best c' = c_best c" "c_dscmp c' = compare"
      "length (ports c') = length (ports c)"
      "\<And>k. k < length (ports c) \<Longrightarrow> k \<in> set is \<or> port_ok (c_best c) k ((ports c)[i := p] ! k)
         \<Longrightarrow> port_ok (c_best c) k (ports c' ! k)"
    by auto
  have "port_ok (c_best c) k (ports c' ! k)"
    if "k < length (ports c)" "k \<in> set (i # is) \<or> port_ok (c_best c) k (ports c ! k)" for k
    using c'(5) [OF that(1)] that p(2) by (cases "k = i") auto
  with c'(1-4) p(1) show ?case by simp
qed simp

lemma decision_keeps:
  assumes "c_dscmp c = compare" "\<forall>k < length (ports c). port_ok (c_best c) k (ports c ! k)"
    "\<forall>i. switch_phc_ok (es i)"
  shows "\<exists>c'. handle_state_decision_event fp es c = Some c' \<and> c_dscmp c' = compare
    \<and> length (ports c') = length (ports c) \<and> (\<forall>k < length (ports c'). port_ok (c_best c') k (ports c' ! k))"
proof -
  obtain ps b where a: "compute_all es (c_dscmp c) 0 (ports c) None = (ps, b)"
    by (cases "compute_all es (c_dscmp c) 0 (ports c) None")
  define bid where "bid = (case b of Some (i, d) \<Rightarrow> identity d | None \<Rightarrow> dds_clockIdentity (cdata (c\<lparr>ports := ps\<rparr>)))"
  define fb where "fb = (\<not> cid_eq bid (best_id (c\<lparr>ports := ps\<rparr>)))"
  define c1 where "c1 = (if fb then reset_for_master fp (c\<lparr>ports := ps\<rparr>) else c\<lparr>ports := ps\<rparr>)
      \<lparr>c_best := map_option (\<lambda>(i, d). (i, sender d)) b, best_id := bid\<rparr>"
  have e: "handle_state_decision_event fp es c = decide_ports es fb [0..<length ps] c1"
    unfolding handle_state_decision_event_def a Let_def prod.case bid_def [symmetric] fb_def [symmetric] c1_def [symmetric]
    by (rule refl)
  have c1: "ports c1 = ps" "c_dscmp c1 = compare" "c_best c1 = map_option (\<lambda>(i, d). (i, sender d)) b"
    using assms(1) by (simp_all add: c1_def reset_for_master_def Let_def clock_freq_est_reset_def)
  have inv: "\<forall>p \<in> set (ports c). port_inv p" using assms(2) by (auto simp: in_set_conv_nth port_ok_def)
  note s = compute_all_spec [OF a inv]
  have "\<forall>p \<in> set ps. port_inv p \<and> state p \<noteq> PS_INITIALIZING"
    using s(1,2) assms(2) by (auto simp: in_set_conv_nth port_ok_def computed_def)
  moreover have "j < length ps \<and> best (ps ! j) = Some x
      \<and> (\<exists>fc. find_master x (foreign_masters (ps ! j)) = Some fc \<and> messages fc \<noteq> [])"
    if "c_best c1 = Some (j, x)" for j x
  proof -
    from that obtain d where "b = Some (j, d)" "x = sender d" by (auto simp: c1(3))
    then show ?thesis using s(3) [of j d] s(1) by (auto simp: is_best_def)
  qed
  ultimately have "deciding (c_best c1) (ports c1)" unfolding deciding_def c1(1) by blast
  from decide_ports_loop [OF c1(2) this assms(3), of "[0..<length ps]" fb]
  show ?thesis unfolding e using s(1) by (auto simp: c1(1))
qed

end

subsection \<open>The clock as a transition system\<close>

text \<open>
  A port as \<open>_clockAddPort\<close> and \<open>clock_create\<close> leave it: created, then initialized by the
  event \<open>EV_INITIALIZE\<close>.
\<close>

definition fresh_port :: "'d PtpPort \<Rightarrow> bool" where
  "fresh_port p \<longleftrightarrow> (\<exists>fp cfg a e q. portCreate fp cfg a = Some q \<and> p = bc_dispatch e q EV_INITIALIZE False)"

definition fresh_clock :: "'d PtpClock \<Rightarrow> bool" where
  "fresh_clock c \<longleftrightarrow> (c_dscmp c = dscmp \<or> c_dscmp c = telecom_dscmp) \<and> c_best c = None
    \<and> (\<forall>p \<in> set (ports c). fresh_port p)"

text \<open>
  What may happen to a port: an input of the modelled kinds. The delay timer of a port that
  sends its requests to the address of its best master (\<open>hybrid_e2e\<close>) is left out: it reads
  the newest message of the best record without a check.
\<close>

definition input_allowed :: "'d PtpPort \<Rightarrow> port_input \<Rightarrow> bool" where
  "input_allowed p inp \<longleftrightarrow> input_modelled inp
    \<and> (inp = Timer FD_DELAY_TIMER \<longrightarrow> delayMechanism p = DM_P2P \<or> \<not> hybrid_e2e p)"

text \<open>
  The steps: an input of a port, the expiry of a fault timer, a state decision. The answers
  \<open>es\<close> of the system are arbitrary, but for the switch of the hardware clock during a
  decision, which has to succeed.
\<close>

inductive clock_step :: "'d PtpClock \<Rightarrow> 'd PtpClock \<Rightarrow> bool" where
  input: "i < length (ports c) \<Longrightarrow> input_allowed (ports c ! i) inp \<Longrightarrow> poll_input es ats i inp c = Some c'
    \<Longrightarrow> clock_step c c'"
| fault_timer: "i < length (ports c) \<Longrightarrow> clock_step c (poll_fault_timer es i c)"
| decide: "\<forall>i. switch_phc_ok (es i) \<Longrightarrow> poll_decide fp es c = Some c' \<Longrightarrow> clock_step c c'"

inductive reachable :: "'d PtpClock \<Rightarrow> bool" where
  start: "fresh_clock c \<Longrightarrow> reachable c"
| step: "reachable c \<Longrightarrow> clock_step c c' \<Longrightarrow> reachable c'"

definition clock_inv :: "'d PtpClock \<Rightarrow> bool" where
  "clock_inv c \<longleftrightarrow> (c_dscmp c = dscmp \<or> c_dscmp c = telecom_dscmp)
    \<and> (\<forall>k < length (ports c). port_ok (c_best c) k (ports c ! k))"

lemma fresh_port_ok:
  assumes "fresh_port p"
  shows "port_ok b k p"
proof -
  obtain fp cfg a e q where q: "portCreate fp cfg a = Some q" "p = bc_dispatch e q EV_INITIALIZE False"
    using assms by (auto simp: fresh_port_def)
  note c = portCreate_initial [OF q(1)]
  have m: "masters_ok q" using c(1) by (simp add: port_inv_def)
  have "port_inv p" "state p \<noteq> PS_INITIALIZING"
    using bc_dispatch_inv [OF c(1), of EV_INITIALIZE e False] unfolding q(2) by simp_all
  moreover have "no_new_role q p"
    unfolding q(2) by (rule bc_dispatch_no_new_role [OF m]) simp
  ultimately show ?thesis
    using c(3) by (auto simp: port_ok_def no_new_role_def needs_best_def synchronizing_def)
qed

lemma port_ok_good:
  assumes "port_ok b k p" "kept_step p p'" "state p' \<noteq> PS_INITIALIZING"
  shows "port_ok b k p'"
proof -
  have "synchronizing (state p') \<Longrightarrow> needs_best (state p')" by (simp add: needs_best_def)
  then show ?thesis using assms by (auto simp: port_ok_def kept_step_def no_new_role_def)
qed

lemma ok_update:
  assumes "\<forall>k < length ps. port_ok b k (ps ! k)" "kept_step (ps ! i) p'" "state p' \<noteq> PS_INITIALIZING" "i < length ps"
  shows "\<forall>k < length (ps[i := p']). port_ok b k (ps[i := p'] ! k)"
  using assms port_ok_good [of b i "ps ! i" p'] by (auto simp: nth_list_update)

lemma poll_input_inv:
  assumes "clock_inv c" "i < length (ports c)" "poll_input es ats i inp c = Some c'"
  shows "clock_inv c'"
proof -
  obtain res where r: "bc_event (with_clock (cdata c) (es i)) ats (cdata c) (ports c ! i) inp = Some res"
    and p: "ports c' = (ports c)[i := bc_dispatch (with_clock (r_data res) (es i)) (r_port res) (r_event res) False]"
    "c_best c' = c_best c" "c_dscmp c' = c_dscmp c"
    using assms(3) by (auto simp: poll_input_def split: option.splits)
  note g = good_result_dispatch [OF good_bc_event [OF r], of "with_clock (r_data res) (es i)" False]
  show ?thesis
    using assms(1,2) ok_update [OF _ g dispatch_not_initializing, of "c_best c"]
    unfolding clock_inv_def p by blast
qed

lemma poll_fault_timer_inv:
  assumes "clock_inv c" "i < length (ports c)"
  shows "clock_inv (poll_fault_timer es i c)"
  using assms ok_update [OF _ good_kept [OF good_dispatch [OF good_step_refl]] dispatch_not_initializing, of "ports c" "c_best c" EV_FAULT_CLEARED i]
  unfolding clock_inv_def poll_fault_timer_def by auto

lemma handle_decision_inv:
  assumes "clock_inv c" "\<forall>i. switch_phc_ok (es i)"
  shows "\<exists>c'. handle_state_decision_event fp es c = Some c' \<and> clock_inv c'"
  using assms ieee.decision_keeps [of c es fp] telecom.decision_keeps [of c es fp]
  unfolding clock_inv_def by metis

lemma poll_decide_inv:
  assumes "clock_inv c" "\<forall>i. switch_phc_ok (es i)"
  shows "\<exists>c'. poll_decide fp es c = Some c' \<and> clock_inv c'"
proof (cases "sde c")
  case True
  from handle_decision_inv [OF assms] obtain c' where "handle_state_decision_event fp es c = Some c'" "clock_inv c'" by blast
  then show ?thesis using True by (simp add: poll_decide_def clock_inv_def)
qed (use assms in \<open>simp add: poll_decide_def\<close>)

lemma clock_step_inv: "clock_step c c' \<Longrightarrow> clock_inv c \<Longrightarrow> clock_inv c'"
proof (induction rule: clock_step.induct)
  case (decide es fp c c')
  then show ?case using poll_decide_inv [of c es fp] by simp
qed (simp_all add: poll_input_inv poll_fault_timer_inv)

lemma reachable_inv: "reachable c \<Longrightarrow> clock_inv c"
proof (induction rule: reachable.induct)
  case (start c)
  then show ?case by (auto simp: fresh_clock_def clock_inv_def intro: fresh_port_ok)
qed (rule clock_step_inv)

subsection \<open>Properties\<close>

text \<open>A boundary clock with two ports.\<close>

definition sample_clock :: "int PtpClock" where
  "sample_clock = \<lparr>cdata = sample_data, ports = [started_port 1, started_port 2], c_dscmp = dscmp, c_best = None,
    best_id = zero_cid, sde = False, c_tsproc = p_tsproc (sample_port 1), fest_origin1 = tmv_zero, fest_ingress1 = tmv_zero,
    fest_count = 0, initial_delay = tmv_zero, ingress_ts = tmv_zero, path_delay = tmv_zero, nrr = 1\<rparr>"

lemma fresh_started_port: "fresh_port (started_port n)"
  unfolding fresh_port_def started_port_def using sample_port_created by blast

lemma sample_clock_reachable: "reachable sample_clock"
  by (rule reachable.start) (simp add: fresh_clock_def sample_clock_def fresh_started_port)

text \<open>
  C1: In every reachable state of a clock, after any sequence of received messages, expired
  timers, link changes, faults and state decisions on its ports, at most one port is
  synchronizing to a master (uncalibrated or slave).
\<close>

theorem one_synchronizing_port:
  assumes "reachable c"
  shows "card {i. i < length (ports c) \<and> synchronizing (state (ports c ! i))} \<le> 1"
proof -
  have "i = j" if "i < length (ports c) \<and> synchronizing (state (ports c ! i))"
    "j < length (ports c) \<and> synchronizing (state (ports c ! j))" for i j
  proof -
    have "\<exists>s. c_best c = Some (i, s)" "\<exists>s. c_best c = Some (j, s)"
      using reachable_inv [OF assms] that by (simp_all add: clock_inv_def port_ok_def)
    then show ?thesis by auto
  qed
  then show ?thesis
    by (cases "{i. i < length (ports c) \<and> synchronizing (state (ports c ! i))} = {}")
      (auto intro: card_le_Suc0_iff_eq [THEN iffD2, simplified])
qed

theorem one_synchronizing_port_witness:
  "reachable sample_clock \<and> card {i. i < length (ports sample_clock) \<and> synchronizing (state (ports sample_clock ! i))} \<le> 1"
  using sample_clock_reachable one_synchronizing_port by blast

text \<open>
  C3: In every reachable state: a port of a slave only clock is never in a master or passive
  role; the sockets and all timers of a port are open exactly while the port is enabled, so
  none leaks; and a port that is passive, uncalibrated or slave has a best master among its
  foreign master records.
\<close>

theorem port_states_safe:
  assumes "reachable c" "p \<in> set (ports c)"
  shows "(slave_fsm p \<longrightarrow> state p \<notin> {PS_PRE_MASTER, PS_MASTER, PS_GRAND_MASTER, PS_PASSIVE})
    \<and> (if portIsEnabled (state p) then trp_open p \<and> (\<forall>fd. all_timers fd \<longrightarrow> timer p fd \<noteq> None)
       else \<not> trp_open p \<and> (\<forall>fd. all_timers fd \<longrightarrow> timer p fd = None))
    \<and> (state p \<in> {PS_PASSIVE, PS_UNCALIBRATED, PS_SLAVE} \<longrightarrow>
        (\<exists>s fc. best p = Some s \<and> find_master s (foreign_masters p) = Some fc))"
proof -
  obtain k where "port_ok (c_best c) k p"
    using reachable_inv [OF assms(1)] assms(2) by (auto simp: clock_inv_def in_set_conv_nth)
  then have p: "port_inv p" "needs_best (state p) \<longrightarrow> best p \<noteq> None" by (simp_all add: port_ok_def)
  have "\<exists>fc. find_master s (foreign_masters p) = Some fc" if "best p = Some s" for s
    using p(1) that find_master_None_iff [of s "foreign_masters p"] by (auto simp: port_inv_def masters_ok_def)
  then show ?thesis
    using p by (auto simp: port_inv_def resources_are_def master_role_def needs_best_def synchronizing_def)
qed

theorem port_states_safe_witness:
  "trp_open (started_port 1) \<and> timer (started_port 1) FD_SYNC_TX_TIMER \<noteq> None"
proof -
  have "all_timers FD_SYNC_TX_TIMER" by (simp add: all_timers_def)
  then show ?thesis
    using port_states_safe [OF sample_clock_reachable, of "started_port 1"]
    by (simp add: sample_clock_def started_port_sel portIsEnabled_def del: not_None_eq)
qed



end
