(* ===== verification/TransClock.thy ===== *)
theory TransClock
  imports PeerDelay
begin

text \<open>
  The transparent clock of src/tc.c: messages that arrive on one port are forwarded out of the
  others, and the time that an event message spends in the clock is added to the correction
  field of the message that follows it. Also the dispatch functions \<open>e2e_dispatch\<close> and
  \<open>p2p_dispatch\<close> of src/ptpPortDevTransp.c.

  The ports of the clock are a list; a port is addressed by its position. A forwarding
  operation returns the ports and the messages sent, each with the position of its egress port.
  The messages are forwarded as received, in network byte order; the model keeps their fields
  in host order. The environments \<open>es i\<close> answer for port \<open>i\<close>: \<open>tx_ok\<close> for its
  transmissions, \<open>tx_hwts\<close> for the time stamp read back (zero when it is missing), \<open>malloc_ok\<close>
  for \<open>tc_allocate\<close>, whose pool of released records only saves allocations. Each port counts the
  references it takes itself.
\<close>

subsection \<open>Dispatch\<close>

text \<open>
  \<open>p2p\<close> selects the peer to peer variant; the two differ in the flushing of messages.
\<close>

definition tc_transition :: "bool \<Rightarrow> 'd env \<Rightarrow> 'd PtpPort \<Rightarrow> 'd PtpPort" where
  "tc_transition p2p e p =
    (let p = clr_tmo FD_ANNOUNCE_TIMER p;
         p = clr_tmo FD_SYNC_RX_TIMER p;
         p = clr_tmo FD_QUALIFICATION_TIMER p;
         p = clr_tmo FD_MANNO_TIMER p;
         p = clr_tmo FD_SYNC_TX_TIMER p
     in case state p of
         PS_INITIALIZING \<Rightarrow> p
       | PS_FAULTY \<Rightarrow> portOpDisable p
       | PS_DISABLED \<Rightarrow> portOpDisable p
       | PS_LISTENING \<Rightarrow> port_set_delay_tmo e (port_set_announce_tmo e p)
       | PS_PRE_MASTER \<Rightarrow> port_set_qualification_tmo e p
       | PS_MASTER \<Rightarrow> p
       | PS_GRAND_MASTER \<Rightarrow> p
       | PS_PASSIVE \<Rightarrow> port_set_announce_tmo e p
       | PS_UNCALIBRATED \<Rightarrow>
           port_set_announce_tmo e (if p2p then p else flush_delay_req (flush_last_sync p))
       | PS_SLAVE \<Rightarrow> port_set_announce_tmo e p)"

definition tc_dispatch :: "bool \<Rightarrow> 'd env \<Rightarrow> 'd PtpPort \<Rightarrow> PORT_EVENT \<Rightarrow> bool \<Rightarrow> 'd PtpPort" where
  "tc_dispatch p2p e p event mdiff =
    (let (p, changed) = portStateUpdate e p event mdiff
     in if \<not> changed then p
        else if portNumber (portIdentity p) = 0 then p
        else tc_transition p2p e p)"

subsection \<open>Where a message goes\<close>

definition PORT_NUMBER :: "'d PtpPort \<Rightarrow> nat" where
  "PORT_NUMBER p = unat (portNumber (portIdentity p))"

text \<open>
  \<open>tc_blocked\<close>; \<open>same\<close> is the comparison of the two pointers. Without the option
  \<open>tc_spanning_tree\<close> everything passes.
\<close>

definition tc_blocked :: "ClockData \<Rightarrow> bool \<Rightarrow> 'd PtpPort \<Rightarrow> 'd PtpPort \<Rightarrow> ptp_message \<Rightarrow> bool" where
  "tc_blocked c same q p m =
    (if same then True
     else if PORT_NUMBER p = 0 then True
     else if \<not> tc_spanning_tree q then False
     else if domainNumber m \<noteq> dds_domainNumber c then False
     else
       let egress = (case state p of
           PS_UNCALIBRATED \<Rightarrow> msg_type m \<noteq> DELAY_REQ
         | PS_SLAVE \<Rightarrow> msg_type m \<noteq> DELAY_REQ
         | PS_MASTER \<Rightarrow> msg_type m = DELAY_REQ
         | PS_GRAND_MASTER \<Rightarrow> msg_type m = DELAY_REQ
         | _ \<Rightarrow> True)
       in case state q of
           PS_MASTER \<Rightarrow> if msg_type m \<noteq> DELAY_REQ then True else egress
         | PS_GRAND_MASTER \<Rightarrow> if msg_type m \<noteq> DELAY_REQ then True else egress
         | PS_UNCALIBRATED \<Rightarrow> egress
         | PS_SLAVE \<Rightarrow> egress
         | _ \<Rightarrow> True)"

subsection \<open>Matching a message with a transmitted one\<close>

datatype tc_match = TC_MISMATCH | TC_SYNC_FUP | TC_FUP_SYNC | TC_DELAY_REQRESP

definition tc_match_delay :: "nat \<Rightarrow> ptp_message \<Rightarrow> tc_txd \<Rightarrow> tc_match" where
  "tc_match_delay ingress resp txd =
    (let req = txd_msg txd in
     if ingress \<noteq> ingress_port txd then TC_MISMATCH
     else if sequenceId req \<noteq> sequenceId resp then TC_MISMATCH
     else if \<not> pid_eq (sourcePortIdentity req) (requestingPortIdentity resp) then TC_MISMATCH
     else if msg_type req = DELAY_REQ \<and> msg_type resp = DELAY_RESP then TC_DELAY_REQRESP
     else TC_MISMATCH)"

definition tc_match_syfup :: "nat \<Rightarrow> ptp_message \<Rightarrow> tc_txd \<Rightarrow> tc_match" where
  "tc_match_syfup ingress m txd =
    (if ingress \<noteq> ingress_port txd then TC_MISMATCH
     else if sequenceId m \<noteq> sequenceId (txd_msg txd) then TC_MISMATCH
     else if \<not> pid_eq (sourcePortIdentity m) (sourcePortIdentity (txd_msg txd)) then TC_MISMATCH
     else if msg_type (txd_msg txd) = SYNC \<and> msg_type m = FOLLOW_UP then TC_SYNC_FUP
     else if msg_type (txd_msg txd) = FOLLOW_UP \<and> msg_type m = SYNC then TC_FUP_SYNC
     else TC_MISMATCH)"

subsection \<open>Completion\<close>

definition stash :: "'d PtpPort \<Rightarrow> ptp_message \<Rightarrow> tmv_t \<Rightarrow> nat \<Rightarrow> 'd PtpPort" where
  "stash p m res_time n = p\<lparr>refs := msg_get m (refs p),
     tc_transmitted := tc_transmitted p @ [\<lparr>txd_msg = m, residence = res_time, ingress_port = n\<rparr>]\<rparr>"

definition unstash :: "'d PtpPort \<Rightarrow> tc_txd \<Rightarrow> 'd PtpPort" where
  "unstash p txd = p\<lparr>refs := msg_put (txd_msg txd) (refs p), tc_transmitted := remove1 txd (tc_transmitted p)\<rparr>"

definition send_failed :: "bool \<Rightarrow> 'd env \<Rightarrow> nat \<Rightarrow> 'd PtpPort \<Rightarrow> 'd PtpPort" where
  "send_failed p2p e n p = (if tx_ok e n then p else tc_dispatch p2p e p EV_FAULT_DETECTED False)"

definition tc_complete_request :: "bool \<Rightarrow> 'd env \<Rightarrow> 'd PtpPort \<Rightarrow> 'd PtpPort \<Rightarrow> ptp_message \<Rightarrow> tmv_t \<Rightarrow> 'd PtpPort" where
  "tc_complete_request p2p e q p req res_time =
    (if \<not> malloc_ok e then tc_dispatch p2p e p EV_FAULT_DETECTED False
     else stash p req res_time (PORT_NUMBER q))"

text \<open>The transmission is the \<open>n\<close>-th of the port. The results are \<open>q\<close>, \<open>p\<close> and the response sent.\<close>

definition tc_complete_response :: "bool \<Rightarrow> 'd env \<Rightarrow> nat \<Rightarrow> 'd PtpPort \<Rightarrow> 'd PtpPort \<Rightarrow> ptp_message
    \<Rightarrow> 'd PtpPort \<times> 'd PtpPort \<times> ptp_message list" where
  "tc_complete_response p2p e n q p resp =
    (case find (\<lambda>txd. tc_match_delay (PORT_NUMBER p) resp txd = TC_DELAY_REQRESP) (tc_transmitted q) of
       None \<Rightarrow> (q, p, [])
     | Some txd \<Rightarrow>
         (let c2 = correction resp + tmv_to_TimeInterval (residence txd)
          in (unstash q txd, send_failed p2p e n p, [resp\<lparr>correction := c2\<rparr>])))"

text \<open>
  \<open>tc_complete_syfup\<close>. A failed transmission dispatches a fault, which can release all records of
  the port; the code then goes on to unlink and release the record it holds a second time.
  That is the value \<^const>\<open>None\<close>.
\<close>

definition tc_complete_syfup :: "bool \<Rightarrow> 'd env \<Rightarrow> nat \<Rightarrow> 'd PtpPort \<Rightarrow> 'd PtpPort \<Rightarrow> ptp_message \<Rightarrow> tmv_t
    \<Rightarrow> ('d PtpPort \<times> ptp_message list) option" where
  "tc_complete_syfup p2p e n q p m res_time =
    (case find (\<lambda>txd. tc_match_syfup (PORT_NUMBER q) m txd \<noteq> TC_MISMATCH) (tc_transmitted p) of
       None \<Rightarrow>
         (if \<not> malloc_ok e then Some (tc_dispatch p2p e p EV_FAULT_DETECTED False, [])
          else Some (stash p m res_time (PORT_NUMBER q), []))
     | Some txd \<Rightarrow>
         (let (fup, res_time) = (if tc_match_syfup (PORT_NUMBER q) m txd = TC_SYNC_FUP
                then (m, residence txd) else (txd_msg txd, res_time));
              c2 = correction fup + tmv_to_TimeInterval res_time;
              c2 = c2 + tmv_to_TimeInterval (peer_delay q);
              c2 = c2 + asymmetry q;
              p = send_failed p2p e n p
          in if txd \<notin> set (tc_transmitted p) then None
             else Some (unstash p txd, [fup\<lparr>correction := c2\<rparr>])))"

text \<open>\<open>tc_complete\<close> on the list of ports, for the ingress port \<open>qi\<close> and the egress port \<open>pi\<close>.\<close>

definition tc_complete :: "bool \<Rightarrow> 'd env \<Rightarrow> nat \<Rightarrow> nat \<Rightarrow> nat \<Rightarrow> ptp_message \<Rightarrow> tmv_t \<Rightarrow> 'd PtpPort list
    \<Rightarrow> ('d PtpPort list \<times> (nat \<times> ptp_message) list) option" where
  "tc_complete p2p e n qi pi m res_time ps =
    (let q = ps ! qi; p = ps ! pi in
     if msg_type m = SYNC \<or> msg_type m = FOLLOW_UP then
       map_option (\<lambda>(p, sent). (ps[pi := p], map (Pair pi) sent)) (tc_complete_syfup p2p e n q p m res_time)
     else if msg_type m = DELAY_REQ then
       Some (ps[pi := tc_complete_request p2p e q p m res_time], [])
     else if msg_type m = DELAY_RESP then
       (let (q, p, sent) = tc_complete_response p2p e n q p m in Some (ps[qi := q, pi := p], map (Pair pi) sent))
     else Some (ps, []))"

subsection \<open>The loops over the ports\<close>

fun each_port :: "(nat \<Rightarrow> 'p list \<Rightarrow> ('p list \<times> 's list) option) \<Rightarrow> nat list \<Rightarrow> 'p list
    \<Rightarrow> ('p list \<times> 's list) option" where
  "each_port f [] ps = Some (ps, [])"
| "each_port f (i # is) ps =
    (case f i ps of
       None \<Rightarrow> None
     | Some (ps, s) \<Rightarrow> map_option (\<lambda>(ps', s'). (ps', s @ s')) (each_port f is ps))"

text \<open>
  The first loop of \<open>tc_fwd_event\<close> and the loop of \<open>tc_forward\<close>: the transmission \<open>n\<close> of each port.
\<close>

definition tc_send :: "bool \<Rightarrow> (nat \<Rightarrow> 'd env) \<Rightarrow> ClockData \<Rightarrow> nat \<Rightarrow> nat \<Rightarrow> ptp_message \<Rightarrow> nat \<Rightarrow> 'd PtpPort list
    \<Rightarrow> ('d PtpPort list \<times> (nat \<times> ptp_message) list) option" where
  "tc_send p2p es c n qi m i ps =
    (if tc_blocked c (i = qi) (ps ! qi) (ps ! i) m then Some (ps, [])
     else Some (ps[i := send_failed p2p (es i) n (ps ! i)], if tx_ok (es i) n then [(i, m)] else []))"

text \<open>
  The residence time is scaled by the rate ratio of the clock, when that is not one. The stored
  message keeps the arrival time; nothing reads the time stamp of a stored message.
\<close>

definition residence_time :: "'d env \<Rightarrow> 'd PtpPort \<Rightarrow> tmv_t \<Rightarrow> tmv_t" where
  "residence_time e p ingress =
    (let egress = ts_add (tx_hwts e) (tx_timestamp_offset p);
         res_time = tmv_sub egress ingress;
         rr = c_rate_ratio e
     in if d_neq (ops e) rr (d_one (ops e))
        then dbl_tmv (ops e) (d_mul (ops e) (tmv_dbl (ops e) res_time) rr) else res_time)"

definition tc_stamp :: "bool \<Rightarrow> (nat \<Rightarrow> 'd env) \<Rightarrow> ClockData \<Rightarrow> nat \<Rightarrow> ptp_message \<Rightarrow> nat \<Rightarrow> 'd PtpPort list
    \<Rightarrow> ('d PtpPort list \<times> (nat \<times> ptp_message) list) option" where
  "tc_stamp p2p es c qi m i ps =
    (if tc_blocked c (i = qi) (ps ! qi) (ps ! i) m then Some (ps, [])
     else if tmv_is_zero (tx_hwts (es i))
     then Some (ps[i := tc_dispatch p2p (es i) (ps ! i) EV_FAULT_DETECTED False], [])
     else tc_complete p2p (es i) 1 qi i m (residence_time (es i) (ps ! i) (hwts_ts m)) ps)"

definition tc_fwd_event :: "bool \<Rightarrow> (nat \<Rightarrow> 'd env) \<Rightarrow> ClockData \<Rightarrow> nat \<Rightarrow> ptp_message \<Rightarrow> 'd PtpPort list
    \<Rightarrow> ('d PtpPort list \<times> (nat \<times> ptp_message) list) option" where
  "tc_fwd_event p2p es c qi m ps =
    (let m = m\<lparr>ts_host := mono_now (es qi)\<rparr> in
     case each_port (tc_send p2p es c 0 qi m) [0..<length ps] ps of
       None \<Rightarrow> None
     | Some (ps, sent) \<Rightarrow>
         map_option (\<lambda>(ps, sent'). (ps, sent @ sent')) (each_port (tc_stamp p2p es c qi m) [0..<length ps] ps))"

definition tc_follow :: "bool \<Rightarrow> (nat \<Rightarrow> 'd env) \<Rightarrow> ClockData \<Rightarrow> nat \<Rightarrow> nat \<Rightarrow> ptp_message \<Rightarrow> nat \<Rightarrow> 'd PtpPort list
    \<Rightarrow> ('d PtpPort list \<times> (nat \<times> ptp_message) list) option" where
  "tc_follow p2p es c n qi m i ps =
    (if tc_blocked c (i = qi) (ps ! qi) (ps ! i) m then Some (ps, [])
     else tc_complete p2p (es i) n qi i m tmv_zero ps)"

text \<open>\<open>tc_fwd_folup\<close>, and \<open>tc_fwd_response\<close>, whose body is the same.\<close>

definition tc_fwd_folup :: "bool \<Rightarrow> (nat \<Rightarrow> 'd env) \<Rightarrow> ClockData \<Rightarrow> nat \<Rightarrow> nat \<Rightarrow> ptp_message \<Rightarrow> 'd PtpPort list
    \<Rightarrow> ('d PtpPort list \<times> (nat \<times> ptp_message) list) option" where
  "tc_fwd_folup p2p es c n qi m ps =
    (let m = m\<lparr>ts_host := mono_now (es qi)\<rparr>
     in each_port (tc_follow p2p es c n qi m) [0..<length ps] ps)"

definition tc_fwd_response :: "bool \<Rightarrow> (nat \<Rightarrow> 'd env) \<Rightarrow> ClockData \<Rightarrow> nat \<Rightarrow> ptp_message \<Rightarrow> 'd PtpPort list
    \<Rightarrow> ('d PtpPort list \<times> (nat \<times> ptp_message) list) option" where
  "tc_fwd_response p2p es c qi m ps =
    (let m = m\<lparr>ts_host := mono_now (es qi)\<rparr>
     in each_port (tc_follow p2p es c 0 qi m) [0..<length ps] ps)"

definition tc_fwd_request :: "bool \<Rightarrow> (nat \<Rightarrow> 'd env) \<Rightarrow> ClockData \<Rightarrow> nat \<Rightarrow> ptp_message \<Rightarrow> 'd PtpPort list
    \<Rightarrow> ('d PtpPort list \<times> (nat \<times> ptp_message) list) option" where
  "tc_fwd_request p2p es c qi m ps = tc_fwd_event p2p es c qi m ps"

text \<open>
  A one step Sync is turned into a two step one. The third result is the error return, when
  there is no buffer for the Follow_Up. The reference to that buffer is counted by the ingress
  port.
\<close>

definition with_refs :: "nat \<Rightarrow> (refs \<Rightarrow> refs) \<Rightarrow> 'd PtpPort list \<Rightarrow> 'd PtpPort list" where
  "with_refs qi f ps = ps[qi := (ps ! qi)\<lparr>refs := f (refs (ps ! qi))\<rparr>]"

definition generated_follow_up :: "nat \<Rightarrow> ptp_message \<Rightarrow> ptp_message" where
  "generated_follow_up i m = (zero_msg i)\<lparr>
     tsmt := FOLLOW_UP OR (tsmt m AND 0xf0),
     ver := ver m,
     messageLength := 44,
     domainNumber := domainNumber m,
     sourcePortIdentity := sourcePortIdentity m,
     sequenceId := sequenceId m,
     control := 2,
     logMessageInterval := logMessageInterval m,
     ts_pdu := ts_pdu m\<rparr>"

definition tc_fwd_sync :: "bool \<Rightarrow> (nat \<Rightarrow> 'd env) \<Rightarrow> bool \<Rightarrow> ClockData \<Rightarrow> nat \<Rightarrow> ptp_message \<Rightarrow> 'd PtpPort list
    \<Rightarrow> ('d PtpPort list \<times> (nat \<times> ptp_message) list \<times> bool) option" where
  "tc_fwd_sync p2p es ats c qi m ps =
    (if one_step ats m then
       (case pool (es qi) of
          [] \<Rightarrow> Some (ps, [], True)
        | i # _ \<Rightarrow>
            (let ps = with_refs qi (msg_allocate i) ps;
                 fup = generated_follow_up i m;
                 m = m\<lparr>flagField0 := flagField0 m OR TWO_STEP\<rparr>
             in case tc_fwd_event p2p es c qi m ps of
                  None \<Rightarrow> None
                | Some (ps, sent) \<Rightarrow>
                    map_option (\<lambda>(ps, sent'). (with_refs qi (msg_put fup) ps, sent @ sent', False))
                      (tc_fwd_folup p2p es c 2 qi fup ps)))
     else map_option (\<lambda>(ps, sent). (ps, sent, False)) (tc_fwd_event p2p es c qi m ps))"

definition tc_forward :: "bool \<Rightarrow> (nat \<Rightarrow> 'd env) \<Rightarrow> ClockData \<Rightarrow> nat \<Rightarrow> ptp_message \<Rightarrow> 'd PtpPort list
    \<Rightarrow> ('d PtpPort list \<times> (nat \<times> ptp_message) list) option" where
  "tc_forward p2p es c qi m ps =
    (let m = (if tc_spanning_tree (ps ! qi) \<and> msg_type m = ANNOUNCE
              then m\<lparr>a_stepsRemoved := 1 + a_stepsRemoved m\<rparr> else m)
     in each_port (tc_send p2p es c 0 qi m) [0..<length ps] ps)"

subsection \<open>Ignored messages and stale records\<close>

definition tc_ignore :: "ClockData \<Rightarrow> 'd PtpPort \<Rightarrow> ptp_message \<Rightarrow> bool" where
  "tc_ignore c p m =
    (if match_transport_specific p \<and> tsmt m AND 0xf0 \<noteq> transportSpecific p then True
     else if pid_eq (sourcePortIdentity m) (portIdentity p) then True
     else if domainNumber m \<noteq> dds_domainNumber c then True
     else cid_eq (dds_clockIdentity c) (clockIdentity (sourcePortIdentity m)))"

definition tc_current :: "ptp_message \<Rightarrow> timespec \<Rightarrow> bool" where
  "tc_current m now =
    (let h = ts_host m;
         s1 = tv_sec h * NSEC2SEC + tv_nsec h;
         s2 = tv_sec now * NSEC2SEC + tv_nsec now
     in sint (s2 - s1) < sint NSEC2SEC)"

fun tc_prune_loop :: "timespec \<Rightarrow> tc_txd list \<Rightarrow> refs \<Rightarrow> tc_txd list \<times> refs" where
  "tc_prune_loop now [] r = ([], r)"
| "tc_prune_loop now (txd # txds) r =
    (if tc_current (txd_msg txd) now then (txd # txds, r)
     else tc_prune_loop now txds (msg_put (txd_msg txd) r))"

definition tc_prune :: "'d env \<Rightarrow> 'd PtpPort \<Rightarrow> 'd PtpPort" where
  "tc_prune e p = (let (txds, r) = tc_prune_loop (mono_now e) (tc_transmitted p) (refs p)
     in p\<lparr>tc_transmitted := txds, refs := r\<rparr>)"

end
