(* ===== verification/Forwarding.thy ===== *)
theory Forwarding
  imports TransClock Samples
begin

text \<open>
  Properties of the transparent clock: the residence time is added to the correction exactly
  once and per egress port, responses go back where the request came from, the spanning tree
  option blocks what it should, and the references to the kept messages balance.
\<close>

subsection \<open>Loops whose steps are local\<close>

lemma each_port_local:
  assumes "\<And>i xs. i \<in> set is \<Longrightarrow> length xs = n \<Longrightarrow> xs ! qi = q \<Longrightarrow> xs ! i = ps ! i \<Longrightarrow> f i xs = Some (xs[i := G i], H i)"
    and "distinct is" "\<forall>i \<in> set is. i < n" "length ps = n" "ps ! qi = q" "qi \<in> set is \<Longrightarrow> G qi = q"
  shows "each_port f is ps = Some (map (\<lambda>i. if i \<in> set is then G i else ps ! i) [0..<n], concat (map H is))"
  using assms
proof (induction "is" arbitrary: ps)
  case Nil
  then show ?case by (auto intro: nth_equalityI)
next
  case (Cons i "is")
  let ?ps = "ps[i := G i]"
  have 1: "f i ps = Some (?ps, H i)" using Cons.prems by simp
  have "?ps ! qi = q" using Cons.prems(4-6) by (cases "qi = i") auto
  have "each_port f is ?ps = Some (map (\<lambda>j. if j \<in> set is then G j else ?ps ! j) [0..<n], concat (map H is))"
  proof (rule Cons.IH)
    fix j xs
    assume j: "j \<in> set is" "length xs = n" "xs ! qi = q" "xs ! j = ?ps ! j"
    have "j \<noteq> i" using j(1) Cons.prems(2) by auto
    then have "xs ! j = ps ! j" using j(4) by simp
    then show "f j xs = Some (xs[j := G j], H j)" using j Cons.prems(1) by simp
  qed (use Cons.prems \<open>?ps ! qi = q\<close> in simp_all)
  moreover have "map (\<lambda>j. if j \<in> set is then G j else ?ps ! j) [0..<n]
      = map (\<lambda>j. if j \<in> set (i # is) then G j else ps ! j) [0..<n]"
    using Cons.prems(2-4) by (auto simp: nth_list_update)
  ultimately show ?case using 1 by simp
qed

lemma each_port_all:
  assumes "\<And>i xs. i < length ps \<Longrightarrow> length xs = length ps \<Longrightarrow> xs ! qi = ps ! qi \<Longrightarrow> xs ! i = ps ! i
      \<Longrightarrow> f i xs = Some (xs[i := G i], H i)"
    and "qi < length ps \<Longrightarrow> G qi = ps ! qi"
  shows "each_port f [0..<length ps] ps = Some (map G [0..<length ps], concat (map H [0..<length ps]))"
proof -
  have "each_port f [0..<length ps] ps = Some (map (\<lambda>i. if i \<in> set [0..<length ps] then G i else ps ! i) [0..<length ps],
      concat (map H [0..<length ps]))"
    by (rule each_port_local [where q = "ps ! qi"]) (use assms in simp_all)
  moreover have "map (\<lambda>i. if i \<in> set [0..<length ps] then G i else ps ! i) [0..<length ps] = map G [0..<length ps]" by simp
  ultimately show ?thesis by simp
qed

lemma concat_if: "concat (map (\<lambda>i. if P i then [] else [h i]) is) = map h (filter (\<lambda>i. \<not> P i) is)"
  by (induction "is") simp_all

subsection \<open>Forwarding\<close>

text \<open>The ports a message goes out of.\<close>

definition egress_ports :: "ClockData \<Rightarrow> nat \<Rightarrow> 'd PtpPort list \<Rightarrow> ptp_message \<Rightarrow> nat list" where
  "egress_ports c qi ps m = filter (\<lambda>i. \<not> tc_blocked c (i = qi) (ps ! qi) (ps ! i) m) [0..<length ps]"

lemma blocked_self [simp]: "tc_blocked c True q p m"
  by (simp add: tc_blocked_def)

lemma tc_blocked_cong:
  assumes "portIdentity p' = portIdentity p" "state p' = state p" "domainNumber m' = domainNumber m"
    "msg_type m' = DELAY_REQ \<longleftrightarrow> msg_type m = DELAY_REQ"
  shows "tc_blocked c same q p' m' = tc_blocked c same q p m"
  using assms by (simp add: tc_blocked_def PORT_NUMBER_def Let_def cong: PORT_STATE.case_cong)

lemma msg_type_fields [simp]:
  "msg_type (m\<lparr>ts_host := x\<rparr>) = msg_type m" "msg_type (m\<lparr>flagField0 := fl\<rparr>) = msg_type m"
  "msg_type (m\<lparr>correction := k\<rparr>) = msg_type m"
  by (simp_all add: msg_type_def)

lemma send_all:
  assumes "\<forall>i. tx_ok (es i) n"
  shows "each_port (tc_send p2p es c n qi m) [0..<length ps] ps = Some (ps, map (\<lambda>i. (i, m)) (egress_ports c qi ps m))"
proof -
  let ?H = "\<lambda>i. if tc_blocked c (i = qi) (ps ! qi) (ps ! i) m then [] else [(i, m)]"
  have "each_port (tc_send p2p es c n qi m) [0..<length ps] ps
      = Some (map (\<lambda>i. ps ! i) [0..<length ps], concat (map ?H [0..<length ps]))"
  proof (rule each_port_all [where qi = qi])
    fix i xs
    assume x: "xs ! qi = ps ! qi" "xs ! i = ps ! i"
    have "xs[i := ps ! i] = xs" using list_update_id [of xs i] by (simp only: x(2))
    then show "tc_send p2p es c n qi m i xs = Some (xs[i := ps ! i], ?H i)"
      using assms by (simp add: tc_send_def send_failed_def x)
  qed simp
  then show ?thesis by (simp add: map_nth concat_if egress_ports_def)
qed

lemma stash_fields [simp]:
  "portIdentity (stash p m r n) = portIdentity p" "state (stash p m r n) = state p"
  "tc_spanning_tree (stash p m r n) = tc_spanning_tree p" "peer_delay (stash p m r n) = peer_delay p"
  "asymmetry (stash p m r n) = asymmetry p" "tx_timestamp_offset (stash p m r n) = tx_timestamp_offset p"
  "PORT_NUMBER (stash p m r n) = PORT_NUMBER p"
  by (simp_all add: stash_def PORT_NUMBER_def)

lemma blocked_stash: "tc_blocked c b (stash q m r n) p m' = tc_blocked c b q p m'"
  by (simp add: tc_blocked_def)

lemma remove1_last: "x \<notin> set xs \<Longrightarrow> remove1 x (xs @ [x]) = xs"
  by (induction xs) auto

lemma unstash_stash:
  assumes "\<lparr>txd_msg = m, residence = r, ingress_port = n\<rparr> \<notin> set (tc_transmitted p)"
  shows "unstash (stash p m r n) \<lparr>txd_msg = m, residence = r, ingress_port = n\<rparr> = p"
proof -
  have "msg_put m (msg_get m (refs p)) = refs p" by (rule ext) (simp add: msg_put_def msg_get_def)
  then show ?thesis using remove1_last [OF assms] by (simp add: unstash_def stash_def)
qed

text \<open>No record of a port matches the message.\<close>

definition unmatched :: "nat \<Rightarrow> ptp_message \<Rightarrow> 'd PtpPort \<Rightarrow> bool" where
  "unmatched n m p \<longleftrightarrow> (\<forall>txd \<in> set (tc_transmitted p). tc_match_syfup n m txd = TC_MISMATCH)"

lemma find_unmatched: "unmatched n m p \<Longrightarrow> find (\<lambda>txd. tc_match_syfup n m txd \<noteq> TC_MISMATCH) (tc_transmitted p) = None"
  by (auto simp: unmatched_def find_None_iff)

lemma find_stashed:
  assumes "unmatched n f p" "tc_match_syfup n f \<lparr>txd_msg = m, residence = r, ingress_port = n\<rparr> \<noteq> TC_MISMATCH"
  shows "find (\<lambda>txd. tc_match_syfup n f txd \<noteq> TC_MISMATCH) (tc_transmitted (stash p m r n))
      = Some \<lparr>txd_msg = m, residence = r, ingress_port = n\<rparr>"
    "\<lparr>txd_msg = m, residence = r, ingress_port = n\<rparr> \<notin> set (tc_transmitted p)"
proof -
  have "\<forall>txd \<in> set xs. tc_match_syfup n f txd = TC_MISMATCH \<Longrightarrow>
      find (\<lambda>txd. tc_match_syfup n f txd \<noteq> TC_MISMATCH) (xs @ [t]) = Some t"
    if "tc_match_syfup n f t \<noteq> TC_MISMATCH" for xs t
    using that by (induction xs) auto
  then show "find (\<lambda>txd. tc_match_syfup n f txd \<noteq> TC_MISMATCH) (tc_transmitted (stash p m r n))
      = Some \<lparr>txd_msg = m, residence = r, ingress_port = n\<rparr>"
    using assms by (simp add: stash_def unmatched_def)
  show "\<lparr>txd_msg = m, residence = r, ingress_port = n\<rparr> \<notin> set (tc_transmitted p)"
    using assms by (auto simp: unmatched_def)
qed

text \<open>The first message of a pair is kept, the second completes it.\<close>

lemma complete_first:
  assumes "unmatched (PORT_NUMBER q) m p" "malloc_ok e"
  shows "tc_complete_syfup p2p e n q p m r = Some (stash p m r (PORT_NUMBER q), [])"
  using assms by (simp add: tc_complete_syfup_def find_unmatched)

definition forwarded_correction :: "'d PtpPort \<Rightarrow> ptp_message \<Rightarrow> tmv_t \<Rightarrow> i64" where
  "forwarded_correction q f r = correction f + tmv_to_TimeInterval r + tmv_to_TimeInterval (peer_delay q) + asymmetry q"

lemma complete_second:
  assumes "unmatched (PORT_NUMBER q) m2 p" "tx_ok e n"
    and "tc_match_syfup (PORT_NUMBER q) m2 \<lparr>txd_msg = m1, residence = r1, ingress_port = PORT_NUMBER q\<rparr> = k" "k \<noteq> TC_MISMATCH"
    and "(fup, r) = (if k = TC_SYNC_FUP then (m2, r1) else (m1, r2))"
  shows "tc_complete_syfup p2p e n q (stash p m1 r1 (PORT_NUMBER q)) m2 r2
    = Some (p, [fup\<lparr>correction := forwarded_correction q fup r\<rparr>])"
proof -
  let ?t = "\<lparr>txd_msg = m1, residence = r1, ingress_port = PORT_NUMBER q\<rparr>"
  let ?p = "stash p m1 r1 (PORT_NUMBER q)"
  note f = find_stashed [OF assms(1), of m1 r1, unfolded assms(3), OF assms(4)]
  have t: "?t \<in> set (tc_transmitted ?p)" by (simp add: stash_def)
  have s: "send_failed p2p e n ?p = ?p" using assms(2) by (simp add: send_failed_def)
  show ?thesis
    unfolding tc_complete_syfup_def f(1) option.case assms(3) Let_def s unstash_stash [OF f(2)]
    using t assms(5) by (auto simp: forwarded_correction_def split: if_splits)
qed


text \<open>The ports after the first message of a pair.\<close>

definition kept_on :: "ClockData \<Rightarrow> nat \<Rightarrow> ptp_message \<Rightarrow> (nat \<Rightarrow> tmv_t) \<Rightarrow> 'd PtpPort list \<Rightarrow> 'd PtpPort list" where
  "kept_on c qi m R ps = map (\<lambda>i. if tc_blocked c (i = qi) (ps ! qi) (ps ! i) m then ps ! i
     else stash (ps ! i) m (R i) (PORT_NUMBER (ps ! qi))) [0..<length ps]"

lemma kept_on_nth:
  "i < length ps \<Longrightarrow> kept_on c qi m R ps ! i = (if tc_blocked c (i = qi) (ps ! qi) (ps ! i) m then ps ! i
     else stash (ps ! i) m (R i) (PORT_NUMBER (ps ! qi)))"
  "length (kept_on c qi m R ps) = length ps"
  by (simp_all add: kept_on_def)

lemma kept_on_ingress: "qi < length ps \<Longrightarrow> kept_on c qi m R ps ! qi = ps ! qi"
  by (simp add: kept_on_nth)

definition sync_or_fup :: "ptp_message \<Rightarrow> bool" where
  "sync_or_fup m \<longleftrightarrow> msg_type m = SYNC \<or> msg_type m = FOLLOW_UP"

lemma first_of_pair:
  assumes "\<And>i xs. i < length ps \<Longrightarrow> xs ! qi = ps ! qi \<Longrightarrow> xs ! i = ps ! i \<Longrightarrow> F i xs
      = (if tc_blocked c (i = qi) (ps ! qi) (ps ! i) m then Some (xs, []) else tc_complete p2p (es i) k qi i m (R i) xs)"
    and "sync_or_fup m" "qi < length ps" "\<forall>p \<in> set ps. unmatched (PORT_NUMBER (ps ! qi)) m p" "\<forall>i. malloc_ok (es i)"
  shows "each_port F [0..<length ps] ps = Some (kept_on c qi m R ps, [])"
proof -
  let ?n = "PORT_NUMBER (ps ! qi)"
  let ?G = "\<lambda>i. if tc_blocked c (i = qi) (ps ! qi) (ps ! i) m then ps ! i else stash (ps ! i) m (R i) ?n"
  have "each_port F [0..<length ps] ps = Some (map ?G [0..<length ps], concat (map (\<lambda>i. []) [0..<length ps]))"
  proof (rule each_port_all [where qi = qi])
    fix i xs
    assume i: "i < length ps" "xs ! qi = ps ! qi" "xs ! i = ps ! i"
    have e: "xs[i := ps ! i] = xs" using list_update_id [of xs i] by (simp only: i(3))
    have "tc_complete_syfup p2p (es i) k (ps ! qi) (ps ! i) m (R i) = Some (stash (ps ! i) m (R i) ?n, [])"
      using assms(4,5) i(1) by (intro complete_first) simp_all
    then have "tc_complete p2p (es i) k qi i m (R i) xs = Some (xs[i := stash (ps ! i) m (R i) ?n], [])"
      using assms(2) by (simp add: tc_complete_def i sync_or_fup_def)
    then show "F i xs = Some (xs[i := ?G i], [])"
      using assms(1) [OF i] e by simp
  qed simp
  then show ?thesis by (simp add: kept_on_def)
qed

lemma second_of_pair:
  assumes "\<And>i xs. i < length ps \<Longrightarrow> xs ! qi = ps ! qi \<Longrightarrow> xs ! i = kept_on c qi m1 R1 ps ! i \<Longrightarrow> F i xs
      = (if tc_blocked c (i = qi) (ps ! qi) (ps ! i) m1 then Some (xs, []) else tc_complete p2p (es i) k qi i m2 (R2 i) xs)"
    and "sync_or_fup m2" "qi < length ps" "\<forall>p \<in> set ps. unmatched (PORT_NUMBER (ps ! qi)) m2 p" "\<forall>i. tx_ok (es i) k"
    and "\<And>r. tc_match_syfup (PORT_NUMBER (ps ! qi)) m2 \<lparr>txd_msg = m1, residence = r, ingress_port = PORT_NUMBER (ps ! qi)\<rparr> = K"
    and "K \<noteq> TC_MISMATCH" "fup = (if K = TC_SYNC_FUP then m2 else m1)" "R = (if K = TC_SYNC_FUP then R1 else R2)"
  shows "each_port F [0..<length ps] (kept_on c qi m1 R1 ps)
    = Some (ps, map (\<lambda>i. (i, fup\<lparr>correction := forwarded_correction (ps ! qi) fup (R i)\<rparr>)) (egress_ports c qi ps m1))"
proof -
  let ?n = "PORT_NUMBER (ps ! qi)" and ?ps = "kept_on c qi m1 R1 ps"
  let ?H = "\<lambda>i. if tc_blocked c (i = qi) (ps ! qi) (ps ! i) m1 then []
     else [(i, fup\<lparr>correction := forwarded_correction (ps ! qi) fup (R i)\<rparr>)]"
  have l: "length ?ps = length ps" by (rule kept_on_nth)
  have "each_port F [0..<length ?ps] ?ps = Some (map (\<lambda>i. ps ! i) [0..<length ?ps], concat (map ?H [0..<length ?ps]))"
  proof (rule each_port_all [where qi = qi])
    fix i xs
    assume i: "i < length ?ps" "length xs = length ?ps" "xs ! qi = ?ps ! qi" "xs ! i = ?ps ! i"
    have il: "i < length ps" "xs ! qi = ps ! qi" using i(1,3) assms(3) by (simp_all add: l kept_on_ingress)
    show "F i xs = Some (xs[i := ps ! i], ?H i)"
    proof (cases "tc_blocked c (i = qi) (ps ! qi) (ps ! i) m1")
      case True
      then have "xs ! i = ps ! i" using i(4) il(1) by (simp add: kept_on_nth)
      then have "xs[i := ps ! i] = xs" using list_update_id [of xs i] by simp
      then show ?thesis using assms(1) [OF il i(4)] True by simp
    next
      case False
      then have x: "xs ! i = stash (ps ! i) m1 (R1 i) ?n" using i(4) il(1) by (simp add: kept_on_nth)
      have "unmatched ?n m2 (ps ! i)" using assms(4) il(1) by simp
      from complete_second [OF this, of "es i" k m1 "R1 i" K fup "R i" "R2 i" p2p]
      have "tc_complete_syfup p2p (es i) k (ps ! qi) (stash (ps ! i) m1 (R1 i) ?n) m2 (R2 i)
          = Some (ps ! i, [fup\<lparr>correction := forwarded_correction (ps ! qi) fup (R i)\<rparr>])"
        using assms(5-9) by (simp split: if_splits)
      then have "tc_complete p2p (es i) k qi i m2 (R2 i) xs
          = Some (xs[i := ps ! i], [(i, fup\<lparr>correction := forwarded_correction (ps ! qi) fup (R i)\<rparr>)])"
        using assms(2) by (simp add: tc_complete_def il(2) x sync_or_fup_def)
      then show ?thesis using assms(1) [OF il i(4)] False by simp
    qed
  qed (use assms(3) in \<open>simp add: kept_on_ingress\<close>)
  then show ?thesis by (simp add: l map_nth concat_if egress_ports_def)
qed

definition sync_pair :: "ptp_message \<Rightarrow> ptp_message \<Rightarrow> bool" where
  "sync_pair s f \<longleftrightarrow> msg_type s = SYNC \<and> msg_type f = FOLLOW_UP \<and> sequenceId f = sequenceId s
    \<and> sourcePortIdentity f = sourcePortIdentity s \<and> domainNumber f = domainNumber s"

lemma sync_pair_match:
  assumes "sync_pair s f"
  shows "tc_match_syfup n f \<lparr>txd_msg = s, residence = r, ingress_port = n\<rparr> = TC_SYNC_FUP"
    "tc_match_syfup n s \<lparr>txd_msg = f, residence = r, ingress_port = n\<rparr> = TC_FUP_SYNC"
    "sync_or_fup s" "sync_or_fup f" "tc_blocked c b q p f = tc_blocked c b q p s"
  using assms by (simp_all add: sync_pair_def tc_match_syfup_def sync_or_fup_def) (rule tc_blocked_cong, simp_all)

lemma blocked_host [simp]: "tc_blocked c b q p (m\<lparr>ts_host := x\<rparr>) = tc_blocked c b q p m"
  by (rule tc_blocked_cong) simp_all

lemma ts_host_fields [simp]:
  "unmatched n (m\<lparr>ts_host := x\<rparr>) = unmatched n m"
  "sync_pair (m\<lparr>ts_host := x\<rparr>) f = sync_pair m f" "sync_pair m (f\<lparr>ts_host := x\<rparr>) = sync_pair m f"
  "egress_ports c qi ps (m\<lparr>ts_host := x\<rparr>) = egress_ports c qi ps m"
  "forwarded_correction q (m\<lparr>ts_host := x\<rparr>) r = forwarded_correction q m r"
  by (simp_all add: unmatched_def fun_eq_iff tc_match_syfup_def sync_pair_def egress_ports_def
      forwarded_correction_def)

lemma egress_pair: "sync_pair s f \<Longrightarrow> egress_ports c qi ps f = egress_ports c qi ps s"
  by (simp add: egress_ports_def sync_pair_match)

lemma egress_kept:
  assumes "qi < length ps"
  shows "egress_ports c qi (kept_on c qi m R ps) m' = egress_ports c qi ps m'"
proof -
  have "tc_blocked c (i = qi) (kept_on c qi m R ps ! qi) (kept_on c qi m R ps ! i) m'
     = tc_blocked c (i = qi) (ps ! qi) (ps ! i) m'" if "i < length ps" for i
    using that by (simp add: kept_on_ingress [OF assms] kept_on_nth) (metis stash_fields(1,2) tc_blocked_cong)
  then show ?thesis by (auto simp: egress_ports_def kept_on_nth(2) intro: filter_cong)
qed

text \<open>The environments of an event in which every operation succeeds.\<close>

definition all_ok :: "(nat \<Rightarrow> 'd env) \<Rightarrow> bool" where
  "all_ok es \<longleftrightarrow> (\<forall>i n. tx_ok (es i) n) \<and> (\<forall>i. malloc_ok (es i)) \<and> (\<forall>i. \<not> tmv_is_zero (tx_hwts (es i)))"

definition residence_on :: "(nat \<Rightarrow> 'd env) \<Rightarrow> 'd PtpPort list \<Rightarrow> tmv_t \<Rightarrow> nat \<Rightarrow> tmv_t" where
  "residence_on es ps ingress i = residence_time (es i) (ps ! i) ingress"

lemma residence_stash [simp]: "residence_time e (stash p m r n) t = residence_time e p t"
  by (simp add: residence_time_def)

lemma residence_kept: "i < length ps \<Longrightarrow> residence_time e (kept_on c qi m R ps ! i) t = residence_time e (ps ! i) t"
  by (simp add: kept_on_nth)

definition forwardable :: "(nat \<Rightarrow> 'd env) \<Rightarrow> 'd PtpPort list \<Rightarrow> nat \<Rightarrow> ptp_message \<Rightarrow> ptp_message \<Rightarrow> bool" where
  "forwardable es ps qi s f \<longleftrightarrow> all_ok es \<and> qi < length ps \<and> sync_pair s f
    \<and> (\<forall>p \<in> set ps. unmatched (PORT_NUMBER (ps ! qi)) s p \<and> unmatched (PORT_NUMBER (ps ! qi)) f p)"

lemma forwardable_host [simp]:
  "forwardable es ps qi (s\<lparr>ts_host := x\<rparr>) f = forwardable es ps qi s f"
  "forwardable es ps qi s (f\<lparr>ts_host := x\<rparr>) = forwardable es ps qi s f"
  by (simp_all add: forwardable_def)

lemma event_first:
  assumes "forwardable es ps qi s f"
  shows "tc_fwd_event p2p es c qi s ps = Some (kept_on c qi (s\<lparr>ts_host := mono_now (es qi)\<rparr>) (residence_on es ps (hwts_ts s)) ps,
     map (\<lambda>i. (i, s\<lparr>ts_host := mono_now (es qi)\<rparr>)) (egress_ports c qi ps s))"
proof -
  let ?s = "s\<lparr>ts_host := mono_now (es qi)\<rparr>"
  note a = assms [unfolded forwardable_def]
  have p: "sync_pair s f" using a by blast
  have "each_port (tc_stamp p2p es c qi ?s) [0..<length ps] ps = Some (kept_on c qi ?s (residence_on es ps (hwts_ts s)) ps, [])"
    by (rule first_of_pair [where p2p = p2p and es = es and k = 1])
      (use a sync_pair_match [OF p] in \<open>simp_all add: tc_stamp_def all_ok_def residence_on_def sync_or_fup_def\<close>)
  moreover have "each_port (tc_send p2p es c 0 qi ?s) [0..<length ps] ps = Some (ps, map (\<lambda>i. (i, ?s)) (egress_ports c qi ps ?s))"
    by (rule send_all) (use a in \<open>simp add: all_ok_def\<close>)
  ultimately show ?thesis by (simp add: tc_fwd_event_def Let_def)
qed

lemma folup_first:
  assumes "forwardable es ps qi s f"
  shows "tc_fwd_folup p2p es c n qi f ps = Some (kept_on c qi (f\<lparr>ts_host := mono_now (es qi)\<rparr>) (\<lambda>_. tmv_zero) ps, [])"
proof -
  let ?f = "f\<lparr>ts_host := mono_now (es qi)\<rparr>"
  note a = assms [unfolded forwardable_def]
  have p: "sync_pair s f" using a by blast
  have "each_port (tc_follow p2p es c n qi ?f) [0..<length ps] ps = Some (kept_on c qi ?f (\<lambda>_. tmv_zero) ps, [])"
    by (rule first_of_pair [where p2p = p2p and es = es and k = n])
      (use a sync_pair_match [OF p] in \<open>simp_all add: tc_follow_def all_ok_def sync_or_fup_def\<close>)
  then show ?thesis by (simp add: tc_fwd_folup_def Let_def)
qed

text \<open>The follow up as it leaves a port.\<close>

definition corrected :: "(nat \<Rightarrow> 'd env) \<Rightarrow> 'd PtpPort list \<Rightarrow> nat \<Rightarrow> tmv_t \<Rightarrow> timespec \<Rightarrow> ptp_message \<Rightarrow> nat \<Rightarrow> ptp_message" where
  "corrected es ps qi ingress now f i =
     f\<lparr>ts_host := now, correction := forwarded_correction (ps ! qi) f (residence_on es ps ingress i)\<rparr>"

lemma folup_second:
  assumes "forwardable es' ps qi s f"
  shows "tc_fwd_folup p2p es' c n qi f (kept_on c qi s (residence_on es ps t) ps)
    = Some (ps, map (\<lambda>i. (i, corrected es ps qi t (mono_now (es' qi)) f i)) (egress_ports c qi ps s))"
proof -
  let ?f = "f\<lparr>ts_host := mono_now (es' qi)\<rparr>"
  note a = assms [unfolded forwardable_def]
  have p: "sync_pair s ?f" using a by simp
  note m = sync_pair_match [OF p]
  have "each_port (tc_follow p2p es' c n qi ?f) [0..<length ps] (kept_on c qi s (residence_on es ps t) ps)
    = Some (ps, map (\<lambda>i. (i, ?f\<lparr>correction := forwarded_correction (ps ! qi) ?f (residence_on es ps t i)\<rparr>)) (egress_ports c qi ps s))"
  proof (rule second_of_pair [where p2p = p2p and es = es' and k = n and ?R2.0 = "\<lambda>_. tmv_zero" and K = TC_SYNC_FUP])
    fix i xs
    assume x: "i < length ps" "xs ! qi = ps ! qi" "xs ! i = kept_on c qi s (residence_on es ps t) ps ! i"
    have "tc_blocked c (i = qi) (ps ! qi) (xs ! i) ?f = tc_blocked c (i = qi) (ps ! qi) (ps ! i) s"
      unfolding m(5) x(3) using x(1) by (simp add: kept_on_nth) (metis stash_fields(1,2) tc_blocked_cong)
    then show "tc_follow p2p es' c n qi ?f i xs = (if tc_blocked c (i = qi) (ps ! qi) (ps ! i) s then Some (xs, [])
        else tc_complete p2p (es' i) n qi i ?f tmv_zero xs)"
      by (simp add: tc_follow_def x(2))
  qed (use a m in \<open>simp_all add: all_ok_def\<close>)
  moreover have "length (kept_on c qi s (residence_on es ps t) ps) = length ps" by (rule kept_on_nth)
  ultimately show ?thesis by (simp add: tc_fwd_folup_def Let_def corrected_def)
qed

lemma event_second:
  assumes "forwardable es' ps qi s f"
  shows "tc_fwd_event p2p es' c qi s (kept_on c qi f (\<lambda>_. tmv_zero) ps)
    = Some (ps, map (\<lambda>i. (i, s\<lparr>ts_host := mono_now (es' qi)\<rparr>)) (egress_ports c qi ps s)
        @ map (\<lambda>i. (i, corrected es' ps qi (hwts_ts s) (ts_host f) f i)) (egress_ports c qi ps s))"
proof -
  let ?s = "s\<lparr>ts_host := mono_now (es' qi)\<rparr>" and ?ps = "kept_on c qi f (\<lambda>_. tmv_zero) ps"
  note a = assms [unfolded forwardable_def]
  have q: "qi < length ps" using a by blast
  have p: "sync_pair ?s f" using a by simp
  note m = sync_pair_match [OF p]
  have l: "length ?ps = length ps" by (rule kept_on_nth)
  have "each_port (tc_stamp p2p es' c qi ?s) [0..<length ps] ?ps
    = Some (ps, map (\<lambda>i. (i, f\<lparr>correction := forwarded_correction (ps ! qi) f (residence_on es' ps (hwts_ts s) i)\<rparr>)) (egress_ports c qi ps f))"
  proof (rule second_of_pair [where p2p = p2p and es = es' and k = 1 and ?R2.0 = "residence_on es' ps (hwts_ts s)"
        and K = TC_FUP_SYNC])
    fix i xs
    assume x: "i < length ps" "xs ! qi = ps ! qi" "xs ! i = ?ps ! i"
    have b: "tc_blocked c (i = qi) (ps ! qi) (xs ! i) ?s = tc_blocked c (i = qi) (ps ! qi) (ps ! i) f"
      unfolding m(5) x(3) using x(1) by (simp add: kept_on_nth) (metis stash_fields(1,2) tc_blocked_cong)
    have r: "residence_time (es' i) (xs ! i) (hwts_ts ?s) = residence_on es' ps (hwts_ts s) i"
      using x(1,3) by (simp add: residence_kept residence_on_def)
    show "tc_stamp p2p es' c qi ?s i xs = (if tc_blocked c (i = qi) (ps ! qi) (ps ! i) f then Some (xs, [])
        else tc_complete p2p (es' i) 1 qi i ?s (residence_on es' ps (hwts_ts s) i) xs)"
      unfolding tc_stamp_def x(2) b r using a by (simp add: all_ok_def)
  qed (use a m in \<open>simp_all add: all_ok_def\<close>)
  moreover have "each_port (tc_send p2p es' c 0 qi ?s) [0..<length ?ps] ?ps = Some (?ps, map (\<lambda>i. (i, ?s)) (egress_ports c qi ?ps ?s))"
    by (rule send_all) (use a in \<open>simp add: all_ok_def\<close>)
  moreover have "egress_ports c qi ps f = egress_ports c qi ps s" using a by (simp add: egress_pair)
  ultimately show ?thesis
    by (simp add: tc_fwd_event_def Let_def egress_kept [OF q] l corrected_def)
qed

text \<open>
  C9: A transparent clock passes a two step Sync and its Follow_Up, in either order of arrival, to
  exactly the same egress ports, and the Follow_Up leaves each port with the residence time of the
  Sync on that port, the peer delay of the ingress link and its asymmetry added to its
  correction once; afterwards no port has kept anything and the references are as before.
  (All transmissions succeed and are time stamped, and no earlier record matches the pair.)
\<close>

theorem residence_two_step:
  assumes "forwardable es ps qi s f" "forwardable es' ps qi s f" "\<not> one_step ats s"
  shows "\<exists>ps1 ps2.
      tc_fwd_sync p2p es ats c qi s ps = Some (ps1, map (\<lambda>i. (i, s\<lparr>ts_host := mono_now (es qi)\<rparr>)) (egress_ports c qi ps s), False)
    \<and> tc_fwd_folup p2p es' c 0 qi f ps1
        = Some (ps, map (\<lambda>i. (i, corrected es ps qi (hwts_ts s) (mono_now (es' qi)) f i)) (egress_ports c qi ps s))
    \<and> tc_fwd_folup p2p es c 0 qi f ps = Some (ps2, [])
    \<and> tc_fwd_sync p2p es' ats c qi s ps2
        = Some (ps, map (\<lambda>i. (i, s\<lparr>ts_host := mono_now (es' qi)\<rparr>)) (egress_ports c qi ps s)
            @ map (\<lambda>i. (i, corrected es' ps qi (hwts_ts s) (mono_now (es qi)) f i)) (egress_ports c qi ps s), False)"
proof -
  let ?s = "s\<lparr>ts_host := mono_now (es qi)\<rparr>" and ?f = "f\<lparr>ts_host := mono_now (es qi)\<rparr>"
  have 1: "forwardable es' ps qi ?s f" "forwardable es' ps qi s ?f" using assms(2) by simp_all
  note e = event_first [OF assms(1)] folup_second [OF 1(1)] folup_first [OF assms(1)] event_second [OF 1(2)]
  show ?thesis
    using assms(3) by (simp add: tc_fwd_sync_def e corrected_def forwarded_correction_def)
qed


subsection \<open>One step Syncs\<close>

lemma generated_type: "msg_type (generated_follow_up i m) = FOLLOW_UP"
proof -
  have "(8 OR (x AND 0xf0)) AND 15 = (8::u8)" for x :: u8
    by (simp add: bit.conj_disj_distrib2 and.assoc)
  then show ?thesis by (simp add: msg_type_def generated_follow_up_def)
qed

lemma generated_fields:
  "sequenceId (generated_follow_up i m) = sequenceId m" "domainNumber (generated_follow_up i m) = domainNumber m"
  "sourcePortIdentity (generated_follow_up i m) = sourcePortIdentity m" "correction (generated_follow_up i m) = 0"
  by (simp_all add: generated_follow_up_def zero_msg_def)

lemma flag_fields [simp]:
  "unmatched n (m\<lparr>flagField0 := fl\<rparr>) = unmatched n m"
  "egress_ports c qi ps (m\<lparr>flagField0 := fl\<rparr>) = egress_ports c qi ps m"
  by (simp_all add: unmatched_def fun_eq_iff tc_match_syfup_def egress_ports_def tc_blocked_cong [where m' = "m\<lparr>flagField0 := fl\<rparr>" and m = m])

text \<open>
  A one step Sync leaves a transparent clock as a two step one: every egress port sends
  the Sync with the two step flag and a generated Follow_Up, which carries the origin time stamp
  and, as its correction, the residence time, the peer delay and the asymmetry; nothing is kept.
\<close>

lemma mid_generated [simp]: "mid (generated_follow_up i m) = i"
  by (simp add: generated_follow_up_def)

lemma with_refs_undo: "mid m = i \<Longrightarrow> with_refs qi (msg_put m) (with_refs qi (msg_allocate i) ps) = ps"
  by (cases "qi < length ps") (simp_all add: with_refs_def list_update_beyond)

lemma with_refs_nth:
  "length (with_refs qi f ps) = length ps"
  "i < length ps \<Longrightarrow> with_refs qi f ps ! i = (if i = qi then (ps ! i)\<lparr>refs := f (refs (ps ! i))\<rparr> else ps ! i)"
  by (simp_all add: with_refs_def nth_list_update)

lemma with_refs_egress:
  "qi < length ps \<Longrightarrow> egress_ports c qi (with_refs qi f ps) m = egress_ports c qi ps m"
  unfolding egress_ports_def with_refs_nth(1)
  by (rule filter_cong) (auto simp: with_refs_nth tc_blocked_def PORT_NUMBER_def Let_def)

lemma with_refs_corrected:
  assumes "qi < length ps" "i < length ps"
  shows "corrected es (with_refs qi f ps) qi t now m i = corrected es ps qi t now m i"
  using assms by (simp add: corrected_def forwarded_correction_def residence_on_def residence_time_def with_refs_nth)

lemma with_refs_forwardable:
  assumes "forwardable es ps qi s m"
  shows "forwardable es (with_refs qi f ps) qi s m"
proof -
  have q: "qi < length ps" using assms by (simp add: forwardable_def)
  have n: "PORT_NUMBER (with_refs qi f ps ! qi) = PORT_NUMBER (ps ! qi)"
    using q by (simp add: with_refs_nth PORT_NUMBER_def)
  have "\<exists>p' \<in> set ps. tc_transmitted p = tc_transmitted p'" if "p \<in> set (with_refs qi f ps)" for p
  proof -
    have "p = (ps ! qi)\<lparr>refs := f (refs (ps ! qi))\<rparr> \<or> p \<in> set ps"
      using that set_update_subset_insert [of ps qi "(ps ! qi)\<lparr>refs := f (refs (ps ! qi))\<rparr>"]
      by (auto simp: with_refs_def)
    then show ?thesis using q by (auto intro: bexI [of _ "ps ! qi"])
  qed
  then show ?thesis
    using assms unfolding forwardable_def n with_refs_nth(1) unmatched_def by metis
qed

lemma residence_one_step:
  assumes "one_step ats s" "msg_type s = SYNC" "pool (es qi) = i # rest" "all_ok es" "qi < length ps"
    and "\<forall>p \<in> set ps. unmatched (PORT_NUMBER (ps ! qi)) s p
          \<and> unmatched (PORT_NUMBER (ps ! qi)) (generated_follow_up i s) p"
  shows "tc_fwd_sync p2p es ats c qi s ps = Some (ps,
      map (\<lambda>k. (k, s\<lparr>flagField0 := flagField0 s OR TWO_STEP, ts_host := mono_now (es qi)\<rparr>)) (egress_ports c qi ps s)
      @ map (\<lambda>k. (k, corrected es ps qi (hwts_ts s) (mono_now (es qi)) (generated_follow_up i s) k)) (egress_ports c qi ps s),
      False)"
proof -
  let ?s = "s\<lparr>flagField0 := flagField0 s OR TWO_STEP\<rparr>" and ?f = "generated_follow_up i s"
  have f: "forwardable es ps qi ?s ?f"
    using assms(2,4-6) by (simp add: forwardable_def sync_pair_def generated_type generated_fields)
  let ?ps = "with_refs qi (msg_allocate i) ps"
  note f' = with_refs_forwardable [OF f, of "msg_allocate i"]
  have 1: "forwardable es ?ps qi (?s\<lparr>ts_host := mono_now (es qi)\<rparr>) ?f" using f' by (simp only: forwardable_host)
  have "tc_fwd_folup p2p es c 2 qi ?f (kept_on c qi (?s\<lparr>ts_host := mono_now (es qi)\<rparr>) (residence_on es ?ps (hwts_ts ?s)) ?ps)
    = Some (?ps, map (\<lambda>k. (k, corrected es ?ps qi (hwts_ts ?s) (mono_now (es qi)) ?f k)) (egress_ports c qi ?ps (?s\<lparr>ts_host := mono_now (es qi)\<rparr>)))"
    by (rule folup_second [OF 1])
  moreover have "map (\<lambda>k. (k, corrected es ?ps qi t now m k)) (egress_ports c qi ps s)
    = map (\<lambda>k. (k, corrected es ps qi t now m k)) (egress_ports c qi ps s)" for t now m
    by (rule map_cong) (auto simp: egress_ports_def with_refs_corrected assms(5))
  ultimately show ?thesis
    using assms(1,3) by (simp add: tc_fwd_sync_def Let_def event_first [OF f'] with_refs_egress [OF assms(5)] with_refs_undo)
qed

subsection \<open>Delay requests and responses\<close>

definition request_response :: "ptp_message \<Rightarrow> ptp_message \<Rightarrow> bool" where
  "request_response req resp \<longleftrightarrow> msg_type req = DELAY_REQ \<and> msg_type resp = DELAY_RESP
    \<and> sequenceId resp = sequenceId req \<and> requestingPortIdentity resp = sourcePortIdentity req"

lemma request_forwarded:
  assumes "all_ok es" "qi < length ps" "msg_type req = DELAY_REQ"
  shows "tc_fwd_request p2p es c qi req ps
    = Some (kept_on c qi (req\<lparr>ts_host := mono_now (es qi)\<rparr>) (residence_on es ps (hwts_ts req)) ps,
        map (\<lambda>i. (i, req\<lparr>ts_host := mono_now (es qi)\<rparr>)) (egress_ports c qi ps req))"
proof -
  let ?r = "req\<lparr>ts_host := mono_now (es qi)\<rparr>"
  let ?G = "\<lambda>i. if tc_blocked c (i = qi) (ps ! qi) (ps ! i) ?r then ps ! i
    else stash (ps ! i) ?r (residence_on es ps (hwts_ts req) i) (PORT_NUMBER (ps ! qi))"
  have "each_port (tc_stamp p2p es c qi ?r) [0..<length ps] ps = Some (map ?G [0..<length ps], concat (map (\<lambda>i. []) [0..<length ps]))"
  proof (rule each_port_all [where qi = qi])
    fix i xs
    assume i: "xs ! qi = ps ! qi" "xs ! i = ps ! i"
    have "xs[i := ps ! i] = xs" using list_update_id [of xs i] by (simp only: i(2))
    then show "tc_stamp p2p es c qi ?r i xs = Some (xs[i := ?G i], [])"
      using assms(1,3) by (simp add: tc_stamp_def i all_ok_def tc_complete_def tc_complete_request_def residence_on_def)
  qed simp
  moreover have "each_port (tc_send p2p es c 0 qi ?r) [0..<length ps] ps = Some (ps, map (\<lambda>i. (i, ?r)) (egress_ports c qi ps ?r))"
    by (rule send_all) (use assms(1) in \<open>simp add: all_ok_def\<close>)
  ultimately show ?thesis by (simp add: tc_fwd_request_def tc_fwd_event_def Let_def kept_on_def)
qed


lemma each_port_append:
  "each_port f (xs @ ys) ps = (case each_port f xs ps of None \<Rightarrow> None
     | Some (ps, s) \<Rightarrow> map_option (\<lambda>(ps', s'). (ps', s @ s')) (each_port f ys ps))"
  by (induction xs arbitrary: ps) (auto split: option.split simp: option.map_comp o_def case_prod_unfold option.map_ident)

lemma each_port_idle: "\<forall>i \<in> set is. f i ps = Some (ps, []) \<Longrightarrow> each_port f is ps = Some (ps, [])"
  by (induction "is") simp_all

lemma each_port_once:
  assumes "k < n" "f k ps = Some (ps', s)"
    "\<And>i. i < n \<Longrightarrow> i \<noteq> k \<Longrightarrow> f i ps = Some (ps, [])" "\<And>i. i < n \<Longrightarrow> i \<noteq> k \<Longrightarrow> f i ps' = Some (ps', [])"
  shows "each_port f [0..<n] ps = Some (ps', s)"
proof -
  have "[0..<n] = [0..<k] @ k # [Suc k..<n]" using assms(1) upt_add_eq_append [of 0 k "n - k"] by (simp add: upt_conv_Cons [symmetric])
  moreover have "each_port f [0..<k] ps = Some (ps, [])" by (rule each_port_idle) (use assms(1,3) in simp)
  moreover have "each_port f [Suc k..<n] ps' = Some (ps', [])" by (rule each_port_idle) (use assms(4) in simp)
  ultimately show ?thesis using assms(2) by (simp add: each_port_append)
qed

lemma response_idle:
  assumes "\<forall>txd \<in> set (tc_transmitted q). tc_match_delay (PORT_NUMBER p) resp txd \<noteq> TC_DELAY_REQRESP"
  shows "tc_complete_response p2p e n q p resp = (q, p, [])"
  using assms by (simp add: tc_complete_response_def find_None_iff [THEN iffD2])

definition numbered :: "'d PtpPort list \<Rightarrow> bool" where
  "numbered ps \<longleftrightarrow> distinct (map PORT_NUMBER ps)"

text \<open>
  C12: A delay request forwarded by a transparent clock brings its response back: the
  response that arrives on a port the request went out of is sent out of the port the request
  came in by, and no other, with the residence time of the request on that port added to the
  correction, and the record of that port is released.
\<close>

theorem delay_response_routed:
  assumes "request_response req resp" "all_ok es" "all_ok es'" "qi < length ps" "numbered ps"
    and "ei \<in> set (egress_ports c qi ps req)" "qi \<in> set (egress_ports c ei ps resp)"
    and "\<forall>n. \<forall>txd \<in> set (tc_transmitted (ps ! ei)). tc_match_delay n resp txd = TC_MISMATCH"
  shows "\<exists>ps1. tc_fwd_request p2p es c qi req ps
        = Some (ps1, map (\<lambda>i. (i, req\<lparr>ts_host := mono_now (es qi)\<rparr>)) (egress_ports c qi ps req))
    \<and> tc_fwd_response p2p es' c ei resp ps1
        = Some (ps1[ei := ps ! ei], [(qi, resp\<lparr>ts_host := mono_now (es' ei),
            correction := correction resp + tmv_to_TimeInterval (residence_on es ps (hwts_ts req) ei)\<rparr>)])"
proof -
  let ?req = "req\<lparr>ts_host := mono_now (es qi)\<rparr>" and ?resp = "resp\<lparr>ts_host := mono_now (es' ei)\<rparr>"
  let ?R = "residence_on es ps (hwts_ts req)"
  let ?t = "\<lparr>txd_msg = ?req, residence = ?R ei, ingress_port = PORT_NUMBER (ps ! qi)\<rparr>"
  define ps1 where "ps1 = kept_on c qi ?req ?R ps"
  have l: "length ps1 = length ps" by (simp add: ps1_def kept_on_nth)
  have e: "ei < length ps" "ei \<noteq> qi" "ps1 ! ei = stash (ps ! ei) ?req (?R ei) (PORT_NUMBER (ps ! qi))"
    using assms(6) by (auto simp: egress_ports_def ps1_def kept_on_nth)
  have q: "ps1 ! qi = ps ! qi" using assms(4) by (simp add: ps1_def kept_on_ingress)
  have n: "PORT_NUMBER (ps1 ! i) = PORT_NUMBER (ps ! i)" if "i < length ps" for i
    using that by (simp add: ps1_def kept_on_nth)
  have nm: "tc_match_delay k ?resp txd = tc_match_delay k resp txd" for k txd by (simp add: tc_match_delay_def Let_def)
  have mm: "tc_match_delay k ?resp ?t = (if k = PORT_NUMBER (ps ! qi) then TC_DELAY_REQRESP else TC_MISMATCH)" for k
    using assms(1) by (simp add: tc_match_delay_def request_response_def Let_def)
  have mt: "msg_type resp = DELAY_RESP" using assms(1) by (simp add: request_response_def)
  have t: "?t \<notin> set (tc_transmitted (ps ! ei))" using assms(8) mm nm by (metis tc_match.distinct(5))
  have u: "unstash (ps1 ! ei) ?t = ps ! ei" unfolding e(3) by (rule unstash_stash [OF t])
  have tr: "tc_transmitted (ps1 ! ei) = tc_transmitted (ps ! ei) @ [?t]" unfolding e(3) by (simp add: stash_def)
  have idle: "tc_follow p2p es' c 0 ei ?resp i xs = Some (xs, [])"
    if "i < length ps" "i \<noteq> qi" "xs ! i = ps1 ! i \<or> i = ei"
      "set (tc_transmitted (xs ! ei)) \<subseteq> insert ?t (set (tc_transmitted (ps ! ei)))" for i xs
  proof (cases "i = ei")
    case True
    then show ?thesis by (simp add: tc_follow_def)
  next
    case False
    have "PORT_NUMBER (xs ! i) \<noteq> PORT_NUMBER (ps ! qi)"
      using that(1-3) False assms(4,5) n by (auto simp: numbered_def distinct_conv_nth)
    then have "tc_complete_response p2p (es' i) 0 (xs ! ei) (xs ! i) ?resp = (xs ! ei, xs ! i, [])"
      using that(4) assms(8) mm nm by (intro response_idle) auto
    then show ?thesis by (simp add: tc_follow_def tc_complete_def mt Let_def)
  qed
  have find: "find (\<lambda>txd. tc_match_delay (PORT_NUMBER (ps ! qi)) ?resp txd = TC_DELAY_REQRESP) (tc_transmitted (ps1 ! ei)) = Some ?t"
  proof -
    have "\<forall>x \<in> set xs. tc_match_delay k ?resp x = TC_MISMATCH \<Longrightarrow> tc_match_delay k ?resp t = TC_DELAY_REQRESP
      \<Longrightarrow> find (\<lambda>txd. tc_match_delay k ?resp txd = TC_DELAY_REQRESP) (xs @ [t]) = Some t" for k xs t
      by (induction xs) auto
    then show ?thesis unfolding tr using assms(8) mm nm by simp
  qed
  let ?out = "?resp\<lparr>correction := correction resp + tmv_to_TimeInterval (?R ei)\<rparr>"
  have nb: "\<not> tc_blocked c False (ps1 ! ei) (ps1 ! qi) ?resp"
    using assms(7) e(2) by (simp add: egress_ports_def q e(3) blocked_stash)
  have "tc_complete_response p2p (es' qi) 0 (ps1 ! ei) (ps1 ! qi) ?resp = (ps ! ei, ps ! qi, [?out])"
    using find assms(3) u by (simp add: tc_complete_response_def q send_failed_def all_ok_def)
  then have once: "tc_follow p2p es' c 0 ei ?resp qi ps1 = Some (ps1[ei := ps ! ei], [(qi, ?out)])"
    using nb e(1,2) assms(4) q l by (simp add: tc_follow_def tc_complete_def mt Let_def list_update_swap)
       (metis list_update_id list_update_swap)
  have "each_port (tc_follow p2p es' c 0 ei ?resp) [0..<length ps] ps1 = Some (ps1[ei := ps ! ei], [(qi, ?out)])"
    using assms(4) once
  proof (rule each_port_once)
    fix i
    assume i: "i < length ps" "i \<noteq> qi"
    show "tc_follow p2p es' c 0 ei ?resp i ps1 = Some (ps1, [])" by (rule idle [OF i]) (simp_all add: tr)
    show "tc_follow p2p es' c 0 ei ?resp i (ps1[ei := ps ! ei]) = Some (ps1[ei := ps ! ei], [])"
      by (rule idle [OF i]) (use e(1) l in \<open>auto simp: nth_list_update\<close>)
  qed
  then show ?thesis
    using request_forwarded [OF assms(2,4), of req p2p c] assms(1)
    by (simp add: request_response_def tc_fwd_response_def Let_def l ps1_def [symmetric])
qed


subsection \<open>Examples\<close>

text \<open>A transparent clock with three ports.\<close>

definition sample_tc :: "u16 \<Rightarrow> int PtpPort" where
  "sample_tc n = (started_port 1)\<lparr>portIdentity := \<lparr>clockIdentity = sample_cid 9, portNumber = n\<rparr>,
     state := PS_MASTER, slave_fsm := False, foreign_masters := [], best := None, tc_transmitted := [],
     tc_spanning_tree := False, peer_delay := tmv_of 200, asymmetry := 0, tx_timestamp_offset := 0\<rparr>"

definition sample_tcs :: "int PtpPort list" where
  "sample_tcs = [sample_tc 1, sample_tc 2, sample_tc 3]"

definition tc_sync :: ptp_message where
  "tc_sync = (zero_msg 3)\<lparr>flagField0 := 2, sourcePortIdentity := sample_parent, sequenceId := 7, hwts_ts := tmv_of 400\<rparr>"

lemma sample_tc_sel:
  "PORT_NUMBER (sample_tc n) = unat n" "tc_transmitted (sample_tc n) = []" "state (sample_tc n) = PS_MASTER"
  "tc_spanning_tree (sample_tc n) = False" "peer_delay (sample_tc n) = tmv_of 200" "asymmetry (sample_tc n) = 0"
  "tx_timestamp_offset (sample_tc n) = 0" "slave_fsm (sample_tc n) = False"
  by (simp_all add: sample_tc_def PORT_NUMBER_def)

lemma sample_tcs_sel:
  "length sample_tcs = 3" "sample_tcs ! 0 = sample_tc 1" "sample_tcs ! Suc 0 = sample_tc 2" "sample_tcs ! 2 = sample_tc 3"
  "set sample_tcs = {sample_tc 1, sample_tc 2, sample_tc 3}"
  by (auto simp: sample_tcs_def)

lemma three: "[0..<3] = [0, 1, 2]"
  by (simp add: upt_rec)

lemma sample_egress:
  "egress_ports sample_data 0 sample_tcs m = [1, 2]" "egress_ports sample_data 2 sample_tcs m = [0, 1]"
  by (simp_all add: egress_ports_def sample_tcs_sel three tc_blocked_def sample_tc_sel)

lemma sample_all_ok: "all_ok (\<lambda>_. sample_env)"
proof -
  have "tmv_is_zero (tmv_of 1000) = False" by code_simp
  then show ?thesis by (simp add: all_ok_def sample_env_def)
qed

lemma sample_residence:
  "i \<in> {0, 1, 2} \<Longrightarrow> residence_on (\<lambda>_. sample_env) sample_tcs (tmv_of 400) i = tmv_of 600"
proof -
  have "tmv_sub (tmv_of 1000) (tmv_of 400) = tmv_of 600" by code_simp
  then show "i \<in> {0, 1, 2} \<Longrightarrow> residence_on (\<lambda>_. sample_env) sample_tcs (tmv_of 400) i = tmv_of 600"
    by (auto simp: residence_on_def residence_time_def sample_tcs_sel sample_tc_sel sample_env_def ts_add_def int_ops_def Let_def)
qed

lemma sample_unmatched: "\<forall>p \<in> set sample_tcs. unmatched n m p"
  by (auto simp: sample_tcs_sel unmatched_def sample_tc_sel)

subsection \<open>The spanning tree\<close>

text \<open>
  With the option \<open>tc_spanning_tree\<close>, a message of the clock's domain passes only from a
  synchronizing port to a master port, never to the port it came from nor to the local
  management port; a delay request passes only to a synchronizing port.
\<close>

lemma spanning_tree_blocks:
  assumes "tc_spanning_tree q" "domainNumber m = dds_domainNumber c"
  shows "\<not> tc_blocked c same q p m \<longleftrightarrow> \<not> same \<and> PORT_NUMBER p \<noteq> 0
    \<and> (if msg_type m = DELAY_REQ
        then (synchronizing (state q) \<or> state q = PS_MASTER \<or> state q = PS_GRAND_MASTER) \<and> synchronizing (state p)
        else synchronizing (state q) \<and> (state p = PS_MASTER \<or> state p = PS_GRAND_MASTER))"
  using assms by (cases "state q"; cases "state p") (simp_all add: tc_blocked_def Let_def synchronizing_def)

subsection \<open>References\<close>










text \<open>The ports keep their records in order and their references balanced.\<close>

definition ports_balanced :: "'d PtpPort list \<Rightarrow> 'd PtpPort list \<Rightarrow> bool" where
  "ports_balanced ps ps' \<longleftrightarrow> length ps' = length ps \<and> ((\<forall>i < length ps. masters_ok (ps ! i)) \<longrightarrow>
    (\<forall>i < length ps. masters_ok (ps' ! i) \<and> balance (ps' ! i) = balance (ps ! i)))"

lemma ports_balanced_refl [simp]: "ports_balanced ps ps"
  by (simp add: ports_balanced_def)















subsection \<open>Operations that return\<close>

text \<open>
  An operation that returns, with every reference accounted for. With all transmissions
  succeeding every operation is one; without a record of a pair to release, that is for all
  messages but Sync and Follow_Up, so is every operation whatever fails.
\<close>

definition all_sent :: "(nat \<Rightarrow> 'd env) \<Rightarrow> bool" where
  "all_sent es \<longleftrightarrow> (\<forall>i n. tx_ok (es i) n)"


text \<open>What a message needs for its loops to return.\<close>

definition returns :: "(nat \<Rightarrow> 'd env) \<Rightarrow> ptp_message \<Rightarrow> bool" where
  "returns es m \<longleftrightarrow> all_sent es \<or> msg_type m \<noteq> SYNC \<and> msg_type m \<noteq> FOLLOW_UP"

lemma returns_fields [simp]: "returns es (m\<lparr>ts_host := x\<rparr>) = returns es m" "returns es (m\<lparr>flagField0 := fl\<rparr>) = returns es m"
  by (simp_all add: returns_def)












subsection \<open>A failed transmission\<close>

lemma tc_transition_empty:
  "tc_transmitted p = [] \<Longrightarrow> tc_transmitted (tc_transition p2p e p) = []"
  "state p = PS_FAULTY \<Longrightarrow> tc_transmitted (tc_transition p2p e p) = []"
  by (cases "state p"; simp add: tc_transition_def Let_def portOpDisable_def flush_ops settime_def clr_tmo_def
      port_set_announce_tmo_def port_set_delay_tmo_def port_set_qualification_tmo_def)+

lemma finish_update_tc [simp]:
  "tc_transmitted (fst (finish_update e p old nxt)) = tc_transmitted p"
  "portIdentity (fst (finish_update e p old nxt)) = portIdentity p"
  by (simp_all add: finish_update_def)

lemma fault_flushes:
  assumes "portIsEnabled (state p)" "PORT_NUMBER p \<noteq> 0" "slave_fsm p \<longrightarrow> \<not> master_role (state p)"
  shows "tc_transmitted (tc_dispatch p2p e p EV_FAULT_DETECTED False) = []"
proof -
  obtain p' changed where u: "portStateUpdate e p EV_FAULT_DETECTED False = (p', changed)"
    by (cases "portStateUpdate e p EV_FAULT_DETECTED False")
  have "portIdentity p' = portIdentity p \<and> (tc_transmitted p' = [] \<or> changed \<and> state p' = PS_FAULTY)"
    using u
  proof (cases rule: portStateUpdate_cases)
    case step
    then have "state p' = PS_FAULTY" using fault_next [OF assms(1,3), of False] by simp
    moreover have "p' = fst (finish_update e p (state p) PS_FAULTY)" "changed = snd (finish_update e p (state p) PS_FAULTY)"
      using step calculation by (metis fst_conv snd_conv)+
    ultimately show ?thesis using assms(1) by (auto simp: portIsEnabled_def)
  next
    case (init q s)
    have c: "core (fst (port_initialize e q)) = core q" by simp
    have p': "p' = fst (finish_update e (fst (port_initialize e q)) (state p) s)" using init(5) by (metis fst_conv)
    have "tc_transmitted q = []" "portIdentity q = portIdentity p"
      using init(1) assms(1) by (simp_all add: portOpDisable_def flush_ops Let_def)
    then show ?thesis unfolding p' using core_eqD(5,15) [OF c] by simp
  qed
  then show ?thesis
    using assms(2) tc_transition_empty [of p' p2p e] by (auto simp: tc_dispatch_def u PORT_NUMBER_def)
qed

text \<open>
  C15: When the second message of a pair cannot be transmitted, the record of the first is released
  twice, and only then: the fault dispatched for the failed transmission has already released all
  records of an enabled port. The value \<^const>\<open>None\<close> stands for the corrupted list.
\<close>

theorem failed_forward_releases_twice:
  assumes "portIsEnabled (state p)" "PORT_NUMBER p \<noteq> 0" "slave_fsm p \<longrightarrow> \<not> master_role (state p)"
    and "\<exists>txd \<in> set (tc_transmitted p). tc_match_syfup (PORT_NUMBER q) m txd \<noteq> TC_MISMATCH"
  shows "tc_complete_syfup p2p e n q p m r = None \<longleftrightarrow> \<not> tx_ok e n"
proof -
  obtain txd where f: "find (\<lambda>txd. tc_match_syfup (PORT_NUMBER q) m txd \<noteq> TC_MISMATCH) (tc_transmitted p) = Some txd"
    using assms(4) by (cases "find (\<lambda>txd. tc_match_syfup (PORT_NUMBER q) m txd \<noteq> TC_MISMATCH) (tc_transmitted p)")
      (auto simp: find_None_iff)
  then have "txd \<in> set (tc_transmitted p)" by (auto simp: find_Some_iff)
  then show ?thesis
    using fault_flushes [OF assms(1-3), of p2p e]
    by (auto simp: tc_complete_syfup_def f Let_def send_failed_def split: prod.split)
qed

theorem residence_two_step_witness:
  "\<exists>ps1 sent. tc_fwd_folup False (\<lambda>_. sample_env) sample_data 0 0 sample_follow_up ps1 = Some (sample_tcs, sent)
    \<and> tc_fwd_sync False (\<lambda>_. sample_env) False sample_data 0 tc_sync sample_tcs = Some (ps1, [(1, tc_sync), (2, tc_sync)], False)
    \<and> map (\<lambda>(i, m). (i, correction m)) sent = [(1, 65536 * 830), (2, 65536 * 830)]"
proof -
  let ?es = "\<lambda>_::nat. sample_env"
  have p: "sync_pair tc_sync sample_follow_up"
    unfolding sync_pair_def tc_sync_def sample_follow_up_def by code_simp
  have f: "forwardable ?es sample_tcs 0 tc_sync sample_follow_up"
    using p sample_all_ok sample_unmatched by (simp add: forwardable_def sample_tcs_sel)
  have os: "\<not> one_step False tc_sync" by code_simp
  have h: "tc_sync\<lparr>ts_host := mono_now sample_env\<rparr> = tc_sync"
    by (simp add: tc_sync_def sample_env_def zero_msg_def)
  have t: "hwts_ts tc_sync = tmv_of 400" by (simp add: tc_sync_def)
  have c: "correction sample_follow_up + tmv_to_TimeInterval (tmv_of 600) + tmv_to_TimeInterval (tmv_of 200) = 54394880"
    by code_simp
  have k: "i \<in> {0, 1, 2} \<Longrightarrow> correction (corrected ?es sample_tcs 0 (tmv_of 400) (mono_now sample_env) sample_follow_up i) = 65536 * 830" for i
    unfolding corrected_def forwarded_correction_def by (simp only: sample_residence, simp add: sample_tcs_sel sample_tc_sel c)
  obtain ps1 where
    "tc_fwd_sync False ?es False sample_data 0 tc_sync sample_tcs = Some (ps1, [(1, tc_sync), (2, tc_sync)], False)"
    "tc_fwd_folup False ?es sample_data 0 0 sample_follow_up ps1
        = Some (sample_tcs, map (\<lambda>i. (i, corrected ?es sample_tcs 0 (tmv_of 400) (mono_now sample_env) sample_follow_up i)) [1, 2])"
    using residence_two_step [OF f f os, of False sample_data] unfolding sample_egress h t by auto
  then show ?thesis using k by (intro exI [of _ ps1] exI) auto
qed


text \<open>A one step Sync on the same clock.\<close>

lemma residence_one_step_witness:
  "\<exists>sent. tc_fwd_sync False (\<lambda>_. sample_env) False sample_data 0 (tc_sync\<lparr>flagField0 := 0\<rparr>) sample_tcs
      = Some (sample_tcs, [(1, tc_sync), (2, tc_sync)] @ sent, False)
    \<and> map (\<lambda>(i, m). (i, correction m)) sent = [(1, 65536 * 800), (2, 65536 * 800)]"
proof -
  let ?es = "\<lambda>_::nat. sample_env" and ?s = "tc_sync\<lparr>flagField0 := 0\<rparr>"
  have os: "one_step False ?s" "msg_type ?s = SYNC" by code_simp+
  have pl: "pool (?es 0) = 0 # [1]" by (simp add: sample_env_def)
  have q: "0 < length sample_tcs" by (simp add: sample_tcs_sel)
  have u: "\<forall>p \<in> set sample_tcs. unmatched (PORT_NUMBER (sample_tcs ! 0)) ?s p
          \<and> unmatched (PORT_NUMBER (sample_tcs ! 0)) (generated_follow_up 0 ?s) p"
    using sample_unmatched by blast
  have h: "?s\<lparr>flagField0 := flagField0 ?s OR TWO_STEP, ts_host := mono_now sample_env\<rparr> = tc_sync"
    by (simp add: tc_sync_def sample_env_def zero_msg_def)
  have t: "hwts_ts ?s = tmv_of 400" by (simp add: tc_sync_def)
  have c: "0 + tmv_to_TimeInterval (tmv_of 600) + tmv_to_TimeInterval (tmv_of 200) = 52428800" by code_simp
  have k: "i \<in> {0, 1, 2} \<Longrightarrow> correction (corrected ?es sample_tcs 0 (tmv_of 400) (mono_now sample_env) (generated_follow_up 0 ?s) i) = 65536 * 800" for i
    unfolding corrected_def forwarded_correction_def generated_fields
    by (simp only: sample_residence, use c in \<open>simp add: sample_tcs_sel sample_tc_sel\<close>)
  show ?thesis
    using residence_one_step [OF os pl sample_all_ok q u, of False sample_data] k unfolding sample_egress h t by auto
qed


definition tc_request :: ptp_message where
  "tc_request = (zero_msg 5)\<lparr>tsmt := 1, sourcePortIdentity := sample_parent, sequenceId := 4, hwts_ts := tmv_of 400\<rparr>"

definition tc_response :: ptp_message where
  "tc_response = (zero_msg 6)\<lparr>tsmt := 9, requestingPortIdentity := sample_parent, sequenceId := 4, correction := 65536\<rparr>"

theorem delay_response_routed_witness:
  "\<exists>ps1. tc_fwd_request False (\<lambda>_. sample_env) sample_data 0 tc_request sample_tcs
        = Some (ps1, [(1, tc_request), (2, tc_request)])
    \<and> tc_fwd_response False (\<lambda>_. sample_env) sample_data 2 tc_response ps1
        = Some (ps1[2 := sample_tc 3], [(0, tc_response\<lparr>correction := 65536 * 601\<rparr>)])"
proof -
  let ?es = "\<lambda>_::nat. sample_env"
  have r: "request_response tc_request tc_response"
    unfolding request_response_def tc_request_def tc_response_def by code_simp
  have q: "0 < length sample_tcs" "numbered sample_tcs" "2 \<in> set (egress_ports sample_data 0 sample_tcs tc_request)"
    "0 \<in> set (egress_ports sample_data 2 sample_tcs tc_response)"
    "\<forall>n. \<forall>txd \<in> set (tc_transmitted (sample_tcs ! 2)). tc_match_delay n tc_response txd = TC_MISMATCH"
    by (simp add: sample_tcs_def, simp add: numbered_def sample_tcs_def sample_tc_sel, simp add: sample_egress,
        simp add: sample_egress, simp add: sample_tcs_sel sample_tc_sel)
  have h: "tc_request\<lparr>ts_host := mono_now sample_env\<rparr> = tc_request" "tc_response\<lparr>ts_host := mono_now sample_env\<rparr> = tc_response"
    by (simp_all add: tc_request_def tc_response_def sample_env_def zero_msg_def)
  have t: "hwts_ts tc_request = tmv_of 400" by (simp add: tc_request_def)
  have res: "residence_on ?es sample_tcs (tmv_of 400) 2 = tmv_of 600" by (rule sample_residence) simp
  have c: "correction tc_response + tmv_to_TimeInterval (tmv_of 600) = 65536 * 601" by code_simp
  show ?thesis
    using delay_response_routed [OF r sample_all_ok sample_all_ok q, of False] unfolding sample_egress h t res c
    by (auto simp: sample_tcs_sel)
qed

lemma spanning_tree_blocks_witness:
  "tc_blocked sample_data False ((sample_tc 1)\<lparr>tc_spanning_tree := True\<rparr>) (sample_tc 2) tc_sync"
proof -
  have "domainNumber tc_sync = dds_domainNumber sample_data"
    by (simp add: tc_sync_def zero_msg_def sample_data_def clock_update_grandmaster_def)
  moreover have "msg_type tc_sync \<noteq> DELAY_REQ" by code_simp
  ultimately show ?thesis
    using spanning_tree_blocks [of "(sample_tc 1)\<lparr>tc_spanning_tree := True\<rparr>" tc_sync sample_data False "sample_tc 2"]
    by (auto simp: sample_tc_sel synchronizing_def)
qed


theorem failed_forward_releases_twice_witness:
  "tc_complete_syfup False (sample_env\<lparr>tx_ok := \<lambda>_. False\<rparr>) 1 (sample_tc 1) (stash (sample_tc 2) tc_sync tmv_zero 1)
     sample_follow_up tmv_zero = None"
proof -
  let ?p = "stash (sample_tc 2) tc_sync tmv_zero 1"
  have p: "portIsEnabled (state ?p)" "PORT_NUMBER ?p \<noteq> 0" "slave_fsm ?p \<longrightarrow> \<not> master_role (state ?p)"
    by (simp_all add: sample_tc_sel portIsEnabled_def) (simp add: stash_def sample_tc_sel)
  have "sync_pair tc_sync sample_follow_up"
    unfolding sync_pair_def tc_sync_def sample_follow_up_def by code_simp
  then have "\<exists>txd \<in> set (tc_transmitted ?p). tc_match_syfup (PORT_NUMBER (sample_tc 1)) sample_follow_up txd \<noteq> TC_MISMATCH"
    by (simp add: stash_def sample_tc_sel sync_pair_match)
  from failed_forward_releases_twice [OF p this, of False "sample_env\<lparr>tx_ok := \<lambda>_. False\<rparr>" 1 tmv_zero] show ?thesis by simp
qed

end
