(* ===== verification/Wire.thy ===== *)
theory Wire
  imports Prelude
begin

text \<open>
  Bytes of a message as msg.c and tlv.c see them. The program converts a received message to
  host byte order in place: \<open>ntohs\<close>, \<open>ntohl\<close> and \<open>net2host64\<close> on a little endian host reverse
  the bytes of a field. Every access is checked here against the end of the object it goes to,
  and an access outside it is the value \<open>BadAccess\<close>, which the theorems show not to occur.
\<close>

type_synonym bytes = "u8 list"

datatype fault = Errno errno | UnknownType | BadAccess

type_synonym 'a result = "fault + 'a"

fun and_then :: "'e + 'a \<Rightarrow> ('a \<Rightarrow> 'e + 'b) \<Rightarrow> 'e + 'b" where
  "and_then (Inl e) f = Inl e"
| "and_then (Inr x) f = f x"

lemma and_then_Inr [simp]: "and_then r f = Inr y \<longleftrightarrow> (\<exists>x. r = Inr x \<and> f x = Inr y)"
  by (cases r) auto

lemma and_then_Inl: "and_then r f = Inl e \<longleftrightarrow> r = Inl e \<or> (\<exists>x. r = Inr x \<and> f x = Inl e)"
  by (cases r) auto

subsection \<open>Reading and reversing fields\<close>

definition rd8 :: "nat \<Rightarrow> bytes \<Rightarrow> nat result" where
  "rd8 off bs = (if off < length bs then Inr (unat (bs ! off)) else Inl BadAccess)"

definition le16 :: "nat \<Rightarrow> bytes \<Rightarrow> nat" where
  "le16 off bs = unat (bs ! off) + 256 * unat (bs ! (off + 1))"

definition rd16 :: "nat \<Rightarrow> bytes \<Rightarrow> nat result" where
  "rd16 off bs = (if off + 2 \<le> length bs then Inr (le16 off bs) else Inl BadAccess)"

definition swap :: "nat \<times> nat \<Rightarrow> bytes \<Rightarrow> bytes" where
  "swap f bs = take (fst f) bs @ rev (take (snd f) (drop (fst f) bs)) @ drop (fst f + snd f) bs"

definition flip :: "nat \<Rightarrow> nat \<Rightarrow> bytes \<Rightarrow> bytes result" where
  "flip off n bs = (if off + n \<le> length bs then Inr (swap (off, n) bs) else Inl BadAccess)"

text \<open>Fields, each an offset and a width, converted one after the other.\<close>

fun flips :: "(nat \<times> nat) list \<Rightarrow> bytes \<Rightarrow> bytes result" where
  "flips [] bs = Inr bs"
| "flips (f # fs) bs = and_then (flip (fst f) (snd f) bs) (flips fs)"

definition put :: "nat \<Rightarrow> bytes \<Rightarrow> bytes \<Rightarrow> bytes result" where
  "put off new bs =
     (if off + length new \<le> length bs
      then Inr (take off bs @ new @ drop (off + length new) bs) else Inl BadAccess)"

subsection \<open>The total view of a sequence of conversions\<close>

abbreviation swaps :: "(nat \<times> nat) list \<Rightarrow> bytes \<Rightarrow> bytes" where
  "swaps fs bs \<equiv> fold swap fs bs"

definition inside :: "nat \<Rightarrow> (nat \<times> nat) list \<Rightarrow> bool" where
  "inside n fs \<longleftrightarrow> (\<forall>f \<in> set fs. fst f + snd f \<le> n)"

lemma inside_simps [simp]:
  "inside n []" "inside n (f # fs) \<longleftrightarrow> fst f + snd f \<le> n \<and> inside n fs"
  by (auto simp: inside_def)

lemma length_swap [simp]: "fst f + snd f \<le> length bs \<Longrightarrow> length (swap f bs) = length bs"
  by (simp add: swap_def)

lemma flips_eq_swaps: "inside (length bs) fs \<Longrightarrow> flips fs bs = Inr (swaps fs bs)"
  by (induction fs arbitrary: bs) (auto simp: flip_def)

lemma flips_Inr_iff: "flips fs bs = Inr bs' \<longleftrightarrow> inside (length bs) fs \<and> bs' = swaps fs bs"
  by (induction fs arbitrary: bs) (auto simp: flip_def)

lemma length_swaps [simp]: "inside (length bs) fs \<Longrightarrow> length (swaps fs bs) = length bs"
  by (induction fs arbitrary: bs) auto

text \<open>Where the byte at a position comes from.\<close>

definition mirror :: "nat \<times> nat \<Rightarrow> nat \<Rightarrow> nat" where
  "mirror f i = (if fst f \<le> i \<and> i < fst f + snd f then 2 * fst f + snd f - 1 - i else i)"

lemma nth_swap:
  assumes "fst f + snd f \<le> length bs" "i < length bs"
  shows "swap f bs ! i = bs ! mirror f i"
proof -
  obtain off n where f: "f = (off, n)" by (cases f)
  consider "i < off" | "off \<le> i" "i < off + n" | "off + n \<le> i" by linarith
  then show ?thesis
  proof cases
    case 2
    have len: "length (take n (drop off bs)) = n" using assms f by simp
    have "swap f bs ! i = rev (take n (drop off bs)) ! (i - off)"
      using 2 assms f len by (simp add: swap_def nth_append min_def)
    also have "\<dots> = take n (drop off bs) ! (n - Suc (i - off))"
      using 2 len by (simp add: rev_nth)
    also have "\<dots> = bs ! (off + (n - Suc (i - off)))"
      using 2 assms f by simp
    also have "off + (n - Suc (i - off)) = mirror f i"
      using 2 f by (simp add: mirror_def)
    finally show ?thesis .
  next
    case 3
    have "length (take n (drop off bs)) = n" "\<not> i - off < n" using assms f 3 by auto
    with 3 assms f show ?thesis
      by (simp add: swap_def mirror_def nth_append min_def)
  qed (use assms in \<open>simp add: f swap_def mirror_def nth_append min_def\<close>)
qed

definition hits :: "nat \<Rightarrow> nat \<times> nat \<Rightarrow> bool" where
  "hits i f \<longleftrightarrow> fst f \<le> i \<and> i < fst f + snd f"

lemma mirror_miss [simp]: "\<not> hits i f \<Longrightarrow> mirror f i = i"
  by (auto simp: mirror_def hits_def)

lemma mirror_hit: "hits i f \<Longrightarrow> hits (mirror f i) f"
  by (auto simp: mirror_def hits_def)

lemma mirror_mirror [simp]: "mirror f (mirror f i) = i"
  by (auto simp: mirror_def)

lemma mirror_less: "fst f + snd f \<le> n \<Longrightarrow> i < n \<Longrightarrow> mirror f i < n"
  by (auto simp: mirror_def)

text \<open>Fields that do not overlap.\<close>

definition apart :: "nat \<times> nat \<Rightarrow> nat \<times> nat \<Rightarrow> bool" where
  "apart f g \<longleftrightarrow> fst f + snd f \<le> fst g \<or> fst g + snd g \<le> fst f"

fun disjoint_fields :: "(nat \<times> nat) list \<Rightarrow> bool" where
  "disjoint_fields [] \<longleftrightarrow> True"
| "disjoint_fields (f # fs) \<longleftrightarrow> list_all (apart f) fs \<and> disjoint_fields fs"

lemma apart_hits: "apart f g \<Longrightarrow> hits i f \<Longrightarrow> \<not> hits i g"
  by (auto simp: apart_def hits_def)

lemma apart_sym: "apart f g \<longleftrightarrow> apart g f"
  by (auto simp: apart_def)

lemma nth_swaps_miss:
  "inside (length bs) fs \<Longrightarrow> i < length bs \<Longrightarrow> \<forall>f \<in> set fs. \<not> hits i f \<Longrightarrow> swaps fs bs ! i = bs ! i"
  by (induction fs arbitrary: bs) (auto simp: nth_swap)

lemma nth_swaps_hit:
  assumes "inside (length bs) fs" "disjoint_fields fs" "f \<in> set fs" "hits i f" "i < length bs"
  shows "swaps fs bs ! i = bs ! mirror f i"
  using assms
proof (induction fs arbitrary: bs)
  case (Cons g gs)
  show ?case
  proof (cases "f = g")
    case True
    have miss: "\<forall>h \<in> set gs. \<not> hits i h"
      using Cons.prems(2,4) True by (simp add: list_all_iff) (metis apart_hits)
    with Cons.prems True show ?thesis
      by (simp add: nth_swaps_miss nth_swap)
  next
    case False
    with Cons.prems have "f \<in> set gs" "apart g f" by (auto simp: list_all_iff)
    then have nh: "\<not> hits (mirror f i) g"
      using mirror_hit [OF Cons.prems(4)] apart_hits apart_sym by blast
    have "mirror f i < length bs"
      using Cons.prems(1,3,5) by (auto simp: inside_def intro!: mirror_less)
    with Cons \<open>f \<in> set gs\<close> nh show ?thesis
      by (simp add: nth_swap)
  qed
qed simp

text \<open>
  Converting the same fields twice, in any two orders, restores the bytes.
\<close>

lemma swaps_swaps:
  assumes "inside (length bs) fs" "disjoint_fields fs" "disjoint_fields gs" "set gs = set fs"
  shows "swaps gs (swaps fs bs) = bs"
proof (rule nth_equalityI)
  have ins: "inside (length bs) gs" using assms by (simp add: inside_def)
  then show "length (swaps gs (swaps fs bs)) = length bs" using assms(1) by simp
  fix i assume "i < length (swaps gs (swaps fs bs))"
  then have i: "i < length bs" using assms(1) ins by simp
  show "swaps gs (swaps fs bs) ! i = bs ! i"
  proof (cases "\<exists>f \<in> set fs. hits i f")
    case True
    then obtain f where f: "f \<in> set fs" "hits i f" by blast
    then have m: "mirror f i < length bs" "hits (mirror f i) f"
      using assms(1) i by (auto simp: inside_def intro!: mirror_less mirror_hit)
    have "swaps gs (swaps fs bs) ! i = swaps fs bs ! mirror f i"
      using f i ins assms by (intro nth_swaps_hit) auto
    also have "\<dots> = bs ! mirror f (mirror f i)"
      using f m assms by (intro nth_swaps_hit) auto
    finally show ?thesis by simp
  next
    case False
    with assms(1,4) ins i show ?thesis by (simp add: nth_swaps_miss)
  qed
qed

text \<open>A field that no conversion touches reads the same.\<close>

definition off_limits :: "nat \<Rightarrow> (nat \<times> nat) list \<Rightarrow> bool" where
  "off_limits i fs \<longleftrightarrow> (\<forall>f \<in> set fs. i < fst f \<or> fst f + snd f \<le> i)"

lemma off_limits_simps [simp]:
  "off_limits i []" "off_limits i (f # fs) \<longleftrightarrow> (i < fst f \<or> fst f + snd f \<le> i) \<and> off_limits i fs"
  by (auto simp: off_limits_def)

lemma nth_swaps_off_limits [simp]:
  "inside (length bs) fs \<Longrightarrow> off_limits i fs \<Longrightarrow> i < length bs \<Longrightarrow> swaps fs bs ! i = bs ! i"
  by (rule nth_swaps_miss) (auto simp: off_limits_def hits_def)

lemma le16_swaps [simp]:
  "inside (length bs) fs \<Longrightarrow> off_limits off fs \<Longrightarrow> off_limits (off + 1) fs \<Longrightarrow> off + 2 \<le> length bs
    \<Longrightarrow> le16 off (swaps fs bs) = le16 off bs"
  by (simp add: le16_def)

lemma le16_less: "le16 off bs < 65536"
  using unsigned_less [of "bs ! off", where 'a=nat] unsigned_less [of "bs ! (off + 1)", where 'a=nat]
  by (simp add: le16_def)

subsection \<open>Accesses inside the object\<close>

definition safe :: "'a result \<Rightarrow> bool" where
  "safe r \<longleftrightarrow> r \<noteq> Inl BadAccess"

lemma safe_simps [simp]:
  "safe (Inr x)" "safe (Inl (Errno e))" "safe (Inl UnknownType)" "\<not> safe (Inl BadAccess)"
  by (simp_all add: safe_def)

lemma safe_and_then: "safe r \<Longrightarrow> (\<And>x. r = Inr x \<Longrightarrow> safe (f x)) \<Longrightarrow> safe (and_then r f)"
  by (cases r) (auto simp: safe_def)

lemma safe_if: "(b \<Longrightarrow> safe x) \<Longrightarrow> (\<not> b \<Longrightarrow> safe y) \<Longrightarrow> safe (if b then x else y)"
  by simp

lemma safe_access [simp]:
  "safe (rd8 off bs) \<longleftrightarrow> off < length bs"
  "safe (rd16 off bs) \<longleftrightarrow> off + 2 \<le> length bs"
  "safe (flip off n bs) \<longleftrightarrow> off + n \<le> length bs"
  "safe (put off new bs) \<longleftrightarrow> off + length new \<le> length bs"
  by (simp_all add: rd8_def rd16_def flip_def put_def)

lemma safe_flips [simp]: "safe (flips fs bs) \<longleftrightarrow> inside (length bs) fs"
  by (induction fs arbitrary: bs) (auto simp: flip_def)

lemma access_Inr [simp]:
  "rd8 off bs = Inr v \<longleftrightarrow> off < length bs \<and> v = unat (bs ! off)"
  "rd16 off bs = Inr v \<longleftrightarrow> off + 2 \<le> length bs \<and> v = le16 off bs"
  "flip off n bs = Inr bs' \<longleftrightarrow> off + n \<le> length bs \<and> bs' = swap (off, n) bs"
  by (auto simp: rd8_def rd16_def flip_def)

lemma put_Inr:
  "put off new bs = Inr bs' \<longleftrightarrow> off + length new \<le> length bs \<and>
     bs' = take off bs @ new @ drop (off + length new) bs"
  by (auto simp: put_def)

lemma length_put: "put off new bs = Inr bs' \<Longrightarrow> length bs' = length bs"
  by (auto simp: put_Inr)

lemma nth_swap_off [simp]:
  "fst f + snd f \<le> length bs \<Longrightarrow> i < length bs \<Longrightarrow> i < fst f \<or> fst f + snd f \<le> i \<Longrightarrow> swap f bs ! i = bs ! i"
  using nth_swaps_off_limits [of bs "[f]" i] by simp

lemma le16_swap [simp]:
  "fst f + snd f \<le> length bs \<Longrightarrow> off + 2 \<le> length bs \<Longrightarrow> off + 2 \<le> fst f \<or> fst f + snd f \<le> off
    \<Longrightarrow> le16 off (swap f bs) = le16 off bs"
  by (simp add: le16_def) (auto simp: nth_swap_off)

lemma and_thenE:
  assumes "and_then r f = Inr y"
  obtains x where "r = Inr x" "f x = Inr y"
  using assms by (cases r) auto

lemma guardE:
  assumes "(if b then Inl e else r) = Inr y"
  obtains "\<not> b" "r = Inr y"
  using assms by (auto split: if_splits)

lemma flip_length: "flip off n bs = Inr bs' \<Longrightarrow> length bs' = length bs"
  by auto

lemma flips_length: "flips fs bs = Inr bs' \<Longrightarrow> length bs' = length bs"
  by (auto simp: flips_Inr_iff)

lemma flips_step: "flips (f # fs) = (\<lambda>bs. and_then (flip (fst f) (snd f) bs) (flips fs))"
  by (rule ext) simp

lemma and_then_assoc: "and_then (and_then r f) g = and_then r (\<lambda>x. and_then (f x) g)"
  by (cases r) simp_all

lemma flips_append: "flips (fs @ gs) bs = and_then (flips fs bs) (flips gs)"
  by (induction fs arbitrary: bs) (auto simp: and_then_assoc intro!: arg_cong [where f = "and_then _"] ext)

lemma flips_single [simp]: "flips [f] = flip (fst f) (snd f)"
  by (rule ext, simp, metis and_then.simps flips.simps(1) sum.exhaust)


end
