(* ===== verification/Tlv.thy ===== *)
theory Tlv
  imports Wire PortTx
begin

text \<open>
  The conversion of the TLVs of a message, tlv.c. A TLV is the list of its bytes, from its type
  field on, as the descriptor's pointer \<open>tlv\<close> sees it; type and length are already in host
  order when \<open>tlv_post_recv\<close> runs. A pointer into the TLV is an offset from its start.
\<close>

subsection \<open>Type and identifier codes\<close>

abbreviation (input) TLV_MANAGEMENT :: nat where "TLV_MANAGEMENT \<equiv> 1"
abbreviation (input) TLV_MANAGEMENT_ERROR_STATUS :: nat where "TLV_MANAGEMENT_ERROR_STATUS \<equiv> 2"
abbreviation (input) TLV_ORGANIZATION_EXTENSION :: nat where "TLV_ORGANIZATION_EXTENSION \<equiv> 3"
abbreviation (input) TLV_REQUEST_UNICAST_TRANSMISSION :: nat where "TLV_REQUEST_UNICAST_TRANSMISSION \<equiv> 4"
abbreviation (input) TLV_GRANT_UNICAST_TRANSMISSION :: nat where "TLV_GRANT_UNICAST_TRANSMISSION \<equiv> 5"
abbreviation (input) TLV_CANCEL_UNICAST_TRANSMISSION :: nat where "TLV_CANCEL_UNICAST_TRANSMISSION \<equiv> 6"
abbreviation (input) TLV_ACKNOWLEDGE_CANCEL_UNICAST_TRANSMISSION :: nat where
  "TLV_ACKNOWLEDGE_CANCEL_UNICAST_TRANSMISSION \<equiv> 7"
abbreviation (input) TLV_PATH_TRACE :: nat where "TLV_PATH_TRACE \<equiv> 8"
abbreviation (input) TLV_PTPMON_REQ :: nat where "TLV_PTPMON_REQ \<equiv> 0x21FE"
abbreviation (input) TLV_PTPMON_RESP :: nat where "TLV_PTPMON_RESP \<equiv> 0x21FF"

abbreviation (input) TLV_CLOCK_DESCRIPTION :: nat where "TLV_CLOCK_DESCRIPTION \<equiv> 1"
abbreviation (input) TLV_USER_DESCRIPTION :: nat where "TLV_USER_DESCRIPTION \<equiv> 2"
abbreviation (input) TLV_SAVE_IN_NON_VOLATILE_STORAGE :: nat where "TLV_SAVE_IN_NON_VOLATILE_STORAGE \<equiv> 3"
abbreviation (input) TLV_RESET_NON_VOLATILE_STORAGE :: nat where "TLV_RESET_NON_VOLATILE_STORAGE \<equiv> 4"
abbreviation (input) TLV_INITIALIZE :: nat where "TLV_INITIALIZE \<equiv> 5"
abbreviation (input) TLV_FAULT_LOG_RESET :: nat where "TLV_FAULT_LOG_RESET \<equiv> 7"
abbreviation (input) TLV_DEFAULT_DATA_SET :: nat where "TLV_DEFAULT_DATA_SET \<equiv> 0x2000"
abbreviation (input) TLV_CURRENT_DATA_SET :: nat where "TLV_CURRENT_DATA_SET \<equiv> 0x2001"
abbreviation (input) TLV_PARENT_DATA_SET :: nat where "TLV_PARENT_DATA_SET \<equiv> 0x2002"
abbreviation (input) TLV_TIME_PROPERTIES_DATA_SET :: nat where "TLV_TIME_PROPERTIES_DATA_SET \<equiv> 0x2003"
abbreviation (input) TLV_PORT_DATA_SET :: nat where "TLV_PORT_DATA_SET \<equiv> 0x2004"
abbreviation (input) TLV_ENABLE_PORT :: nat where "TLV_ENABLE_PORT \<equiv> 0x200D"
abbreviation (input) TLV_DISABLE_PORT :: nat where "TLV_DISABLE_PORT \<equiv> 0x200E"
abbreviation (input) TLV_TIME_STATUS_NP :: nat where "TLV_TIME_STATUS_NP \<equiv> 0xC000"
abbreviation (input) TLV_GRANDMASTER_SETTINGS_NP :: nat where "TLV_GRANDMASTER_SETTINGS_NP \<equiv> 0xC001"
abbreviation (input) TLV_PORT_DATA_SET_NP :: nat where "TLV_PORT_DATA_SET_NP \<equiv> 0xC002"
abbreviation (input) TLV_SUBSCRIBE_EVENTS_NP :: nat where "TLV_SUBSCRIBE_EVENTS_NP \<equiv> 0xC003"
abbreviation (input) TLV_PORT_PROPERTIES_NP :: nat where "TLV_PORT_PROPERTIES_NP \<equiv> 0xC004"

abbreviation (input) TRANS_UDP_IPV4 :: nat where "TRANS_UDP_IPV4 \<equiv> 1"
abbreviation (input) TRANS_UDP_IPV6 :: nat where "TRANS_UDP_IPV6 \<equiv> 2"
abbreviation (input) TRANS_IEEE_802_3 :: nat where "TRANS_IEEE_802_3 \<equiv> 3"

abbreviation (input) TRANSPORT_ADDR_LEN :: nat where "TRANSPORT_ADDR_LEN \<equiv> 16"
abbreviation (input) OUI_LEN :: nat where "OUI_LEN \<equiv> 3"
abbreviation (input) PROFILE_ID_LEN :: nat where "PROFILE_ID_LEN \<equiv> 6"

definition ieee8021_id :: bytes where "ieee8021_id = [0x00, 0x80, 0xC2]"

subsection \<open>Descriptors\<close>

record mgmt_clock_description =
  cd_clockType :: "nat option"
  cd_physicalLayerProtocol :: "nat option"
  cd_physicalAddress :: "nat option"
  cd_protocolAddress :: "nat option"
  cd_manufacturerIdentity :: "nat option"
  cd_productDescription :: "nat option"
  cd_revisionData :: "nat option"
  cd_userDescription :: "nat option"
  cd_profileIdentity :: "nat option"

text \<open>
  The members of the descriptor's union. No conversion sets both, so they are two fields here;
  a pointer that was not set is NULL.
\<close>

record tlv_extra =
  cd :: mgmt_clock_description
  foot :: "nat option"

definition no_cd :: mgmt_clock_description where
  "no_cd = \<lparr>cd_clockType = None, cd_physicalLayerProtocol = None, cd_physicalAddress = None,
     cd_protocolAddress = None, cd_manufacturerIdentity = None, cd_productDescription = None,
     cd_revisionData = None, cd_userDescription = None, cd_profileIdentity = None\<rparr>"

definition no_extra :: tlv_extra where
  "no_extra = \<lparr>cd = no_cd, foot = None\<rparr>"

definition deref :: "nat option \<Rightarrow> nat result" where
  "deref p = (case p of None \<Rightarrow> Inl BadAccess | Some off \<Rightarrow> Inr off)"

subsection \<open>Management TLVs\<close>

definition be64 :: "nat \<Rightarrow> bytes" where
  "be64 v = map (\<lambda>k. word_of_nat (v div 256 ^ k)) [7, 6, 5, 4, 3, 2, 1, 0]"

text \<open>
  A scaled nanosecond value is msb (2 bytes), lsb (8 bytes), fraction (2 bytes). The code
  computes the middle word from the converted msb, not from itself.
\<close>

definition scaled_ns_n2h :: "nat \<Rightarrow> bytes \<Rightarrow> bytes result" where
  "scaled_ns_n2h off seg =
     and_then (flip off 2 seg) (\<lambda>seg.
     and_then (rd16 off seg) (\<lambda>nanoseconds_msb.
     and_then (put (off + 2) (be64 nanoseconds_msb) seg) (\<lambda>seg.
     flip (off + 10) 2 seg)))"

definition scaled_ns_h2n :: "nat \<Rightarrow> bytes \<Rightarrow> bytes result" where
  "scaled_ns_h2n off seg =
     and_then (flip off 2 seg) (\<lambda>seg.
     and_then (rd16 off seg) (\<lambda>nanoseconds_msb.
     and_then (put (off + 2) (be64 nanoseconds_msb) seg) (\<lambda>seg.
     flip (off + 10) 2 seg)))"

text \<open>
  The cursor of the clock description parser, \<open>buf\<close> and \<open>len\<close>: the pointer and the number of
  bytes left.
\<close>

definition advance :: "nat \<Rightarrow> nat \<times> nat \<Rightarrow> (nat \<times> nat) result" where
  "advance n p = (if snd p < n then Inl (Errno EBADMSG) else Inr (fst p + n, snd p - n))"

definition ptp_text :: "bytes \<Rightarrow> nat \<times> nat \<Rightarrow> (nat \<times> nat) result" where
  "ptp_text seg p =
     and_then (advance 1 p) (\<lambda>q. and_then (rd8 (fst p) seg) (\<lambda>n. advance n q))"

definition clock_description_post_recv ::
    "nat \<Rightarrow> bytes \<Rightarrow> (bytes \<times> mgmt_clock_description \<times> nat) result" where
  "clock_description_post_recv data_len seg =
     and_then (advance 2 (6, data_len)) (\<lambda>p1.
     and_then (flip 6 2 seg) (\<lambda>seg.
     and_then (ptp_text seg p1) (\<lambda>p2.
     and_then (advance 2 p2) (\<lambda>p3.
     and_then (flip (fst p2) 2 seg) (\<lambda>seg.
     and_then (rd16 (fst p2) seg) (\<lambda>u16.
     if u16 > TRANSPORT_ADDR_LEN then Inl (Errno EBADMSG) else
     and_then (advance u16 p3) (\<lambda>p4.
     and_then (advance 4 p4) (\<lambda>p5.
     and_then (flips [(fst p4, 2), (fst p4 + 2, 2)] seg) (\<lambda>seg.
     and_then (rd16 (fst p4 + 2) seg) (\<lambda>u16.
     if u16 > TRANSPORT_ADDR_LEN then Inl (Errno EBADMSG) else
     and_then (advance u16 p5) (\<lambda>p6.
     and_then (advance (OUI_LEN + 1) p6) (\<lambda>p7.
     and_then (ptp_text seg p7) (\<lambda>p8.
     and_then (ptp_text seg p8) (\<lambda>p9.
     and_then (ptp_text seg p9) (\<lambda>p10.
     and_then (advance PROFILE_ID_LEN p10) (\<lambda>p11.
     Inr (seg,
       \<lparr>cd_clockType = Some 6, cd_physicalLayerProtocol = Some (fst p1),
        cd_physicalAddress = Some (fst p2), cd_protocolAddress = Some (fst p4),
        cd_manufacturerIdentity = Some (fst p6), cd_productDescription = Some (fst p7),
        cd_revisionData = Some (fst p8), cd_userDescription = Some (fst p9),
        cd_profileIdentity = Some (fst p10)\<rparr>,
       fst p11 - 6)))))))))))))))))"

text \<open>
  A data set of fixed size whose numbers are at the given offsets from the start of the TLV;
  the data begin at offset 6.
\<close>

definition fixed_data_set ::
    "nat \<Rightarrow> (nat \<times> nat) list \<Rightarrow> nat \<Rightarrow> bytes \<Rightarrow> (bytes \<times> tlv_extra \<times> nat) result" where
  "fixed_data_set sz fs data_len seg =
     (if data_len \<noteq> sz then Inl (Errno EBADMSG)
      else and_then (flips fs seg) (\<lambda>seg. Inr (seg, no_extra, 0)))"

text \<open>The switch of \<open>mgt_post_recv\<close>: the converted TLV, its descriptor and \<open>extra_len\<close>.\<close>

definition mgt_post_recv_data ::
    "nat \<Rightarrow> nat \<Rightarrow> bytes \<Rightarrow> (bytes \<times> tlv_extra \<times> nat) result" where
  "mgt_post_recv_data mgt_id data_len seg =
     (if mgt_id = TLV_CLOCK_DESCRIPTION then
        and_then (clock_description_post_recv data_len seg)
          (\<lambda>(seg, d, extra_len). Inr (seg, \<lparr>cd = d, foot = None\<rparr>, extra_len))
      else if mgt_id = TLV_USER_DESCRIPTION then
        (if data_len < 1 then Inl (Errno EBADMSG)
         else and_then (rd8 6 seg) (\<lambda>n.
           Inr (seg, \<lparr>cd = no_cd\<lparr>cd_userDescription := Some 6\<rparr>, foot = None\<rparr>, 1 + n)))
      else if mgt_id = TLV_DEFAULT_DATA_SET then fixed_data_set 20 [(8, 2), (13, 2)] data_len seg
      else if mgt_id = TLV_CURRENT_DATA_SET then fixed_data_set 18 [(6, 2), (8, 8), (16, 8)] data_len seg
      else if mgt_id = TLV_PARENT_DATA_SET then
        fixed_data_set 32 [(14, 2), (18, 2), (20, 4), (27, 2)] data_len seg
      else if mgt_id = TLV_TIME_PROPERTIES_DATA_SET then fixed_data_set 4 [(6, 2)] data_len seg
      else if mgt_id = TLV_PORT_DATA_SET then fixed_data_set 26 [(14, 2), (18, 8)] data_len seg
      else if mgt_id = TLV_TIME_STATUS_NP then
        (if data_len \<noteq> 50 then Inl (Errno EBADMSG)
         else and_then (flips [(6, 8), (14, 8), (22, 4), (26, 4), (30, 2)] seg) (\<lambda>seg.
              and_then (scaled_ns_n2h 32 seg) (\<lambda>seg.
              and_then (flip 44 4 seg) (\<lambda>seg. Inr (seg, no_extra, 0)))))
      else if mgt_id = TLV_GRANDMASTER_SETTINGS_NP then fixed_data_set 8 [(8, 2), (10, 2)] data_len seg
      else if mgt_id = TLV_PORT_DATA_SET_NP then fixed_data_set 8 [(6, 4), (10, 4)] data_len seg
      else if mgt_id = TLV_SUBSCRIBE_EVENTS_NP then fixed_data_set 66 [(6, 2)] data_len seg
      else if mgt_id = TLV_PORT_PROPERTIES_NP then
        (if data_len < 13 then Inl (Errno EBADMSG)
         else and_then (flip 14 2 seg) (\<lambda>seg.
              and_then (rd8 18 seg) (\<lambda>n. Inr (seg, no_extra, 13 + n))))
      else if mgt_id \<in> {TLV_SAVE_IN_NON_VOLATILE_STORAGE, TLV_RESET_NON_VOLATILE_STORAGE, TLV_INITIALIZE,
           TLV_FAULT_LOG_RESET, TLV_ENABLE_PORT, TLV_DISABLE_PORT} then
        (if data_len \<noteq> 0 then Inl (Errno EBADMSG) else Inr (seg, no_extra, 0))
      else Inr (seg, no_extra, 0))"

definition extra_len_ok :: "nat \<Rightarrow> nat \<Rightarrow> bool" where
  "extra_len_ok extra_len len \<longleftrightarrow>
     extra_len = 0 \<or> (if odd extra_len then extra_len + 1 else extra_len) + 2 = len"

definition mgt_post_recv :: "nat \<Rightarrow> bytes \<Rightarrow> (bytes \<times> tlv_extra) result" where
  "mgt_post_recv data_len seg =
     and_then (rd16 4 seg) (\<lambda>mgt_id.
     and_then (mgt_post_recv_data mgt_id data_len seg) (\<lambda>(seg, x, extra_len).
     and_then (rd16 2 seg) (\<lambda>len.
     if extra_len_ok extra_len len then Inr (seg, x) else Inl (Errno EBADMSG))))"

definition mgt_pre_send :: "bytes \<Rightarrow> tlv_extra \<Rightarrow> bytes result" where
  "mgt_pre_send seg x =
     and_then (rd16 4 seg) (\<lambda>mgt_id.
      if mgt_id = TLV_CLOCK_DESCRIPTION then
        and_then (deref (cd_clockType (cd x))) (\<lambda>ct.
        and_then (flip ct 2 seg) (\<lambda>seg.
        and_then (deref (cd_physicalAddress (cd x))) (\<lambda>pa.
        and_then (flip pa 2 seg) (\<lambda>seg.
        and_then (deref (cd_protocolAddress (cd x))) (\<lambda>pr.
        flips [(pr, 2), (pr + 2, 2)] seg)))))
      else if mgt_id = TLV_DEFAULT_DATA_SET then flips [(8, 2), (13, 2)] seg
      else if mgt_id = TLV_CURRENT_DATA_SET then flips [(6, 2), (8, 8), (16, 8)] seg
      else if mgt_id = TLV_PARENT_DATA_SET then flips [(14, 2), (18, 2), (20, 4), (27, 2)] seg
      else if mgt_id = TLV_TIME_PROPERTIES_DATA_SET then flip 6 2 seg
      else if mgt_id = TLV_PORT_DATA_SET then flips [(14, 2), (18, 8)] seg
      else if mgt_id = TLV_TIME_STATUS_NP then
        and_then (flips [(6, 8), (14, 8), (22, 4), (26, 4), (30, 2)] seg) (\<lambda>seg.
        and_then (scaled_ns_h2n 32 seg) (flip 44 4))
      else if mgt_id = TLV_GRANDMASTER_SETTINGS_NP then flips [(8, 2), (10, 2)] seg
      else if mgt_id = TLV_PORT_DATA_SET_NP then flips [(6, 4), (10, 4)] seg
      else if mgt_id = TLV_SUBSCRIBE_EVENTS_NP then flip 6 2 seg
      else if mgt_id = TLV_PORT_PROPERTIES_NP then flip 14 2 seg
      else Inr seg)"

subsection \<open>Network state monitor responses\<close>

text \<open>
  The head is ten bytes: type, length, port state, reserved, network protocol (offset 6) and
  address length (offset 8) of the parent's address. The foot, of 64 bytes, is the parent data
  set, the current data set, the time properties and the last sync time.
\<close>

abbreviation (input) sizeof_nsm_head :: nat where "sizeof_nsm_head \<equiv> 10"
abbreviation (input) sizeof_nsm_foot :: nat where "sizeof_nsm_foot \<equiv> 64"

definition nsm_resp_post_recv :: "bytes \<Rightarrow> (bytes \<times> tlv_extra) result" where
  "nsm_resp_post_recv seg =
     and_then (rd16 2 seg) (\<lambda>len.
     if len < sizeof_nsm_head + sizeof_nsm_foot - 4 then Inl (Errno EBADMSG) else
     and_then (flips [(6, 2), (8, 2)] seg) (\<lambda>seg.
     and_then (rd16 6 seg) (\<lambda>networkProtocol.
     and_then (rd16 8 seg) (\<lambda>addressLength.
     let expected = (if networkProtocol = TRANS_UDP_IPV4 then Some 4
                     else if networkProtocol = TRANS_UDP_IPV6 then Some 16
                     else if networkProtocol = TRANS_IEEE_802_3 then Some 6 else None)
     in if expected \<noteq> Some addressLength then Inl (Errno EBADMSG)
        else if len \<noteq> sizeof_nsm_head + sizeof_nsm_foot + addressLength - 4 then Inl (Errno EBADMSG)
        else
          let f = sizeof_nsm_head + addressLength
          in and_then
               (flips [(f + 8, 2), (f + 12, 2), (f + 14, 4), (f + 21, 2), (f + 32, 2), (f + 34, 8),
                  (f + 42, 8), (f + 50, 2), (f + 56, 4), (f + 54, 2), (f + 60, 4)] seg)
               (\<lambda>seg. Inr (seg, \<lparr>cd = no_cd, foot = Some f\<rparr>))))))"

definition nsm_resp_pre_send :: "bytes \<Rightarrow> tlv_extra \<Rightarrow> bytes result" where
  "nsm_resp_pre_send seg x =
     and_then (flips [(6, 2), (8, 2)] seg) (\<lambda>seg.
     and_then (deref (foot x)) (\<lambda>f.
       flips [(f + 8, 2), (f + 12, 2), (f + 14, 4), (f + 21, 2), (f + 32, 2), (f + 34, 8),
          (f + 42, 8), (f + 50, 2), (f + 56, 4), (f + 54, 2), (f + 60, 4)] seg))"

subsection \<open>Organization extensions\<close>

text \<open>
  \<open>memcmp\<close> of the three bytes of the organization, then the three bytes of the subtype. The
  follow up information of IEEE 802.1AS is the subtype 0, 0, 1.
\<close>

definition rd_bytes :: "nat \<Rightarrow> nat \<Rightarrow> bytes \<Rightarrow> bytes result" where
  "rd_bytes off n bs = (if off + n \<le> length bs then Inr (take n (drop off bs)) else Inl BadAccess)"

definition org_post_recv :: "bytes \<Rightarrow> bytes result" where
  "org_post_recv seg =
     and_then (rd_bytes 4 3 seg) (\<lambda>org_id.
     if org_id \<noteq> ieee8021_id then Inr seg else
     and_then (rd_bytes 7 3 seg) (\<lambda>subtype.
     if subtype ! 0 \<noteq> 0 \<or> subtype ! 1 \<noteq> 0 then Inr seg
     else if subtype ! 2 = 1 then
       and_then (rd16 2 seg) (\<lambda>len.
       if len + 4 \<noteq> 32 then Inl (Errno EBADMSG) else
       and_then (flips [(10, 4), (14, 2)] seg) (\<lambda>seg.
       and_then (scaled_ns_n2h 16 seg) (flip 28 4)))
     else Inr seg))"

definition org_pre_send :: "bytes \<Rightarrow> bytes result" where
  "org_pre_send seg =
     and_then (rd_bytes 4 3 seg) (\<lambda>org_id.
     if org_id \<noteq> ieee8021_id then Inr seg else
     and_then (rd_bytes 7 3 seg) (\<lambda>subtype.
     if subtype ! 0 \<noteq> 0 \<or> subtype ! 1 \<noteq> 0 then Inr seg
     else if subtype ! 2 = 1 then
       and_then (flips [(10, 4), (14, 2)] seg) (\<lambda>seg.
       and_then (scaled_ns_h2n 16 seg) (flip 28 4))
     else Inr seg))"

subsection \<open>Unicast negotiation\<close>

definition unicast_message_type_valid :: "nat \<Rightarrow> bool" where
  "unicast_message_type_valid message_type \<longleftrightarrow>
     (let t = (word_of_nat (drop_bit 4 message_type) :: u8)
      in t = ANNOUNCE \<or> t = SYNC \<or> t = DELAY_RESP \<or> t = PDELAY_RESP)"

text \<open>
  \<open>sz\<close> is the size of the TLV's structure with type and length, \<open>fs\<close> its numbers.
\<close>

definition unicast_tlv_post_recv :: "nat \<Rightarrow> (nat \<times> nat) list \<Rightarrow> bytes \<Rightarrow> bytes result" where
  "unicast_tlv_post_recv sz fs seg =
     and_then (rd16 2 seg) (\<lambda>len.
     if len < sz - 4 then Inl (Errno EBADMSG) else
     and_then (rd8 4 seg) (\<lambda>message_type.
     if \<not> unicast_message_type_valid message_type then Inl (Errno EBADMSG)
     else flips fs seg))"

definition unicast_negotiation_post_recv :: "bytes \<Rightarrow> bytes result" where
  "unicast_negotiation_post_recv seg =
     and_then (rd16 0 seg) (\<lambda>t.
     if t = TLV_REQUEST_UNICAST_TRANSMISSION then unicast_tlv_post_recv 10 [(6, 4)] seg
     else if t = TLV_GRANT_UNICAST_TRANSMISSION then unicast_tlv_post_recv 12 [(6, 4)] seg
     else if t = TLV_CANCEL_UNICAST_TRANSMISSION then unicast_tlv_post_recv 6 [] seg
     else if t = TLV_ACKNOWLEDGE_CANCEL_UNICAST_TRANSMISSION then unicast_tlv_post_recv 6 [] seg
     else Inr seg)"

definition unicast_negotiation_pre_send :: "bytes \<Rightarrow> bytes result" where
  "unicast_negotiation_pre_send seg =
     and_then (rd16 0 seg) (\<lambda>t.
     if t = TLV_REQUEST_UNICAST_TRANSMISSION then flip 6 4 seg
     else if t = TLV_GRANT_UNICAST_TRANSMISSION then flip 6 4 seg
     else Inr seg)"

subsection \<open>Any TLV\<close>

definition is_unicast_tlv :: "nat \<Rightarrow> bool" where
  "is_unicast_tlv t \<longleftrightarrow> t \<in> {TLV_REQUEST_UNICAST_TRANSMISSION, TLV_GRANT_UNICAST_TRANSMISSION,
     TLV_CANCEL_UNICAST_TRANSMISSION, TLV_ACKNOWLEDGE_CANCEL_UNICAST_TRANSMISSION}"

definition plain :: "bytes \<Rightarrow> (bytes \<times> tlv_extra) result" where
  "plain seg = Inr (seg, no_extra)"

definition tlv_post_recv :: "bytes \<Rightarrow> (bytes \<times> tlv_extra) result" where
  "tlv_post_recv seg =
     and_then (rd16 0 seg) (\<lambda>t.
     and_then (rd16 2 seg) (\<lambda>len.
     if t = TLV_MANAGEMENT then
       (if len < 2 then Inl (Errno EBADMSG) else
        and_then (flip 4 2 seg) (\<lambda>seg.
        if len > 2 then mgt_post_recv (len - 2) seg else plain seg))
     else if t = TLV_MANAGEMENT_ERROR_STATUS then
       (if len < 8 then Inl (Errno EBADMSG) else and_then (flips [(4, 2), (6, 2)] seg) plain)
     else if t = TLV_ORGANIZATION_EXTENSION then
       (if len < 6 then Inl (Errno EBADMSG) else and_then (org_post_recv seg) plain)
     else if is_unicast_tlv t then and_then (unicast_negotiation_post_recv seg) plain
     else if t = TLV_PATH_TRACE then
       (if len div 8 > PATH_TRACE_MAX
        then and_then (put 2 [word_of_nat (PATH_TRACE_MAX * 8), word_of_nat (PATH_TRACE_MAX * 8 div 256)] seg)
               plain
        else plain seg)
     else if t = TLV_PTPMON_RESP then nsm_resp_post_recv seg
     else plain seg))"

definition tlv_pre_send :: "bytes \<Rightarrow> tlv_extra \<Rightarrow> bytes result" where
  "tlv_pre_send seg x =
     and_then (rd16 0 seg) (\<lambda>t.
     and_then (rd16 2 seg) (\<lambda>len.
     if t = TLV_MANAGEMENT then
       and_then (if len > 2 then mgt_pre_send seg x else Inr seg) (flip 4 2)
     else if t = TLV_MANAGEMENT_ERROR_STATUS then flips [(4, 2), (6, 2)] seg
     else if t = TLV_ORGANIZATION_EXTENSION then org_pre_send seg
     else if is_unicast_tlv t then unicast_negotiation_pre_send seg
     else if t = TLV_PTPMON_RESP then nsm_resp_pre_send seg x
     else Inr seg))"

subsection \<open>What the conversions do\<close>

lemma advance_Inr [simp]:
  "advance n p = Inr q \<longleftrightarrow> n \<le> snd p \<and> q = (fst p + n, snd p - n)"
  by (auto simp: advance_def)

lemma safe_advance [simp]: "safe (advance n p)"
  by (simp add: advance_def)

lemma ptp_text_Inr:
  "ptp_text seg p = Inr q \<Longrightarrow> fst p < fst q \<and> fst q + snd q = fst p + snd p"
  by (auto simp: ptp_text_def)

lemma safe_ptp_text: "fst p + snd p \<le> length seg \<Longrightarrow> safe (ptp_text seg p)"
  by (auto simp: ptp_text_def intro!: safe_and_then)

lemma advance_fst:
  "advance n p = Inr q \<Longrightarrow> fst q = fst p + n \<and> fst q + snd q = fst p + snd p"
  by auto

lemma clock_description_post_recv_Inr:
  assumes "clock_description_post_recv n seg = Inr (seg', d, e)"
  shows "\<exists>a b. cd_clockType d = Some 6 \<and> cd_physicalAddress d = Some a \<and> cd_protocolAddress d = Some b
    \<and> 8 \<le> a \<and> a + 2 \<le> b \<and> b + 4 \<le> length seg \<and> seg' = swaps [(6, 2), (a, 2), (b, 2), (b + 2, 2)] seg"
  using assms unfolding clock_description_post_recv_def
proof (elim and_thenE guardE, goal_cases)
  case (1 p1 s1 p2 p3 s2 u p4 p5 s3 v p6 p7 p8 p9 p10 p11)
  have c: "fst p1 = 8" "fst p1 < fst p2" "fst p3 = fst p2 + 2" "fst p4 = fst p3 + u"
    "fst p5 = fst p4 + 4"
    using 1(1,4,8,9) [THEN advance_fst] 1(3) [THEN ptp_text_Inr] by simp_all
  have s: "6 + 2 \<le> length seg" "s1 = swap (6, 2) seg" "fst p2 + 2 \<le> length s1" "s2 = swap (fst p2, 2) s1"
    "inside (length s2) [(fst p4, 2), (fst p4 + 2, 2)]" "s3 = swaps [(fst p4, 2), (fst p4 + 2, 2)] s2"
    using 1(2,5,10) unfolding flips_Inr_iff access_Inr by blast+
  have l: "length s1 = length seg" "length s2 = length seg"
    using 1(2,5) [THEN flip_length] by simp_all
  have "cd_clockType d = Some 6" "cd_physicalAddress d = Some (fst p2)"
    "cd_protocolAddress d = Some (fst p4)" "seg' = s3"
    using 1(19) by auto
  moreover have "8 \<le> fst p2" "fst p2 + 2 \<le> fst p4" "fst p4 + 4 \<le> length seg"
    using c s(5) l by simp_all
  ultimately show ?case
    using s(2,4,6) by (intro exI [of _ "fst p2"] exI [of _ "fst p4"]) simp
qed

lemma safe_clock_description:
  assumes "length seg = 6 + n"
  shows "safe (clock_description_post_recv n seg)"
  unfolding clock_description_post_recv_def
  by (intro safe_and_then safe_if safe_ptp_text safe_simps safe_advance, insert assms)
    (auto simp del: access_Inr advance_Inr flips.simps dest!: advance_fst ptp_text_Inr flip_length flips_length)

lemma fixed_data_set_Inr:
  "fixed_data_set sz fs n seg = Inr (seg', x, e) \<longleftrightarrow>
     n = sz \<and> inside (length seg) fs \<and> seg' = swaps fs seg \<and> x = no_extra \<and> e = 0"
  by (auto simp: fixed_data_set_def flips_Inr_iff)

lemma safe_fixed_data_set: "length seg = 6 + n \<Longrightarrow> inside (6 + sz) fs \<Longrightarrow> safe (fixed_data_set sz fs n seg)"
  by (auto simp: fixed_data_set_def intro!: safe_and_then)

lemma scaled_ns_n2h_length: "scaled_ns_n2h off seg = Inr seg' \<Longrightarrow> length seg' = length seg"
  unfolding scaled_ns_n2h_def
  by (elim and_thenE) (auto simp del: access_Inr dest!: flip_length length_put)

lemma length_be64 [simp]: "length (be64 v) = 8"
  by (simp add: be64_def)

lemma safe_scaled_ns_n2h: "off + 12 \<le> length seg \<Longrightarrow> safe (scaled_ns_n2h off seg)"
  unfolding scaled_ns_n2h_def
  by (intro safe_and_then) (auto simp del: access_Inr dest!: flip_length length_put)

lemma safe_mgt_post_recv_data:
  assumes "length seg = 6 + n"
  shows "safe (mgt_post_recv_data i n seg)"
  using assms unfolding mgt_post_recv_data_def
  by (auto intro!: safe_and_then safe_clock_description safe_fixed_data_set safe_scaled_ns_n2h
      simp del: access_Inr flips.simps dest!: flip_length flips_length scaled_ns_n2h_length)

text \<open>
  What a conversion did: it reversed fields that do not overlap, from the given offset on.
\<close>

definition converts :: "nat \<Rightarrow> (nat \<times> nat) list \<Rightarrow> bytes \<Rightarrow> bytes \<Rightarrow> bool" where
  "converts from fs seg seg' \<longleftrightarrow> inside (length seg) fs \<and> disjoint_fields fs
     \<and> (\<forall>f \<in> set fs. from \<le> fst f) \<and> seg' = swaps fs seg"

lemma convertsD:
  assumes "converts from fs seg seg'"
  shows "length seg' = length seg" "flips fs seg' = Inr seg"
    "i < from \<Longrightarrow> i < length seg \<Longrightarrow> seg' ! i = seg ! i"
    "off + 2 \<le> from \<Longrightarrow> off + 2 \<le> length seg \<Longrightarrow> le16 off seg' = le16 off seg"
proof -
  show l: "length seg' = length seg" using assms by (simp add: converts_def)
  show "flips fs seg' = Inr seg"
    using assms l by (simp add: converts_def flips_eq_swaps swaps_swaps)
  show n: "i < from \<Longrightarrow> i < length seg \<Longrightarrow> seg' ! i = seg ! i" for i
    using assms by (simp add: converts_def) (rule nth_swaps_off_limits, auto simp: off_limits_def)
  show "off + 2 \<le> from \<Longrightarrow> off + 2 \<le> length seg \<Longrightarrow> le16 off seg' = le16 off seg"
    by (simp add: le16_def n)
qed

lemma apart_simps [simp]: "apart (a, m) (b, k) \<longleftrightarrow> a + m \<le> b \<or> b + k \<le> a"
  by (simp add: apart_def)

lemma mgt_post_recv_data_length:
  "mgt_post_recv_data i n seg = Inr (seg', x, e) \<Longrightarrow> length seg' = length seg"
  unfolding mgt_post_recv_data_def fixed_data_set_def
  by (auto simp del: access_Inr flips.simps split: if_splits
      dest!: clock_description_post_recv_Inr flip_length flips_length scaled_ns_n2h_length)

lemma mgt_post_recv_data_converts:
  assumes "mgt_post_recv_data i n seg = Inr (seg', x, e)" "i \<noteq> TLV_TIME_STATUS_NP"
  shows "\<exists>fs. converts 6 fs seg seg' \<and> (\<forall>s. 6 \<le> length s \<longrightarrow> le16 4 s = i \<longrightarrow> mgt_pre_send s x = flips fs s)"
proof (cases "i = TLV_CLOCK_DESCRIPTION")
  case True
  then obtain d where d: "clock_description_post_recv n seg = Inr (seg', d, e)" and x: "x = \<lparr>cd = d, foot = None\<rparr>"
    using assms by (auto simp: mgt_post_recv_data_def)
  obtain a b where ab: "cd_clockType d = Some 6" "cd_physicalAddress d = Some a" "cd_protocolAddress d = Some b"
     "8 \<le> a" "a + 2 \<le> b" "b + 4 \<le> length seg" "seg' = swaps [(6, 2), (a, 2), (b, 2), (b + 2, 2)] seg"
    using clock_description_post_recv_Inr [OF d] by blast
  then have "converts 6 [(6, 2), (a, 2), (b, 2), (b + 2, 2)] seg seg'"
    by (auto simp: converts_def)
  moreover have "mgt_pre_send s x = flips [(6, 2), (a, 2), (b, 2), (b + 2, 2)] s"
    if "6 \<le> length s" "le16 4 s = i" for s
    using that True ab(1-3) by (simp add: mgt_pre_send_def x deref_def rd16_def flips_step)
  ultimately show ?thesis by blast
next
  case False
  define fs where "fs = (if i = TLV_DEFAULT_DATA_SET then [(8, 2), (13, 2)]
      else if i = TLV_CURRENT_DATA_SET then [(6, 2), (8, 8), (16, 8)]
      else if i = TLV_PARENT_DATA_SET then [(14, 2), (18, 2), (20, 4), (27, 2)]
      else if i = TLV_TIME_PROPERTIES_DATA_SET then [(6, 2)]
      else if i = TLV_PORT_DATA_SET then [(14, 2), (18, 8)]
      else if i = TLV_GRANDMASTER_SETTINGS_NP then [(8, 2), (10, 2)]
      else if i = TLV_PORT_DATA_SET_NP then [(6, 4), (10, 4)]
      else if i = TLV_SUBSCRIBE_EVENTS_NP then [(6, 2)]
      else if i = TLV_PORT_PROPERTIES_NP then [(14, 2)] else [] :: (nat \<times> nat) list)"
  have "mgt_pre_send s x = flips fs s" if "6 \<le> length s" "le16 4 s = i" for s
    using that False assms(2) unfolding mgt_pre_send_def fs_def
    by (simp add: rd16_def)
  moreover have "converts 6 fs seg seg'"
    using assms False unfolding mgt_post_recv_data_def
    by (simp add: fixed_data_set_Inr split: if_splits) (auto simp: fs_def converts_def)
  ultimately show ?thesis by blast
qed

lemma mgt_post_recv_Inr:
  "mgt_post_recv n seg = Inr (seg', x) \<Longrightarrow> \<exists>e. mgt_post_recv_data (le16 4 seg) n seg = Inr (seg', x, e)"
  by (auto simp: mgt_post_recv_def split: if_splits)

lemma mgt_post_recv_converts:
  assumes "mgt_post_recv n seg = Inr (seg', x)" "le16 4 seg \<noteq> TLV_TIME_STATUS_NP" "6 \<le> length seg"
  shows "\<exists>fs. converts 6 fs seg seg' \<and> mgt_pre_send seg' x = Inr seg"
proof -
  obtain e where "mgt_post_recv_data (le16 4 seg) n seg = Inr (seg', x, e)"
    using mgt_post_recv_Inr [OF assms(1)] by blast
  then obtain fs where fs: "converts 6 fs seg seg'"
      "\<forall>s. 6 \<le> length s \<longrightarrow> le16 4 s = le16 4 seg \<longrightarrow> mgt_pre_send s x = flips fs s"
    using mgt_post_recv_data_converts [OF _ assms(2)] by blast
  with assms(3) show ?thesis
    using convertsD(1,2) [OF fs(1)] convertsD(4) [OF fs(1), of 4] by auto
qed

lemma nsm_resp_converts:
  assumes "nsm_resp_post_recv seg = Inr (seg', x)"
  shows "\<exists>fs. converts 6 fs seg seg' \<and> nsm_resp_pre_send seg' x = Inr seg"
proof -
  obtain f where f: "foot x = Some f" "10 \<le> f"
    and c: "converts 6 ([(6, 2), (8, 2)] @ [(f + 8, 2), (f + 12, 2), (f + 14, 4), (f + 21, 2), (f + 32, 2), (f + 34, 8),
          (f + 42, 8), (f + 50, 2), (f + 56, 4), (f + 54, 2), (f + 60, 4)]) seg seg'"
    using assms unfolding nsm_resp_post_recv_def Let_def
    by (elim and_thenE guardE) (auto simp: converts_def flips_Inr_iff simp del: flips.simps)
  have "nsm_resp_pre_send seg' x = Inr seg"
    using convertsD(2) [OF c]
    unfolding nsm_resp_pre_send_def f(1) deref_def option.case and_then.simps flips_append .
  with c show ?thesis by blast
qed

lemma safe_nsm_resp: "length seg = 4 + le16 2 seg \<Longrightarrow> safe (nsm_resp_post_recv seg)"
  unfolding nsm_resp_post_recv_def Let_def
  by (intro safe_and_then safe_if safe_simps, insert flips_length [of "[(6, 2), (8, 2)]" seg])
    (auto simp del: flips.simps split: if_splits)

lemma nth_scaled_ns: "scaled_ns_n2h off seg = Inr seg' \<Longrightarrow> i < off \<Longrightarrow> seg' ! i = seg ! i"
  unfolding scaled_ns_n2h_def
  by (elim and_thenE) (auto simp: put_Inr nth_append)

lemma mgt_post_recv_keeps:
  assumes "mgt_post_recv n seg = Inr (seg', x)" "6 \<le> length seg" "off + 2 \<le> 6"
  shows "length seg' = length seg \<and> le16 off seg' = le16 off seg"
proof -
  obtain e where e: "mgt_post_recv_data (le16 4 seg) n seg = Inr (seg', x, e)"
    using mgt_post_recv_Inr [OF assms(1)] by blast
  show ?thesis
  proof (cases "le16 4 seg = TLV_TIME_STATUS_NP")
    case True
    then obtain s1 s2 where s: "inside (length seg) [(6, 8), (14, 8), (22, 4), (26, 4), (30, 2)]"
      "s1 = swaps [(6, 8), (14, 8), (22, 4), (26, 4), (30, 2)] seg"
      "scaled_ns_n2h 32 s1 = Inr s2" "flip 44 4 s2 = Inr seg'"
      using e by (auto simp: mgt_post_recv_data_def flips_Inr_iff simp del: flips.simps access_Inr split: if_splits)
    have c: "converts 6 [(6, 8), (14, 8), (22, 4), (26, 4), (30, 2)] seg s1"
      using s(1,2) by (simp add: converts_def)
    have l: "length s2 = length s1" using s(3) by (rule scaled_ns_n2h_length)
    have "seg' ! i = seg ! i" if "i < 6" for i
      using that s(3,4) l assms(2) convertsD(1) [OF c] convertsD(3) [OF c, of i] nth_scaled_ns [OF s(3), of i]
      by simp
    then show ?thesis
      using s(4) l assms(3) convertsD(1) [OF c] by (simp add: le16_def)
  next
    case False
    then obtain fs where c: "converts 6 fs seg seg'"
      using mgt_post_recv_data_converts [OF e] by blast
    show ?thesis
      using assms(2,3) convertsD(1) [OF c] convertsD(4) [OF c, of off] by simp
  qed
qed

lemma org_length: "org_post_recv seg = Inr seg' \<Longrightarrow> length seg' = length seg"
  unfolding org_post_recv_def
  by (auto simp del: flips.simps access_Inr split: if_splits dest!: flips_length scaled_ns_n2h_length flip_length)

definition follow_up_info_id :: bytes where
  "follow_up_info_id = ieee8021_id @ [0, 0, 1]"

lemma rd_bytes_Inr [simp]: "rd_bytes off n bs = Inr v \<longleftrightarrow> off + n \<le> length bs \<and> v = take n (drop off bs)"
  by (auto simp: rd_bytes_def)

lemma safe_rd_bytes [simp]: "safe (rd_bytes off n bs) \<longleftrightarrow> off + n \<le> length bs"
  by (simp add: rd_bytes_def)

lemma safe_org: "length seg = 4 + le16 2 seg \<Longrightarrow> 6 \<le> le16 2 seg \<Longrightarrow> safe (org_post_recv seg)"
  unfolding org_post_recv_def
  by (intro safe_and_then safe_if safe_simps)
    (auto intro!: safe_scaled_ns_n2h simp del: access_Inr flips.simps
      dest!: flips_length scaled_ns_n2h_length, auto)

lemma three_elements: "length xs = 3 \<Longrightarrow> \<exists>a b c. xs = [a, b, c]"
  by (auto simp: numeral_3_eq_3 length_Suc_conv)

lemma org_other:
  assumes "org_post_recv seg = Inr seg'" "take 6 (drop 4 seg) \<noteq> follow_up_info_id" "10 \<le> length seg"
  shows "seg' = seg" "org_pre_send seg = Inr seg"
proof -
  have t: "take 6 (drop 4 seg) = take 3 (drop 4 seg) @ take 3 (drop 7 seg)"
    using take_add [of 3 3 "drop 4 seg"] by simp
  have "length (take 3 (drop 7 seg)) = 3" using assms(3) by simp
  then obtain a b c where abc: "take 3 (drop 7 seg) = [a, b, c]"
    using three_elements by blast
  show "seg' = seg" "org_pre_send seg = Inr seg"
    using assms t abc
    by (auto simp: org_post_recv_def org_pre_send_def follow_up_info_id_def ieee8021_id_def rd_bytes_def
        split: if_splits)
qed

lemma unicast_tlv_post_recv_Inr:
  "unicast_tlv_post_recv sz fs seg = Inr seg' \<Longrightarrow> inside (length seg) fs \<and> seg' = swaps fs seg"
  unfolding unicast_tlv_post_recv_def by (elim and_thenE guardE) (simp add: flips_Inr_iff)

lemma unicast_converts:
  assumes "unicast_negotiation_post_recv seg = Inr seg'"
  shows "\<exists>fs. converts 6 fs seg seg' \<and> unicast_negotiation_pre_send seg' = Inr seg"
proof -
  define fs :: "(nat \<times> nat) list" where "fs = (if le16 0 seg = 4 \<or> le16 0 seg = 5 then [(6, 4)] else [])"
  have l: "2 \<le> length seg"
    using assms unfolding unicast_negotiation_post_recv_def by (elim and_thenE) simp
  have u: "unicast_negotiation_pre_send s = flips fs s" if "2 \<le> length s" "le16 0 s = le16 0 seg" for s
    using that by (simp add: unicast_negotiation_pre_send_def fs_def rd16_def)
  have "inside (length seg) fs \<and> seg' = swaps fs seg"
  proof (cases "le16 0 seg \<in> {4, 5, 6, 7}")
    case True
    then have "\<exists>sz. unicast_tlv_post_recv sz fs seg = Inr seg'"
      using assms l unfolding unicast_negotiation_post_recv_def fs_def rd16_def by fastforce
    then show ?thesis using unicast_tlv_post_recv_Inr by blast
  next
    case False
    then show ?thesis
      using assms l by (simp add: unicast_negotiation_post_recv_def fs_def rd16_def)
  qed
  then have c: "converts 6 fs seg seg'" by (auto simp: converts_def fs_def)
  then have "unicast_negotiation_pre_send seg' = Inr seg"
    using u [of seg'] l convertsD(1,2) [OF c] convertsD(4) [OF c, of 0] by simp
  with c show ?thesis by blast
qed

lemma safe_unicast:
  assumes "length seg = 4 + le16 2 seg"
  shows "safe (unicast_negotiation_post_recv seg)"
  using assms unfolding unicast_negotiation_post_recv_def unicast_tlv_post_recv_def
  by (auto intro!: safe_and_then)

definition carries_scaled_ns :: "bytes \<Rightarrow> bool" where
  "carries_scaled_ns seg \<longleftrightarrow>
     le16 0 seg = TLV_MANAGEMENT \<and> 2 < le16 2 seg \<and> le16 4 seg = TLV_TIME_STATUS_NP
     \<or> le16 0 seg = TLV_ORGANIZATION_EXTENSION \<and> take 6 (drop 4 seg) = follow_up_info_id"

lemma safe_tlv_post_recv:
  assumes "length seg = 4 + le16 2 seg"
  shows "safe (tlv_post_recv seg)"
proof -
  have m: "safe (mgt_post_recv (le16 2 seg - 2) s)" if "length s = length seg" "2 < le16 2 seg" for s
    using that assms unfolding mgt_post_recv_def
    by (auto intro!: safe_and_then safe_mgt_post_recv_data simp: mgt_post_recv_data_length split: if_splits)
  show ?thesis
    using assms m unfolding tlv_post_recv_def plain_def
    by (auto intro!: safe_and_then safe_org safe_unicast safe_nsm_resp)
qed

lemma swap_swap [simp]: "fst f + snd f \<le> length bs \<Longrightarrow> swap f (swap f bs) = bs"
  using swaps_swaps [of bs "[f]" "[f]"] by simp

lemma org_follow_up_kept:
  assumes "org_post_recv seg = Inr seg'" "10 \<le> length seg" "i < 10"
  shows "seg' ! i = seg ! i"
proof -
  have "\<exists>s1 s2. flips [(10, 4), (14, 2)] seg = Inr s1 \<and> scaled_ns_n2h 16 s1 = Inr s2 \<and> flip 28 4 s2 = Inr seg'
      \<or> seg' = seg"
    using assms(1) unfolding org_post_recv_def by (auto simp del: flips.simps access_Inr split: if_splits)
  then obtain s1 s2 where s: "flips [(10, 4), (14, 2)] seg = Inr s1 \<and> scaled_ns_n2h 16 s1 = Inr s2
      \<and> flip 28 4 s2 = Inr seg' \<or> seg' = seg" by blast
  show ?thesis
  proof (cases "seg' = seg")
    case False
    with s have f: "flips [(10, 4), (14, 2)] seg = Inr s1" "scaled_ns_n2h 16 s1 = Inr s2" "flip 28 4 s2 = Inr seg'"
      by blast+
    from f(3) assms f have "seg' ! i = s2 ! i"
      by (auto simp del: flips.simps dest!: flips_length scaled_ns_n2h_length)
    also have "\<dots> = s1 ! i" using f(2) assms(3) by (simp add: nth_scaled_ns)
    also have "\<dots> = seg ! i"
      using f(1) assms convertsD(3) [of 10 "[(10, 4), (14, 2)]" seg s1 i]
      by (simp add: flips_Inr_iff converts_def del: flips.simps)
    finally show ?thesis .
  qed simp
qed

lemma path_trace_cap:
  assumes "4 \<le> length seg"
  shows "length (take 2 seg @ [1432, 5] @ drop 4 seg) = length seg"
    "le16 2 (take 2 seg @ [1432, 5] @ drop 4 seg) = 1432"
  using assms by (simp_all add: le16_def nth_append min_def)

text \<open>What \<open>tlv_post_recv\<close> and \<open>tlv_pre_send\<close> do for each type.\<close>

lemma tlv_post_recv_cases:
  assumes "tlv_post_recv seg = Inr (seg', x)" "4 \<le> length seg"
  shows "le16 0 seg = TLV_MANAGEMENT \<Longrightarrow> 2 \<le> le16 2 seg \<and> 6 \<le> length seg \<and>
      (if 2 < le16 2 seg then mgt_post_recv (le16 2 seg - 2) (swap (4, 2) seg) = Inr (seg', x)
       else seg' = swap (4, 2) seg)"
    and "le16 0 seg = TLV_MANAGEMENT_ERROR_STATUS \<Longrightarrow> flips [(4, 2), (6, 2)] seg = Inr seg'"
    and "le16 0 seg = TLV_ORGANIZATION_EXTENSION \<Longrightarrow> 6 \<le> le16 2 seg \<and> org_post_recv seg = Inr seg'"
    and "is_unicast_tlv (le16 0 seg) \<Longrightarrow> unicast_negotiation_post_recv seg = Inr seg'"
    and "le16 0 seg = TLV_PTPMON_RESP \<Longrightarrow> nsm_resp_post_recv seg = Inr (seg', x)"
    and "le16 0 seg = TLV_PATH_TRACE \<Longrightarrow> seg' = seg \<or> length seg' = length seg \<and> le16 2 seg' = 1432 \<and> 1440 \<le> le16 2 seg"
    and "le16 0 seg \<notin> {1, 2, 3, 8, TLV_PTPMON_RESP} \<Longrightarrow> \<not> is_unicast_tlv (le16 0 seg) \<Longrightarrow> seg' = seg"
proof -
  note rd = assms(1) [unfolded tlv_post_recv_def plain_def]
  show "le16 0 seg = TLV_MANAGEMENT \<Longrightarrow> 2 \<le> le16 2 seg \<and> 6 \<le> length seg \<and>
      (if 2 < le16 2 seg then mgt_post_recv (le16 2 seg - 2) (swap (4, 2) seg) = Inr (seg', x)
       else seg' = swap (4, 2) seg)"
    using rd assms(2) by (simp split: if_splits)
  show "le16 0 seg = TLV_MANAGEMENT_ERROR_STATUS \<Longrightarrow> flips [(4, 2), (6, 2)] seg = Inr seg'"
    using rd assms(2) by (simp del: flips.simps split: if_splits)
  show "le16 0 seg = TLV_ORGANIZATION_EXTENSION \<Longrightarrow> 6 \<le> le16 2 seg \<and> org_post_recv seg = Inr seg'"
    using rd assms(2) by (simp split: if_splits)
  show "is_unicast_tlv (le16 0 seg) \<Longrightarrow> unicast_negotiation_post_recv seg = Inr seg'"
    using rd assms(2) by (simp add: is_unicast_tlv_def split: if_splits)
  show "le16 0 seg = TLV_PTPMON_RESP \<Longrightarrow> nsm_resp_post_recv seg = Inr (seg', x)"
    using rd assms(2) by (simp add: is_unicast_tlv_def split: if_splits)
  show "le16 0 seg = TLV_PATH_TRACE \<Longrightarrow> seg' = seg \<or> length seg' = length seg \<and> le16 2 seg' = 1432 \<and> 1440 \<le> le16 2 seg"
    using rd assms(2) path_trace_cap [of seg] by (simp add: is_unicast_tlv_def put_Inr split: if_splits) auto
  show "le16 0 seg \<notin> {1, 2, 3, 8, TLV_PTPMON_RESP} \<Longrightarrow> \<not> is_unicast_tlv (le16 0 seg) \<Longrightarrow> seg' = seg"
    using rd assms(2) by (simp split: if_splits)
qed

lemma tlv_pre_send_cases:
  assumes "4 \<le> length seg"
  shows "le16 0 seg = TLV_MANAGEMENT \<Longrightarrow> tlv_pre_send seg x =
      and_then (if 2 < le16 2 seg then mgt_pre_send seg x else Inr seg) (flip 4 2)"
    and "le16 0 seg = TLV_MANAGEMENT_ERROR_STATUS \<Longrightarrow> tlv_pre_send seg x = flips [(4, 2), (6, 2)] seg"
    and "le16 0 seg = TLV_ORGANIZATION_EXTENSION \<Longrightarrow> tlv_pre_send seg x = org_pre_send seg"
    and "is_unicast_tlv (le16 0 seg) \<Longrightarrow> tlv_pre_send seg x = unicast_negotiation_pre_send seg"
    and "le16 0 seg = TLV_PTPMON_RESP \<Longrightarrow> tlv_pre_send seg x = nsm_resp_pre_send seg x"
    and "le16 0 seg \<notin> {1, 2, 3, TLV_PTPMON_RESP} \<Longrightarrow> \<not> is_unicast_tlv (le16 0 seg) \<Longrightarrow>
      tlv_pre_send seg x = Inr seg"
  using assms by (auto simp: tlv_pre_send_def rd16_def is_unicast_tlv_def simp del: flips.simps)

abbreviation restored :: "bytes \<Rightarrow> bytes \<Rightarrow> tlv_extra \<Rightarrow> bool" where
  "restored seg seg' x \<equiv> tlv_pre_send seg' x = Inr seg \<and> length seg' = length seg \<and> le16 0 seg' = le16 0 seg"

lemma restored_management:
  assumes r: "tlv_post_recv seg = Inr (seg', x)" and len: "length seg = 4 + le16 2 seg"
    and t: "le16 0 seg = TLV_MANAGEMENT" and no: "\<not> carries_scaled_ns seg'"
  shows "restored seg seg' x"
proof -
  define s1 where "s1 = swap (4, 2) seg"
  have l: "2 \<le> le16 2 seg" and s1: "if 2 < le16 2 seg then mgt_post_recv (le16 2 seg - 2) s1 = Inr (seg', x) else seg' = s1"
    using tlv_post_recv_cases(1) [OF r _ t] len by (simp_all add: s1_def)
  have s1': "length s1 = length seg" "le16 0 s1 = TLV_MANAGEMENT" "le16 2 s1 = le16 2 seg" "flip 4 2 s1 = Inr seg"
    using l len t by (simp_all add: s1_def)
  show ?thesis
  proof (cases "2 < le16 2 seg")
    case True
    then have mr: "mgt_post_recv (le16 2 seg - 2) s1 = Inr (seg', x)" using s1 by simp
    have k: "length seg' = length seg" "le16 0 seg' = TLV_MANAGEMENT" "le16 2 seg' = le16 2 seg" "le16 4 seg' = le16 4 s1"
      using mgt_post_recv_keeps [OF mr, of 0] mgt_post_recv_keeps [OF mr, of 2]
        mgt_post_recv_keeps [OF mr, of 4] s1'(1-3) l len by simp_all
    then have "le16 4 s1 \<noteq> TLV_TIME_STATUS_NP"
      using no True by (simp add: carries_scaled_ns_def)
    then have mp: "mgt_pre_send seg' x = Inr s1"
      using mgt_post_recv_converts [OF mr] l len s1'(1) by auto
    have "tlv_pre_send seg' x = and_then (mgt_pre_send seg' x) (flip 4 2)"
      using True k(1-3) len tlv_pre_send_cases(1) [of seg' x] by simp
    also have "\<dots> = Inr seg" unfolding mp and_then.simps by (rule s1'(4))
    finally show ?thesis using k t by simp
  next
    case False
    then have eq: "seg' = s1" using s1 by simp
    have "tlv_pre_send seg' x = flip 4 2 s1"
      using False eq s1'(1-3) len tlv_pre_send_cases(1) [of s1 x] by simp
    also have "\<dots> = Inr seg" by (rule s1'(4))
    finally show ?thesis using eq s1'(1,2) t by simp
  qed
qed

lemma restored_organization:
  assumes r: "tlv_post_recv seg = Inr (seg', x)" and len: "length seg = 4 + le16 2 seg"
    and t: "le16 0 seg = TLV_ORGANIZATION_EXTENSION" and no: "\<not> carries_scaled_ns seg'"
  shows "restored seg seg' x"
proof -
  have l: "6 \<le> le16 2 seg" and o: "org_post_recv seg = Inr seg'"
    using tlv_post_recv_cases(3) [OF r _ t] len by simp_all
  have nt: "\<forall>i < 10. seg' ! i = seg ! i"
    using org_follow_up_kept [OF o] l len by simp
  have "take 6 (drop 4 seg') = take 6 (drop 4 seg)"
    by (intro nth_equalityI) (use l len nt org_length [OF o] in auto)
  moreover have "le16 0 seg' = TLV_ORGANIZATION_EXTENSION" using nt t by (simp add: le16_def)
  ultimately have "take 6 (drop 4 seg) \<noteq> follow_up_info_id"
    using no by (simp add: carries_scaled_ns_def)
  then show ?thesis
    using org_other [OF o] t l len by (simp add: tlv_pre_send_cases)
qed

lemma restored_fields:
  assumes r: "tlv_post_recv seg = Inr (seg', x)" and len: "length seg = 4 + le16 2 seg"
    and t: "le16 0 seg = TLV_MANAGEMENT_ERROR_STATUS \<or> is_unicast_tlv (le16 0 seg) \<or> le16 0 seg = TLV_PTPMON_RESP"
  shows "restored seg seg' x"
proof -
  have "\<exists>fs. converts 4 fs seg seg' \<and> (4 \<le> length seg' \<and> le16 0 seg' = le16 0 seg \<longrightarrow> tlv_pre_send seg' x = Inr seg)"
  proof -
    consider "le16 0 seg = TLV_MANAGEMENT_ERROR_STATUS" | "is_unicast_tlv (le16 0 seg)" | "le16 0 seg = TLV_PTPMON_RESP"
      using t by blast
    then show ?thesis
    proof cases
      case 1
      then have c: "converts 4 [(4, 2), (6, 2)] seg seg'"
        using tlv_post_recv_cases(2) [OF r] len by (simp add: converts_def flips_Inr_iff del: flips.simps)
      then show ?thesis
        using 1 convertsD(2) [OF c] tlv_pre_send_cases(2) [of seg' x]
        by (intro exI [of _ "[(4, 2), (6, 2)]"]) (simp del: flips.simps)
    next
      case 2
      then obtain fs where c: "converts 6 fs seg seg'" "unicast_negotiation_pre_send seg' = Inr seg"
        using unicast_converts tlv_post_recv_cases(4) [OF r] len by auto
      then show ?thesis
        using 2 tlv_pre_send_cases(4) [of seg' x] by (intro exI [of _ fs]) (auto simp: converts_def)
    next
      case 3
      have "nsm_resp_post_recv seg = Inr (seg', x)"
        using tlv_post_recv_cases(5) [OF r _ 3] len by simp
      then obtain fs where c: "converts 6 fs seg seg'" "nsm_resp_pre_send seg' x = Inr seg"
        using nsm_resp_converts by blast
      then show ?thesis
        using 3 tlv_pre_send_cases(5) [of seg' x] by (intro exI [of _ fs]) (auto simp: converts_def)
    qed
  qed
  then obtain fs where c: "converts 4 fs seg seg'"
    "4 \<le> length seg' \<and> le16 0 seg' = le16 0 seg \<longrightarrow> tlv_pre_send seg' x = Inr seg" by blast
  then show ?thesis
    using len convertsD(1) [OF c(1)] convertsD(4) [OF c(1), of 0] by simp
qed

lemma tlv_post_recv_inverse:
  assumes r: "tlv_post_recv seg = Inr (seg', x)" and len: "length seg = 4 + le16 2 seg"
    and no: "\<not> carries_scaled_ns seg'" and cap: "length seg' = 4 + le16 2 seg'"
  shows "restored seg seg' x"
proof -
  define t where "t = le16 0 seg"
  consider "t = TLV_MANAGEMENT" | "t = TLV_MANAGEMENT_ERROR_STATUS \<or> is_unicast_tlv t \<or> t = TLV_PTPMON_RESP"
    | "t = TLV_ORGANIZATION_EXTENSION" | "t = TLV_PATH_TRACE"
    | "t \<notin> {1, 2, 3, 8, TLV_PTPMON_RESP}" "\<not> is_unicast_tlv t" by blast
  then show ?thesis
  proof cases
    case 4
    then have "seg' = seg"
      using tlv_post_recv_cases(6) [OF r] len cap by (auto simp: t_def)
    with 4 len show ?thesis
      using tlv_pre_send_cases(6) [of seg x] by (simp add: t_def is_unicast_tlv_def)
  next
    case 5
    then have "seg' = seg"
      using tlv_post_recv_cases(7) [OF r] len by (simp add: t_def)
    with 5 len show ?thesis
      using tlv_pre_send_cases(6) [of seg x] by (simp add: t_def)
  qed (use restored_management restored_organization restored_fields r len no in \<open>simp_all add: t_def\<close>)
qed

subsection \<open>Scaled nanoseconds\<close>

lemma scaled_ns_low_word:
  assumes "scaled_ns_n2h off s = Inr s'"
  shows "take 8 (drop (off + 2) s') = be64 (256 * unat (s ! off) + unat (s ! (off + 1)))"
proof -
  define s1 where "s1 = swap (off, 2) s"
  obtain s2 where s: "off + 2 \<le> length s" "put (off + 2) (be64 (le16 off s1)) s1 = Inr s2" "off + 12 \<le> length s2"
     "s' = swap (off + 10, 2) s2"
    using assms by (auto simp: scaled_ns_n2h_def s1_def)
  have l: "length s1 = length s" "length s2 = length s"
    using s(1) length_put [OF s(2)] by (simp_all add: s1_def)
  have "le16 off s1 = 256 * unat (s ! off) + unat (s ! (off + 1))"
    using s(1) by (simp add: s1_def le16_def nth_swap mirror_def)
  moreover have "take 8 (drop (off + 2) s2) = be64 (le16 off s1)"
    using s(2,3) l by (auto simp: put_Inr)
  moreover have "take 8 (drop (off + 2) s') = take 8 (drop (off + 2) s2)"
    using s(3,4) l by (intro nth_equalityI) auto
  ultimately show ?thesis by simp
qed

text \<open>
  the low word of a received grandmaster phase change is lost. Whatever the eight bytes
  of \<open>nanoseconds_lsb\<close> of a follow up information TLV are, the program stores there the byte
  swapped value of the two bytes of \<open>nanoseconds_msb\<close>.
\<close>

lemma phase_change_low_word_lost:
  assumes "org_post_recv seg = Inr seg'" "take 6 (drop 4 seg) = follow_up_info_id" "length seg = 32"
  shows "take 8 (drop 18 seg') = be64 (256 * unat (seg ! 16) + unat (seg ! 17))"
proof -
  have t: "take 3 (drop 4 seg) = ieee8021_id" "take 3 (drop 7 seg) = [0, 0, 1]"
  proof -
    have "take 3 (drop 4 seg) @ take 3 (drop 7 seg) = ieee8021_id @ [0, 0, 1]"
      using assms(2) take_add [of 3 3 "drop 4 seg"] by (simp add: follow_up_info_id_def)
    moreover have "length (take 3 (drop 4 seg)) = length ieee8021_id"
      using assms(3) by (simp add: ieee8021_id_def)
    ultimately show "take 3 (drop 4 seg) = ieee8021_id" "take 3 (drop 7 seg) = [0, 0, 1]"
      using append_eq_append_conv by blast+
  qed
  obtain s1 s2 where s: "flips [(10, 4), (14, 2)] seg = Inr s1" "scaled_ns_n2h 16 s1 = Inr s2" "flip 28 4 s2 = Inr seg'"
    using assms(1,3) t unfolding org_post_recv_def
    by (auto simp: rd_bytes_def rd16_def simp del: flips.simps access_Inr split: if_splits)
  have c: "converts 10 [(10, 4), (14, 2)] seg s1"
    using s(1) by (simp add: converts_def flips_Inr_iff del: flips.simps)
  have l: "length s1 = 32" "length s2 = 32"
    using convertsD(1) [OF c] assms(3) scaled_ns_n2h_length [OF s(2)] by simp_all
  have "s1 ! 16 = seg ! 16" "s1 ! 17 = seg ! 17"
    using s(1) assms(3) by (simp_all add: flips_Inr_iff)
  moreover have "take 8 (drop 18 seg') = take 8 (drop 18 s2)"
    using s(3) l by (intro nth_equalityI) auto
  ultimately show ?thesis
    using scaled_ns_low_word [OF s(2)] by simp
qed

lemma phase_change_low_word_lost_witness:
  "\<exists>seg'. org_post_recv [3, 0, 28, 0, 0x00, 0x80, 0xC2, 0, 0, 1, 0, 0, 0, 0, 0, 0, 0, 0, 1, 2, 3, 4, 5, 6, 7, 8,
      0, 0, 0, 0, 0, 0] = Inr seg' \<and> take 8 (drop 18 seg') = [0, 0, 0, 0, 0, 0, 0, 0]"
proof -
  let ?seg = "[3, 0, 28, 0, 0x00, 0x80, 0xC2, 0, 0, 1, 0, 0, 0, 0, 0, 0, 0, 0, 1, 2, 3, 4, 5, 6, 7, 8,
      0, 0, 0, 0, 0, 0] :: bytes"
  have "\<exists>seg'. org_post_recv ?seg = Inr seg'"
    by (simp add: org_post_recv_def rd_bytes_def ieee8021_id_def rd16_def le16_def flip_def scaled_ns_n2h_def put_def
        swap_def be64_def)
  then obtain seg' where s: "org_post_recv ?seg = Inr seg'" by blast
  then show ?thesis
    using phase_change_low_word_lost [OF s] by (simp add: follow_up_info_id_def ieee8021_id_def be64_def)
qed

end
