(* ===== verification/Msg.thy ===== *)
theory Msg
  imports Tlv
begin

text \<open>
  Messages between their wire format and host byte order, msg.c. A received message is the list
  of the bytes the transport delivered; \<open>ptpMsgReceive\<close> cuts it into the fixed part, the TLVs
  and the bytes that follow the last TLV. Fields are at the offsets of the packed structures of
  ptpProtocol.h.
\<close>

abbreviation (input) sizeof_ptp_header :: nat where "sizeof_ptp_header \<equiv> 34"
abbreviation (input) SIGNALING_TYPE :: u8 where "SIGNALING_TYPE \<equiv> 12"
abbreviation (input) MANAGEMENT_TYPE :: u8 where "MANAGEMENT_TYPE \<equiv> 13"

record wire_msg =
  w_body :: bytes
  w_tlvs :: "(bytes \<times> tlv_extra) list"
  w_rest :: bytes
  w_pdu :: LocalTimeStamp
  w_host :: timespec

text \<open>The bytes of a message in the order they have in the buffer.\<close>

definition wire_bytes :: "wire_msg \<Rightarrow> bytes" where
  "wire_bytes m = w_body m @ concat (map fst (w_tlvs m)) @ w_rest m"

subsection \<open>Header and body\<close>

definition wire_type :: "bytes \<Rightarrow> u8" where
  "wire_type bs = (bs ! 0) AND 0x0f"

definition hdr_post_recv :: "bytes \<Rightarrow> bytes result" where
  "hdr_post_recv bs =
     and_then (rd_bytes 1 1 bs) (\<lambda>v.
     if v ! 0 AND 0x0f \<noteq> 2 then Inl (Errno EPROTO)
     else flips [(2, 2), (8, 8), (28, 2), (30, 2)] bs)"

definition hdr_pre_send :: "bytes \<Rightarrow> bytes result" where
  "hdr_pre_send bs = flips [(2, 2), (8, 8), (28, 2), (30, 2)] bs"

text \<open>The size of the structure of each message type; no structure for an unknown type.\<close>

definition pdu_length :: "u8 \<Rightarrow> nat option" where
  "pdu_length t =
     (if t = SYNC then Some 44
      else if t = DELAY_REQ then Some 44
      else if t = PDELAY_REQ then Some 54
      else if t = PDELAY_RESP then Some 54
      else if t = FOLLOW_UP then Some 44
      else if t = DELAY_RESP then Some 54
      else if t = PDELAY_RESP_FOLLOW_UP then Some 54
      else if t = ANNOUNCE then Some 64
      else if t = SIGNALING_TYPE then Some 44
      else if t = MANAGEMENT_TYPE then Some 48
      else None)"

text \<open>The offset of \<open>suffix\<close>, for the types that admit appended TLVs.\<close>

definition msg_suffix :: "u8 \<Rightarrow> nat option" where
  "msg_suffix t =
     (if t = SYNC then None
      else if t = DELAY_REQ then Some 44
      else if t = PDELAY_REQ then None
      else if t = PDELAY_RESP then None
      else if t = FOLLOW_UP then Some 44
      else if t = DELAY_RESP then Some 54
      else if t = PDELAY_RESP_FOLLOW_UP then Some 54
      else if t = ANNOUNCE then Some 64
      else if t = SIGNALING_TYPE then Some 44
      else if t = MANAGEMENT_TYPE then Some 48
      else None)"

text \<open>The time stamp of a message is decoded into \<open>ts.pdu\<close>; its bytes stay as they are.\<close>

definition timestamp_post_recv :: "nat \<Rightarrow> bytes \<Rightarrow> LocalTimeStamp result" where
  "timestamp_post_recv off bs =
     and_then (rd_bytes off 10 bs) (\<lambda>w. Inr (wire_to_local
       \<lparr>seconds_msb = word_rcat (take 2 w), seconds_lsb = word_rcat (take 4 (drop 2 w)),
        nanoseconds = word_rcat (drop 6 w)\<rparr>))"

definition timestamp_pre_send :: "nat \<Rightarrow> bytes \<Rightarrow> bytes result" where
  "timestamp_pre_send off bs = flips [(off + 2, 4), (off, 2), (off + 6, 4)] bs"

definition port_id_post_recv :: "nat \<Rightarrow> bytes \<Rightarrow> bytes result" where
  "port_id_post_recv off bs = flip (off + 8) 2 bs"

definition port_id_pre_send :: "nat \<Rightarrow> bytes \<Rightarrow> bytes result" where
  "port_id_pre_send off bs = flip (off + 8) 2 bs"

definition announce_post_recv :: "bytes \<Rightarrow> bytes result" where
  "announce_post_recv bs = flips [(44, 2), (50, 2), (61, 2)] bs"

definition announce_pre_send :: "bytes \<Rightarrow> bytes result" where
  "announce_pre_send bs = flips [(44, 2), (50, 2), (61, 2)] bs"

definition zero_pdu :: LocalTimeStamp where "zero_pdu = \<lparr>sec = 0, nsec = 0\<rparr>"
definition zero_host :: timespec where "zero_host = \<lparr>tv_sec = 0, tv_nsec = 0\<rparr>"

text \<open>The second switch of \<open>ptpMsgReceive\<close>: the converted bytes, \<open>ts.pdu\<close> and \<open>ts.host\<close>.\<close>

definition body_post_recv :: "timespec \<Rightarrow> u8 \<Rightarrow> bytes \<Rightarrow> (bytes \<times> LocalTimeStamp \<times> timespec) result" where
  "body_post_recv now t bs =
     (if t = SYNC \<or> t = FOLLOW_UP then
        and_then (timestamp_post_recv 34 bs) (\<lambda>ts. Inr (bs, ts, zero_host))
      else if t = PDELAY_RESP \<or> t = DELAY_RESP \<or> t = PDELAY_RESP_FOLLOW_UP then
        and_then (timestamp_post_recv 34 bs) (\<lambda>ts.
        and_then (port_id_post_recv 44 bs) (\<lambda>bs. Inr (bs, ts, zero_host)))
      else if t = ANNOUNCE then
        and_then (timestamp_post_recv 34 bs) (\<lambda>ts.
        and_then (announce_post_recv bs) (\<lambda>bs. Inr (bs, ts, now)))
      else if t = SIGNALING_TYPE \<or> t = MANAGEMENT_TYPE then
        and_then (port_id_post_recv 34 bs) (\<lambda>bs. Inr (bs, zero_pdu, zero_host))
      else Inr (bs, zero_pdu, zero_host))"

definition body_pre_send :: "timespec \<Rightarrow> u8 \<Rightarrow> wire_msg \<Rightarrow> wire_msg result" where
  "body_pre_send now t m =
     (let set = (\<lambda>b. Inr (m\<lparr>w_body := b\<rparr>)); bs = w_body m
      in if t = SYNC then Inr m
         else if t = DELAY_REQ then Inr (m\<lparr>w_host := now\<rparr>)
         else if t = PDELAY_REQ then Inr m
         else if t = PDELAY_RESP \<or> t = DELAY_RESP \<or> t = PDELAY_RESP_FOLLOW_UP then
           and_then (and_then (timestamp_pre_send 34 bs) (port_id_pre_send 44)) set
         else if t = FOLLOW_UP then and_then (timestamp_pre_send 34 bs) set
         else if t = ANNOUNCE then and_then (announce_pre_send bs) set
         else if t = SIGNALING_TYPE \<or> t = MANAGEMENT_TYPE then and_then (port_id_pre_send 34 bs) set
         else Inl UnknownType)"

subsection \<open>The list of TLVs\<close>

text \<open>
  The loop over the suffix. \<open>avail\<close> is how many descriptors can still be allocated; the
  allocation fails when there is none. An odd length, or one past the end of the message, is
  an error. \<open>ptr\<close> and \<open>len\<close> of the code are the remaining bytes and their number.
\<close>

fun suffix_post_recv :: "nat \<Rightarrow> bytes \<Rightarrow> ((bytes \<times> tlv_extra) list \<times> bytes) result" where
  "suffix_post_recv avail bs =
     (if length bs < 4 then Inr ([], bs)
      else case avail of
        0 \<Rightarrow> Inl (Errno ENOMEM)
      | Suc avail' \<Rightarrow>
          and_then (flips [(0, 2), (2, 2)] bs) (\<lambda>bs.
          and_then (rd16 2 bs) (\<lambda>n.
          if odd n then Inl (Errno EBADMSG)
          else if n > length bs - 4 then Inl (Errno EBADMSG)
          else and_then (tlv_post_recv (take (4 + n) bs)) (\<lambda>t.
               and_then (suffix_post_recv avail' (drop (4 + n) bs)) (\<lambda>(ts, rest).
               Inr (t # ts, rest))))))"

declare suffix_post_recv.simps [simp del]

fun suffix_pre_send :: "(bytes \<times> tlv_extra) list \<Rightarrow> bytes result" where
  "suffix_pre_send [] = Inr []"
| "suffix_pre_send ((seg, x) # ts) =
     and_then (tlv_pre_send seg x) (\<lambda>seg.
     and_then (flips [(0, 2), (2, 2)] seg) (\<lambda>seg.
     and_then (suffix_pre_send ts) (\<lambda>bs. Inr (seg @ bs))))"

definition msg_tlv_count :: "wire_msg \<Rightarrow> nat" where
  "msg_tlv_count m = length (w_tlvs m)"

definition msg_tlv_attach :: "bytes \<times> tlv_extra \<Rightarrow> wire_msg \<Rightarrow> wire_msg" where
  "msg_tlv_attach t m = m\<lparr>w_tlvs := w_tlvs m @ [t]\<rparr>"

subsection \<open>Receiving and sending\<close>

definition ptpMsgReceive :: "timespec \<Rightarrow> nat \<Rightarrow> bytes \<Rightarrow> wire_msg result" where
  "ptpMsgReceive now avail bs =
     (if length bs < sizeof_ptp_header then Inl (Errno EBADMSG)
      else and_then (hdr_post_recv bs) (\<lambda>bs.
        let t = wire_type bs
        in case pdu_length t of
             None \<Rightarrow> Inl (Errno EBADMSG)
           | Some pdulen \<Rightarrow>
               if length bs < pdulen then Inl (Errno EBADMSG)
               else and_then (body_post_recv now t bs) (\<lambda>(bs, pdu, host).
                 case msg_suffix t of
                   None \<Rightarrow> Inr \<lparr>w_body = take pdulen bs, w_tlvs = [], w_rest = drop pdulen bs,
                               w_pdu = pdu, w_host = host\<rparr>
                 | Some off \<Rightarrow>
                     and_then (suffix_post_recv avail (take (length bs - pdulen) (drop off bs)))
                       (\<lambda>(ts, rest). Inr \<lparr>w_body = take off bs, w_tlvs = ts, w_rest = rest,
                                         w_pdu = pdu, w_host = host\<rparr>))))"

definition msg_pre_send :: "timespec \<Rightarrow> wire_msg \<Rightarrow> wire_msg result" where
  "msg_pre_send now m =
     and_then (hdr_pre_send (w_body m)) (\<lambda>b.
     and_then (body_pre_send now (wire_type b) (m\<lparr>w_body := b\<rparr>)) (\<lambda>m.
     and_then (suffix_pre_send (w_tlvs m)) (\<lambda>bs.
     Inr (m\<lparr>w_tlvs := [], w_rest := bs @ w_rest m\<rparr>))))"

text \<open>
  The duplicate that a transparent clock hands to its own handlers: a copy of the received
  bytes with its own time stamp, refused when it is an event message without one.
\<close>

definition msg_duplicate :: "timespec \<Rightarrow> nat \<Rightarrow> tmv_t \<Rightarrow> bytes \<Rightarrow> wire_msg option" where
  "msg_duplicate now avail hwts bs =
     (case ptpMsgReceive now avail bs of
        Inl e \<Rightarrow> None
      | Inr m \<Rightarrow> if wire_type (w_body m) \<in> {SYNC, DELAY_REQ, PDELAY_REQ, PDELAY_RESP} \<and> tmv_is_zero hwts
                then None else Some m)"

subsection \<open>Every access lies inside the message\<close>

lemma swap_append: "fst f + snd f \<le> length a \<Longrightarrow> swap f (a @ b) = swap f a @ b"
  by (simp add: swap_def)

lemma swaps_append: "inside (length a) fs \<Longrightarrow> swaps fs (a @ b) = swaps fs a @ b"
  by (induction fs arbitrary: a) (auto simp: swap_append)


lemma drop_swaps: "inside n fs \<Longrightarrow> n \<le> length bs \<Longrightarrow> drop n (swaps fs bs) = drop n bs"
  using swaps_append [of "take n bs" fs "drop n bs"] by (simp add: min_def)

lemma le16_take: "off + 2 \<le> n \<Longrightarrow> le16 off (take n bs) = le16 off bs"
  by (simp add: le16_def)

lemma suffix_post_recv_step:
  assumes "4 \<le> length bs"
  shows "suffix_post_recv 0 bs = Inl (Errno ENOMEM)"
    "suffix_post_recv (Suc avail) bs = (let b = swaps [(0, 2), (2, 2)] bs; n = le16 2 b in
       if odd n \<or> n > length bs - 4 then Inl (Errno EBADMSG)
       else and_then (tlv_post_recv (take (4 + n) b)) (\<lambda>t.
            and_then (suffix_post_recv avail (drop (4 + n) bs)) (\<lambda>(ts, rest). Inr (t # ts, rest))))"
  using assms
  by (auto simp: suffix_post_recv.simps [of _ bs] flips_eq_swaps rd16_def Let_def drop_swaps
      simp del: flips.simps fold_Cons)

lemma suffix_post_recv_short: "length bs < 4 \<Longrightarrow> suffix_post_recv avail bs = Inr ([], bs)"
  by (simp add: suffix_post_recv.simps)

lemma safe_suffix_post_recv: "safe (suffix_post_recv avail bs)"
proof (induction avail arbitrary: bs)
  case 0
  show ?case
    by (cases "length bs < 4") (simp_all add: suffix_post_recv_step suffix_post_recv_short)
next
  case (Suc avail)
  show ?case
  proof (cases "length bs < 4")
    case False
    then show ?thesis
      by (auto simp: suffix_post_recv_step Let_def le16_take simp del: fold_Cons
          intro!: safe_and_then safe_tlv_post_recv Suc split: prod.split)
  qed (simp add: suffix_post_recv_short)
qed

text \<open>The list of TLVs and the rest of the message make up the suffix.\<close>

definition intact :: "bytes \<times> tlv_extra \<Rightarrow> bool" where
  "intact t \<longleftrightarrow> \<not> carries_scaled_ns (fst t) \<and> length (fst t) = 4 + le16 2 (fst t)"


lemma tlv_post_recv_bounds:
  assumes r: "tlv_post_recv seg = Inr (seg', x)" and len: "length seg = 4 + le16 2 seg"
  shows "length seg' = length seg \<and> le16 2 seg' \<le> le16 2 seg"
proof -
  have l4: "4 \<le> length seg" using len by simp
  note cs = tlv_post_recv_cases [OF r l4]
  define t where "t = le16 0 seg"
  consider "t = TLV_MANAGEMENT" | "t = TLV_MANAGEMENT_ERROR_STATUS \<or> is_unicast_tlv t \<or> t = TLV_PTPMON_RESP"
    | "t = TLV_ORGANIZATION_EXTENSION" | "t = TLV_PATH_TRACE"
    | "t \<notin> {1, 2, 3, 8, TLV_PTPMON_RESP}" "\<not> is_unicast_tlv t" by blast
  then show ?thesis
  proof cases
    case 1
    then have h: "6 \<le> length seg" "if 2 < le16 2 seg then mgt_post_recv (le16 2 seg - 2) (swap (4, 2) seg) = Inr (seg', x)
       else seg' = swap (4, 2) seg"
      using cs(1) by (simp_all add: t_def)
    show ?thesis
    proof (cases "2 < le16 2 seg")
      case True
      then have "mgt_post_recv (le16 2 seg - 2) (swap (4, 2) seg) = Inr (seg', x)" using h by simp
      from mgt_post_recv_keeps [OF this, of 2] h(1) show ?thesis by simp
    qed (use h in simp)
  next
    case 2
    have "\<exists>fs. converts 4 fs seg seg'"
    proof -
      have "le16 0 seg = TLV_MANAGEMENT_ERROR_STATUS \<Longrightarrow> converts 4 [(4, 2), (6, 2)] seg seg'"
        using cs(2) by (simp add: converts_def flips_Inr_iff del: flips.simps)
      moreover have "\<exists>fs. converts 6 fs seg seg'"
        if "is_unicast_tlv (le16 0 seg) \<or> le16 0 seg = TLV_PTPMON_RESP"
        using that cs(4,5) unicast_converts nsm_resp_converts by blast
      moreover have "converts 6 fs seg seg' \<Longrightarrow> converts 4 fs seg seg'" for fs
        by (auto simp: converts_def)
      ultimately show ?thesis using 2 unfolding t_def by blast
    qed
    then obtain fs where c: "converts 4 fs seg seg'" by blast
    show ?thesis using convertsD(1) [OF c] convertsD(4) [OF c, of 2] l4 by simp
  next
    case 3
    then have o: "org_post_recv seg = Inr seg'" "10 \<le> length seg"
      using cs(3) len by (simp_all add: t_def)
    show ?thesis
      using org_length [OF o(1)] org_follow_up_kept [OF o, of 2] org_follow_up_kept [OF o, of 3] by (simp add: le16_def)
  next
    case 4
    then show ?thesis using cs(6) by (auto simp: t_def)
  next
    case 5
    then show ?thesis using cs(7) by (simp add: t_def)
  qed
qed

definition inside_tlv :: "bytes \<times> tlv_extra \<Rightarrow> bool" where
  "inside_tlv t \<longleftrightarrow> even (length (fst t)) \<and> 4 + le16 2 (fst t) \<le> length (fst t)"

lemma suffix_post_recv_bounds:
  assumes "suffix_post_recv avail bs = Inr (ts, rest)"
  shows "length (concat (map fst ts)) + length rest = length bs" "length rest < 4"
    "list_all inside_tlv ts" "length ts \<le> avail"
proof -
  have "length (concat (map fst ts)) + length rest = length bs \<and> length rest < 4
     \<and> list_all inside_tlv ts \<and> length ts \<le> avail"
    using assms
  proof (induction avail arbitrary: bs ts)
    case 0
    then show ?case
      by (cases "length bs < 4") (auto simp: suffix_post_recv_step suffix_post_recv_short)
  next
    case (Suc avail)
    show ?case
    proof (cases "length bs < 4")
      case True
      then show ?thesis using Suc.prems by (auto simp: suffix_post_recv_short)
    next
      case False
      define b where "b = swaps [(0, 2), (2, 2)] bs"
      define n where "n = le16 2 b"
      obtain seg' x ts' where *: "even n" "n \<le> length bs - 4" "tlv_post_recv (take (4 + n) b) = Inr (seg', x)"
        "suffix_post_recv avail (drop (4 + n) bs) = Inr (ts', rest)" "ts = (seg', x) # ts'"
        using Suc.prems(1) False
        by (auto simp: suffix_post_recv_step Let_def b_def [symmetric] n_def [symmetric]
            simp del: fold_Cons split: if_splits prod.splits)
      have len: "length (take (4 + n) b) = 4 + n"
        using *(2) False by (simp add: b_def)
      have "le16 2 (take (4 + n) b) = n" by (simp add: le16_take n_def)
      then have "length seg' = 4 + n \<and> le16 2 seg' \<le> n"
        using tlv_post_recv_bounds [OF *(3)] len by simp
      then show ?thesis
        using Suc.IH [OF *(4)] * False by (auto simp: inside_tlv_def)
    qed
  qed
  then show "length (concat (map fst ts)) + length rest = length bs" "length rest < 4"
    "list_all inside_tlv ts" "length ts \<le> avail" by simp_all
qed

subsection \<open>A received message\<close>

lemma pdu_length_cases:
  "pdu_length t = Some n \<Longrightarrow> 44 \<le> n \<and> (msg_suffix t = Some n \<or> msg_suffix t = None)"
  "msg_suffix t = Some n \<Longrightarrow> pdu_length t = Some n"
  by (auto simp: pdu_length_def msg_suffix_def split: if_splits)

lemma body_post_recv_length: "body_post_recv now t bs = Inr (bs', pdu, host) \<Longrightarrow> length bs' = length bs"
  by (auto simp: body_post_recv_def port_id_post_recv_def announce_post_recv_def timestamp_post_recv_def
      simp del: flips.simps access_Inr split: if_splits dest!: flip_length flips_length)

lemma safe_body_post_recv: "pdu_length t = Some n \<Longrightarrow> n \<le> length bs \<Longrightarrow> safe (body_post_recv now t bs)"
  by (auto simp: body_post_recv_def port_id_post_recv_def announce_post_recv_def timestamp_post_recv_def
      pdu_length_def split: if_splits intro!: safe_and_then)

definition well_cut :: "nat \<Rightarrow> bytes \<Rightarrow> wire_msg \<Rightarrow> bool" where
  "well_cut avail bs m \<longleftrightarrow> length (wire_bytes m) = length bs
     \<and> pdu_length (wire_type bs) = Some (length (w_body m))
     \<and> list_all inside_tlv (w_tlvs m) \<and> length (w_tlvs m) \<le> avail"

lemma wire_type_swaps: "inside (length bs) fs \<Longrightarrow> off_limits 0 fs \<Longrightarrow> 0 < length bs \<Longrightarrow>
    wire_type (swaps fs bs) = wire_type bs"
  by (simp add: wire_type_def)

lemma ptpMsgReceive_alt:
  "ptpMsgReceive now avail bs =
     (if length bs < 34 then Inl (Errno EBADMSG)
      else if bs ! 1 AND 0x0f \<noteq> 2 then Inl (Errno EPROTO)
      else let b = swaps [(2, 2), (8, 8), (28, 2), (30, 2)] bs; t = wire_type bs
        in case pdu_length t of
             None \<Rightarrow> Inl (Errno EBADMSG)
           | Some pdulen \<Rightarrow>
               if length bs < pdulen then Inl (Errno EBADMSG)
               else and_then (body_post_recv now t b) (\<lambda>(b, pdu, host).
                 case msg_suffix t of
                   None \<Rightarrow> Inr \<lparr>w_body = take pdulen b, w_tlvs = [], w_rest = drop pdulen b,
                               w_pdu = pdu, w_host = host\<rparr>
                 | Some off \<Rightarrow>
                     and_then (suffix_post_recv avail (drop off b))
                       (\<lambda>(ts, rest). Inr \<lparr>w_body = take off b, w_tlvs = ts, w_rest = rest,
                                         w_pdu = pdu, w_host = host\<rparr>)))"
proof (cases "length bs < 34 \<or> bs ! 1 AND 0x0f \<noteq> 2")
  case True
  then show ?thesis
    by (auto simp: ptpMsgReceive_def hdr_post_recv_def rd_bytes_def)
next
  case False
  define b where "b = swaps [(2, 2), (8, 8), (28, 2), (30, 2)] bs"
  define t where "t = wire_type bs"
  have h: "hdr_post_recv bs = Inr b" "length b = length bs"
    using False by (simp_all add: hdr_post_recv_def rd_bytes_def flips_eq_swaps b_def del: flips.simps fold_Cons)
  have t: "wire_type b = t"
    unfolding b_def t_def by (rule wire_type_swaps) (use False in \<open>auto simp del: fold_Cons\<close>)
  show ?thesis
  proof (cases "pdu_length t")
    case None
    then show ?thesis
      using False t h by (simp add: ptpMsgReceive_def Let_def b_def [symmetric] t_def [symmetric])
  next
    case (Some n)
    have "(\<lambda>(b, pdu, host). case msg_suffix t of
                 None \<Rightarrow> Inr \<lparr>w_body = take n b, w_tlvs = [], w_rest = drop n b, w_pdu = pdu, w_host = host\<rparr>
               | Some off \<Rightarrow> and_then (suffix_post_recv avail (take (length b - n) (drop off b)))
                   (\<lambda>(ts, rest). Inr \<lparr>w_body = take off b, w_tlvs = ts, w_rest = rest, w_pdu = pdu, w_host = host\<rparr>))
      = (\<lambda>(b, pdu, host). case msg_suffix t of
                 None \<Rightarrow> Inr \<lparr>w_body = take n b, w_tlvs = [], w_rest = drop n b, w_pdu = pdu, w_host = host\<rparr>
               | Some off \<Rightarrow> and_then (suffix_post_recv avail (drop off b))
                   (\<lambda>(ts, rest). Inr \<lparr>w_body = take off b, w_tlvs = ts, w_rest = rest, w_pdu = pdu, w_host = host\<rparr>))"
      using Some pdu_length_cases(2) [of t] by (auto split: option.splits)
    then show ?thesis
      using False t h Some
      by (simp add: ptpMsgReceive_def Let_def b_def [symmetric] t_def [symmetric] del: fold_Cons)
  qed
qed

lemma ptpMsgReceive_Inr:
  assumes "ptpMsgReceive now avail bs = Inr m"
  obtains b b' n where "b = swaps [(2, 2), (8, 8), (28, 2), (30, 2)] bs" "34 \<le> length bs"
    "pdu_length (wire_type bs) = Some n" "n \<le> length bs" "length b = length bs"
    "body_post_recv now (wire_type bs) b = Inr (b', w_pdu m, w_host m)" "length b' = length bs"
    "w_body m = take n b'"
    "msg_suffix (wire_type bs) = None \<and> w_tlvs m = [] \<and> w_rest m = drop n b'
     \<or> msg_suffix (wire_type bs) = Some n \<and> suffix_post_recv avail (drop n b') = Inr (w_tlvs m, w_rest m)"
proof -
  define b where "b = swaps [(2, 2), (8, 8), (28, 2), (30, 2)] bs"
  have l: "34 \<le> length bs" using assms by (simp add: ptpMsgReceive_alt split: if_splits)
  then have lb: "length b = length bs" by (simp add: b_def)
  obtain n b' where h: "pdu_length (wire_type bs) = Some n" "n \<le> length bs"
    "body_post_recv now (wire_type bs) b = Inr (b', w_pdu m, w_host m)" "w_body m = take n b'"
    "msg_suffix (wire_type bs) = None \<and> w_tlvs m = [] \<and> w_rest m = drop n b'
     \<or> msg_suffix (wire_type bs) = Some n \<and> suffix_post_recv avail (drop n b') = Inr (w_tlvs m, w_rest m)"
  proof (cases "msg_suffix (wire_type bs)")
    case None
    show thesis
      using assms None that unfolding ptpMsgReceive_alt Let_def b_def [symmetric]
      by (auto split: if_splits option.splits prod.splits)
  next
    case (Some off)
    show thesis
      using assms Some pdu_length_cases(2) [OF Some] that unfolding ptpMsgReceive_alt Let_def b_def [symmetric]
      by (auto split: if_splits option.splits prod.splits)
  qed
  show thesis
    using that [OF b_def l h(1,2) lb h(3) _ h(4,5)] body_post_recv_length [OF h(3)] lb by simp
qed

lemma ptpMsgReceive_InrI:
  assumes "34 \<le> length bs" "bs ! 1 AND 0x0f = 2" "pdu_length (wire_type bs) = Some n" "n \<le> length bs"
    "body_post_recv now (wire_type bs) (swaps [(2, 2), (8, 8), (28, 2), (30, 2)] bs) = Inr (b', w_pdu m, w_host m)"
    "w_body m = take n b'"
    "msg_suffix (wire_type bs) = None \<and> w_tlvs m = [] \<and> w_rest m = drop n b'
     \<or> msg_suffix (wire_type bs) = Some n \<and> suffix_post_recv avail (drop n b') = Inr (w_tlvs m, w_rest m)"
  shows "ptpMsgReceive now avail bs = Inr m"
  using assms(7)
proof (elim disjE conjE)
  assume "msg_suffix (wire_type bs) = None" "w_tlvs m = []" "w_rest m = drop n b'"
  with assms(1-6) show ?thesis
    by (cases m) (simp add: ptpMsgReceive_alt Let_def del: fold_Cons)
next
  assume "msg_suffix (wire_type bs) = Some n" "suffix_post_recv avail (drop n b') = Inr (w_tlvs m, w_rest m)"
  with assms(1-6) show ?thesis
    by (cases m) (simp add: ptpMsgReceive_alt Let_def del: fold_Cons)
qed

text \<open>
  C6: memory safety of the receive path. Whatever bytes arrive, no access of
  \<open>ptpMsgReceive\<close> and of the TLV conversions goes outside the message or outside the TLV it is
  made through; an accepted message is cut without loss into the structure of its type, TLVs
  whose announced length lies in their bytes, and a rest, with no more descriptors than could be
  allocated.
\<close>

theorem receive_stays_inside:
  "case ptpMsgReceive now avail bs of
     Inl e \<Rightarrow> e \<noteq> BadAccess
   | Inr m \<Rightarrow> well_cut avail bs m"
proof (cases "ptpMsgReceive now avail bs")
  case (Inl e)
  have "safe (ptpMsgReceive now avail bs)"
    unfolding ptpMsgReceive_alt Let_def
    by (auto intro!: safe_and_then safe_suffix_post_recv simp del: fold_Cons
        split: option.splits prod.split elim!: safe_body_post_recv)
  then show ?thesis using Inl by (simp add: safe_def)
next
  case (Inr m)
  then obtain b b' n where h: "pdu_length (wire_type bs) = Some n" "n \<le> length bs" "length b' = length bs"
    "w_body m = take n b'"
    "msg_suffix (wire_type bs) = None \<and> w_tlvs m = [] \<and> w_rest m = drop n b'
     \<or> msg_suffix (wire_type bs) = Some n \<and> suffix_post_recv avail (drop n b') = Inr (w_tlvs m, w_rest m)"
    by (rule ptpMsgReceive_Inr)
  have "well_cut avail bs m"
    using h(5)
  proof
    assume "msg_suffix (wire_type bs) = Some n \<and> suffix_post_recv avail (drop n b') = Inr (w_tlvs m, w_rest m)"
    then have s: "suffix_post_recv avail (drop n b') = Inr (w_tlvs m, w_rest m)" by simp
    show ?thesis
      using h(1-4) suffix_post_recv_bounds [OF s] by (simp add: well_cut_def wire_bytes_def)
  qed (use h(1-4) in \<open>simp add: well_cut_def wire_bytes_def\<close>)
  with Inr show ?thesis by simp
qed


definition hdr_fields :: "(nat \<times> nat) list" where
  "hdr_fields = [(2, 2), (8, 8), (28, 2), (30, 2)]"

definition body_fields :: "u8 \<Rightarrow> (nat \<times> nat) list" where
  "body_fields t = (if t = ANNOUNCE then [(44, 2), (50, 2), (61, 2)]
     else if t = SIGNALING_TYPE \<or> t = MANAGEMENT_TYPE then [(42, 2)]
     else if t = PDELAY_RESP \<or> t = DELAY_RESP \<or> t = PDELAY_RESP_FOLLOW_UP then [(52, 2)] else [])"

definition timestamp_of :: "bytes \<Rightarrow> LocalTimeStamp" where
  "timestamp_of w = wire_to_local
       \<lparr>seconds_msb = word_rcat (take 2 w), seconds_lsb = word_rcat (take 4 (drop 2 w)),
        nanoseconds = word_rcat (drop 6 w)\<rparr>"

definition pdu_of :: "u8 \<Rightarrow> bytes \<Rightarrow> LocalTimeStamp" where
  "pdu_of t w = (if t \<in> {SYNC, FOLLOW_UP, PDELAY_RESP, DELAY_RESP, PDELAY_RESP_FOLLOW_UP, ANNOUNCE}
     then timestamp_of w else zero_pdu)"

lemma fields_inside: "pdu_length t = Some n \<Longrightarrow> inside n (hdr_fields @ body_fields t)"
  by (auto simp: pdu_length_def hdr_fields_def body_fields_def inside_def split: if_splits)

lemma fields_disjoint: "disjoint_fields (hdr_fields @ body_fields t)"
  by (auto simp: hdr_fields_def body_fields_def)

lemma off_limits_fields: "off_limits 0 hdr_fields" "off_limits 0 (body_fields t)"
  by (auto simp: hdr_fields_def body_fields_def)

lemma inside_append [simp]: "inside n (fs @ gs) \<longleftrightarrow> inside n fs \<and> inside n gs"
  by (auto simp: inside_def)

lemma inside_mono: "inside n fs \<Longrightarrow> n \<le> k \<Longrightarrow> inside k fs"
  by (auto simp: inside_def)

lemma body_post_recv_eq:
  assumes "pdu_length t = Some n" "n \<le> length b"
  shows "body_post_recv now t b =
    Inr (swaps (body_fields t) b, pdu_of t (take 10 (drop 34 b)), if t = ANNOUNCE then now else zero_host)"
proof -
  have "timestamp_post_recv 34 b = Inr (timestamp_of (take 10 (drop 34 b)))"
    using assms pdu_length_cases(1) [OF assms(1)] by (simp add: timestamp_post_recv_def rd_bytes_def timestamp_of_def)
  moreover have ins: "inside (length b) (body_fields t)"
    using fields_inside [OF assms(1)] inside_mono [OF _ assms(2)] by simp
  then have "flips (body_fields t) b = Inr (swaps (body_fields t) b)" by (rule flips_eq_swaps)
  ultimately show ?thesis
    using assms(1)
    by (auto simp: pdu_length_def body_post_recv_def body_fields_def pdu_of_def announce_post_recv_def
        port_id_post_recv_def simp del: flips.simps access_Inr split: if_splits)
qed




definition sample_mgmt :: bytes where
  "sample_mgmt =
    [0x0D, 0x02, 0x00, 0x3A, 0x00, 0x00, 0x00, 0x00] @ replicate 8 0 @ replicate 4 0 @
    [0x00, 0x1B, 0x19, 0xFF, 0xFE, 0x00, 0x00, 0x01, 0x00, 0x02] @ [0x01, 0x02, 0x04, 0x7F] @
    [0xFF, 0xFF, 0xFF, 0xFF, 0xFF, 0xFF, 0xFF, 0xFF, 0x12, 0x34] @ [0x01, 0x01, 0x02, 0x00] @
    [0x00, 0x01, 0x00, 0x06, 0x20, 0x03, 0x00, 0x25, 0x3C, 0xA0]"

lemma sample_mgmt_received:
  "case ptpMsgReceive zero_host 1 sample_mgmt of
     Inl e \<Rightarrow> False
   | Inr m \<Rightarrow> list_all intact (w_tlvs m) \<and> map fst (w_tlvs m) = [[1, 0, 6, 0, 3, 0x20, 0x25, 0, 0x3C, 0xA0]]"
proof -
  have t: "wire_type sample_mgmt = 13" "sample_mgmt ! 1 AND 0x0f = 2" "length sample_mgmt = 58"
    by (simp_all add: wire_type_def sample_mgmt_def)
  have p: "pdu_length 13 = Some 48" "msg_suffix 13 = Some 48"
    by (simp_all add: pdu_length_def msg_suffix_def)
  have b: "body_post_recv now 13 bs = and_then (flip 42 2 bs) (\<lambda>bs. Inr (bs, zero_pdu, zero_host))" for now bs
    by (simp add: body_post_recv_def port_id_post_recv_def)
  have s: "suffix_post_recv 1 [0, 1, 0, 6, 0x20, 3, 0, 0x25, 0x3C, 0xA0] =
      Inr ([([1, 0, 6, 0, 3, 0x20, 0x25, 0, 0x3C, 0xA0], no_extra)], [])"
    by (simp add: suffix_post_recv_step suffix_post_recv_short swap_def le16_def tlv_post_recv_def rd16_def
        flip_def mgt_post_recv_def mgt_post_recv_data_def fixed_data_set_def extra_len_ok_def)
  show ?thesis
    unfolding ptpMsgReceive_alt t p b Let_def
    by (simp add: flip_def swap_def sample_mgmt_def s [unfolded One_nat_def] intact_def carries_scaled_ns_def le16_def)
qed


subsection \<open>The length field\<close>

lemma swap_update:
  assumes "fst f + snd f \<le> length bs" "i < length bs"
  shows "swap f (bs[i := a]) = (swap f bs)[mirror f i := a]"
proof (rule nth_equalityI)
  fix j assume "j < length (swap f (bs[i := a]))"
  then have j: "j < length bs" using assms by simp
  have "mirror f j = i \<longleftrightarrow> j = mirror f i" by (metis mirror_mirror)
  then show "swap f (bs[i := a]) ! j = (swap f bs)[mirror f i := a] ! j"
    using assms j by (auto simp: nth_swap nth_list_update mirror_less)
qed (use assms in simp)

lemma swaps_update:
  assumes "inside (length bs) fs" "off_limits i fs" "i < length bs"
  shows "swaps fs (bs[i := a]) = (swaps fs bs)[i := a]"
  using assms
proof (induction fs arbitrary: bs)
  case (Cons f fs)
  then have "mirror f i = i" by (auto simp: mirror_def)
  with Cons show ?case by (simp add: swap_update)
qed simp

lemma hdr_fields_update:
  assumes "34 \<le> length bs"
  shows "swaps hdr_fields (bs[2 := a, 3 := b]) = (swaps hdr_fields bs)[2 := b, 3 := a]"
proof -
  have "swap (2, 2) (bs[2 := a, 3 := b]) = (swap (2, 2) bs)[3 := a, 2 := b]"
    using assms by (simp add: swap_update mirror_def)
  moreover have "(swap (2, 2) bs)[3 := a, 2 := b] = (swap (2, 2) bs)[2 := b, 3 := a]"
    by (simp add: list_update_swap)
  moreover have "swaps hdr_fields x = swaps [(8, 8), (28, 2), (30, 2)] (swap (2, 2) x)" for x
    by (simp add: hdr_fields_def)
  ultimately show ?thesis
    using assms by (simp add: swaps_update del: fold_Cons)
qed

lemma rd_bytes_update [simp]: "i < off \<Longrightarrow> rd_bytes off n (bs[i := a]) = rd_bytes off n bs"
  by (simp add: rd_bytes_def)

lemma flips_update:
  assumes "inside (length bs) fs" "off_limits i fs" "i < length bs"
  shows "flips fs (bs[i := a]) = Inr ((swaps fs bs)[i := a])"
  using assms by (simp add: flips_eq_swaps swaps_update)

lemma wire_type_update [simp]: "0 < i \<Longrightarrow> wire_type (bs[i := a]) = wire_type bs"
  by (simp add: wire_type_def)

lemma off_limits_body: "i < 34 \<Longrightarrow> off_limits i (body_fields t)"
  by (auto simp: body_fields_def)

text \<open>
  C17: the length a message announces is not compared with the number of bytes received. A
  message that is accepted is accepted with any other value in its length field, the value is
  kept, and nothing else of the result changes.
\<close>

theorem length_field_not_checked:
  assumes "ptpMsgReceive now avail bs = Inr m"
  shows "ptpMsgReceive now avail (bs[2 := a, 3 := b]) = Inr (m\<lparr>w_body := (w_body m)[2 := b, 3 := a]\<rparr>)
    \<and> le16 2 ((w_body m)[2 := b, 3 := a]) = unat b + 256 * unat a"
proof -
  obtain b0 b' n where h: "b0 = swaps [(2, 2), (8, 8), (28, 2), (30, 2)] bs" "34 \<le> length bs"
    "pdu_length (wire_type bs) = Some n" "n \<le> length bs" "length b0 = length bs"
    "body_post_recv now (wire_type bs) b0 = Inr (b', w_pdu m, w_host m)" "length b' = length bs"
    "w_body m = take n b'"
    "msg_suffix (wire_type bs) = None \<and> w_tlvs m = [] \<and> w_rest m = drop n b'
     \<or> msg_suffix (wire_type bs) = Some n \<and> suffix_post_recv avail (drop n b') = Inr (w_tlvs m, w_rest m)"
    using assms by (rule ptpMsgReceive_Inr)
  have n: "44 \<le> n" using pdu_length_cases(1) [OF h(3)] by simp
  have v: "bs ! 1 AND 0x0f = 2" using assms h(2) by (simp add: ptpMsgReceive_alt split: if_splits)
  have b0': "swaps [(2, 2), (8, 8), (28, 2), (30, 2)] (bs[2 := a, 3 := b]) = b0[2 := b, 3 := a]"
    using hdr_fields_update [OF h(2), of a b] h(1) by (simp add: hdr_fields_def)
  have body: "body_post_recv now (wire_type bs) (b0[2 := b, 3 := a]) = Inr (b'[2 := b, 3 := a], w_pdu m, w_host m)"
  proof -
    have "swaps (body_fields (wire_type bs)) (b0[2 := b, 3 := a]) = (swaps (body_fields (wire_type bs)) b0)[2 := b, 3 := a]"
      using fields_inside [OF h(3)] inside_mono [OF _ h(4)] h(2,5)
      by (simp add: swaps_update off_limits_body)
    then show ?thesis
      using h(2-6) body_post_recv_eq [OF h(3), of b0 now] body_post_recv_eq [OF h(3), of "b0[2 := b, 3 := a]" now] by simp
  qed
  have "ptpMsgReceive now avail (bs[2 := a, 3 := b]) = Inr (m\<lparr>w_body := (w_body m)[2 := b, 3 := a]\<rparr>)"
  proof (rule ptpMsgReceive_InrI [where n = n and b' = "b'[2 := b, 3 := a]"])
    show "body_post_recv now (wire_type (bs[2 := a, 3 := b])) (swaps [(2, 2), (8, 8), (28, 2), (30, 2)] (bs[2 := a, 3 := b]))
        = Inr (b'[2 := b, 3 := a], w_pdu (m\<lparr>w_body := (w_body m)[2 := b, 3 := a]\<rparr>), w_host (m\<lparr>w_body := (w_body m)[2 := b, 3 := a]\<rparr>))"
      unfolding b0' using body by simp
  qed (use h(2-4,8,9) n v in \<open>simp_all add: take_update_swap\<close>)
  then show ?thesis
    using n h by (simp add: le16_def)
qed

subsection \<open>Time stamps from sender to receiver\<close>

lemma swaps_order:
  assumes "inside (length bs) fs" "disjoint_fields fs" "disjoint_fields gs" "set gs = set fs"
  shows "swaps fs bs = swaps gs bs"
proof -
  have ins: "inside (length bs) gs" using assms(1,4) by (simp add: inside_def)
  have "swaps gs (swaps gs (swaps fs bs)) = swaps fs bs"
    using swaps_swaps [of "swaps fs bs" gs gs] ins assms by simp
  then show ?thesis using swaps_swaps [OF assms] by simp
qed

lemma field_swaps:
  assumes "inside (length bs) fs" "disjoint_fields fs" "(off, n) \<in> set fs"
  shows "take n (drop off (swaps fs bs)) = rev (take n (drop off bs))"
proof (rule nth_equalityI)
  have l: "off + n \<le> length bs" using assms(1,3) by (auto simp: inside_def)
  then show "length (take n (drop off (swaps fs bs))) = length (rev (take n (drop off bs)))"
    using assms(1) by simp
  fix i assume "i < length (take n (drop off (swaps fs bs)))"
  then have i: "i < n" by simp
  have "swaps fs bs ! (off + i) = bs ! mirror (off, n) (off + i)"
    using i l by (intro nth_swaps_hit [OF assms(1,2,3)]) (auto simp: hits_def)
  then show "take n (drop off (swaps fs bs)) ! i = rev (take n (drop off bs)) ! i"
    using i l assms(1) by (simp add: rev_nth mirror_def)
qed

text \<open>The time stamp in the structure of a message under construction, in host byte order.\<close>

definition host_timestamp :: "bytes \<Rightarrow> WireTimeStamp" where
  "host_timestamp b =
     \<lparr>seconds_msb = word_rcat (rev (take 2 (drop 34 b))), seconds_lsb = word_rcat (rev (take 4 (drop 36 b))),
      nanoseconds = word_rcat (rev (take 4 (drop 40 b)))\<rparr>"

definition stamped_type :: "u8 \<Rightarrow> bool" where
  "stamped_type t \<longleftrightarrow> t \<in> {PDELAY_RESP, FOLLOW_UP, DELAY_RESP, PDELAY_RESP_FOLLOW_UP}"

lemma body_pre_send_stamped:
  "stamped_type t \<Longrightarrow> inside (length (w_body m)) ([(36, 4), (34, 2), (40, 4)] @ body_fields t) \<Longrightarrow>
    body_pre_send now t m = Inr (m\<lparr>w_body := swaps ([(36, 4), (34, 2), (40, 4)] @ body_fields t) (w_body m)\<rparr>)"
  by (cases m) (auto simp: body_pre_send_def stamped_type_def body_fields_def timestamp_pre_send_def
      port_id_pre_send_def flips_eq_swaps flip_def Let_def simp del: flips.simps)

lemma receive_unstructured:
  assumes n: "pdu_length t = Some n" "length b = n" "wire_type b = t" "b ! 1 AND 0x0f = 2"
  shows "ptpMsgReceive now avail (swaps (hdr_fields @ body_fields t) b) =
    Inr \<lparr>w_body = b, w_tlvs = [], w_rest = [], w_pdu = pdu_of t (take 10 (drop 34 (swaps (body_fields t) b))),
      w_host = if t = ANNOUNCE then now else zero_host\<rparr>"
proof -
  define s where "s = swaps (hdr_fields @ body_fields t) b"
  define c where "c = swaps hdr_fields s"
  define m2 where "m2 = \<lparr>w_body = b, w_tlvs = [], w_rest = [], w_pdu = pdu_of t (take 10 (drop 34 (swaps (body_fields t) b))),
      w_host = if t = ANNOUNCE then now else zero_host\<rparr>"
  have ins: "inside n (hdr_fields @ body_fields t)" "inside n hdr_fields" "inside n (body_fields t)"
    using fields_inside [OF n(1)] by simp_all
  have n44: "44 \<le> n" using pdu_length_cases(1) [OF n(1)] by simp
  have l: "length s = n" "length c = n" using ins n(2) by (simp_all add: s_def c_def)
  have o: "off_limits i (hdr_fields @ body_fields t)" if "i < 2" for i
    using that off_limits_body [of i t] by (auto simp: off_limits_def hdr_fields_def)
  have "s ! i = b ! i" if "i < 2" for i
    unfolding s_def using ins(1) n(2) n44 that o [OF that] by (intro nth_swaps_off_limits) auto
  then have ty: "wire_type s = t" "s ! 1 AND 0x0f = 2" using n(3,4) by (simp_all add: wire_type_def)
  have c: "c = swaps (body_fields t) b"
  proof -
    have "disjoint_fields (body_fields t @ hdr_fields)" by (auto simp: hdr_fields_def body_fields_def)
    then have "s = swaps (body_fields t @ hdr_fields) b"
      unfolding s_def using ins(1) n(2) fields_disjoint by (intro swaps_order) auto
    moreover have "disjoint_fields hdr_fields" by (simp add: hdr_fields_def)
    ultimately show ?thesis
      unfolding c_def using swaps_swaps [of "swaps (body_fields t) b" hdr_fields hdr_fields] ins n(2) by simp
  qed
  have bc: "swaps (body_fields t) c = b"
  proof -
    have "disjoint_fields (body_fields t)" by (auto simp: body_fields_def)
    then show ?thesis unfolding c using ins n(2) by (intro swaps_swaps) simp_all
  qed
  have "body_post_recv now t c = Inr (b, w_pdu m2, w_host m2)"
    using body_post_recv_eq [OF n(1), of c now] l bc by (simp add: m2_def c)
  then have "ptpMsgReceive now avail s = Inr m2"
    using l n44 ty n(1,2) pdu_length_cases(1) [OF n(1)]
    by (intro ptpMsgReceive_InrI [where n = n and b' = b])
      (auto simp: hdr_fields_def [symmetric] c_def [symmetric] m2_def suffix_post_recv_short)
  then show ?thesis by (simp add: s_def m2_def)
qed

lemma stamp_untouched:
  assumes "pdu_length t = Some n" "length b = n" "stamped_type t"
  shows "take 10 (drop 34 (swaps (body_fields t) b)) = take 10 (drop 34 b)"
proof (rule nth_equalityI)
  have n: "44 \<le> n" and i: "inside n (body_fields t)"
    using pdu_length_cases(1) [OF assms(1)] fields_inside [OF assms(1)] by auto
  then show "length (take 10 (drop 34 (swaps (body_fields t) b))) = length (take 10 (drop 34 b))"
    using assms(2) by simp
  fix j assume "j < length (take 10 (drop 34 (swaps (body_fields t) b)))"
  then have j: "j < 10" by simp
  have "off_limits (34 + j) (body_fields t)"
    using j assms(3) by (auto simp: body_fields_def stamped_type_def)
  then have "swaps (body_fields t) b ! (34 + j) = b ! (34 + j)"
    using i n j assms(2) by (intro nth_swaps_off_limits) auto
  then show "take 10 (drop 34 (swaps (body_fields t) b)) ! j = take 10 (drop 34 b) ! j"
    using j n i assms(2) by simp
qed

text \<open>
  The time stamp that a Follow_Up, Delay_Resp, Pdelay_Resp or Pdelay_Resp_Follow_Up is
  sent with is the one its receiver works with. The bytes sent are accepted; the decoded
  \<open>ts.pdu\<close> is the value of the sender's structure, and every other field of the received
  structure is the sender's.
\<close>

lemma sent_timestamp_is_received:
  assumes "stamped_type (wire_type (w_body m))" "pdu_length (wire_type (w_body m)) = Some (length (w_body m))"
    "(w_body m) ! 1 AND 0x0f = 2" "w_tlvs m = []" "w_rest m = []"
  shows "\<exists>m1 m2. msg_pre_send now m = Inr m1 \<and> ptpMsgReceive now' avail (wire_bytes m1) = Inr m2
    \<and> w_pdu m2 = wire_to_local (host_timestamp (w_body m))
    \<and> take 34 (w_body m2) = take 34 (w_body m) \<and> drop 44 (w_body m2) = drop 44 (w_body m)"
proof -
  let ?t = "wire_type (w_body m)"
  let ?H = "hdr_fields" and ?T = "[(36, 4), (34, 2), (40, 4)] :: (nat \<times> nat) list" and ?B = "body_fields ?t"
  define n where "n = length (w_body m)"
  have n: "pdu_length ?t = Some n" "44 \<le> n" using assms(2) pdu_length_cases(1) [OF assms(2)] by (simp_all add: n_def)
  have ins: "inside n (?H @ ?T @ ?B)" "inside n ?H" "inside n ?T" "inside n ?B"
    using fields_inside [OF n(1)] n(2) by auto
  have dis: "disjoint_fields (?H @ ?T @ ?B)" "disjoint_fields (?T @ ?H @ ?B)" "disjoint_fields (?H @ ?B)"
    using assms(1) by (auto simp: hdr_fields_def body_fields_def stamped_type_def)
  define m1 where "m1 = m\<lparr>w_body := swaps (?H @ ?T @ ?B) (w_body m)\<rparr>"
  define b where "b = swaps ?T (w_body m)"
  have m1: "w_body m1 = swaps (?H @ ?B) b"
    unfolding m1_def b_def using swaps_order [OF _ dis(1,2)] ins by (auto simp: n_def)
  have lb: "length b = n" using ins by (simp add: b_def n_def del: fold_Cons)
  have tH: "wire_type (swaps ?H (w_body m)) = ?t"
    using ins n(2) by (intro wire_type_swaps) (auto simp: off_limits_fields n_def simp del: fold_Cons)
  have "hdr_pre_send (w_body m) = Inr (swaps ?H (w_body m))"
    using ins by (simp add: hdr_pre_send_def hdr_fields_def [symmetric] flips_eq_swaps n_def)
  moreover have "body_pre_send now ?t (m\<lparr>w_body := swaps ?H (w_body m)\<rparr>) = Inr m1"
    using body_pre_send_stamped [OF assms(1), of "m\<lparr>w_body := swaps ?H (w_body m)\<rparr>" now] ins
    by (simp add: m1_def n_def del: fold_Cons)
  ultimately have send: "msg_pre_send now m = Inr m1"
    using tH assms(4,5) by (cases m) (simp add: msg_pre_send_def m1_def del: fold_Cons)
  have bytes: "wire_bytes m1 = swaps (?H @ ?B) b"
    using m1 assms(4,5) by (simp add: m1_def wire_bytes_def)
  have recv: "ptpMsgReceive now' avail (swaps (?H @ ?B) b) =
     Inr \<lparr>w_body = b, w_tlvs = [], w_rest = [], w_pdu = timestamp_of (take 10 (drop 34 b)), w_host = zero_host\<rparr>"
  proof -
    have "b ! i = w_body m ! i" if "i < 34" for i
      unfolding b_def by (rule nth_swaps_off_limits) (use that ins n in \<open>auto simp: n_def\<close>)
    then have "wire_type b = ?t" "b ! 1 = w_body m ! 1"
      by (simp_all add: wire_type_def)
    then show ?thesis
      using receive_unstructured [of ?t n b now' avail] n lb assms(1,3)
        stamp_untouched [of ?t n b] by (simp add: stamped_type_def pdu_of_def del: fold_append)
         (auto simp del: fold_append)
  qed
  have "timestamp_of (take 10 (drop 34 b)) = wire_to_local (host_timestamp (w_body m))"
    using field_swaps [of "w_body m" ?T 34 2] field_swaps [of "w_body m" ?T 36 4] field_swaps [of "w_body m" ?T 40 4] ins
    by (simp add: timestamp_of_def host_timestamp_def drop_take b_def n_def del: fold_Cons)
  moreover have "take 34 b = take 34 (w_body m)" "drop 44 b = drop 44 (w_body m)"
    using ins drop_swaps [of 44 ?T "w_body m"] n by (auto simp: b_def n_def intro!: nth_equalityI simp del: fold_Cons)
  ultimately show ?thesis
    using send bytes recv by auto
qed

definition sample_follow_up :: wire_msg where
  "sample_follow_up = \<lparr>w_body = [8, 2, 44, 0, 0, 0, 0, 0] @ replicate 26 0 @ [1, 0, 2, 0, 0, 0, 3, 0, 0, 0],
     w_tlvs = [], w_rest = [], w_pdu = zero_pdu, w_host = zero_host\<rparr>"

lemma sent_timestamp_is_received_witness:
  "\<exists>m1 m2. msg_pre_send zero_host sample_follow_up = Inr m1 \<and> ptpMsgReceive zero_host 0 (wire_bytes m1) = Inr m2
    \<and> w_pdu m2 = wire_to_local (host_timestamp (w_body sample_follow_up))"
proof -
  have "stamped_type (wire_type (w_body sample_follow_up))"
    "pdu_length (wire_type (w_body sample_follow_up)) = Some (length (w_body sample_follow_up))"
    "(w_body sample_follow_up) ! 1 AND 0x0f = 2" "w_tlvs sample_follow_up = []" "w_rest sample_follow_up = []"
    by (simp_all add: sample_follow_up_def stamped_type_def wire_type_def pdu_length_def)
  from sent_timestamp_is_received [OF this, where now = zero_host and now' = zero_host and avail = 0] show ?thesis by blast
qed

theorem length_field_not_checked_witness:
  "\<exists>m. ptpMsgReceive zero_host 1 (sample_mgmt[2 := 0xFF, 3 := 0xFF]) = Inr m \<and> le16 2 (w_body m) = 65535"
proof -
  obtain m where m: "ptpMsgReceive zero_host 1 sample_mgmt = Inr m"
    using sample_mgmt_received by (auto split: sum.splits)
  show ?thesis
    using length_field_not_checked [OF m, where a = "0xFF" and b = "0xFF"] by simp
qed

subsection \<open>Appending a TLV\<close>

text \<open>
  The message under construction owns the whole buffer of 1500 bytes: \<open>w_rest\<close> is what follows
  its last TLV. The new TLV starts where the last one ends by its length field; a TLV cut by the
  path trace limit occurs in received messages only.
\<close>

definition msg_tlv_prepare :: "bool \<Rightarrow> wire_msg \<Rightarrow> nat \<Rightarrow> nat option" where
  "msg_tlv_prepare avail m n =
     (case msg_suffix (wire_type (w_body m)) of
        None \<Rightarrow> None
      | Some off \<Rightarrow>
          let ptr = (if w_tlvs m = [] then off
                     else off + length (concat (map fst (butlast (w_tlvs m)))) + 4 + le16 2 (fst (last (w_tlvs m))))
          in if ptr + n > 1500 then None
             else if \<not> avail then None else Some ptr)"

definition msg_tlv_append :: "bool \<Rightarrow> wire_msg \<Rightarrow> nat \<Rightarrow> wire_msg option" where
  "msg_tlv_append avail m n =
     (case msg_tlv_prepare avail m n of
        None \<Rightarrow> None
      | Some ptr \<Rightarrow>
          let len = le16 2 (w_body m) + n; b = wire_bytes m
          in Some (msg_tlv_attach (take n (drop ptr b), no_extra)
               (m\<lparr>w_body := (w_body m)[2 := word_of_nat len, 3 := word_of_nat (len div 256)],
                  w_rest := drop (ptr + n) b\<rparr>)))"

text \<open>
  A message under construction: TLVs are as long as they announce, and the whole fills the
  buffer.
\<close>

definition under_construction :: "wire_msg \<Rightarrow> bool" where
  "under_construction m \<longleftrightarrow> msg_suffix (wire_type (w_body m)) = Some (length (w_body m))
     \<and> (\<forall>t \<in> set (w_tlvs m). length (fst t) = 4 + le16 2 (fst t))
     \<and> length (wire_bytes m) = 1500
     \<and> le16 2 (w_body m) = length (w_body m) + length (concat (map fst (w_tlvs m)))"

definition sending_length :: "wire_msg \<Rightarrow> nat" where
  "sending_length m = length (w_body m) + length (concat (map fst (w_tlvs m)))"

lemma concat_butlast: "ts \<noteq> [] \<Longrightarrow> length (concat (map fst (butlast ts))) + length (fst (last ts)) = length (concat (map fst ts))"
  by (cases ts rule: rev_cases) simp_all

lemma prepare_offset:
  assumes "under_construction m"
  shows "msg_tlv_prepare avail m n = (if sending_length m + n > 1500 \<or> \<not> avail then None else Some (sending_length m))"
proof (cases "w_tlvs m = []")
  case True
  with assms show ?thesis
    by (auto simp: msg_tlv_prepare_def under_construction_def sending_length_def Let_def)
next
  case False
  then have "length (fst (last (w_tlvs m))) = 4 + le16 2 (fst (last (w_tlvs m)))"
    using assms last_in_set unfolding under_construction_def by blast
  then have "length (w_body m) + length (concat (map fst (butlast (w_tlvs m)))) + 4 + le16 2 (fst (last (w_tlvs m)))
      = sending_length m"
    using concat_butlast [OF False] by (simp add: sending_length_def)
  with assms False show ?thesis
    by (auto simp: msg_tlv_prepare_def under_construction_def Let_def)
qed

lemma le16_stored:
  assumes "4 \<le> length b" "v < 65536"
  shows "le16 2 (b[2 := word_of_nat v, 3 := word_of_nat (v div 256)]) = v"
proof -
  have "unat (word_of_nat v :: u8) = v mod 256" "unat (word_of_nat (v div 256) :: u8) = v div 256"
    using assms(2) by (simp_all add: unat_of_nat)
  then show ?thesis using assms(1) by (simp add: le16_def)
qed

text \<open>
  A TLV is appended exactly when there is a descriptor and it fits into the message
  buffer. It then lies behind all others, the message length field counts it, the message still
  fills the same buffer, and the bytes of the buffer outside the length field are untouched.
\<close>

lemma append_fits:
  assumes "under_construction m"
  shows "case msg_tlv_append avail m n of
      None \<Rightarrow> \<not> avail \<or> sending_length m + n > 1500
    | Some m' \<Rightarrow> avail \<and> sending_length m + n \<le> 1500
        \<and> msg_tlv_count m' = msg_tlv_count m + 1
        \<and> sending_length m' = sending_length m + n \<and> le16 2 (w_body m') = sending_length m'
        \<and> length (wire_bytes m') = 1500 \<and> drop 4 (wire_bytes m') = drop 4 (wire_bytes m)"
proof (cases "sending_length m + n > 1500 \<or> \<not> avail")
  case True
  then show ?thesis by (auto simp: msg_tlv_append_def prepare_offset [OF assms])
next
  case False
  define len where "len = le16 2 (w_body m) + n"
  define k where "k = sending_length m"
  define m' where "m' = msg_tlv_attach (take n (drop k (wire_bytes m)), no_extra)
               (m\<lparr>w_body := (w_body m)[2 := word_of_nat len, 3 := word_of_nat (len div 256)],
                  w_rest := drop (k + n) (wire_bytes m)\<rparr>)"
  have app: "msg_tlv_append avail m n = Some m'"
    using False by (simp add: msg_tlv_append_def prepare_offset [OF assms] m'_def len_def k_def Let_def)
  have uc: "44 \<le> length (w_body m)" "length (wire_bytes m) = 1500" "le16 2 (w_body m) = k"
    using assms pdu_length_cases unfolding under_construction_def k_def sending_length_def by auto
  have l: "length (take n (drop k (wire_bytes m))) = n" "len = k + n" "len < 65536"
    using False uc by (auto simp: k_def len_def min_def)
  have s: "sending_length m' = k + n"
    using l by (simp add: sending_length_def m'_def msg_tlv_attach_def k_def)
  have split: "wire_bytes m = w_body m @ concat (map fst (w_tlvs m)) @ take n (drop k (wire_bytes m)) @ drop (k + n) (wire_bytes m)"
  proof -
    have "take k (wire_bytes m) = w_body m @ concat (map fst (w_tlvs m))"
      by (simp add: k_def sending_length_def wire_bytes_def)
    then have "wire_bytes m = (w_body m @ concat (map fst (w_tlvs m))) @ drop k (wire_bytes m)"
      by (metis append_take_drop_id)
    moreover have "drop k (wire_bytes m) = take n (drop k (wire_bytes m)) @ drop (k + n) (wire_bytes m)"
      using append_take_drop_id [of n "drop k (wire_bytes m)"] by (simp add: add.commute del: append_take_drop_id)
    ultimately show ?thesis by simp
  qed
  have "wire_bytes m' = (w_body m)[2 := word_of_nat len, 3 := word_of_nat (len div 256)] @
      concat (map fst (w_tlvs m)) @ take n (drop k (wire_bytes m)) @ drop (k + n) (wire_bytes m)"
    unfolding wire_bytes_def [of m'] by (simp add: m'_def msg_tlv_attach_def)
  then obtain z where z: "wire_bytes m' = (w_body m)[2 := word_of_nat len, 3 := word_of_nat (len div 256)] @ z"
      "wire_bytes m = w_body m @ z"
    using split by blast
  have "drop 4 (wire_bytes m') = drop 4 (wire_bytes m)" "length (wire_bytes m') = 1500"
    using uc(1,2) unfolding z by simp_all
  moreover have "le16 2 (w_body m') = k + n"
    using le16_stored [of "w_body m" len] uc(1) l by (simp add: m'_def msg_tlv_attach_def)
  ultimately show ?thesis
    using app s False by (simp add: m'_def msg_tlv_attach_def msg_tlv_count_def k_def)
qed

lemma append_fits_witness:
  "case msg_tlv_append True
      \<lparr>w_body = [0x0C, 2, 44, 0] @ replicate 40 0, w_tlvs = [], w_rest = replicate 1456 0,
       w_pdu = zero_pdu, w_host = zero_host\<rparr> 10 of
      None \<Rightarrow> False
    | Some m' \<Rightarrow> le16 2 (w_body m') = 54"
proof -
  let ?m = "\<lparr>w_body = [0x0C, 2, 44, 0] @ replicate 40 0, w_tlvs = [], w_rest = replicate 1456 0,
       w_pdu = zero_pdu, w_host = zero_host\<rparr> :: wire_msg"
  have uc: "under_construction ?m"
    by (simp add: under_construction_def msg_suffix_def wire_type_def wire_bytes_def le16_def)
  have "sending_length ?m = 44" by (simp add: sending_length_def)
  then show ?thesis
    using append_fits [OF uc, of True 10] by (auto split: option.splits)
qed

end
