(* ===== verification/Pqueue.thy ===== *)
theory Pqueue
  imports Prelude
begin

text \<open>
  The priority queue of ptpUtils.c: a binary heap in an array, ordered by a comparison function
  given at creation, with the greatest element first. The list is the used part of the array,
  so its length is \<open>len\<close>; \<open>pq_max\<close> is the allocated size.
\<close>

record 'a pqueue =
  pq_max :: nat
  pq_data :: "'a list"

definition parent :: "nat \<Rightarrow> nat" where "parent x = drop_bit 1 (1 + x) - 1"
definition left :: "nat \<Rightarrow> nat" where "left x = push_bit 1 (1 + x) - 1"
definition right :: "nat \<Rightarrow> nat" where "right x = push_bit 1 (1 + x)"

lemma index_arith: "left x = 2 * x + 1" "right x = 2 * x + 2" "parent x = (x - 1) div 2"
  by (simp_all add: left_def right_def parent_def push_bit_eq_mult drop_bit_eq_div)

definition pq_greater :: "('a \<Rightarrow> 'a \<Rightarrow> int) \<Rightarrow> 'a list \<Rightarrow> nat \<Rightarrow> nat \<Rightarrow> bool" where
  "pq_greater cmp q a b \<longleftrightarrow> cmp (q ! a) (q ! b) > 0"

definition i_max :: "('a \<Rightarrow> 'a \<Rightarrow> int) \<Rightarrow> 'a list \<Rightarrow> nat \<Rightarrow> nat" where
  "i_max cmp q index =
     (let m = (if left index < length q \<and> pq_greater cmp q (left index) index then left index else index)
      in if right index < length q \<and> pq_greater cmp q (right index) m then right index else m)"

lemma i_max_range: "i_max cmp q index \<noteq> index \<Longrightarrow> index < i_max cmp q index \<and> i_max cmp q index < length q"
  by (auto simp: i_max_def Let_def index_arith split: if_splits)

function heapify :: "('a \<Rightarrow> 'a \<Rightarrow> int) \<Rightarrow> 'a list \<Rightarrow> nat \<Rightarrow> 'a list" where
  "heapify cmp q index =
     (let m = i_max cmp q index
      in if m \<noteq> index then heapify cmp (q[index := q ! m, m := q ! index]) m else q)"
  by pat_completeness auto
termination
  by (relation "measure (\<lambda>(cmp, q, index). length q - index)") (auto dest!: i_max_range)

declare heapify.simps [simp del]

definition pqueue_create :: "nat \<Rightarrow> 'a pqueue" where
  "pqueue_create max_length = \<lparr>pq_max = max_length, pq_data = []\<rparr>"

definition pqueue_extract :: "('a \<Rightarrow> 'a \<Rightarrow> int) \<Rightarrow> 'a pqueue \<Rightarrow> ('a \<times> 'a pqueue) option" where
  "pqueue_extract cmp q =
     (let d = pq_data q
      in if d = [] then None
         else Some (d ! 0, q\<lparr>pq_data := heapify cmp (butlast (d[0 := d ! (length d - 1)])) 0\<rparr>))"

text \<open>
  The loop of \<open>pqueue_insert\<close> moves the hole at \<open>index\<close> up and fills it with the new element
  at the end.
\<close>

function sift_up :: "('a \<Rightarrow> 'a \<Rightarrow> int) \<Rightarrow> 'a list \<Rightarrow> nat \<Rightarrow> 'a \<Rightarrow> 'a list" where
  "sift_up cmp q index d =
     (if index \<noteq> 0 \<and> cmp (q ! parent index) d < 0
      then sift_up cmp (q[index := q ! parent index]) (parent index) d
      else q[index := d])"
  by pat_completeness auto
termination
  by (relation "measure (\<lambda>(cmp, q, index, d). index)") (auto simp: index_arith)

declare sift_up.simps [simp del]

text \<open>
  \<open>grown\<close> says whether the reallocation of a full queue succeeds; a failure is reported as
  \<open>None\<close> (-ENOMEM) and leaves the queue as it was.
\<close>

definition pqueue_insert :: "('a \<Rightarrow> 'a \<Rightarrow> int) \<Rightarrow> bool \<Rightarrow> 'a pqueue \<Rightarrow> 'a \<Rightarrow> 'a pqueue option" where
  "pqueue_insert cmp grown q d =
     (let n = length (pq_data q)
      in if n \<ge> pq_max q \<and> \<not> grown then None
         else Some \<lparr>pq_max = (if n \<ge> pq_max q then pq_max q * 2 else pq_max q),
                    pq_data = sift_up cmp (pq_data q @ [d]) n d\<rparr>)"

definition pqueue_length :: "'a pqueue \<Rightarrow> nat" where
  "pqueue_length q = length (pq_data q)"

definition pqueue_peek :: "'a pqueue \<Rightarrow> 'a option" where
  "pqueue_peek q = (if pq_data q \<noteq> [] then Some (pq_data q ! 0) else None)"

subsection \<open>The heap property\<close>

definition heap :: "('a \<Rightarrow> 'a \<Rightarrow> int) \<Rightarrow> 'a list \<Rightarrow> bool" where
  "heap cmp q \<longleftrightarrow> (\<forall>i < length q. 0 < i \<longrightarrow> cmp (q ! i) (q ! parent i) \<le> 0)"

lemma parent_less: "0 < i \<Longrightarrow> parent i < i"
  by (simp add: index_arith)

lemma children: "0 < i \<Longrightarrow> parent i = k \<longleftrightarrow> i = left k \<or> i = right k"
  by (auto simp: index_arith)

lemma mset_heapify [simp]: "index < length q \<Longrightarrow> mset (heapify cmp q index) = mset q"
proof (induction cmp q index rule: heapify.induct)
  case (1 cmp q index)
  show ?case
  proof (cases "i_max cmp q index = index")
    case False
    then show ?thesis
      using 1 i_max_range [of cmp q index]
      by (simp add: heapify.simps [of cmp q index] Let_def mset_swap)
  qed (simp add: heapify.simps [of cmp q index])
qed

lemma length_heapify [simp]: "length (heapify cmp q index) = length q"
  by (induction cmp q index rule: heapify.induct) (subst heapify.simps, auto simp: Let_def)

lemma mset_sift_up: "index < length q \<Longrightarrow> mset (sift_up cmp q index d) = mset (q[index := d])"
proof (induction cmp q index d rule: sift_up.induct)
  case (1 cmp q index d)
  show ?case
  proof (cases "index \<noteq> 0 \<and> cmp (q ! parent index) d < 0")
    case True
    define p where "p = parent index"
    have p: "p < index" using True parent_less by (simp add: p_def)
    have "mset (sift_up cmp q index d) = mset ((q[index := q ! p])[p := d])"
      using True 1 p by (simp add: sift_up.simps [of cmp q index] p_def)
    also have "(q[index := q ! p])[p := d] = (q[index := d])[index := q[index := d] ! p, p := q[index := d] ! index]"
      using p 1(2) by simp
    also have "mset \<dots> = mset (q[index := d])"
      using p 1(2) by (intro mset_swap) simp_all
    finally show ?thesis .
  next
    case False
    then show ?thesis by (subst sift_up.simps) auto
  qed
qed

lemma length_sift_up [simp]: "length (sift_up cmp q index d) = length q"
  by (induction cmp q index d rule: sift_up.induct) (simp add: sift_up.simps)

text \<open>
  The array while an element moves: the heap property holds but at the hole \<open>k\<close>.
\<close>

definition hole_above :: "('a \<Rightarrow> 'a \<Rightarrow> int) \<Rightarrow> 'a list \<Rightarrow> nat \<Rightarrow> 'a \<Rightarrow> bool" where
  "hole_above cmp q k d \<longleftrightarrow> k < length q
    \<and> (\<forall>i < length q. 0 < i \<and> i \<noteq> k \<and> parent i \<noteq> k \<longrightarrow> cmp (q ! i) (q ! parent i) \<le> 0)
    \<and> (\<forall>i < length q. 0 < i \<and> parent i = k \<longrightarrow> cmp (q ! i) d \<le> 0 \<and> (0 < k \<longrightarrow> cmp (q ! i) (q ! parent k) \<le> 0))"

definition hole_below :: "('a \<Rightarrow> 'a \<Rightarrow> int) \<Rightarrow> 'a list \<Rightarrow> nat \<Rightarrow> bool" where
  "hole_below cmp q k \<longleftrightarrow>
      (\<forall>i < length q. 0 < i \<and> parent i \<noteq> k \<longrightarrow> cmp (q ! i) (q ! parent i) \<le> 0)
    \<and> (\<forall>i < length q. 0 < i \<and> parent i = k \<and> 0 < k \<longrightarrow> cmp (q ! i) (q ! parent k) \<le> 0)"

context comparator
begin

lemma heap_top: "heap cmp q \<Longrightarrow> i < length q \<Longrightarrow> cmp (q ! i) (q ! 0) \<le> 0"
proof (induction i rule: less_induct)
  case (less i)
  show ?case
  proof (cases "i = 0")
    case False
    then have "cmp (q ! i) (q ! parent i) \<le> 0" "cmp (q ! parent i) (q ! 0) \<le> 0"
      using less parent_less [of i] by (auto simp: heap_def)
    then show ?thesis by (rule cmp_trans)
  qed simp
qed

lemma hole_moves_up:
  assumes h: "hole_above cmp q k d" and k: "k \<noteq> 0" and less: "cmp (q ! parent k) d < 0"
  shows "hole_above cmp (q[k := q ! parent k]) (parent k) d"
proof -
  define p where "p = parent k"
  have p: "p < k" using k parent_less by (simp add: p_def)
  have kl: "k < length q" using h unfolding hole_above_def by blast
  have hole: "cmp (q ! i) (q ! parent i) \<le> 0" if "i < length q" "0 < i" "i \<noteq> k" "parent i \<noteq> k" for i
    using h that unfolding hole_above_def by blast
  have child: "cmp (q ! i) d \<le> 0" "cmp (q ! i) (q ! p) \<le> 0" if "i < length q" "0 < i" "parent i = k" for i
    using h that k unfolding hole_above_def p_def by blast+
  let ?q = "q[k := q ! p]"
  have "cmp (?q ! i) (?q ! parent i) \<le> 0"
    if i: "i < length q" "0 < i" "i \<noteq> p" "parent i \<noteq> p" for i
  proof (cases "parent i = k")
    case True
    then have "i \<noteq> k" using parent_less [OF i(2)] by simp
    then show ?thesis using child(2) [OF i(1,2) True] True kl by simp
  next
    case False
    have "i \<noteq> k" using i(4) by (auto simp: p_def)
    then show ?thesis using hole [OF i(1,2) _ False] False by simp
  qed
  moreover have "cmp (?q ! i) d \<le> 0 \<and> (0 < p \<longrightarrow> cmp (?q ! i) (?q ! parent p) \<le> 0)"
    if i: "i < length q" "0 < i" "parent i = p" for i
  proof -
    have pp: "0 < p \<Longrightarrow> cmp (q ! p) (q ! parent p) \<le> 0"
      using hole [of p] p kl parent_less [of p] by simp
    have pk: "0 < p \<Longrightarrow> parent p \<noteq> k" using p parent_less [of p] by simp
    show ?thesis
    proof (cases "i = k")
      case True
      have "cmp (q ! p) d \<le> 0" using less by (simp add: p_def)
      moreover have "0 < p \<Longrightarrow> ?q ! parent p = q ! parent p" using pk by simp
      ultimately show ?thesis using True pp p kl by simp
    next
      case False
      have ip: "cmp (q ! i) (q ! p) \<le> 0" using hole [of i] i False p by simp
      have "cmp (q ! p) d \<le> 0" using less by (simp add: p_def)
      then have "cmp (q ! i) d \<le> 0" by (rule cmp_trans [OF ip])
      moreover have "0 < p \<Longrightarrow> cmp (q ! i) (q ! parent p) \<le> 0" using cmp_trans [OF ip pp] .
      moreover have "?q ! i = q ! i" "0 < p \<Longrightarrow> ?q ! parent p = q ! parent p"
        using False pk by auto
      ultimately show ?thesis by simp
    qed
  qed
  ultimately show ?thesis
    using p kl unfolding hole_above_def p_def [symmetric] by simp
qed

lemma heap_sift_up: "hole_above cmp q k d \<Longrightarrow> heap cmp (sift_up cmp q k d)"
proof (induction k arbitrary: q rule: less_induct)
  case (less k)
  show ?case
  proof (cases "k \<noteq> 0 \<and> cmp (q ! parent k) d < 0")
    case True
    then show ?thesis
      using less.IH [OF parent_less hole_moves_up [OF less.prems]] by (subst sift_up.simps) simp
  next
    case False
    have "cmp (q[k := d] ! i) (q[k := d] ! parent i) \<le> 0" if i: "i < length q" "0 < i" for i
    proof -
      have "parent i < i" using i parent_less by simp
      then show ?thesis
        using less.prems False i cmp_flip(2) [of "q ! parent k" d]
        by (cases "i = k"; cases "parent i = k") (auto simp: hole_above_def)
    qed
    with False show ?thesis by (subst sift_up.simps) (auto simp: heap_def)
  qed
qed

lemma heap_insert: "heap cmp q \<Longrightarrow> heap cmp (sift_up cmp (q @ [d]) (length q) d)"
proof (rule heap_sift_up)
  assume h: "heap cmp q"
  have "parent i \<noteq> length q" if "i < length (q @ [d])" "0 < i" for i
    using that parent_less [of i] by simp
  moreover have "cmp ((q @ [d]) ! i) ((q @ [d]) ! parent i) \<le> 0" if "i < length q" "0 < i" for i
    using that h parent_less [of i] by (simp add: heap_def nth_append)
  ultimately show "hole_above cmp (q @ [d]) (length q) d"
    unfolding hole_above_def by (auto simp del: nth_append)
qed

lemma i_max_greatest:
  assumes "i < length q" "0 < i" "parent i = k"
  shows "cmp (q ! i) (q ! i_max cmp q k) \<le> 0"
proof -
  define m where "m = (if left k < length q \<and> pq_greater cmp q (left k) k then left k else k)"
  have im: "i_max cmp q k = (if right k < length q \<and> pq_greater cmp q (right k) m then right k else m)"
    by (simp add: i_max_def m_def Let_def)
  have l: "left k < length q \<Longrightarrow> cmp (q ! left k) (q ! m) \<le> 0"
    by (auto simp: m_def pq_greater_def)
  have mr: "\<not> (right k < length q \<and> pq_greater cmp q (right k) m) \<Longrightarrow> right k < length q \<Longrightarrow> cmp (q ! right k) (q ! m) \<le> 0"
    by (simp add: pq_greater_def)
  have rm: "right k < length q \<and> pq_greater cmp q (right k) m \<Longrightarrow> cmp (q ! m) (q ! right k) \<le> 0"
    using cmp_flip(1) [of "q ! right k" "q ! m"] by (simp add: pq_greater_def)
  consider "i = left k" | "i = right k" using children [of i k] assms by blast
  then show ?thesis
  proof cases
    case 1
    then show ?thesis
      using l assms(1) rm cmp_trans [OF l, of "q ! right k"] im by (auto simp del: cmp_trans)
  next
    case 2
    then show ?thesis using mr assms(1) im by auto
  qed
qed

lemma i_max_child:
  assumes "i_max cmp q k \<noteq> k"
  shows "parent (i_max cmp q k) = k" "cmp (q ! k) (q ! i_max cmp q k) \<le> 0"
proof -
  have "i_max cmp q k = left k \<or> i_max cmp q k = right k"
    using assms by (auto simp: i_max_def Let_def split: if_splits)
  then show p: "parent (i_max cmp q k) = k" by (auto simp: index_arith)
  define m where "m = (if left k < length q \<and> pq_greater cmp q (left k) k then left k else k)"
  have im: "i_max cmp q k = (if right k < length q \<and> pq_greater cmp q (right k) m then right k else m)"
    by (simp add: i_max_def m_def Let_def)
  have "cmp (q ! k) (q ! m) \<le> 0"
    using cmp_flip(1) [of "q ! left k" "q ! k"] by (simp add: m_def pq_greater_def)
  moreover have "right k < length q \<and> pq_greater cmp q (right k) m \<Longrightarrow> cmp (q ! m) (q ! right k) \<le> 0"
    using cmp_flip(1) [of "q ! right k" "q ! m"] by (simp add: pq_greater_def)
  ultimately show "cmp (q ! k) (q ! i_max cmp q k) \<le> 0"
    using cmp_trans unfolding im by (auto split: if_splits)
qed

lemma hole_moves_down:
  assumes h: "hole_below cmp q k" and m: "i_max cmp q k = m" "m \<noteq> k"
  shows "hole_below cmp (q[k := q ! m, m := q ! k]) m"
proof -
  let ?q = "q[k := q ! m, m := q ! k]"
  have km: "k < m" "m < length q" using i_max_range [of cmp q k] m by auto
  have pm: "parent m = k" "cmp (q ! k) (q ! m) \<le> 0" using i_max_child [of q k] m by simp_all
  have hole: "cmp (q ! i) (q ! parent i) \<le> 0" if "i < length q" "0 < i" "parent i \<noteq> k" for i
    using h that unfolding hole_below_def by blast
  have child: "cmp (q ! i) (q ! parent k) \<le> 0" if "i < length q" "0 < i" "parent i = k" "0 < k" for i
    using h that unfolding hole_below_def by blast
  have "cmp (?q ! i) (?q ! parent i) \<le> 0" if i: "i < length q" "0 < i" "parent i \<noteq> m" for i
  proof -
    consider "i = k" | "parent i = k" | "i \<noteq> k" "parent i \<noteq> k" by blast
    then show ?thesis
    proof cases
      case 1
      have "parent k < k" using i 1 parent_less by simp
      then show ?thesis using child [of m] km pm 1 i by simp
    next
      case 2
      have "cmp (q ! i) (q ! m) \<le> 0" using i_max_greatest [OF i(1,2) 2] m by simp
      moreover have "i \<noteq> k" using 2 parent_less [OF i(2)] by simp
      ultimately show ?thesis using 2 pm km i by (cases "i = m") auto
    next
      case 3
      have "i \<noteq> m" using 3 pm by blast
      then show ?thesis using hole [OF i(1,2) 3(2)] 3 i km by simp
    qed
  qed
  moreover have "cmp (?q ! i) (?q ! parent m) \<le> 0" if i: "i < length q" "0 < i" "parent i = m" for i
  proof -
    have "i \<noteq> m" "i \<noteq> k" using i parent_less [of i] km by auto
    moreover have "cmp (q ! i) (q ! m) \<le> 0" using hole [of i] i km by simp
    ultimately show ?thesis using pm km by simp
  qed
  ultimately show ?thesis unfolding hole_below_def by simp
qed

lemma heap_heapify: "hole_below cmp q k \<Longrightarrow> heap cmp (heapify cmp q k)"
proof (induction "length q - k" arbitrary: q k rule: less_induct)
  case less
  show ?case
  proof (cases "i_max cmp q k = k")
    case True
    have "cmp (q ! i) (q ! parent i) \<le> 0" if "i < length q" "0 < i" for i
      using less.prems that i_max_greatest [of i q k] True unfolding hole_below_def by (cases "parent i = k") auto
    then show ?thesis using True by (subst heapify.simps) (simp add: heap_def)
  next
    case False
    define m where "m = i_max cmp q k"
    have "length (q[k := q ! m, m := q ! k]) - m < length q - k"
      using i_max_range [OF False] unfolding m_def length_list_update by linarith
    from less.hyps [OF this hole_moves_down [OF less.prems m_def [symmetric]]] False
    show ?thesis by (subst heapify.simps) (simp add: m_def Let_def)
  qed
qed

lemma heap_extract: "heap cmp q \<Longrightarrow> heap cmp (heapify cmp (butlast (q[0 := x])) 0)"
proof (rule heap_heapify)
  assume h: "heap cmp q"
  let ?b = "butlast (q[0 := x])"
  have nth: "?b ! i = q ! i" if "i < length ?b" "i \<noteq> 0" for i
    using that by (simp add: nth_butlast)
  have "cmp (?b ! i) (?b ! parent i) \<le> 0" if i: "i < length ?b" "0 < i" "parent i \<noteq> 0" for i
    using h i nth [of i] nth [of "parent i"] parent_less [OF i(2)] by (simp add: heap_def)
  then show "hole_below cmp ?b 0" by (simp add: hole_below_def)
qed

end

subsection \<open>The queue as a multiset\<close>

definition pq_mset :: "'a pqueue \<Rightarrow> 'a multiset" where
  "pq_mset q = mset (pq_data q)"

text \<open>What the client of the queue relies on, for any comparison function.\<close>

lemma pqueue_insert_spec:
  assumes "comparator cmp" "heap cmp (pq_data q)" "pqueue_insert cmp grown q d = Some q'"
  shows "heap cmp (pq_data q')" "pq_mset q' = add_mset d (pq_mset q)"
  using assms comparator.heap_insert [OF assms(1,2), of d]
  by (auto simp: pqueue_insert_def pq_mset_def mset_sift_up Let_def split: if_splits)

lemma pqueue_extract_spec:
  assumes "comparator cmp" "heap cmp (pq_data q)" "pqueue_extract cmp q = Some (x, q')"
  shows "heap cmp (pq_data q')" "pq_mset q = add_mset x (pq_mset q')" "\<forall>y \<in># pq_mset q'. cmp y x \<le> 0"
    "pqueue_peek q = Some x"
proof -
  let ?d = "pq_data q"
  have d: "?d \<noteq> []" "x = ?d ! 0" "pq_data q' = heapify cmp (butlast (?d[0 := ?d ! (length ?d - 1)])) 0"
    using assms(3) by (auto simp: pqueue_extract_def Let_def split: if_splits)
  show "heap cmp (pq_data q')"
    using comparator.heap_extract [OF assms(1,2)] d(3) by simp
  have "mset (pq_data q') = mset (butlast (?d[0 := ?d ! (length ?d - 1)]))"
  proof (cases "butlast (?d[0 := ?d ! (length ?d - 1)]) = []")
    case True
    have "heapify cmp [] 0 = []" by (subst heapify.simps) (simp add: i_max_def)
    then show ?thesis using True d(3) by simp
  next
    case False
    then have "0 < length (butlast (?d[0 := ?d ! (length ?d - 1)]))" unfolding length_greater_0_conv .
    then show ?thesis unfolding d(3) by (rule mset_heapify)
  qed
  moreover have "mset ?d = add_mset x (mset (butlast (?d[0 := ?d ! (length ?d - 1)])))"
  proof (cases ?d rule: rev_cases)
    case (snoc ys z)
    show ?thesis using d(2) snoc by (cases ys) (simp_all add: butlast_append)
  qed (use d(1) in simp)
  ultimately show m: "pq_mset q = add_mset x (pq_mset q')" by (simp add: pq_mset_def)
  show "\<forall>y \<in># pq_mset q'. cmp y x \<le> 0"
  proof
    fix y assume "y \<in># pq_mset q'"
    then have "y \<in> set ?d" using m by (metis insertI2 pq_mset_def set_mset_add_mset_insert set_mset_mset)
    then obtain i where "i < length ?d" "?d ! i = y" by (auto simp: in_set_conv_nth)
    then show "cmp y x \<le> 0" using comparator.heap_top [OF assms(1,2)] d(2) by blast
  qed
  show "pqueue_peek q = Some x" using d by (simp add: pqueue_peek_def)
qed

text \<open>The used part stays inside the array; an extraction makes room for an insertion.\<close>

definition pq_sized :: "'a pqueue \<Rightarrow> bool" where
  "pq_sized q \<longleftrightarrow> length (pq_data q) \<le> pq_max q \<and> 0 < pq_max q"

lemma pqueue_insert_sized:
  "pqueue_insert cmp grown q d = Some q' \<Longrightarrow> pq_sized q \<Longrightarrow> pq_sized q'"
  by (auto simp: pqueue_insert_def pq_sized_def Let_def Suc_le_eq split: if_splits)

lemma pqueue_extract_sized:
  assumes "pqueue_extract cmp q = Some (x, q')" "pq_sized q"
  shows "pq_sized q'" "pqueue_insert cmp grown q' d \<noteq> None"
  using assms by (auto simp: pqueue_extract_def pqueue_insert_def pq_sized_def Let_def split: if_splits)

lemma pqueue_extract_None: "pqueue_extract cmp q = None \<longleftrightarrow> pq_mset q = {#}"
  by (auto simp: pqueue_extract_def pq_mset_def Let_def)

end
