(* ===== verification/HashTable.thy ===== *)
theory HashTable
  imports Prelude
begin

text \<open>
  The hash table of ptpUtils.c, in which config.c keeps the options: an array of 200 chains of
  nodes. A key is the list of the bytes of a C string without its terminator. \<open>nodes\<close> and
  \<open>keys\<close> say whether the allocation of the node and the copy of the key succeed.
\<close>

abbreviation (input) HASH_TABLE_SIZE :: nat where "HASH_TABLE_SIZE \<equiv> 200"

record 'a HashNode =
  hn_key :: "u8 list"
  hn_data :: 'a

type_synonym 'a hash = "'a HashNode list list"

text \<open>\<open>char\<close> is signed on the host; the sum wraps at 32 bits.\<close>

definition hash_function :: "u8 list \<Rightarrow> nat" where
  "hash_function s = unat (foldl (\<lambda>i c. 131 * i + scast c) (0 :: u32) s) mod HASH_TABLE_SIZE"

definition hash_create :: "'a hash" where
  "hash_create = replicate HASH_TABLE_SIZE []"

fun find_node :: "u8 list \<Rightarrow> 'a HashNode list \<Rightarrow> 'a HashNode option" where
  "find_node key [] = None"
| "find_node key (n # ns) = (if hn_key n = key then Some n else find_node key ns)"

definition hash_insert :: "bool \<Rightarrow> bool \<Rightarrow> 'a hash \<Rightarrow> u8 list \<Rightarrow> 'a \<Rightarrow> int \<times> 'a hash" where
  "hash_insert nodes keys ht key data =
     (let h = hash_function key
      in if find_node key (ht ! h) \<noteq> None then (-1, ht)
         else if \<not> nodes then (-1, ht)
         else if \<not> keys then (-1, ht)
         else (0, ht[h := \<lparr>hn_key = key, hn_data = data\<rparr> # (ht ! h)]))"

definition hash_lookup :: "'a hash \<Rightarrow> u8 list \<Rightarrow> 'a option" where
  "hash_lookup ht key = map_option hn_data (find_node key (ht ! hash_function key))"

text \<open>The data handed to the destructor, in order.\<close>

definition hash_destroy :: "'a hash \<Rightarrow> 'a list" where
  "hash_destroy ht = concat (map (map hn_data) ht)"

subsection \<open>The table as a map\<close>

definition hash_ok :: "'a hash \<Rightarrow> bool" where
  "hash_ok ht \<longleftrightarrow> length ht = HASH_TABLE_SIZE"

lemma hash_function_less: "hash_function key < HASH_TABLE_SIZE"
  by (simp add: hash_function_def)

text \<open>The interface that config.c uses: a map to which keys are added once.\<close>

locale add_once_map =
  fixes empty_map :: 'm
    and lookup_map :: "'m \<Rightarrow> 'k \<Rightarrow> 'v option"
    and insert_map :: "'m \<Rightarrow> 'k \<Rightarrow> 'v \<Rightarrow> int \<times> 'm"
    and ok :: "'m \<Rightarrow> bool"
  assumes empty_ok: "ok empty_map"
    and lookup_empty: "lookup_map empty_map k = None"
    and insert_ok: "ok m \<Longrightarrow> ok (snd (insert_map m k v))"
    and insert_fails: "ok m \<Longrightarrow> lookup_map m k \<noteq> None \<Longrightarrow> insert_map m k v = (-1, m)"
    and insert_error: "ok m \<Longrightarrow> fst (insert_map m k v) \<noteq> 0 \<Longrightarrow> snd (insert_map m k v) = m"
    and lookup_insert: "ok m \<Longrightarrow> fst (insert_map m k v) = 0 \<Longrightarrow>
      lookup_map (snd (insert_map m k v)) = (lookup_map m)(k \<mapsto> v)"
begin

fun insert_all :: "('k \<times> 'v) list \<Rightarrow> 'm" where
  "insert_all [] = empty_map"
| "insert_all (kv # kvs) = snd (insert_map (insert_all kvs) (fst kv) (snd kv))"

lemma insert_all_ok: "ok (insert_all kvs)"
  by (induction kvs) (simp_all add: empty_ok insert_ok)

lemma first_wins: "lookup_map m k = Some w \<Longrightarrow> ok m \<Longrightarrow> lookup_map (snd (insert_map m k' v)) k = Some w"
  using insert_fails [of m k' v] insert_error [of m k' v] lookup_insert [of m k' v]
  by (cases "fst (insert_map m k' v) = 0") (auto split: if_splits)

end

lemma find_node_key: "find_node key ns = Some n \<Longrightarrow> hn_key n = key \<and> n \<in> set ns"
  by (induction ns) (auto split: if_splits)

interpretation options: add_once_map hash_create hash_lookup "hash_insert True True" hash_ok
proof unfold_locales
  fix m :: "'a hash" and k v
  show "hash_ok (hash_create :: 'a hash)" by (simp add: hash_ok_def hash_create_def)
  show "hash_lookup (hash_create :: 'a hash) k = None"
    by (simp add: hash_lookup_def hash_create_def hash_function_less)
  assume ok: "hash_ok m"
  show "hash_ok (snd (hash_insert True True m k v))"
    using ok by (simp add: hash_insert_def hash_ok_def Let_def)
  show "hash_lookup m k \<noteq> None \<Longrightarrow> hash_insert True True m k v = (-1, m)"
    by (simp add: hash_lookup_def hash_insert_def Let_def)
  show "fst (hash_insert True True m k v) \<noteq> 0 \<Longrightarrow> snd (hash_insert True True m k v) = m"
    by (auto simp: hash_insert_def Let_def split: if_splits)
  assume "fst (hash_insert True True m k v) = 0"
  then have i: "hash_insert True True m k v = (0, m[hash_function k := \<lparr>hn_key = k, hn_data = v\<rparr> # (m ! hash_function k)])"
    by (auto simp: hash_insert_def Let_def split: if_splits)
  show "hash_lookup (snd (hash_insert True True m k v)) = (hash_lookup m)(k \<mapsto> v)"
    using ok hash_function_less [of k]
    by (auto simp: i hash_lookup_def hash_ok_def nth_list_update fun_eq_iff)
qed

lemma destroy_update:
  "h < length ht \<Longrightarrow> mset (hash_destroy (ht[h := n # (ht ! h)])) = add_mset (hn_data n) (mset (hash_destroy ht))"
proof (induction ht arbitrary: h)
  case (Cons b bs)
  then show ?case by (cases h) (simp_all add: hash_destroy_def)
qed simp

text \<open>
  The table is a map in which the first value of a key stays. An insertion succeeds
  exactly when the key is new and both allocations succeed; it adds that key and changes no
  other; a failed insertion changes nothing; and every value that was accepted is handed to the
  destructor exactly once.
\<close>

lemma hash_table_is_a_map:
  assumes "hash_ok ht"
  shows "(let (r, ht') = hash_insert nodes keys ht k v in
      (r = 0 \<longleftrightarrow> hash_lookup ht k = None \<and> nodes \<and> keys) \<and> hash_ok ht'
      \<and> hash_lookup ht' = (if r = 0 then (hash_lookup ht)(k \<mapsto> v) else hash_lookup ht)
      \<and> mset (hash_destroy ht') = (if r = 0 then {#v#} else {#}) + mset (hash_destroy ht))"
proof (cases "hash_lookup ht k = None \<and> nodes \<and> keys")
  case True
  then have fn: "find_node k (ht ! hash_function k) = None" by (simp add: hash_lookup_def)
  have h: "hash_function k < length ht" using assms hash_function_less [of k] by (simp add: hash_ok_def)
  let ?n = "\<lparr>hn_key = k, hn_data = v\<rparr>"
  have i: "hash_insert nodes keys ht k v = (0, ht[hash_function k := ?n # (ht ! hash_function k)])"
    using True fn by (simp add: hash_insert_def Let_def)
  have t: "hash_insert True True ht k v = (0, ht[hash_function k := ?n # (ht ! hash_function k)])"
    using fn by (simp add: hash_insert_def Let_def)
  have "mset (hash_destroy (ht[hash_function k := ?n # (ht ! hash_function k)])) = add_mset v (mset (hash_destroy ht))"
    using destroy_update [OF h, of ?n] by simp
  then show ?thesis
    using True options.lookup_insert [OF assms, of k v] options.insert_ok [OF assms, of k v] unfolding i t by simp
next
  case False
  then have "hash_insert nodes keys ht k v = (-1, ht)"
    by (auto simp: hash_insert_def hash_lookup_def Let_def)
  with False assms show ?thesis by auto
qed

lemma hash_table_is_a_map_witness:
  "hash_lookup (snd (hash_insert True True (hash_create :: nat hash) [0x61, 0xE9] 5)) [0x61, 0xE9] = Some 5"
proof -
  have "hash_ok (hash_create :: nat hash)" by (simp add: hash_ok_def hash_create_def)
  from hash_table_is_a_map [OF this, of True True "[0x61, 0xE9]" 5] show ?thesis
    by (auto simp: Let_def options.lookup_empty split: prod.splits if_splits)
qed

end
