(* ===== verification/UnicastService.thy ===== *)
theory UnicastService
  imports Pqueue PortTx
begin

text \<open>
  The unicast service of a master port, unicast_service.c: clients that asked for Announce or
  Sync messages, grouped by the period they asked for, and a priority queue with the time at
  which each period is due next. Times are nanosecond resolution pairs of the monotonic clock;
  64 bit seconds do not overflow and are integers here.
\<close>

subsection \<open>State\<close>

text \<open>A request for unicast transmission, its fields in host order.\<close>

record request_unicast_xmit_tlv =
  r_message_type :: u8
  r_logInterMessagePeriod :: i8
  r_durationField :: u32

record unicast_client_address =
  ca_portIdentity :: PortIdentity
  message_types :: u32
  ca_addr :: "u8 list"
  grant_tmo :: int

text \<open>
  An interval is an object with an identity, its address in the code. Its member \<open>tmo\<close> is
  kept with its entry of the queue: the code changes it only while the interval is not queued.
\<close>

record unicast_service_interval =
  clients :: "unicast_client_address list"
  incr :: itimer
  log_period :: i8

record queued_interval =
  q_iv :: nat
  q_tmo :: itimer

record unicast_service =
  intervals :: "(nat \<times> unicast_service_interval) list"
  queue :: "queued_interval pqueue"

abbreviation (input) QUEUE_LEN :: nat where "QUEUE_LEN \<equiv> 16"

definition empty_service :: unicast_service where
  "empty_service = \<lparr>intervals = [], queue = pqueue_create QUEUE_LEN\<rparr>"

subsection \<open>Times\<close>

text \<open>
  1 when \<open>a\<close> is before \<open>b\<close>: with this comparison the head of the queue is the earliest
  entry.
\<close>

definition timespec_compare :: "itimer \<Rightarrow> itimer \<Rightarrow> int" where
  "timespec_compare a b =
     (if it_sec a < it_sec b then 1
      else if it_sec b < it_sec a then -1
      else if it_nsec a < it_nsec b then 1
      else if it_nsec b < it_nsec a then -1
      else 0)"

definition compare_timeout :: "queued_interval \<Rightarrow> queued_interval \<Rightarrow> int" where
  "compare_timeout a b = timespec_compare (q_tmo a) (q_tmo b)"

definition timespec_normalize :: "itimer \<Rightarrow> itimer" where
  "timespec_normalize ts = carry_seconds (it_sec ts) (it_nsec ts)"

text \<open>For 31 and more the shift of the int constant is undefined in C.\<close>

definition log_to_timespec :: "int \<Rightarrow> itimer" where
  "log_to_timespec log_seconds =
     (if log_seconds < 0
      then \<lparr>it_sec = 0, it_nsec = uint (halve (nat (- log_seconds) - 1) 500000000)\<rparr>
      else \<lparr>it_sec = sint (push_bit (nat log_seconds) 1 :: i32), it_nsec = 0\<rparr>)"

definition initialize_interval :: "itimer \<Rightarrow> i8 \<Rightarrow> unicast_service_interval \<times> itimer" where
  "initialize_interval now period =
     (\<lparr>clients = [], incr = log_to_timespec (sint period), log_period = period\<rparr>,
      timespec_normalize (now\<lparr>it_nsec := it_nsec now + 10000000\<rparr>))"

definition interval_increment :: "unicast_service_interval \<Rightarrow> itimer \<Rightarrow> itimer" where
  "interval_increment i t =
     timespec_normalize \<lparr>it_sec = it_sec t + it_sec (incr i), it_nsec = it_nsec t + it_nsec (incr i)\<rparr>"

subsection \<open>Addresses\<close>

text \<open>
  \<open>addreq\<close> of util.c on the bytes of the address structures: the IPv4 address is at offset 4 of
  its socket address, the hardware address at offset 12; other transports are never equal.
\<close>

definition addreq :: "nat \<Rightarrow> u8 list \<Rightarrow> u8 list \<Rightarrow> bool" where
  "addreq type a b =
     (if type = 1 then memcmp (take 16 (drop 4 a)) (take 16 (drop 4 b)) = 0
      else if type = 3 then memcmp (take 6 (drop 12 a)) (take 6 (drop 12 b)) = 0
      else False)"

subsection \<open>Adding a client\<close>

datatype service_result = SERVICE_GRANTED | SERVICE_DENIED | SERVICE_DISABLED

definition mtype_mask :: "u8 \<Rightarrow> u32" where
  "mtype_mask t = push_bit (unat t) 1"

definition unicast_service_extend :: "int \<Rightarrow> u32 \<Rightarrow> unicast_client_address \<Rightarrow> unicast_client_address" where
  "unicast_service_extend now_sec duration c =
     (let tmo = now_sec + uint duration in if tmo > grant_tmo c then c\<lparr>grant_tmo := tmo\<rparr> else c)"

text \<open>
  The clients of the interval asked for: \<^const>\<open>Inl\<close> when a contract for the type exists, which
  is extended, otherwise the position of the last client of this address.
\<close>

fun scan_own :: "(unicast_client_address \<Rightarrow> bool) \<Rightarrow> u32 \<Rightarrow> (unicast_client_address \<Rightarrow> unicast_client_address)
    \<Rightarrow> unicast_client_address list \<Rightarrow> nat \<Rightarrow> nat option \<Rightarrow> unicast_client_address list + nat option" where
  "scan_own matches msk ext [] k client = Inr client"
| "scan_own matches msk ext (c # cs) k client =
     (if matches c \<and> message_types c AND msk \<noteq> 0 then Inl (ext c # cs)
      else case scan_own matches msk ext cs (k + 1) (if matches c then Some k else client) of
          Inl cs' \<Rightarrow> Inl (c # cs')
        | Inr k' \<Rightarrow> Inr k')"

text \<open>The clients of another interval: a stale contract for the type is removed.\<close>

fun scan_other :: "(unicast_client_address \<Rightarrow> bool) \<Rightarrow> u32 \<Rightarrow> unicast_client_address list \<Rightarrow> unicast_client_address list" where
  "scan_other matches msk [] = []"
| "scan_other matches msk (c # cs) =
     (if \<not> matches c then c # scan_other matches msk cs
      else let c' = c\<lparr>message_types := message_types c AND NOT msk\<rparr>
           in if message_types c' = 0 then scan_other matches msk cs else c' # scan_other matches msk cs)"

text \<open>
  The loop over the intervals, with the interval of interest and the client record found so
  far, an interval and a position in it.
\<close>

fun add_loop :: "(unicast_client_address \<Rightarrow> bool) \<Rightarrow> u32 \<Rightarrow> (unicast_client_address \<Rightarrow> unicast_client_address) \<Rightarrow> i8
    \<Rightarrow> (nat \<times> unicast_service_interval) list \<Rightarrow> nat option \<Rightarrow> (nat \<times> nat) option
    \<Rightarrow> bool \<times> (nat \<times> unicast_service_interval) list \<times> nat option \<times> (nat \<times> nat) option" where
  "add_loop matches msk ext period [] interval client = (False, [], interval, client)"
| "add_loop matches msk ext period ((i, iv) # ivs) interval client =
     (if log_period iv = period then
        (case scan_own matches msk ext (clients iv) 0 None of
           Inl cs \<Rightarrow> (True, (i, iv\<lparr>clients := cs\<rparr>) # ivs, Some i, client)
         | Inr k \<Rightarrow>
             (let (done, ivs', interval', client') = add_loop matches msk ext period ivs (Some i)
                    (case k of None \<Rightarrow> client | Some k \<Rightarrow> Some (i, k))
              in (done, (i, iv) # ivs', interval', client')))
      else
        (let (done, ivs', interval', client') = add_loop matches msk ext period ivs interval client
         in (done, (i, iv\<lparr>clients := scan_other matches msk (clients iv)\<rparr>) # ivs', interval', client')))"

definition change_interval :: "nat \<Rightarrow> (unicast_service_interval \<Rightarrow> unicast_service_interval)
    \<Rightarrow> (nat \<times> unicast_service_interval) list \<Rightarrow> (nat \<times> unicast_service_interval) list" where
  "change_interval i f ivs = map (\<lambda>(j, iv). (j, if j = i then f iv else iv)) ivs"

text \<open>
  The allocations of a step: a client record, an interval (its address, when there is one) and
  the growth of the queue.
\<close>

record service_alloc =
  al_client :: bool
  al_interval :: "nat option"
  al_queue :: bool

text \<open>
  \<open>unicast_service_add\<close>. \<open>tt\<close> is the transport type of the port, \<open>now\<close> the monotonic clock, \<open>src\<close>
  and \<open>a\<close> the source port identity and address of the message. The last component says
  whether the timer has to be armed again.
\<close>

definition unicast_service_add :: "nat \<Rightarrow> itimer \<Rightarrow> service_alloc \<Rightarrow> unicast_service option \<Rightarrow> PortIdentity \<Rightarrow> u8 list
    \<Rightarrow> request_unicast_xmit_tlv \<Rightarrow> service_result \<times> unicast_service option \<times> bool" where
  "unicast_service_add tt now al svc src a req =
     (case svc of None \<Rightarrow> (SERVICE_DISABLED, None, False) | Some s \<Rightarrow>
      let mtype = drop_bit 4 (r_message_type req); msk = mtype_mask mtype in
      if mtype = DELAY_RESP \<or> mtype = PDELAY_RESP then (SERVICE_GRANTED, Some s, False)
      else if mtype \<noteq> ANNOUNCE \<and> mtype \<noteq> SYNC then (SERVICE_DENIED, Some s, False)
      else
        let ext = unicast_service_extend (it_sec now) (r_durationField req);
            period = r_logInterMessagePeriod req;
            (done, ivs, interval, client) =
              add_loop (\<lambda>c. addreq tt (ca_addr c) a) msk ext period (intervals s) None None;
            s = s\<lparr>intervals := ivs\<rparr>
        in if done then (SERVICE_GRANTED, Some s, False)
           else case client of
             Some (i, k) \<Rightarrow>
               (SERVICE_GRANTED, Some (s\<lparr>intervals := change_interval i (\<lambda>iv. iv\<lparr>clients :=
                  (clients iv)[k := ext ((clients iv ! k)\<lparr>message_types := message_types (clients iv ! k) OR msk\<rparr>)]\<rparr>)
                  ivs\<rparr>), False)
           | None \<Rightarrow>
               if \<not> al_client al then (SERVICE_DENIED, Some s, False)
               else
                 let c = ext \<lparr>ca_portIdentity = src, message_types = msk, ca_addr = a, grant_tmo = 0\<rparr>
                 in case interval of
                      Some i \<Rightarrow>
                        (SERVICE_GRANTED, Some (s\<lparr>intervals :=
                           change_interval i (\<lambda>iv. iv\<lparr>clients := c # clients iv\<rparr>) ivs\<rparr>), False)
                    | None \<Rightarrow>
                        (case al_interval al of
                           None \<Rightarrow> (SERVICE_DENIED, Some s, False)
                         | Some i \<Rightarrow>
                             let (iv, tmo) = initialize_interval now period
                             in case pqueue_insert compare_timeout (al_queue al) (queue s) \<lparr>q_iv = i, q_tmo = tmo\<rparr> of
                                  None \<Rightarrow> (SERVICE_DENIED, Some s, False)
                                | Some q \<Rightarrow>
                                    (SERVICE_GRANTED, Some \<lparr>intervals = (i, iv\<lparr>clients := [c]\<rparr>) # ivs, queue = q\<rparr>, True)))"

subsection \<open>Removing a client\<close>

text \<open>The first client of the address with the type loses it; the rest of the list stays.\<close>

fun remove_client :: "(unicast_client_address \<Rightarrow> bool) \<Rightarrow> u32 \<Rightarrow> unicast_client_address list \<Rightarrow> unicast_client_address list option" where
  "remove_client matches msk [] = None"
| "remove_client matches msk (c # cs) =
     (if matches c \<and> message_types c AND msk \<noteq> 0
      then let c' = c\<lparr>message_types := message_types c AND NOT msk\<rparr>
           in Some (if message_types c' = 0 then cs else c' # cs)
      else map_option ((#) c) (remove_client matches msk cs))"

fun remove_loop :: "(unicast_client_address \<Rightarrow> bool) \<Rightarrow> u32 \<Rightarrow> (nat \<times> unicast_service_interval) list
    \<Rightarrow> (nat \<times> unicast_service_interval) list" where
  "remove_loop matches msk [] = []"
| "remove_loop matches msk ((i, iv) # ivs) =
     (case remove_client matches msk (clients iv) of
        Some cs \<Rightarrow> (i, iv\<lparr>clients := cs\<rparr>) # ivs
      | None \<Rightarrow> (i, iv) # remove_loop matches msk ivs)"

definition unicast_service_remove :: "nat \<Rightarrow> unicast_service option \<Rightarrow> u8 list \<Rightarrow> u8 \<Rightarrow> unicast_service option" where
  "unicast_service_remove tt svc a message_type_flags =
     (case svc of None \<Rightarrow> None | Some s \<Rightarrow>
      if message_type_flags AND 1 \<noteq> 0 then Some s
      else let mtype = drop_bit 4 message_type_flags
           in if mtype \<noteq> ANNOUNCE \<and> mtype \<noteq> SYNC then Some s
              else Some (s\<lparr>intervals := remove_loop (\<lambda>c. addreq tt (ca_addr c) a) (mtype_mask mtype) (intervals s)\<rparr>))"

subsection \<open>The timer\<close>

text \<open>
  \<open>unicast_service_clients\<close>: every client whose grant has not expired is sent what it asked
  for. \<open>es n\<close> is the environment of the \<open>n\<close>-th transmission of the step; the clock is read once
  here. Sent messages are an output, the Boolean is the error return.
\<close>

fun serve_clients :: "(nat \<Rightarrow> 'd env) \<Rightarrow> ClockData \<Rightarrow> int \<Rightarrow> 'd PtpPort \<Rightarrow> nat \<Rightarrow> unicast_client_address list
    \<Rightarrow> 'd PtpPort \<times> nat \<times> unicast_client_address list \<times> ptp_message list \<times> bool" where
  "serve_clients es c now_sec p n [] = (p, n, [], [], False)"
| "serve_clients es c now_sec p n (cl # cs) =
     (if now_sec > grant_tmo cl then serve_clients es c now_sec p n cs
      else
        let (p, n, ms1, err1) = (if message_types cl AND mtype_mask ANNOUNCE \<noteq> 0
               then (let (p, ms, err) = port_tx_announce (es n) c p (Some (ca_addr cl)) in (p, n + 1, ms, err))
               else (p, n, [], False));
            (p, n, ms2, err2) = (if message_types cl AND mtype_mask SYNC \<noteq> 0
               then (let (p, ms, err) = port_tx_sync (es n) c p (Some (ca_addr cl)) in (p, n + 1, ms, err))
               else (p, n, [], False));
            (p, n, cs', ms3, err3) = serve_clients es c now_sec p n cs
        in (p, n, cl # cs', ms1 @ ms2 @ ms3, err1 \<or> err2 \<or> err3))"

definition the_interval :: "unicast_service \<Rightarrow> nat \<Rightarrow> unicast_service_interval option" where
  "the_interval s i = map_of (intervals s) i"

text \<open>
  One round of the loop of \<open>unicast_service_timer\<close>: \<^const>\<open>None\<close> when the loop ends. The head of
  the queue is taken out when its time has come; its clients are served by a master, it is
  retired when it has none, and otherwise queued again for its next time. An entry without
  interval does not occur. The insertion follows an extraction, so the queue has room.
\<close>

definition service_round :: "(nat \<Rightarrow> 'd env) \<Rightarrow> ClockData \<Rightarrow> itimer \<Rightarrow> bool \<Rightarrow> 'd PtpPort \<times> nat \<times> unicast_service
    \<Rightarrow> (('d PtpPort \<times> nat \<times> unicast_service) \<times> ptp_message list \<times> bool) option" where
  "service_round es c now master st =
     (let (p, n, s) = st in
      case pqueue_peek (queue s) of None \<Rightarrow> None | Some h \<Rightarrow>
      if timespec_compare now (q_tmo h) \<ge> 0 then None
      else case pqueue_extract compare_timeout (queue s) of None \<Rightarrow> None | Some (h, q) \<Rightarrow>
      case the_interval s (q_iv h) of None \<Rightarrow> None | Some iv \<Rightarrow>
        let (p, n, cs, ms, err) = (if master then serve_clients es c (sint (tv_sec (mono_now (es n)))) p n (clients iv)
               else (p, n, clients iv, [], False));
            ivs = change_interval (q_iv h) (\<lambda>iv. iv\<lparr>clients := cs\<rparr>) (intervals s)
        in if cs = [] then Some ((p, n, \<lparr>intervals = filter (\<lambda>x. fst x \<noteq> q_iv h) ivs, queue = q\<rparr>), ms, err)
           else
             let q' = pqueue_insert compare_timeout True q (h\<lparr>q_tmo := interval_increment iv (q_tmo h)\<rparr>)
             in Some ((p, n, \<lparr>intervals = ivs, queue = the q'\<rparr>), ms, err))"

text \<open>The loop with fuel: \<^const>\<open>None\<close> when it is still running.\<close>

fun service_loop :: "nat \<Rightarrow> (nat \<Rightarrow> 'd env) \<Rightarrow> ClockData \<Rightarrow> itimer \<Rightarrow> bool \<Rightarrow> 'd PtpPort \<times> nat \<times> unicast_service
    \<Rightarrow> (('d PtpPort \<times> nat \<times> unicast_service) \<times> ptp_message list \<times> bool) option" where
  "service_loop 0 es c now master st = None"
| "service_loop (Suc k) es c now master st =
     (case service_round es c now master st of
        None \<Rightarrow> Some (st, [], False)
      | Some (st', ms, err) \<Rightarrow>
          map_option (\<lambda>(st'', ms', err'). (st'', ms @ ms', err \<or> err')) (service_loop k es c now master st'))"

text \<open>The timer is set to the head of the queue, or stopped.\<close>

definition unicastServiceReArmTimer :: "unicast_service \<Rightarrow> 'd PtpPort \<Rightarrow> 'd PtpPort" where
  "unicastServiceReArmTimer s p =
     settime FD_UNICAST_SRV_TIMER (case pqueue_peek (queue s) of None \<Rightarrow> disarmed | Some h \<Rightarrow> q_tmo h) p"

definition unicast_service_timer :: "nat \<Rightarrow> (nat \<Rightarrow> 'd env) \<Rightarrow> ClockData \<Rightarrow> itimer \<Rightarrow> 'd PtpPort \<Rightarrow> unicast_service option
    \<Rightarrow> ('d PtpPort \<times> unicast_service option \<times> ptp_message list \<times> bool) option" where
  "unicast_service_timer fuel es c now p svc =
     (case svc of None \<Rightarrow> Some (p, None, [], False) | Some s \<Rightarrow>
      let master = (state p = PS_MASTER \<or> state p = PS_GRAND_MASTER)
      in map_option (\<lambda>((p, n, s), ms, err).
             (unicastServiceReArmTimer s p, Some s, ms, err \<or> timer p FD_UNICAST_SRV_TIMER = None))
           (service_loop fuel es c now master (p, 0, s)))"

subsection \<open>The order of the queue\<close>

interpretation timeouts: comparator compare_timeout
  by unfold_locales (auto simp: compare_timeout_def timespec_compare_def split: if_splits)

text \<open>
  The queue of intervals refines a multiset of due times. Insertion adds the entry,
  extraction takes out an entry that is due no later than any other, the one that was peeked,
  and both keep the heap, so the timer can always be armed for the entry in front.
\<close>

lemma interval_queue_refines:
  assumes "heap compare_timeout (pq_data q)"
  shows "(case pqueue_extract compare_timeout q of
       None \<Rightarrow> pq_mset q = {#} \<and> pqueue_peek q = None
     | Some (h, q') \<Rightarrow> pq_mset q = add_mset h (pq_mset q') \<and> heap compare_timeout (pq_data q') \<and> pqueue_peek q = Some h
         \<and> (\<forall>g \<in># pq_mset q'. (it_sec (q_tmo h), it_nsec (q_tmo h)) \<le> (it_sec (q_tmo g), it_nsec (q_tmo g))))
    \<and> (case pqueue_insert compare_timeout grown q d of
       None \<Rightarrow> \<not> grown \<and> pqueue_length q \<ge> pq_max q
     | Some q' \<Rightarrow> pq_mset q' = add_mset d (pq_mset q) \<and> heap compare_timeout (pq_data q'))"
proof (intro conjI)
  have order: "compare_timeout g h \<le> 0 \<Longrightarrow> (it_sec (q_tmo h), it_nsec (q_tmo h)) \<le> (it_sec (q_tmo g), it_nsec (q_tmo g))" for g h
    by (auto simp: compare_timeout_def timespec_compare_def split: if_splits)
  show "case pqueue_extract compare_timeout q of
       None \<Rightarrow> pq_mset q = {#} \<and> pqueue_peek q = None
     | Some (h, q') \<Rightarrow> pq_mset q = add_mset h (pq_mset q') \<and> heap compare_timeout (pq_data q') \<and> pqueue_peek q = Some h
         \<and> (\<forall>g \<in># pq_mset q'. (it_sec (q_tmo h), it_nsec (q_tmo h)) \<le> (it_sec (q_tmo g), it_nsec (q_tmo g)))"
  proof (cases "pqueue_extract compare_timeout q")
    case None
    then show ?thesis using pqueue_extract_None [of compare_timeout q] by (simp add: pqueue_peek_def pq_mset_def)
  next
    case (Some r)
    obtain h q' where r: "r = (h, q')" by fastforce
    note spec = pqueue_extract_spec [OF timeouts.comparator_axioms assms Some [unfolded r]]
    show ?thesis unfolding Some r using spec order by simp
  qed
  show "case pqueue_insert compare_timeout grown q d of
       None \<Rightarrow> \<not> grown \<and> pqueue_length q \<ge> pq_max q
     | Some q' \<Rightarrow> pq_mset q' = add_mset d (pq_mset q) \<and> heap compare_timeout (pq_data q')"
  proof (cases "pqueue_insert compare_timeout grown q d")
    case None
    then show ?thesis by (auto simp: pqueue_insert_def pqueue_length_def Let_def split: if_splits)
  next
    case (Some q')
    then show ?thesis using pqueue_insert_spec [OF timeouts.comparator_axioms assms Some] by simp
  qed
qed

definition two_due :: "queued_interval pqueue" where
  "two_due = \<lparr>pq_max = 2, pq_data = [\<lparr>q_iv = 1, q_tmo = \<lparr>it_sec = 1, it_nsec = 0\<rparr>\<rparr>, \<lparr>q_iv = 2, q_tmo = \<lparr>it_sec = 3, it_nsec = 5\<rparr>\<rparr>]\<rparr>"

lemma interval_queue_refines_witness:
  "(case pqueue_extract compare_timeout two_due of None \<Rightarrow> False
     | Some (h, q') \<Rightarrow> pqueue_peek two_due = Some h \<and> heap compare_timeout (pq_data q'))"
proof -
  have "heap compare_timeout (pq_data two_due)"
    by (auto simp: heap_def less_Suc_eq index_arith compare_timeout_def timespec_compare_def two_due_def)
  note refines = interval_queue_refines [OF this]
  have "pq_mset two_due \<noteq> {#}" by (simp add: two_due_def pq_mset_def)
  then show ?thesis using refines by (cases "pqueue_extract compare_timeout two_due") auto
qed

definition normal :: "itimer \<Rightarrow> bool" where
  "normal t \<longleftrightarrow> 0 \<le> it_nsec t \<and> it_nsec t < 1000000000"

lemma timespec_compare_ns:
  "normal a \<Longrightarrow> normal b \<Longrightarrow> timespec_compare a b = (if timer_ns a < timer_ns b then 1 else if timer_ns b < timer_ns a then -1 else 0)"
  by (auto simp: timespec_compare_def timer_ns_def normal_def)

lemma timespec_normalize_ns:
  "0 \<le> it_nsec t \<Longrightarrow> timer_ns (timespec_normalize t) = timer_ns t \<and> normal (timespec_normalize t)"
  by (simp add: timespec_normalize_def carry_seconds_eq timer_ns_def normal_def)

lemma halved_half_second: "uint (halve k 500000000) = 500000000 div 2 ^ k"
  by (simp add: halve_drop_bit uint_drop_bit_div)

lemma shifted_one: "n \<le> 30 \<Longrightarrow> sint (2 ^ n :: i32) = 2 ^ n"
proof -
  assume n: "n \<le> 30"
  have "\<forall>n \<in> set [0..<31]. sint (push_bit n 1 :: i32) = 2 ^ n" by code_simp
  with n show ?thesis by (simp add: push_bit_of_1)
qed

lemma log_to_timespec_positive:
  assumes "-29 \<le> l" "l \<le> 30"
  shows "0 < timer_ns (log_to_timespec l)" "0 \<le> it_nsec (log_to_timespec l)"
proof -
  have "0 < (500000000 :: int) div 2 ^ k" if "k \<le> 28" for k :: nat
  proof -
    have "(2 :: int) ^ k \<le> 2 ^ 28" using that by (rule power_increasing) simp
    then show ?thesis by (simp add: pos_imp_zdiv_pos_iff)
  qed
  from this [of "nat (- l) - 1"] show "0 < timer_ns (log_to_timespec l)"
    using assms by (auto simp: log_to_timespec_def timer_ns_def halved_half_second shifted_one)
  show "0 \<le> it_nsec (log_to_timespec l)"
    by (simp add: log_to_timespec_def)
qed

lemma log_to_timespec_zero:
  assumes "l \<le> -30"
  shows "log_to_timespec l = \<lparr>it_sec = 0, it_nsec = 0\<rparr>"
proof -
  have "(2 :: int) ^ 29 \<le> 2 ^ (nat (- l) - 1)" using assms by (intro power_increasing) simp_all
  then have "(500000000 :: int) div 2 ^ (nat (- l) - 1) = 0" by (intro div_pos_pos_trivial) simp_all
  then show ?thesis using assms by (simp add: log_to_timespec_def halved_half_second)
qed

subsection \<open>The loop ends\<close>

text \<open>How far an entry of the queue lies behind the clock.\<close>

definition behind :: "itimer \<Rightarrow> queued_interval \<Rightarrow> nat" where
  "behind now h = nat (timer_ns now - timer_ns (q_tmo h))"

definition backlog :: "itimer \<Rightarrow> unicast_service \<Rightarrow> nat" where
  "backlog now s = sum_mset (image_mset (behind now) (pq_mset (queue s)))"

text \<open>
  Each interval is queued once, in a heap, at a normalized time, and its increment is not
  negative.
\<close>

definition queue_ok :: "unicast_service \<Rightarrow> bool" where
  "queue_ok s \<longleftrightarrow> heap compare_timeout (pq_data (queue s))
     \<and> distinct (map fst (intervals s))
     \<and> image_mset q_iv (pq_mset (queue s)) = mset (map fst (intervals s))
     \<and> (\<forall>h \<in># pq_mset (queue s). normal (q_tmo h))
     \<and> pq_sized (queue s)
     \<and> (\<forall>(i, iv) \<in> set (intervals s). 0 \<le> it_nsec (incr iv))"

definition positive_periods :: "unicast_service \<Rightarrow> bool" where
  "positive_periods s \<longleftrightarrow> (\<forall>(i, iv) \<in> set (intervals s). 0 < timer_ns (incr iv))"

lemma change_interval_fst [simp]: "map fst (change_interval i f ivs) = map fst ivs"
  by (simp add: change_interval_def split_def)

lemma map_of_distinct_set: "distinct (map fst ivs) \<Longrightarrow> map_of ivs i = Some iv \<longleftrightarrow> (i, iv) \<in> set ivs"
  by (rule map_of_eq_Some_iff)

definition served :: "(nat \<Rightarrow> 'd env) \<Rightarrow> ClockData \<Rightarrow> bool \<Rightarrow> 'd PtpPort \<Rightarrow> nat \<Rightarrow> unicast_service_interval
    \<Rightarrow> unicast_client_address list" where
  "served es c master p n iv =
     (if master then fst (snd (snd (serve_clients es c (sint (tv_sec (mono_now (es n)))) p n (clients iv)))) else clients iv)"

lemma service_round_step:
  assumes ok: "queue_ok s" and now: "normal now"
    and r: "service_round es c now master (p, n, s) = Some ((p', n', s'), ms, err)"
  obtains h iv q cs where "pqueue_extract compare_timeout (queue s) = Some (h, q)" "the_interval s (q_iv h) = Some iv"
    "timer_ns (q_tmo h) < timer_ns now" "normal (q_tmo h)" "cs = served es c master p n iv"
    "if cs = [] then intervals s' = filter (\<lambda>x. fst x \<noteq> q_iv h) (change_interval (q_iv h) (\<lambda>iv. iv\<lparr>clients := cs\<rparr>) (intervals s)) \<and> queue s' = q
     else intervals s' = change_interval (q_iv h) (\<lambda>iv. iv\<lparr>clients := cs\<rparr>) (intervals s)
       \<and> pqueue_insert compare_timeout True q (h\<lparr>q_tmo := interval_increment iv (q_tmo h)\<rparr>) = Some (queue s')"
proof -
  obtain h where pk: "pqueue_peek (queue s) = Some h" "\<not> timespec_compare now (q_tmo h) \<ge> 0"
    using r by (auto simp: service_round_def split: option.splits if_splits)
  then obtain h' q where ex: "pqueue_extract compare_timeout (queue s) = Some (h', q)"
    using r by (auto simp: service_round_def split: option.splits)
  have heap: "heap compare_timeout (pq_data (queue s))" using ok by (simp add: queue_ok_def)
  note spec = pqueue_extract_spec [OF timeouts.comparator_axioms heap ex]
  have h': "h' = h" using spec(4) pk by simp
  obtain iv where iv: "the_interval s (q_iv h) = Some iv"
    using r pk ex h' by (auto simp: service_round_def split: option.splits)
  obtain p1 n1 cs ms1 err1 where sc: "(if master then serve_clients es c (sint (tv_sec (mono_now (es n)))) p n (clients iv)
               else (p, n, clients iv, [], False)) = (p1, n1, cs, ms1, err1)"
    using prod_cases5 by blast
  have cs: "cs = served es c master p n iv" using sc by (auto simp: served_def split: if_splits)
  have nh: "normal (q_tmo h)" using ok spec(2) h' by (auto simp: queue_ok_def)
  have lt: "timer_ns (q_tmo h) < timer_ns now"
    using pk(2) timespec_compare_ns [OF now nh] by (auto split: if_splits)
  define ivs where "ivs = change_interval (q_iv h) (\<lambda>iv. iv\<lparr>clients := cs\<rparr>) (intervals s)"
  obtain q' where q': "pqueue_insert compare_timeout True q (h\<lparr>q_tmo := interval_increment iv (q_tmo h)\<rparr>) = Some q'"
    by (auto simp: pqueue_insert_def Let_def)
  have "s' = (if cs = [] then \<lparr>intervals = filter (\<lambda>x. fst x \<noteq> q_iv h) ivs, queue = q\<rparr> else \<lparr>intervals = ivs, queue = q'\<rparr>)"
    using r pk ex h' iv sc q' unfolding service_round_def ivs_def
    by (auto simp: Let_def split: if_splits)
  then show thesis
    using that [of h q iv cs] ex h' iv lt nh q' cs by (cases "cs = []") (auto simp: ivs_def)
qed

lemma filter_change_fst: "map fst (filter (\<lambda>x. fst x \<noteq> i) (change_interval i f ivs)) = filter (\<lambda>x. x \<noteq> i) (map fst ivs)"
  by (induction ivs) (auto simp: change_interval_def)

lemma interval_increment_ns:
  assumes "normal t" "0 \<le> it_nsec (incr iv)"
  shows "timer_ns (interval_increment iv t) = timer_ns t + timer_ns (incr iv)" "normal (interval_increment iv t)"
  using timespec_normalize_ns [of "\<lparr>it_sec = it_sec t + it_sec (incr iv), it_nsec = it_nsec t + it_nsec (incr iv)\<rparr>"] assms
  by (auto simp: interval_increment_def normal_def timer_ns_def algebra_simps)

lemma mset_filter_neq: "distinct xs \<Longrightarrow> add_mset i m = mset xs \<Longrightarrow> mset (filter (\<lambda>x. x \<noteq> i) xs) = m"
proof (induction xs arbitrary: m)
  case (Cons x xs)
  show ?case
  proof (cases "x = i")
    case True
    then have "filter (\<lambda>x. x \<noteq> i) xs = xs" using Cons.prems(1) by (auto simp: filter_id_conv)
    with True Cons.prems(2) show ?thesis by simp
  next
    case False
    with Cons.prems(2) obtain k where "m = add_mset x k" "mset xs = add_mset i k"
      by (metis add_eq_conv_ex mset.simps(2))
    with False Cons show ?thesis by simp
  qed
qed simp

lemma incr_change:
  "(i', iv') \<in> set (change_interval i (\<lambda>iv. iv\<lparr>clients := cs\<rparr>) ivs) \<Longrightarrow> \<exists>iv. (i', iv) \<in> set ivs \<and> incr iv' = incr iv"
  by (auto simp: change_interval_def split: if_splits)

lemma service_round_ok:
  assumes ok: "queue_ok s" and now: "normal now"
    and r: "service_round es c now master (p, n, s) = Some ((p', n', s'), ms, err)"
  shows "queue_ok s' \<and> (positive_periods s \<longrightarrow> positive_periods s' \<and> backlog now s' < backlog now s)"
proof -
  obtain h iv q cs where ex: "pqueue_extract compare_timeout (queue s) = Some (h, q)"
    and iv: "the_interval s (q_iv h) = Some iv"
    and late: "timer_ns (q_tmo h) < timer_ns now" and nh: "normal (q_tmo h)"
    and res: "if cs = [] then intervals s' = filter (\<lambda>x. fst x \<noteq> q_iv h) (change_interval (q_iv h) (\<lambda>iv. iv\<lparr>clients := cs\<rparr>) (intervals s)) \<and> queue s' = q
     else intervals s' = change_interval (q_iv h) (\<lambda>iv. iv\<lparr>clients := cs\<rparr>) (intervals s)
       \<and> pqueue_insert compare_timeout True q (h\<lparr>q_tmo := interval_increment iv (q_tmo h)\<rparr>) = Some (queue s')"
    by (rule service_round_step [OF ok now r])
  have heap: "heap compare_timeout (pq_data (queue s))"
    and dist: "distinct (map fst (intervals s))"
    and ids: "image_mset q_iv (pq_mset (queue s)) = mset (map fst (intervals s))"
    and norm: "\<forall>h \<in># pq_mset (queue s). normal (q_tmo h)"
    and sized: "pq_sized (queue s)"
    and nonneg: "\<forall>(i, iv) \<in> set (intervals s). 0 \<le> it_nsec (incr iv)"
    using ok by (simp_all add: queue_ok_def)
  note q = pqueue_extract_spec [OF timeouts.comparator_axioms heap ex]
  have iv_in: "(q_iv h, iv) \<in> set (intervals s)" using iv by (simp add: the_interval_def map_of_SomeD)
  then have pin: "0 \<le> it_nsec (incr iv)" using nonneg by auto
  have subset: "set (intervals s') \<subseteq> set (change_interval (q_iv h) (\<lambda>iv. iv\<lparr>clients := cs\<rparr>) (intervals s))"
    using res by (auto split: if_splits)
  have nonneg': "\<forall>(i, iv) \<in> set (intervals s'). 0 \<le> it_nsec (incr iv)"
    using subset nonneg incr_change by fastforce
  have pos': "positive_periods s \<Longrightarrow> positive_periods s'"
    unfolding positive_periods_def using subset incr_change by fastforce
  have blog: "backlog now s = behind now h + sum_mset (image_mset (behind now) (pq_mset q))"
    by (simp add: backlog_def q(2))
  have bh: "0 < behind now h" using late by (simp add: behind_def)
  show ?thesis
  proof (cases "cs = []")
    case True
    then have s': "intervals s' = filter (\<lambda>x. fst x \<noteq> q_iv h) (change_interval (q_iv h) (\<lambda>iv. iv\<lparr>clients := cs\<rparr>) (intervals s))"
      "queue s' = q" using res by auto
    have "mset (map fst (intervals s')) = image_mset q_iv (pq_mset q)"
      unfolding s'(1) filter_change_fst by (rule mset_filter_neq [OF dist]) (simp only: flip: ids, simp add: q(2))
    moreover have "distinct (map fst (intervals s'))"
      unfolding s'(1) filter_change_fst using dist by (rule distinct_filter)
    ultimately have "queue_ok s'"
      using q(1,2) norm pqueue_extract_sized(1) [OF ex sized] nonneg' by (simp add: queue_ok_def s'(2))
    moreover have "backlog now s' < backlog now s" using bh blog by (simp add: backlog_def s')
    ultimately show ?thesis using pos' by blast
  next
    case False
    let ?h = "h\<lparr>q_tmo := interval_increment iv (q_tmo h)\<rparr>"
    have s': "intervals s' = change_interval (q_iv h) (\<lambda>iv. iv\<lparr>clients := cs\<rparr>) (intervals s)"
      and ins: "pqueue_insert compare_timeout True q ?h = Some (queue s')" using res False by auto
    note i = pqueue_insert_spec [OF timeouts.comparator_axioms q(1) ins]
    have "queue_ok s'"
      using i q(2) dist ids norm interval_increment_ns(2) [OF nh pin] nonneg'
        pqueue_insert_sized [OF ins pqueue_extract_sized(1) [OF ex sized]]
      by (auto simp: queue_ok_def s')
    moreover have "backlog now s' < backlog now s" if "positive_periods s"
    proof -
      have "0 < timer_ns (incr iv)" using that iv_in by (auto simp: positive_periods_def)
      then have "behind now ?h < behind now h"
        using interval_increment_ns(1) [OF nh pin] late by (simp add: behind_def)
      then show ?thesis using blog by (simp add: backlog_def i)
    qed
    ultimately show ?thesis using pos' by blast
  qed
qed

text \<open>Once the round says stop, nothing in the queue is due.\<close>

lemma service_round_None:
  assumes ok: "queue_ok s" and now: "normal now" and r: "service_round es c now master (p, n, s) = None"
    and h: "h \<in># pq_mset (queue s)"
  shows "timer_ns now \<le> timer_ns (q_tmo h)"
proof -
  have heap: "heap compare_timeout (pq_data (queue s))" using ok by (simp add: queue_ok_def)
  obtain t q where ex: "pqueue_extract compare_timeout (queue s) = Some (t, q)"
    using h pqueue_extract_None [of compare_timeout "queue s"] by (cases "pqueue_extract compare_timeout (queue s)") auto
  note q = pqueue_extract_spec [OF timeouts.comparator_axioms heap ex]
  have "q_iv t \<in># image_mset q_iv (pq_mset (queue s))" by (simp add: q(2))
  also have "image_mset q_iv (pq_mset (queue s)) = mset (map fst (intervals s))" using ok by (simp only: queue_ok_def)
  finally have "q_iv t \<in> fst ` set (intervals s)" by simp
  then obtain iv where iv: "the_interval s (q_iv t) = Some iv"
    unfolding the_interval_def by (metis map_of_eq_None_iff not_None_eq)
  obtain p1 n1 cs ms1 err1 where sc: "(if master then serve_clients es c (sint (tv_sec (mono_now (es n)))) p n (clients iv)
               else (p, n, clients iv, [], False)) = (p1, n1, cs, ms1, err1)"
    using prod_cases5 by blast
  have "timespec_compare now (q_tmo t) \<ge> 0"
    using r q(4) ex iv sc by (auto simp: service_round_def Let_def split: if_splits)
  moreover have nt: "normal (q_tmo t)" using ok q(2) by (auto simp: queue_ok_def)
  ultimately have "timer_ns now \<le> timer_ns (q_tmo t)"
    using timespec_compare_ns [OF now nt] by (auto split: if_splits)
  moreover have "timer_ns (q_tmo t) \<le> timer_ns (q_tmo h)"
  proof (cases "h = t")
    case False
    then have "compare_timeout h t \<le> 0" using q(2,3) h by auto
    moreover have "normal (q_tmo h)" using ok h by (auto simp: queue_ok_def)
    ultimately show ?thesis using timespec_compare_ns [OF _ nt] by (auto simp: compare_timeout_def split: if_splits)
  qed simp
  ultimately show ?thesis by simp
qed

lemma service_loop_ends:
  assumes "queue_ok s" "positive_periods s" "normal now" "backlog now s < fuel"
  shows "\<exists>p' n' s' ms err. service_loop fuel es c now master (p, n, s) = Some ((p', n', s'), ms, err)
    \<and> queue_ok s' \<and> positive_periods s' \<and> (\<forall>h \<in># pq_mset (queue s'). timer_ns now \<le> timer_ns (q_tmo h))"
  using assms
proof (induction fuel arbitrary: p n s)
  case (Suc k)
  show ?case
  proof (cases "service_round es c now master (p, n, s)")
    case None
    then show ?thesis using Suc.prems service_round_None [OF Suc.prems(1,3) None] by auto
  next
    case (Some r)
    obtain p1 n1 s1 ms1 err1 where r: "r = ((p1, n1, s1), ms1, err1)" by (metis surj_pair)
    have "queue_ok s1 \<and> positive_periods s1 \<and> backlog now s1 < backlog now s"
      using service_round_ok [OF Suc.prems(1,3)] Suc.prems(2) Some r by blast
    then show ?thesis
      using Suc.IH [of s1 p1 n1] Suc.prems(3,4) Some r by auto
  qed
qed simp

text \<open>
  C32: the timer handler of the unicast service comes to an end. As long as every queued period
  has a positive increment, fuel beyond the time the queue lies behind the clock is enough,
  and afterwards nothing in the queue is due, so the timer that is armed lies ahead.
\<close>

theorem service_timer_ends:
  assumes "queue_ok s" "positive_periods s" "normal now" "backlog now s < fuel"
  shows "\<exists>p' s' ms err. unicast_service_timer fuel es c now p (Some s) = Some (p', Some s', ms, err)
    \<and> queue_ok s' \<and> positive_periods s' \<and> (\<forall>h \<in># pq_mset (queue s'). timer_ns now \<le> timer_ns (q_tmo h))"
proof -
  obtain p' n' s' ms err where
    "service_loop fuel es c now (state p = PS_MASTER \<or> state p = PS_GRAND_MASTER) (p, 0, s) = Some ((p', n', s'), ms, err)"
    "queue_ok s'" "positive_periods s'" "\<forall>h \<in># pq_mset (queue s'). timer_ns now \<le> timer_ns (q_tmo h)"
    using service_loop_ends [OF assms] by blast
  then show ?thesis by (auto simp: unicast_service_timer_def)
qed

definition due_service :: unicast_service where
  "due_service = \<lparr>intervals = [(7, \<lparr>clients = [\<lparr>ca_portIdentity = zero_pid, message_types = 1, ca_addr = replicate 20 0, grant_tmo = 60\<rparr>],
      incr = log_to_timespec 0, log_period = 0\<rparr>)],
    queue = \<lparr>pq_max = QUEUE_LEN, pq_data = [\<lparr>q_iv = 7, q_tmo = \<lparr>it_sec = 1, it_nsec = 0\<rparr>\<rparr>]\<rparr>\<rparr>"

lemma due_service_ok: "queue_ok due_service" "positive_periods due_service"
  by (simp_all add: due_service_def queue_ok_def positive_periods_def heap_def pq_mset_def pq_sized_def normal_def
      log_to_timespec_def timer_ns_def)

theorem service_timer_ends_witness:
  "\<exists>p' s' ms err. unicast_service_timer 2000000001 (\<lambda>_. sample_env) sample_data \<lparr>it_sec = 3, it_nsec = 0\<rparr> (sample_port 1)
      (Some due_service) = Some (p', Some s', ms, err)
    \<and> queue_ok s' \<and> positive_periods s' \<and> (\<forall>h \<in># pq_mset (queue s'). timer_ns \<lparr>it_sec = 3, it_nsec = 0\<rparr> \<le> timer_ns (q_tmo h))"
  by (rule service_timer_ends [OF due_service_ok])
    (simp_all add: normal_def backlog_def behind_def due_service_def pq_mset_def timer_ns_def)


subsection \<open>A period without an increment\<close>

lemma map_of_change [simp]:
  "map_of (change_interval i f ivs) j = map_option (\<lambda>iv. if j = i then f iv else iv) (map_of ivs j)"
  by (induction ivs) (auto simp: change_interval_def)

lemma map_of_retired: "j \<noteq> i \<Longrightarrow> map_of (filter (\<lambda>x. fst x \<noteq> i) ivs) j = map_of ivs j"
  by (induction ivs) auto

lemma served_keeps:
  assumes "cl \<in> set (clients iv)" "master \<Longrightarrow> sint (tv_sec (mono_now (es n))) \<le> grant_tmo cl"
  shows "cl \<in> set (served es c master p n iv)"
proof -
  have "cl \<in> set cs \<Longrightarrow> t \<le> grant_tmo cl \<Longrightarrow> cl \<in> set (fst (snd (snd (serve_clients es c t p n cs))))" for t cs
    by (induction cs arbitrary: p n) (auto simp: Let_def split_def)
  with assms show ?thesis by (simp add: served_def)
qed

text \<open>An entry that is due, whose period adds nothing and that has a client with a lasting grant.\<close>

definition stuck :: "(nat \<Rightarrow> 'd env) \<Rightarrow> itimer \<Rightarrow> bool \<Rightarrow> unicast_service \<Rightarrow> bool" where
  "stuck es now master s \<longleftrightarrow> (\<exists>g \<in># pq_mset (queue s). timer_ns (q_tmo g) < timer_ns now
     \<and> (\<exists>iv cl. the_interval s (q_iv g) = Some iv \<and> timer_ns (incr iv) = 0 \<and> cl \<in> set (clients iv)
          \<and> (master \<longrightarrow> (\<forall>n. sint (tv_sec (mono_now (es n))) \<le> grant_tmo cl))))"

lemma taken_out:
  assumes "add_mset x m = mset xs" "distinct xs"
  shows "x \<notin># m"
proof -
  have "count (mset xs) x \<le> 1" using assms(2) by (simp add: distinct_count_atmost_1)
  moreover have "count (mset xs) x = Suc (count m x)" by (simp flip: assms(1))
  ultimately show ?thesis by (simp add: not_in_iff)
qed

lemma stuck_round:
  assumes ok: "queue_ok s" and now: "normal now" and stuck: "stuck es now master s"
  obtains p' n' s' ms err where "service_round es c now master (p, n, s) = Some ((p', n', s'), ms, err)"
    "queue_ok s'" "stuck es now master s'"
proof -
  obtain g iv cl where g: "g \<in># pq_mset (queue s)" "timer_ns (q_tmo g) < timer_ns now"
    and iv: "the_interval s (q_iv g) = Some iv" "timer_ns (incr iv) = 0"
    and cl: "cl \<in> set (clients iv)" "master \<longrightarrow> (\<forall>n. sint (tv_sec (mono_now (es n))) \<le> grant_tmo cl)"
    using stuck by (auto simp: stuck_def)
  obtain r where "service_round es c now master (p, n, s) = Some r"
    using service_round_None [OF ok now _ g(1)] g(2) by (metis not_None_eq not_le)
  moreover obtain p' n' s' ms err where "r = ((p', n', s'), ms, err)" by (metis surj_pair)
  ultimately have r: "service_round es c now master (p, n, s) = Some ((p', n', s'), ms, err)" by simp
  obtain h iv' q cs where ex: "pqueue_extract compare_timeout (queue s) = Some (h, q)"
    and iv': "the_interval s (q_iv h) = Some iv'" and nh: "normal (q_tmo h)"
    and cs: "cs = served es c master p n iv'"
    and res: "if cs = [] then intervals s' = filter (\<lambda>x. fst x \<noteq> q_iv h) (change_interval (q_iv h) (\<lambda>iv. iv\<lparr>clients := cs\<rparr>) (intervals s)) \<and> queue s' = q
     else intervals s' = change_interval (q_iv h) (\<lambda>iv. iv\<lparr>clients := cs\<rparr>) (intervals s)
       \<and> pqueue_insert compare_timeout True q (h\<lparr>q_tmo := interval_increment iv' (q_tmo h)\<rparr>) = Some (queue s')"
    by (rule service_round_step [OF ok now r])
  have heap: "heap compare_timeout (pq_data (queue s))" using ok by (simp add: queue_ok_def)
  note q = pqueue_extract_spec [OF timeouts.comparator_axioms heap ex]
  note ins = pqueue_insert_spec [OF timeouts.comparator_axioms q(1)]
  have "stuck es now master s'"
  proof (cases "q_iv g = q_iv h")
    case True
    have "q_iv h \<notin># image_mset q_iv (pq_mset q)"
    proof -
      have "add_mset (q_iv h) (image_mset q_iv (pq_mset q)) = mset (map fst (intervals s))"
        using ok q(2) by (simp only: queue_ok_def, simp)
      moreover have "distinct (map fst (intervals s))" using ok by (simp add: queue_ok_def)
      ultimately show ?thesis by (rule taken_out)
    qed
    then have "g \<notin># pq_mset q" using True by (metis imageI set_image_mset)
    then have gh: "g = h" using g(1) q(2) by simp
    have same: "iv' = iv" using iv(1) iv' gh by simp
    have "cl \<in> set cs" unfolding cs same by (rule served_keeps) (use cl in auto)
    then have "cs \<noteq> []" by auto
    then have s': "intervals s' = change_interval (q_iv h) (\<lambda>iv. iv\<lparr>clients := cs\<rparr>) (intervals s)"
      "pqueue_insert compare_timeout True q (h\<lparr>q_tmo := interval_increment iv' (q_tmo h)\<rparr>) = Some (queue s')"
      using res by auto
    have "0 \<le> it_nsec (incr iv)"
      using ok iv(1) by (auto simp: queue_ok_def the_interval_def dest!: map_of_SomeD)
    then have "timer_ns (interval_increment iv' (q_tmo h)) = timer_ns (q_tmo h)"
      using interval_increment_ns(1) [OF nh] iv(2) by (simp add: same)
    then show ?thesis
      using ins [OF s'(2)] s'(1) g(2) gh iv cl \<open>cl \<in> set cs\<close>
      by (auto simp: stuck_def the_interval_def)
  next
    case False
    then have "g \<in># pq_mset q" using g(1) q(2) by auto
    moreover have "the_interval s' (q_iv g) = Some iv"
      using res iv(1) False by (auto simp: the_interval_def map_of_retired split: if_splits)
    moreover have "pq_mset q \<subseteq># pq_mset (queue s')"
      using res ins(2) by (auto split: if_splits)
    ultimately show ?thesis using g(2) iv(2) cl unfolding stuck_def by (meson mset_subset_eqD)
  qed
  with r service_round_ok [OF ok now r] show thesis by (intro that) auto
qed

lemma stuck_loop:
  "queue_ok s \<Longrightarrow> normal now \<Longrightarrow> stuck es now master s \<Longrightarrow> service_loop fuel es c now master (p, n, s) = None"
proof (induction fuel arbitrary: p n s)
  case (Suc k)
  obtain p' n' s' ms err where "service_round es c now master (p, n, s) = Some ((p', n', s'), ms, err)"
    "queue_ok s'" "stuck es now master s'"
    by (rule stuck_round [OF Suc.prems])
  then show ?case using Suc.IH [of s' p' n'] Suc.prems(2) by simp
qed simp

subsection \<open>Adding clients\<close>

text \<open>The contracts of the clients that match, for the message types of a mask.\<close>

definition contract :: "(unicast_client_address \<Rightarrow> bool) \<Rightarrow> u32 \<Rightarrow> unicast_client_address \<Rightarrow> bool" where
  "contract matches msk c \<longleftrightarrow> matches c \<and> message_types c AND msk \<noteq> 0"

definition contract_count :: "(unicast_client_address \<Rightarrow> bool) \<Rightarrow> u32 \<Rightarrow> (nat \<times> unicast_service_interval) list \<Rightarrow> nat" where
  "contract_count matches msk ivs = (\<Sum>(i, iv) \<leftarrow> ivs. length (filter (contract matches msk) (clients iv)))"

lemma contract_count_simps [simp]:
  "contract_count matches msk [] = 0"
  "contract_count matches msk ((i, iv) # ivs) =
     length (filter (contract matches msk) (clients iv)) + contract_count matches msk ivs"
  by (simp_all add: contract_count_def)

lemma and_not_and [simp]: "(x AND NOT m) AND m = (0 :: 'a :: len word)"
  by (rule bit_word_eqI) (simp add: bit_and_iff bit_not_iff)

lemma scan_other_clears [simp]: "filter (contract matches msk) (scan_other matches msk cs) = []"
proof (induction cs)
  case (Cons c cs)
  have "\<not> contract matches msk (c\<lparr>message_types := message_types c AND NOT msk\<rparr>)"
    by (simp add: contract_def)
  with Cons show ?case by (auto simp: Let_def contract_def)
qed simp

lemma scan_own_extends:
  assumes "\<And>c. message_types (ext c) = message_types c" "\<And>c. matches (ext c) = matches c"
  shows "scan_own matches msk ext cs k client = Inl cs' \<Longrightarrow>
    length (filter (contract matches msk) cs') = length (filter (contract matches msk) cs) \<and>
    (\<exists>c \<in> set cs. contract matches msk c \<and> ext c \<in> set cs' \<and> contract matches msk (ext c))"
proof (induction cs arbitrary: k client cs')
  case (Cons c cs)
  show ?case
  proof (cases "contract matches msk c")
    case True
    then show ?thesis using Cons.prems assms by (auto simp: contract_def)
  next
    case False
    then obtain cs1 where r: "scan_own matches msk ext cs (k + 1) (if matches c then Some k else client) = Inl cs1" "cs' = c # cs1"
      using Cons.prems by (auto simp: contract_def split: sum.splits)
    show ?thesis using Cons.IH [OF r(1)] r(2) False by auto
  qed
qed simp

lemma scan_own_none:
  "scan_own matches msk ext cs k client = Inr r \<Longrightarrow> filter (contract matches msk) cs = [] \<and>
     (\<forall>j. r = Some j \<longrightarrow> client = Some j \<or> k \<le> j \<and> j < k + length cs \<and> matches (cs ! (j - k)))"
proof (induction cs arbitrary: k client)
  case (Cons c cs)
  then have c: "\<not> contract matches msk c"
    and r: "scan_own matches msk ext cs (k + 1) (if matches c then Some k else client) = Inr r"
    by (auto simp: contract_def split: if_splits sum.splits)
  have "client = Some j \<or> k \<le> j \<and> j < k + length (c # cs) \<and> matches ((c # cs) ! (j - k))" if "r = Some j" for j
    using Cons.IH [OF r] that by (auto simp: nth_Cons' split: if_splits)
  with c Cons.IH [OF r] show ?case by auto
qed simp

lemma add_loop_fst [simp]: "map fst (fst (snd (add_loop matches msk ext period ivs interval client))) = map fst ivs"
  by (induction matches msk ext period ivs interval client rule: add_loop.induct)
    (auto simp: Let_def split_def split: sum.splits)

lemma add_loop_incr:
  "(i, iv') \<in> set (fst (snd (add_loop matches msk ext period ivs interval client))) \<Longrightarrow>
    \<exists>iv. (i, iv) \<in> set ivs \<and> incr iv' = incr iv \<and> log_period iv' = log_period iv"
proof (induction ivs arbitrary: interval client)
  case (Cons x ivs)
  obtain j jv where x: "x = (j, jv)" by fastforce
  from Cons show ?case unfolding x
    by (fastforce simp: Let_def split_def split: sum.splits if_splits)
qed simp

text \<open>The loop either extends a contract of the interval of interest or leaves none anywhere.\<close>

lemma add_loop_spec:
  assumes "\<And>c. message_types (ext c) = message_types c" "\<And>c. matches (ext c) = matches c"
    and loop: "add_loop matches msk ext period ivs interval client = (d, ivs', interval', client')"
  shows "d \<Longrightarrow> contract_count matches msk ivs' \<le> contract_count matches msk ivs
      \<and> (\<exists>(i, iv) \<in> set ivs'. log_period iv = period \<and> (\<exists>c. ext c \<in> set (clients iv) \<and> contract matches msk (ext c)))"
    and "\<not> d \<Longrightarrow> contract_count matches msk ivs' = 0
      \<and> (interval' = interval \<or> (\<exists>i iv. interval' = Some i \<and> (i, iv) \<in> set ivs' \<and> log_period iv = period))
      \<and> (client' = client \<or> (\<exists>i iv k. client' = Some (i, k) \<and> (i, iv) \<in> set ivs' \<and> log_period iv = period
            \<and> k < length (clients iv) \<and> matches (clients iv ! k)))"
  using loop
proof (induction ivs arbitrary: d interval client ivs' interval' client')
  case (Cons x ivs)
  obtain j jv where x: "x = (j, jv)" by fastforce
  {
    case 1
    show ?case
    proof (cases "log_period jv = period")
      case True
      show ?thesis
      proof (cases "scan_own matches msk ext (clients jv) 0 None")
        case (Inl cs)
        then show ?thesis using 1 True scan_own_extends [OF assms(1,2) Inl] by (auto simp: x)
      next
        case (Inr k)
        let ?c = "case k of None \<Rightarrow> client | Some k \<Rightarrow> Some (j, k)"
        obtain e ivs1 i1 c1 where l: "add_loop matches msk ext period ivs (Some j) ?c = (e, ivs1, i1, c1)"
          using prod_cases4 by blast
        then have "e" "ivs' = (j, jv) # ivs1" using 1 True Inr by (auto simp: x)
        then show ?thesis using Cons.IH(1) [OF _ l] by (auto simp: x)
      qed
    next
      case False
      obtain e ivs1 i1 c1 where l: "add_loop matches msk ext period ivs interval client = (e, ivs1, i1, c1)"
        using prod_cases4 by blast
      then have "e" "ivs' = (j, jv\<lparr>clients := scan_other matches msk (clients jv)\<rparr>) # ivs1"
        using 1 False by (auto simp: x)
      then show ?thesis using Cons.IH(1) [OF _ l] by (auto simp: x)
    qed
  next
    case 2
    show ?case
    proof (cases "log_period jv = period")
      case True
      then obtain k where Inr: "scan_own matches msk ext (clients jv) 0 None = Inr k"
        using 2 by (auto simp: x split: sum.splits)
      let ?c = "case k of None \<Rightarrow> client | Some k \<Rightarrow> Some (j, k)"
      obtain e ivs1 i1 c1 where l: "add_loop matches msk ext period ivs (Some j) ?c = (e, ivs1, i1, c1)"
        using prod_cases4 by blast
      then have r: "\<not> e" "ivs' = (j, jv) # ivs1" "i1 = interval'" "c1 = client'" using 2 True Inr by (auto simp: x)
      show ?thesis
        using Cons.IH(2) [OF r(1) l] scan_own_none [OF Inr] True unfolding r(2-4)
        by (cases k) fastforce+
    next
      case False
      obtain e ivs1 i1 c1 where l: "add_loop matches msk ext period ivs interval client = (e, ivs1, i1, c1)"
        using prod_cases4 by blast
      then have r: "\<not> e" "ivs' = (j, jv\<lparr>clients := scan_other matches msk (clients jv)\<rparr>) # ivs1" "i1 = interval'" "c1 = client'"
        using 2 False by (auto simp: x)
      then show ?thesis using Cons.IH(2) [OF r(1) l] by fastforce
    qed
  }
qed simp_all

text \<open>Changes to the clients alone do not concern the queue.\<close>

lemma queue_ok_clients:
  assumes "queue_ok s" "map fst ivs = map fst (intervals s)"
    "\<And>i iv'. (i, iv') \<in> set ivs \<Longrightarrow> \<exists>iv. (i, iv) \<in> set (intervals s) \<and> incr iv' = incr iv"
  shows "queue_ok (s\<lparr>intervals := ivs\<rparr>) \<and> (positive_periods s \<longrightarrow> positive_periods (s\<lparr>intervals := ivs\<rparr>))"
proof -
  have "0 \<le> it_nsec (incr iv')" if "(i, iv') \<in> set ivs" for i iv'
    using assms(3) [OF that] assms(1) by (auto simp: queue_ok_def)
  moreover have "0 < timer_ns (incr iv')" if "(i, iv') \<in> set ivs" "positive_periods s" for i iv'
    using assms(3) [OF that(1)] that(2) by (auto simp: positive_periods_def)
  ultimately show ?thesis
    using assms(1,2) unfolding queue_ok_def positive_periods_def by auto
qed

lemma incr_change_clients:
  "(\<And>iv. incr (f iv) = incr iv) \<Longrightarrow> (i', iv') \<in> set (change_interval i f ivs) \<Longrightarrow> \<exists>iv. (i', iv) \<in> set ivs \<and> incr iv' = incr iv"
  by (auto simp: change_interval_def split: if_splits)

lemma initialize_interval_ok:
  assumes "normal now"
  shows "normal (snd (initialize_interval now period))"
    "timer_ns (snd (initialize_interval now period)) = timer_ns now + 10000000"
    "0 \<le> it_nsec (incr (fst (initialize_interval now period)))"
  using timespec_normalize_ns [of "now\<lparr>it_nsec := it_nsec now + 10000000\<rparr>"] assms
  by (auto simp: initialize_interval_def normal_def timer_ns_def log_to_timespec_def)

text \<open>The outcomes of an accepted request for Announce or Sync messages.\<close>

lemma service_add_cases [consumes 2]:
  assumes add: "unicast_service_add tt now al (Some s) src a req = (r, Some s', rearm)"
    and loop: "add_loop (\<lambda>c. addreq tt (ca_addr c) a) (mtype_mask (drop_bit 4 (r_message_type req)))
        (unicast_service_extend (it_sec now) (r_durationField req)) (r_logInterMessagePeriod req) (intervals s) None None
        = (d, ivs, interval, client)"
  obtains (other) "s' = s" "\<not> rearm" "drop_bit 4 (r_message_type req) \<noteq> ANNOUNCE" "drop_bit 4 (r_message_type req) \<noteq> SYNC"
  | (extended) "d" "s' = s\<lparr>intervals := ivs\<rparr>" "\<not> rearm" "r = SERVICE_GRANTED"
  | (added) i k where "\<not> d" "client = Some (i, k)" "\<not> rearm" "r = SERVICE_GRANTED"
      "s' = s\<lparr>intervals := change_interval i (\<lambda>iv. iv\<lparr>clients :=
          (clients iv)[k := unicast_service_extend (it_sec now) (r_durationField req)
             ((clients iv ! k)\<lparr>message_types := message_types (clients iv ! k) OR mtype_mask (drop_bit 4 (r_message_type req))\<rparr>)]\<rparr>) ivs\<rparr>"
  | (joined) i where "\<not> d" "client = None" "interval = Some i" "\<not> rearm" "r = SERVICE_GRANTED"
      "s' = s\<lparr>intervals := change_interval i (\<lambda>iv. iv\<lparr>clients := unicast_service_extend (it_sec now) (r_durationField req)
          \<lparr>ca_portIdentity = src, message_types = mtype_mask (drop_bit 4 (r_message_type req)), ca_addr = a, grant_tmo = 0\<rparr> # clients iv\<rparr>) ivs\<rparr>"
  | (opened) i q where "\<not> d" "client = None" "interval = None" "rearm" "r = SERVICE_GRANTED" "al_interval al = Some i"
      "pqueue_insert compare_timeout (al_queue al) (queue s)
         \<lparr>q_iv = i, q_tmo = snd (initialize_interval now (r_logInterMessagePeriod req))\<rparr> = Some q"
      "s' = \<lparr>intervals = (i, (fst (initialize_interval now (r_logInterMessagePeriod req)))\<lparr>clients := [unicast_service_extend (it_sec now) (r_durationField req)
          \<lparr>ca_portIdentity = src, message_types = mtype_mask (drop_bit 4 (r_message_type req)), ca_addr = a, grant_tmo = 0\<rparr>]\<rparr>) # ivs, queue = q\<rparr>"
  | (denied) "\<not> d" "client = None" "s' = s\<lparr>intervals := ivs\<rparr>" "\<not> rearm" "r = SERVICE_DENIED"
proof -
  let ?t = "drop_bit 4 (r_message_type req)"
  show thesis
  proof (cases "?t = ANNOUNCE \<or> ?t = SYNC")
    case False
    then show thesis using add by (intro other) (auto simp: unicast_service_add_def Let_def split: if_splits)
  next
    case True
    then have t: "?t \<noteq> DELAY_RESP" "?t \<noteq> PDELAY_RESP" "\<not> (?t \<noteq> ANNOUNCE \<and> ?t \<noteq> SYNC)" by auto
    note u = add [unfolded unicast_service_add_def option.case Let_def loop [unfolded Let_def], simplified t loop prod.case if_False simp_thms]
    show thesis
    proof (cases "d")
      case True
      with u show thesis by (intro extended) auto
    next
      case nd: False
      show thesis
      proof (cases client)
        case (Some ik)
        obtain i k where "ik = (i, k)" by fastforce
        with u nd Some show thesis by (intro added) auto
      next
        case None
        show thesis
        proof (cases "al_client al")
          case False
          with u nd None show thesis by (intro denied) auto
        next
          case al: True
          show thesis
          proof (cases interval)
            case (Some i)
            with u nd None al show thesis by (intro joined) auto
          next
            case ni: None
            then show thesis
              using u nd None al
              by (auto split: option.splits prod.splits intro: denied opened)
          qed
        qed
      qed
    qed
  qed
qed

lemma contract_count_pos:
  "(i, iv) \<in> set ivs \<Longrightarrow> c \<in> set (clients iv) \<Longrightarrow> contract matches msk c \<Longrightarrow> 0 < contract_count matches msk ivs"
  by (induction ivs) (auto simp: filter_empty_conv)

lemma contract_count_zero:
  "(i, iv) \<in> set ivs \<Longrightarrow> contract_count matches msk ivs = 0 \<Longrightarrow> filter (contract matches msk) (clients iv) = []"
  by (induction ivs) auto

text \<open>A client that is put in the only place for a contract.\<close>

lemma count_after_change:
  assumes "distinct (map fst ivs)" "(i, iv) \<in> set ivs" "contract_count matches msk ivs = 0"
  shows "contract_count matches msk (change_interval i f ivs) = length (filter (contract matches msk) (clients (f iv)))"
    "(i, f iv) \<in> set (change_interval i f ivs)"
proof -
  have none: "contract_count matches msk (change_interval i f xs) = 0"
    if "i \<notin> fst ` set xs" "contract_count matches msk xs = 0" for xs
    using that by (induction xs) (auto simp: change_interval_def)
  show "contract_count matches msk (change_interval i f ivs) = length (filter (contract matches msk) (clients (f iv)))"
    using assms
  proof (induction ivs)
    case (Cons x ivs)
    obtain j jv where x: "x = (j, jv)" by fastforce
    have "change_interval i f (x # ivs) = (j, if j = i then f jv else jv) # change_interval i f ivs"
      by (simp add: change_interval_def x)
    then show ?case
      using Cons none [of ivs] by (cases "j = i") (force simp: x)+
  qed simp
  show "(i, f iv) \<in> set (change_interval i f ivs)"
    using assms(2) by (force simp: change_interval_def)
qed

lemma one_contract_left:
  "filter P xs = [] \<Longrightarrow> k < length xs \<Longrightarrow> P y \<Longrightarrow> filter P (xs[k := y]) = [y]"
  by (induction xs arbitrary: k) (auto simp: nth_Cons' split: nat.splits if_splits)

lemma one_contractI:
  assumes "contract_count m msk ivs = 1" "(i, iv) \<in> set ivs" "log_period iv = period" "c \<in> set (clients iv)"
    "contract m msk c" "t \<le> grant_tmo c"
  shows "contract_count m msk ivs = 1 \<and> (\<exists>(i, iv) \<in> set ivs. log_period iv = period \<and>
     (\<exists>c \<in> set (clients iv). contract m msk c \<and> t \<le> grant_tmo c))"
  using assms by blast

lemma or_and_absorb: "(x OR m) AND m = (m :: 'a :: len word)"
  by (rule bit_word_eqI) (auto simp: bit_and_iff bit_or_iff)

lemma extend_keeps [simp]:
  "message_types (unicast_service_extend t d c) = message_types c"
  "ca_addr (unicast_service_extend t d c) = ca_addr c"
  "t + uint d \<le> grant_tmo (unicast_service_extend t d c)"
  by (simp_all add: unicast_service_extend_def Let_def)

lemma service_add_queue_ok:
  assumes ok: "queue_ok s" and now: "normal now"
    and fresh: "\<And>i. al_interval al = Some i \<Longrightarrow> i \<notin> fst ` set (intervals s)"
    and add: "unicast_service_add tt now al (Some s) src a req = (r, Some s', rearm)"
  shows "queue_ok s' \<and> (positive_periods s \<and> -29 \<le> sint (r_logInterMessagePeriod req) \<and> sint (r_logInterMessagePeriod req) \<le> 30
    \<longrightarrow> positive_periods s')"
proof -
  obtain d ivs interval client where loop: "add_loop (\<lambda>c. addreq tt (ca_addr c) a) (mtype_mask (drop_bit 4 (r_message_type req)))
        (unicast_service_extend (it_sec now) (r_durationField req)) (r_logInterMessagePeriod req) (intervals s) None None
        = (d, ivs, interval, client)"
    using prod_cases4 by blast
  have fst_ivs: "map fst ivs = map fst (intervals s)" using loop add_loop_fst by (metis fst_conv snd_conv)
  have incr: "\<exists>iv. (i, iv) \<in> set (intervals s) \<and> incr iv' = incr iv" if "(i, iv') \<in> set ivs" for i iv'
    using add_loop_incr [of i iv'] loop that by (metis fst_conv snd_conv)
  have change: "queue_ok (s\<lparr>intervals := change_interval i f ivs\<rparr>)
      \<and> (positive_periods s \<longrightarrow> positive_periods (s\<lparr>intervals := change_interval i f ivs\<rparr>))"
    if "\<And>iv. incr (f iv) = incr iv" for i f
    by (rule queue_ok_clients [OF ok]) (use fst_ivs incr incr_change_clients [OF that] in \<open>simp_all, metis\<close>)
  from add loop show ?thesis
  proof (cases rule: service_add_cases)
    case (opened i q)
    let ?h = "\<lparr>q_iv = i, q_tmo = snd (initialize_interval now (r_logInterMessagePeriod req))\<rparr>"
    let ?c = "unicast_service_extend (it_sec now) (r_durationField req)
          \<lparr>ca_portIdentity = src, message_types = mtype_mask (drop_bit 4 (r_message_type req)), ca_addr = a, grant_tmo = 0\<rparr>"
    have heap: "heap compare_timeout (pq_data (queue s))" using ok by (simp add: queue_ok_def)
    note q = pqueue_insert_spec [OF timeouts.comparator_axioms heap opened(7)]
    have i: "i \<notin> fst ` set ivs" using fresh [OF opened(6)] fst_ivs by (metis list.set_map)
    have "queue_ok (s\<lparr>intervals := ivs\<rparr>)" using queue_ok_clients [OF ok fst_ivs incr] by blast
    then have old: "distinct (map fst ivs)" "image_mset q_iv (pq_mset (queue s)) = mset (map fst ivs)"
      "\<forall>h \<in># pq_mset (queue s). normal (q_tmo h)" "pq_sized (queue s)" "\<forall>(i, iv) \<in> set ivs. 0 \<le> it_nsec (incr iv)"
      by (simp_all add: queue_ok_def)
    have "queue_ok s'"
      using q i old initialize_interval_ok [OF now] pqueue_insert_sized [OF opened(7) old(4)]
      by (auto simp: queue_ok_def opened(8))
    moreover have "positive_periods s'" if "positive_periods s" "-29 \<le> sint (r_logInterMessagePeriod req)"
      "sint (r_logInterMessagePeriod req) \<le> 30"
    proof -
      have "0 < timer_ns (incr (fst (initialize_interval now (r_logInterMessagePeriod req))))"
        using log_to_timespec_positive(1) [OF that(2,3)] by (simp add: initialize_interval_def)
      then show ?thesis using that(1) incr by (auto simp: positive_periods_def opened(8) dest!: incr)
    qed
    ultimately show ?thesis by blast
  next
    case (added i k)
    then show ?thesis using change by simp
  next
    case (joined i)
    then show ?thesis using change by simp
  qed (use ok queue_ok_clients [OF ok fst_ivs incr] in auto)
qed

text \<open>
  A request keeps the queue of the service consistent, whatever its outcome and whichever
  allocations fail: every interval stays queued exactly once, the heap property and the array
  bound hold. All periods stay positive when the requested one is in -29 .. 30.
\<close>

lemma service_add_keeps_queue:
  assumes "queue_ok s" "normal now" "\<And>i. al_interval al = Some i \<Longrightarrow> i \<notin> fst ` set (intervals s)"
    and "unicast_service_add tt now al (Some s) src a req = (r, Some s', rearm)"
  shows "queue_ok s' \<and> (positive_periods s \<and> -29 \<le> sint (r_logInterMessagePeriod req) \<and> sint (r_logInterMessagePeriod req) \<le> 30
    \<longrightarrow> positive_periods s')"
  using assms by (rule service_add_queue_ok)

definition good_alloc :: "nat \<Rightarrow> service_alloc" where
  "good_alloc i = \<lparr>al_client = True, al_interval = Some i, al_queue = True\<rparr>"

text \<open>A request for Sync messages, from an address, at the given period.\<close>

definition sync_request :: "i8 \<Rightarrow> request_unicast_xmit_tlv" where
  "sync_request period = \<lparr>r_message_type = 0, r_logInterMessagePeriod = period, r_durationField = 60\<rparr>"

lemma empty_service_ok: "queue_ok empty_service"
  by (simp add: empty_service_def queue_ok_def pqueue_create_def heap_def pq_mset_def pq_sized_def)

lemma opened_service:
  "\<exists>s'. unicast_service_add tt now (good_alloc i) (Some empty_service) src a (sync_request period) = (SERVICE_GRANTED, Some s', True)"
  by (simp add: unicast_service_add_def sync_request_def good_alloc_def empty_service_def pqueue_insert_def pqueue_create_def
      split: prod.split)

lemma service_add_keeps_queue_witness:
  "\<exists>s'. unicast_service_add 1 \<lparr>it_sec = 1, it_nsec = 0\<rparr> (good_alloc 7) (Some empty_service) zero_pid (replicate 20 0) (sync_request (-3))
      = (SERVICE_GRANTED, Some s', True) \<and> queue_ok s' \<and> positive_periods s'"
proof -
  obtain s' where s': "unicast_service_add 1 \<lparr>it_sec = 1, it_nsec = 0\<rparr> (good_alloc 7) (Some empty_service) zero_pid (replicate 20 0)
      (sync_request (-3)) = (SERVICE_GRANTED, Some s', True)"
    using opened_service by blast
  have "queue_ok s' \<and> (positive_periods empty_service \<and> -29 \<le> sint (r_logInterMessagePeriod (sync_request (-3)))
      \<and> sint (r_logInterMessagePeriod (sync_request (-3))) \<le> 30 \<longrightarrow> positive_periods s')"
    by (rule service_add_keeps_queue [OF empty_service_ok _ _ s']) (simp_all add: normal_def empty_service_def)
  with s' show ?thesis by (simp add: positive_periods_def empty_service_def sync_request_def)
qed


text \<open>
  C34: a granted request ends in exactly one contract. When the client had at most one contract
  for the message type, it has one afterwards, in the interval of the period it asked for, and
  the grant lasts at least for the duration it asked for: a stale contract of another period is
  gone.
\<close>

theorem grant_leaves_one_contract:
  assumes ok: "queue_ok s" and t: "drop_bit 4 (r_message_type req) = ANNOUNCE \<or> drop_bit 4 (r_message_type req) = SYNC"
    and addr: "addreq tt a a"
    and one: "contract_count (\<lambda>c. addreq tt (ca_addr c) a) (mtype_mask (drop_bit 4 (r_message_type req))) (intervals s) \<le> 1"
    and add: "unicast_service_add tt now al (Some s) src a req = (SERVICE_GRANTED, Some s', rearm)"
  shows "contract_count (\<lambda>c. addreq tt (ca_addr c) a) (mtype_mask (drop_bit 4 (r_message_type req))) (intervals s') = 1
    \<and> (\<exists>(i, iv) \<in> set (intervals s'). log_period iv = r_logInterMessagePeriod req \<and>
         (\<exists>c \<in> set (clients iv). contract (\<lambda>c. addreq tt (ca_addr c) a) (mtype_mask (drop_bit 4 (r_message_type req))) c
            \<and> it_sec now + uint (r_durationField req) \<le> grant_tmo c))"
proof -
  let ?m = "\<lambda>c. addreq tt (ca_addr c) a" and ?msk = "mtype_mask (drop_bit 4 (r_message_type req))"
  let ?ext = "unicast_service_extend (it_sec now) (r_durationField req)"
  let ?new = "?ext \<lparr>ca_portIdentity = src, message_types = ?msk, ca_addr = a, grant_tmo = 0\<rparr>"
  obtain d ivs interval client where loop: "add_loop ?m ?msk ?ext (r_logInterMessagePeriod req) (intervals s) None None
        = (d, ivs, interval, client)"
    using prod_cases4 by blast
  note spec = add_loop_spec [OF extend_keeps(1) _ loop, simplified]
  have dist: "distinct (map fst ivs)"
    using loop add_loop_fst ok by (metis fst_conv snd_conv queue_ok_def)
  have "?msk = 1 \<or> ?msk = 2048"
    using t by (elim disjE) (simp_all add: mtype_mask_def)
  then have msk: "(x OR ?msk) AND ?msk \<noteq> 0" "?msk \<noteq> 0" for x
    by (elim disjE; simp add: or_and_absorb)+
  have joins: "contract ?m ?msk (?ext (c\<lparr>message_types := message_types c OR ?msk\<rparr>))" if "?m c" for c
    using that msk by (simp add: contract_def)
  have new: "contract ?m ?msk (?ext \<lparr>ca_portIdentity = src, message_types = ?msk, ca_addr = a, grant_tmo = 0\<rparr>)"
    using addr msk by (simp add: contract_def)
  from add loop show ?thesis
  proof (cases rule: service_add_cases)
    case other
    then show ?thesis using t by blast
  next
    case extended
    obtain i iv c where c: "(i, iv) \<in> set ivs" "log_period iv = r_logInterMessagePeriod req"
      "?ext c \<in> set (clients iv)" "contract ?m ?msk (?ext c)"
      using spec(1) [OF extended(1)] by blast
    have s': "intervals s' = ivs" using extended(2) by simp
    have "contract_count ?m ?msk ivs \<le> 1" using spec(1) [OF extended(1)] one by linarith
    moreover have "0 < contract_count ?m ?msk ivs" using c(1,3,4) by (rule contract_count_pos)
    ultimately have "contract_count ?m ?msk ivs = 1" by simp
    then show ?thesis unfolding s' by (rule one_contractI [OF _ c extend_keeps(3)])
  next
    case (added i k)
    obtain iv where iv: "(i, iv) \<in> set ivs" "log_period iv = r_logInterMessagePeriod req"
      "k < length (clients iv)" "?m (clients iv ! k)" "contract_count ?m ?msk ivs = 0"
      using spec(2) [OF added(1)] added(2) by blast
    let ?c = "?ext ((clients iv ! k)\<lparr>message_types := message_types (clients iv ! k) OR ?msk\<rparr>)"
    have one: "filter (contract ?m ?msk) ((clients iv)[k := ?c]) = [?c]"
      using contract_count_zero [OF iv(1,5)] iv(3) joins [OF iv(4)] by (rule one_contract_left)
    let ?f = "\<lambda>iv. iv\<lparr>clients := (clients iv)[k := ?ext ((clients iv ! k)\<lparr>message_types := message_types (clients iv ! k) OR ?msk\<rparr>)]\<rparr>"
    have s': "intervals s' = change_interval i ?f ivs" using added(5) by simp
    note after = count_after_change [OF dist iv(1,5), of ?f]
    show ?thesis
      unfolding s'
    proof (rule one_contractI [OF _ after(2) _ _ joins [OF iv(4)] extend_keeps(3)])
      show "contract_count ?m ?msk (change_interval i ?f ivs) = 1" unfolding after(1) by (simp add: one)
      show "?c \<in> set (clients (?f iv))" using iv(3) by (simp add: set_update_memI)
    qed (simp add: iv(2))
  next
    case (joined i)
    obtain iv where iv: "(i, iv) \<in> set ivs" "log_period iv = r_logInterMessagePeriod req"
      "contract_count ?m ?msk ivs = 0"
      using spec(2) [OF joined(1)] joined(3) by blast
    let ?f = "\<lambda>iv. iv\<lparr>clients := ?new # clients iv\<rparr>"
    have s': "intervals s' = change_interval i ?f ivs" using joined(6) by simp
    note after = count_after_change [OF dist iv(1,3), of ?f]
    show ?thesis
      unfolding s'
    proof (rule one_contractI [OF _ after(2) _ _ new extend_keeps(3)])
      show "contract_count ?m ?msk (change_interval i ?f ivs) = 1"
        unfolding after(1) using new contract_count_zero [OF iv(1,3)] by simp
    qed (simp_all add: iv(2))
  next
    case (opened i q)
    let ?iv = "(fst (initialize_interval now (r_logInterMessagePeriod req)))\<lparr>clients := [?new]\<rparr>"
    have s': "intervals s' = (i, ?iv) # ivs" using opened(8) by simp
    have none: "contract_count ?m ?msk ivs = 0" using spec(2) [OF opened(1)] by blast
    show ?thesis
      unfolding s'
    proof (rule one_contractI [OF _ _ _ _ new extend_keeps(3)])
      show "(i, ?iv) \<in> set ((i, ?iv) # ivs)" by simp
      show "contract_count ?m ?msk ((i, ?iv) # ivs) = 1" using new none by simp
    qed (simp_all add: initialize_interval_def)
  qed simp
qed

theorem grant_leaves_one_contract_witness:
  "\<exists>s'. unicast_service_add 1 \<lparr>it_sec = 5, it_nsec = 0\<rparr> (good_alloc 8) (Some due_service) zero_pid (replicate 20 0) (sync_request 1)
      = (SERVICE_GRANTED, Some s', True)
    \<and> contract_count (\<lambda>c. addreq 1 (ca_addr c) (replicate 20 0)) 1 (intervals s') = 1
    \<and> (\<exists>(i, iv) \<in> set (intervals s'). log_period iv = 1)"
proof -
  let ?m = "mtype_mask (drop_bit 4 (r_message_type (sync_request 1)))"
  have m: "?m = 1" by (simp add: sync_request_def mtype_mask_def)
  have addr: "addreq 1 (replicate 20 0) (replicate 20 0)" by code_simp
  obtain s' where s': "unicast_service_add 1 \<lparr>it_sec = 5, it_nsec = 0\<rparr> (good_alloc 8) (Some due_service) zero_pid (replicate 20 0)
      (sync_request 1) = (SERVICE_GRANTED, Some s', True)"
    using addr by (simp add: unicast_service_add_def sync_request_def good_alloc_def due_service_def pqueue_insert_def
        mtype_mask_def initialize_interval_def)
  have "contract_count (\<lambda>c. addreq 1 (ca_addr c) (replicate 20 0)) ?m (intervals s') = 1
    \<and> (\<exists>(i, iv) \<in> set (intervals s'). log_period iv = r_logInterMessagePeriod (sync_request 1) \<and>
         (\<exists>c \<in> set (clients iv). contract (\<lambda>c. addreq 1 (ca_addr c) (replicate 20 0)) ?m c
            \<and> it_sec \<lparr>it_sec = 5, it_nsec = 0\<rparr> + uint (r_durationField (sync_request 1)) \<le> grant_tmo c))"
    by (rule grant_leaves_one_contract [OF due_service_ok(1) _ addr _ s'])
      (use addr in \<open>simp_all add: sync_request_def due_service_def contract_def mtype_mask_def\<close>)
  then show ?thesis using s' unfolding m by (fastforce simp: sync_request_def)
qed


text \<open>A cancellation takes one contract away, and only from the client that sent it.\<close>

lemma remove_client_spec:
  "remove_client matches msk cs = Some cs' \<Longrightarrow>
     length (filter (contract matches msk) cs) = Suc (length (filter (contract matches msk) cs')) \<and> (\<forall>c \<in> set cs. \<not> matches c \<longrightarrow> c \<in> set cs')"
  "remove_client matches msk cs = None \<Longrightarrow> filter (contract matches msk) cs = []"
proof (induction cs arbitrary: cs')
  case (Cons c cs)
  {
    case 1
    have "\<not> contract matches msk (c\<lparr>message_types := message_types c AND NOT msk\<rparr>)" by (simp add: contract_def)
    then show ?case using 1 Cons.IH(1) by (auto simp: Let_def contract_def split: if_splits)
  next
    case 2
    then show ?case using Cons.IH(2) by (auto simp: contract_def split: if_splits)
  }
qed simp_all

lemma remove_loop_count:
  "contract_count matches msk (remove_loop matches msk ivs) = contract_count matches msk ivs - 1"
  using remove_client_spec
  by (induction matches msk ivs rule: remove_loop.induct) (auto split: option.splits)

lemma remove_loop_ids:
  "map fst (remove_loop matches msk ivs) = map fst ivs"
  "(i, iv') \<in> set (remove_loop matches msk ivs) \<Longrightarrow> \<exists>iv. (i, iv) \<in> set ivs \<and> incr iv' = incr iv"
  by (induction matches msk ivs rule: remove_loop.induct) (auto split: option.splits if_splits)

lemma service_remove_keeps_queue:
  assumes "queue_ok s" "unicast_service_remove tt (Some s) a flags = Some s'"
  shows "queue_ok s' \<and> (positive_periods s \<longrightarrow> positive_periods s')"
  using assms queue_ok_clients [OF assms(1) remove_loop_ids(1)] remove_loop_ids(2)
  by (force simp: unicast_service_remove_def Let_def split: if_splits)

text \<open>
  C33: a request with a period of -30 or less is granted although its increment is zero. Once
  the interval it opened is due, the timer handler of the unicast service does not return: with
  a port that is not master, or as long as the grant lasts, no amount of fuel is enough.
\<close>

theorem zero_period_never_ends:
  assumes ok: "queue_ok s" and now: "normal now" and later: "normal later"
    and fresh: "\<And>i. al_interval al = Some i \<Longrightarrow> i \<notin> fst ` set (intervals s)"
    and period: "sint (r_logInterMessagePeriod req) \<le> -30"
    and add: "unicast_service_add tt now al (Some s) src a req = (SERVICE_GRANTED, Some s', True)"
    and due: "timer_ns now + 10000000 < timer_ns later"
    and lasts: "state p = PS_MASTER \<or> state p = PS_GRAND_MASTER \<Longrightarrow>
      \<forall>n. sint (tv_sec (mono_now (es n))) \<le> it_sec now + uint (r_durationField req)"
  shows "unicast_service_timer fuel es c later p (Some s') = None"
proof -
  let ?h = "\<lambda>i. \<lparr>q_iv = i, q_tmo = snd (initialize_interval now (r_logInterMessagePeriod req))\<rparr>"
  obtain d ivs interval client where loop: "add_loop (\<lambda>c. addreq tt (ca_addr c) a) (mtype_mask (drop_bit 4 (r_message_type req)))
        (unicast_service_extend (it_sec now) (r_durationField req)) (r_logInterMessagePeriod req) (intervals s) None None
        = (d, ivs, interval, client)"
    using prod_cases4 by blast
  have ok': "queue_ok s'" using service_add_queue_ok [OF ok now fresh add] by blast
  have heap: "heap compare_timeout (pq_data (queue s))" using ok by (simp add: queue_ok_def)
  from add loop have "stuck es later (state p = PS_MASTER \<or> state p = PS_GRAND_MASTER) s'"
  proof (cases rule: service_add_cases)
    case (opened i q)
    let ?c = "unicast_service_extend (it_sec now) (r_durationField req)
          \<lparr>ca_portIdentity = src, message_types = mtype_mask (drop_bit 4 (r_message_type req)), ca_addr = a, grant_tmo = 0\<rparr>"
    let ?iv = "(fst (initialize_interval now (r_logInterMessagePeriod req)))\<lparr>clients := [?c]\<rparr>"
    have "?h i \<in># pq_mset (queue s')"
      using pqueue_insert_spec(2) [OF timeouts.comparator_axioms heap opened(7)] opened(8) by simp
    moreover have "the_interval s' (q_iv (?h i)) = Some ?iv" by (simp add: the_interval_def opened(8))
    moreover have "timer_ns (incr ?iv) = 0"
      by (simp add: initialize_interval_def log_to_timespec_zero [OF period] timer_ns_def)
    moreover have "timer_ns (q_tmo (?h i)) < timer_ns later"
      using initialize_interval_ok(2) [OF now] due by simp
    moreover have "?c \<in> set (clients ?iv)" by simp
    moreover have "\<forall>n. sint (tv_sec (mono_now (es n))) \<le> grant_tmo ?c" if "state p = PS_MASTER \<or> state p = PS_GRAND_MASTER"
      using lasts [OF that] extend_keeps(3) order_trans by blast
    ultimately show ?thesis unfolding stuck_def by blast
  qed simp_all
  then show ?thesis using stuck_loop [OF ok' later] by (simp add: unicast_service_timer_def)
qed

theorem zero_period_never_ends_witness:
  "\<exists>s'. unicast_service_add 1 \<lparr>it_sec = 1, it_nsec = 0\<rparr> (good_alloc 7) (Some empty_service) zero_pid (replicate 20 0) (sync_request (-40))
      = (SERVICE_GRANTED, Some s', True)
    \<and> unicast_service_timer 1000 (\<lambda>_. sample_env) sample_data \<lparr>it_sec = 2, it_nsec = 0\<rparr> (sample_port 1) (Some s') = None"
proof -
  obtain s' where s': "unicast_service_add 1 \<lparr>it_sec = 1, it_nsec = 0\<rparr> (good_alloc 7) (Some empty_service) zero_pid (replicate 20 0)
      (sync_request (-40)) = (SERVICE_GRANTED, Some s', True)"
    using opened_service by blast
  have "unicast_service_timer 1000 (\<lambda>_. sample_env) sample_data \<lparr>it_sec = 2, it_nsec = 0\<rparr> (sample_port 1) (Some s') = None"
    by (rule zero_period_never_ends [OF empty_service_ok _ _ _ _ s'])
      (simp_all add: normal_def empty_service_def sync_request_def timer_ns_def sample_env_def)
  with s' show ?thesis by blast
qed


end
