(* ===== verification/UnicastClient.thy ===== *)
theory UnicastClient
  imports UnicastService
begin

text \<open>
  The signaling messages of unicast negotiation (port_signaling_construct of ptpPortMsgMgmt.c)
  and the client side of the negotiation, unicast_client.c: a port asks the masters of its
  table for Announce messages, the selected one also for Sync and Delay_Resp messages, and
  renews what it was granted. A signaling message is its header, the target port identity and
  its TLVs.
\<close>

subsection \<open>State\<close>

record grant_unicast_xmit_tlv =
  g_message_type :: u8
  g_logInterMessagePeriod :: i8
  g_durationField :: u32
  g_flags :: u8

datatype unicast_tlv =
    RequestTlv request_unicast_xmit_tlv
  | GrantTlv grant_unicast_xmit_tlv
  | CancelTlv u8
  | AckTlv u8
  | OtherTlv

record signaling_msg =
  sg_header :: ptp_message
  targetPortIdentity :: PortIdentity
  sg_tlvs :: "unicast_tlv list"

text \<open>
  What a port keeps for unicast operation besides \<^typ>\<open>'d PtpPort\<close>. The counts that a granted
  Sync interval changes belong to the clock: the number of Sync messages of a frequency
  estimate and of the statistics, and the interval handed to the servo, a power of two.
\<close>

record sync_rates =
  sr_freq_est_interval :: int
  sr_stats_interval :: int
  fest_max_count :: u32
  stats_max_count :: u32
  servo_log_interval :: int

record 'd unicast_port =
  u_port :: "'d PtpPort"
  trp_type :: nat
  seq_signaling :: u16
  unicast_req_duration :: u32
  service :: "unicast_service option"
  rates :: sync_rates

subsection \<open>Building and sending\<close>

abbreviation SIGNALING :: u8 where "SIGNALING \<equiv> 0xC"

definition port_signaling_construct :: "ClockData \<Rightarrow> 'd unicast_port \<Rightarrow> nat \<Rightarrow> u8 list \<Rightarrow> PortIdentity
    \<Rightarrow> signaling_msg \<times> 'd unicast_port" where
  "port_signaling_construct c u i addr tpid =
     (let p = u_port u
      in (\<lparr>sg_header = (zero_msg i)\<lparr>
             tsmt := SIGNALING OR transportSpecific p,
             ver := 2,
             messageLength := 44,
             domainNumber := dds_domainNumber c,
             sourcePortIdentity := portIdentity p,
             sequenceId := seq_signaling u,
             control := 5,
             logMessageInterval := 0x7F,
             flagField0 := UNICAST,
             m_address := addr\<rparr>,
           targetPortIdentity = tpid, sg_tlvs = []\<rparr>,
          u\<lparr>seq_signaling := seq_signaling u + 1\<rparr>))"

fun tlv_size :: "unicast_tlv \<Rightarrow> u16" where
  "tlv_size (RequestTlv r) = 10"
| "tlv_size (GrantTlv g) = 12"
| "tlv_size (CancelTlv f) = 6"
| "tlv_size (AckTlv f) = 6"
| "tlv_size OtherTlv = 4"

text \<open>\<open>descr k\<close> says whether the descriptor of the message's \<open>k\<close>-th TLV can be allocated.\<close>

definition attach_tlv :: "(nat \<Rightarrow> bool) \<Rightarrow> unicast_tlv \<Rightarrow> signaling_msg \<Rightarrow> signaling_msg option" where
  "attach_tlv descr t m =
     (if descr (length (sg_tlvs m))
      then Some (m\<lparr>sg_header := (sg_header m)\<lparr>messageLength := messageLength (sg_header m) + tlv_size t\<rparr>,
                   sg_tlvs := sg_tlvs m @ [t]\<rparr>)
      else None)"

definition attach_grant :: "(nat \<Rightarrow> bool) \<Rightarrow> request_unicast_xmit_tlv \<Rightarrow> u32 \<Rightarrow> signaling_msg \<Rightarrow> signaling_msg option" where
  "attach_grant descr req duration =
     attach_tlv descr (GrantTlv \<lparr>g_message_type = r_message_type req,
       g_logInterMessagePeriod = r_logInterMessagePeriod req, g_durationField = duration, g_flags = 1\<rparr>)"

definition attach_ack :: "(nat \<Rightarrow> bool) \<Rightarrow> u8 \<Rightarrow> signaling_msg \<Rightarrow> signaling_msg option" where
  "attach_ack descr message_type_flags = attach_tlv descr (AckTlv message_type_flags)"

definition attach_request :: "(nat \<Rightarrow> bool) \<Rightarrow> i8 \<Rightarrow> u8 \<Rightarrow> u32 \<Rightarrow> signaling_msg \<Rightarrow> signaling_msg option" where
  "attach_request descr period message_type duration =
     attach_tlv descr (RequestTlv \<lparr>r_message_type = push_bit 4 message_type,
       r_logInterMessagePeriod = period, r_durationField = duration\<rparr>)"

text \<open>
  The environment of one signaling message: \<open>pool\<close> and \<open>tx_ok\<close> of the port's environment, the
  TLV descriptors and the allocations of the service.
\<close>

record 'd signaling_env =
  s_env :: "'d env"
  descr_ok :: "nat \<Rightarrow> bool"
  s_alloc :: service_alloc

text \<open>
  The frame common to all senders of signaling messages: construct the message, attach the
  TLVs, prepare and send. The results are the port, the message sent and the error return.
\<close>

definition send_signaling :: "'d signaling_env \<Rightarrow> ClockData \<Rightarrow> 'd unicast_port \<Rightarrow> u8 list \<Rightarrow> PortIdentity
    \<Rightarrow> (signaling_msg \<Rightarrow> signaling_msg option) \<Rightarrow> 'd unicast_port \<times> signaling_msg list \<times> bool" where
  "send_signaling e c u addr tpid attach =
     (case pool (s_env e) of
        [] \<Rightarrow> (u, [], True)
      | i # _ \<Rightarrow>
          (let (m, u) = port_signaling_construct c u i addr tpid
           in case attach m of
                None \<Rightarrow> (u, [], True)
              | Some m \<Rightarrow>
                  (case prepare_and_send (s_env e) (u_port u) 0 False (sg_header m) of
                     None \<Rightarrow> (u, [], True)
                   | Some h \<Rightarrow> (u, [m\<lparr>sg_header := h\<rparr>], False))))"

definition mono_seconds :: "'d signaling_env \<Rightarrow> int" where
  "mono_seconds e = sint (tv_sec (mono_now (s_env e)))"

subsection \<open>Requests of the client\<close>

definition unicast_client_announce :: "'d signaling_env \<Rightarrow> ClockData \<Rightarrow> 'd unicast_port \<Rightarrow> unicast_master_address
    \<Rightarrow> 'd unicast_port \<times> signaling_msg list \<times> bool" where
  "unicast_client_announce e c u dst =
     send_signaling e c u (uc_address dst) (uc_portIdentity dst)
       (attach_request (descr_ok e) (logAnnounceInterval (u_port u)) ANNOUNCE (unicast_req_duration u))"

definition attach_sydy :: "'d signaling_env \<Rightarrow> 'd unicast_port \<Rightarrow> signaling_msg \<Rightarrow> signaling_msg option" where
  "attach_sydy e u m =
     Option.bind (attach_request (descr_ok e) (logSyncInterval (u_port u)) SYNC (unicast_req_duration u) m)
       (\<lambda>m. if delayMechanism (u_port u) \<noteq> DM_P2P
            then attach_request (descr_ok e) (logMinDelayReqInterval (u_port u)) DELAY_RESP (unicast_req_duration u) m
            else Some m)"

definition unicast_client_sydy :: "'d signaling_env \<Rightarrow> ClockData \<Rightarrow> 'd unicast_port \<Rightarrow> unicast_master_address
    \<Rightarrow> 'd unicast_port \<times> signaling_msg list \<times> bool" where
  "unicast_client_sydy e c u dst =
     send_signaling e c u (uc_address dst) (uc_portIdentity dst) (attach_sydy e u)"

definition unicast_client_renew :: "'d signaling_env \<Rightarrow> ClockData \<Rightarrow> 'd unicast_port \<Rightarrow> unicast_master_address
    \<Rightarrow> unicast_master_address \<times> 'd unicast_port \<times> signaling_msg list \<times> bool" where
  "unicast_client_renew e c u dst =
     (if mono_seconds e < renewal_tmo dst then (dst, u, [], False)
      else (dst\<lparr>renewal_tmo := 0\<rparr>,
            send_signaling e c u (uc_address dst) (uc_portIdentity dst)
              (\<lambda>m. Option.bind (attach_request (descr_ok e) (logAnnounceInterval (u_port u)) ANNOUNCE (unicast_req_duration u) m)
                 (\<lambda>m. if uc_state dst = UC_HAVE_SYDY then attach_sydy e u m else Some m))))"

text \<open>The peer is asked for delay responses; an error is not reported to the caller.\<close>

definition unicast_client_peer_renew :: "'d signaling_env \<Rightarrow> ClockData \<Rightarrow> 'd unicast_port \<Rightarrow> unicast_master_table
    \<Rightarrow> unicast_master_table \<times> 'd unicast_port \<times> signaling_msg list \<times> bool" where
  "unicast_client_peer_renew e c u t =
     (if \<not> has_peer t then (t, u, [], False)
      else if mono_seconds e < renewal_tmo (peer_addr t) then (t, u, [], False)
      else (t\<lparr>peer_addr := (peer_addr t)\<lparr>renewal_tmo := 0\<rparr>\<rparr>,
            send_signaling e c u (uc_address (peer_addr t)) (uc_portIdentity (peer_addr t))
              (attach_request (descr_ok e) (logMinPdelayReqInterval (u_port u)) PDELAY_RESP (unicast_req_duration u))))"

definition unicast_client_set_renewal :: "int \<Rightarrow> u32 \<Rightarrow> unicast_master_address \<Rightarrow> unicast_master_address" where
  "unicast_client_set_renewal now_sec duration m =
     (let tmo = now_sec + (3 * uint duration) div 4
      in if renewal_tmo m = 0 \<or> tmo < renewal_tmo m then m\<lparr>renewal_tmo := tmo\<rparr> else m)"

subsection \<open>The timer\<close>

text \<open>
  One entry of the table. Entries of another transport are skipped. The error of the last
  entry that was tried is the one returned.
\<close>

definition client_timer_entry :: "'d signaling_env \<Rightarrow> ClockData \<Rightarrow> 'd unicast_port \<Rightarrow> unicast_master_address
    \<Rightarrow> unicast_master_address \<times> 'd unicast_port \<times> signaling_msg list \<times> bool" where
  "client_timer_entry e c u m =
     (case uc_state m of
        UC_WAIT \<Rightarrow> (m, unicast_client_announce e c u m)
      | UC_HAVE_ANN \<Rightarrow> unicast_client_renew e c u m
      | UC_NEED_SYDY \<Rightarrow> (m, unicast_client_sydy e c u m)
      | UC_HAVE_SYDY \<Rightarrow> unicast_client_renew e c u m)"

fun client_timer_loop :: "(nat \<Rightarrow> 'd signaling_env) \<Rightarrow> ClockData \<Rightarrow> nat \<Rightarrow> 'd unicast_port \<Rightarrow> unicast_master_table
    \<Rightarrow> bool \<Rightarrow> unicast_master_address list \<Rightarrow> unicast_master_address list \<times> unicast_master_table \<times> 'd unicast_port \<times> signaling_msg list \<times> bool" where
  "client_timer_loop es c n u t err [] = ([], t, u, [], err)"
| "client_timer_loop es c n u t err (m # ms) =
     (if uc_type m \<noteq> trp_type u
      then (let (ms', t, u, out, err) = client_timer_loop es c n u t err ms in (m # ms', t, u, out, err))
      else
        let (m', u, out, err) = client_timer_entry (es n) c u m;
            (t, u, pout, _) = (if delayMechanism (u_port u) = DM_P2P
               then unicast_client_peer_renew (es (n + 1)) c u t else (t, u, [], False));
            (ms', t, u, rest, err) = client_timer_loop es c (n + 2) u t err ms
        in (m' # ms', t, u, out @ pout @ rest, err))"

definition change_table :: "(unicast_master_table \<Rightarrow> unicast_master_table) \<Rightarrow> 'd unicast_port \<Rightarrow> 'd unicast_port" where
  "change_table f u = u\<lparr>u_port := (u_port u)\<lparr>unicast_table := map_option f (unicast_table (u_port u))\<rparr>\<rparr>"

definition unicast_client_timer :: "(nat \<Rightarrow> 'd signaling_env) \<Rightarrow> ClockData \<Rightarrow> 'd unicast_port
    \<Rightarrow> 'd unicast_port \<times> signaling_msg list \<times> bool" where
  "unicast_client_timer es c u =
     (case unicast_table (u_port u) of
        None \<Rightarrow> (u, [], False)
      | Some t \<Rightarrow>
          (let (ms, t, u, out, err) = client_timer_loop es c 0 u t False (addrs t);
               u = change_table (\<lambda>_. t\<lparr>addrs := ms\<rparr>) u
           in (u\<lparr>u_port := unicast_client_set_tmo (u_port u)\<rparr>, out, err)))"

subsection \<open>Answers of the master\<close>

definition wildcard :: PortIdentity where
  "wildcard = \<lparr>clockIdentity = ClockIdentity 0xFF 0xFF 0xFF 0xFF 0xFF 0xFF 0xFF 0xFF, portNumber = 0xFFFF\<rparr>"

fun find_index :: "('a \<Rightarrow> bool) \<Rightarrow> 'a list \<Rightarrow> nat option" where
  "find_index P [] = None"
| "find_index P (x # xs) = (if P x then Some 0 else map_option Suc (find_index P xs))"

text \<open>The index of the entry of the table that the message came from.\<close>

definition unicast_client_ok :: "'d unicast_port \<Rightarrow> signaling_msg \<Rightarrow> nat option" where
  "unicast_client_ok u m =
     (case unicast_table (u_port u) of
        None \<Rightarrow> None
      | Some t \<Rightarrow>
          if \<not> pid_eq (targetPortIdentity m) (portIdentity (u_port u)) \<and> \<not> pid_eq (targetPortIdentity m) wildcard then None
          else find_index (\<lambda>a. addreq (trp_type u) (uc_address a) (m_address (sg_header m))) (addrs t))"

definition change_entry :: "nat \<Rightarrow> (unicast_master_address \<Rightarrow> unicast_master_address) \<Rightarrow> 'd unicast_port \<Rightarrow> 'd unicast_port" where
  "change_entry k f = change_table (\<lambda>t. t\<lparr>addrs := (addrs t)[k := f (addrs t ! k)]\<rparr>)"

definition entry :: "'d unicast_port \<Rightarrow> nat \<Rightarrow> unicast_master_address" where
  "entry u k = addrs (the (unicast_table (u_port u))) ! k"

definition unicast_client_cancel :: "'d signaling_env \<Rightarrow> ClockData \<Rightarrow> 'd unicast_port \<Rightarrow> signaling_msg \<Rightarrow> u8
    \<Rightarrow> 'd unicast_port \<times> signaling_msg list \<times> bool" where
  "unicast_client_cancel e c u m message_type_flags =
     (case unicast_client_ok u m of
        None \<Rightarrow> (u, [], False)
      | Some k \<Rightarrow>
          (let mtype = drop_bit 4 message_type_flags
           in if mtype \<noteq> ANNOUNCE \<and> mtype \<noteq> SYNC \<and> mtype \<noteq> DELAY_RESP then (u, [], False)
              else if message_type_flags AND 2 \<noteq> 0 then (u, [], False)
              else
                let u = change_entry k (\<lambda>a. a\<lparr>uc_state := unicast_fsm (uc_state a) UC_EV_CANCEL,
                          granted := granted a AND NOT (mtype_mask mtype)\<rparr>) u
                in send_signaling e c u (uc_address (entry u k)) (uc_portIdentity (entry u k))
                     (attach_ack (descr_ok e) message_type_flags)))"

text \<open>\<open>clock_sync_interval\<close> of ptpClock.c; the shift of the int constant by 31 is as on the host.\<close>

definition interval_shift :: "int \<Rightarrow> i8 \<Rightarrow> nat" where
  "interval_shift interval n =
     (let shift = interval - sint n in if shift < 0 then 0 else if shift \<ge> 32 then 31 else nat shift)"

definition clock_sync_interval :: "i8 \<Rightarrow> sync_rates \<Rightarrow> sync_rates" where
  "clock_sync_interval n r =
     r\<lparr>fest_max_count := push_bit (interval_shift (sr_freq_est_interval r) n) 1,
       stats_max_count := push_bit (interval_shift (sr_stats_interval r) n) 1,
       servo_log_interval := sint n\<rparr>"

text \<open>The reaction to a grant in the states of the entry, after its type has been noted.\<close>

definition grant_sydy :: "unicast_master_address \<Rightarrow> unicast_master_address" where
  "grant_sydy a =
     (if granted a AND sydymsk a = sydymsk a
      then a\<lparr>uc_state := unicast_fsm (uc_state a) UC_EV_GRANT_SYDY\<rparr> else a)"

definition grant_entry :: "int \<Rightarrow> PortIdentity \<Rightarrow> u8 \<Rightarrow> u32 \<Rightarrow> unicast_master_address \<Rightarrow> unicast_master_address" where
  "grant_entry now_sec src mtype duration a =
     (case uc_state a of
        UC_WAIT \<Rightarrow>
          if mtype = ANNOUNCE
          then unicast_client_set_renewal now_sec duration
                 (a\<lparr>uc_state := unicast_fsm (uc_state a) UC_EV_GRANT_ANN, uc_portIdentity := src\<rparr>)
          else a
      | UC_HAVE_ANN \<Rightarrow> a
      | UC_NEED_SYDY \<Rightarrow>
          if mtype = DELAY_RESP \<or> mtype = SYNC
          then unicast_client_set_renewal now_sec duration (grant_sydy a) else a
      | UC_HAVE_SYDY \<Rightarrow>
          if mtype = ANNOUNCE \<or> mtype = DELAY_RESP \<or> mtype = SYNC
          then unicast_client_set_renewal now_sec duration a else a)"

definition unicast_client_grant :: "'d signaling_env \<Rightarrow> 'd unicast_port \<Rightarrow> signaling_msg \<Rightarrow> grant_unicast_xmit_tlv
    \<Rightarrow> 'd unicast_port" where
  "unicast_client_grant e u m g =
     (case unicast_client_ok u m of
        None \<Rightarrow> u
      | Some k \<Rightarrow>
          (let mtype = drop_bit 4 (g_message_type g); src = sourcePortIdentity (sg_header m);
               now_sec = mono_seconds e
           in if g_durationField g = 0
              then (if mtype \<noteq> PDELAY_RESP then change_entry k (\<lambda>a. a\<lparr>uc_state := UC_WAIT\<rparr>) u else u)
              else if delayMechanism (u_port u) = DM_P2P \<and> mtype = DELAY_RESP then u
              else if delayMechanism (u_port u) = DM_P2P \<and> mtype = PDELAY_RESP
              then let u = change_table (\<lambda>t. t\<lparr>peer_addr := unicast_client_set_renewal now_sec (g_durationField g)
                         ((peer_addr t)\<lparr>uc_portIdentity := src\<rparr>)\<rparr>) u
                   in u\<lparr>u_port := (u_port u)\<lparr>logMinPdelayReqInterval := g_logInterMessagePeriod g\<rparr>\<rparr>
              else
                let s = uc_state (entry u k);
                    u = change_entry k (\<lambda>a. grant_entry now_sec src mtype (g_durationField g)
                          (a\<lparr>granted := granted a OR mtype_mask mtype\<rparr>)) u
                in if s = UC_NEED_SYDY \<and> mtype = DELAY_RESP
                   then u\<lparr>u_port := (u_port u)\<lparr>logMinDelayReqInterval := g_logInterMessagePeriod g\<rparr>\<rparr>
                   else if s = UC_NEED_SYDY \<and> mtype = SYNC
                   then u\<lparr>rates := clock_sync_interval (g_logInterMessagePeriod g) (rates u)\<rparr>
                   else u))"

subsection \<open>Facts\<close>

lemma find_index_Some: "find_index P xs = Some k \<Longrightarrow> k < length xs \<and> P (xs ! k) \<and> (\<forall>j < k. \<not> P (xs ! j))"
  by (induction xs arbitrary: k) (auto split: if_splits simp: nth_Cons' less_Suc_eq_0_disj)

text \<open>
  The entries of the table: whoever is subscribed for synchronization was granted every
  message type of its mask.
\<close>

definition entry_ok :: "unicast_master_address \<Rightarrow> bool" where
  "entry_ok a \<longleftrightarrow> (uc_state a = UC_HAVE_SYDY \<longrightarrow> granted a AND sydymsk a = sydymsk a)"

definition table_ok :: "'d unicast_port \<Rightarrow> bool" where
  "table_ok u \<longleftrightarrow> (\<forall>t. unicast_table (u_port u) = Some t \<longrightarrow> (\<forall>a \<in> set (addrs t). entry_ok a))"

lemma renewal_keeps [simp]:
  "uc_state (unicast_client_set_renewal t d a) = uc_state a"
  "granted (unicast_client_set_renewal t d a) = granted a"
  "sydymsk (unicast_client_set_renewal t d a) = sydymsk a"
  "uc_portIdentity (unicast_client_set_renewal t d a) = uc_portIdentity a"
  "uc_address (unicast_client_set_renewal t d a) = uc_address a"
  by (simp_all add: unicast_client_set_renewal_def Let_def)

lemma change_table_sel [simp]:
  "unicast_table (u_port (change_table f u)) = map_option f (unicast_table (u_port u))"
  "state (u_port (change_table f u)) = state (u_port u)"
  "portIdentity (u_port (change_table f u)) = portIdentity (u_port u)"
  "delayMechanism (u_port (change_table f u)) = delayMechanism (u_port u)"
  "trp_type (change_table f u) = trp_type u" "service (change_table f u) = service u"
  "unicast_req_duration (change_table f u) = unicast_req_duration u"
  by (simp_all add: change_table_def)

definition at_entry :: "'d unicast_port \<Rightarrow> nat \<Rightarrow> unicast_master_address \<Rightarrow> bool" where
  "at_entry u k a \<longleftrightarrow> (\<exists>t. unicast_table (u_port u) = Some t \<and> k < length (addrs t) \<and> addrs t ! k = a)"

lemma at_entry_entry: "at_entry u k a \<Longrightarrow> entry u k = a"
  by (auto simp: at_entry_def entry_def)

lemma at_change_entry: "at_entry u k a \<Longrightarrow> at_entry (change_entry k f u) k (f a)"
  by (auto simp: at_entry_def change_entry_def)

lemma client_ok_entry: "unicast_client_ok u m = Some k \<Longrightarrow> at_entry u k (entry u k)"
  by (auto simp: unicast_client_ok_def at_entry_def entry_def dest!: find_index_Some split: option.splits if_splits)

lemma find_index_address:
  "map uc_address as = map uc_address bs \<Longrightarrow> find_index (\<lambda>a. P (uc_address a)) as = find_index (\<lambda>a. P (uc_address a)) bs"
  by (induction as arbitrary: bs) auto

definition same_addresses :: "'d unicast_port \<Rightarrow> 'd unicast_port \<Rightarrow> bool" where
  "same_addresses u v \<longleftrightarrow> portIdentity (u_port u) = portIdentity (u_port v) \<and> trp_type u = trp_type v
     \<and> map_option (\<lambda>t. map uc_address (addrs t)) (unicast_table (u_port u))
       = map_option (\<lambda>t. map uc_address (addrs t)) (unicast_table (u_port v))"

lemma client_ok_cong: "same_addresses u v \<Longrightarrow> unicast_client_ok u m = unicast_client_ok v m"
  by (auto simp: same_addresses_def unicast_client_ok_def split: option.splits intro: find_index_address)

lemma same_addresses_change_entry:
  "(\<And>a. uc_address (f a) = uc_address a) \<Longrightarrow> same_addresses (change_entry k f u) u"
  by (cases "unicast_table (u_port u)"; cases "k < length (addrs (the (unicast_table (u_port u))))")
    (auto simp: same_addresses_def change_entry_def map_update list_update_same_conv nth_map not_less list_update_beyond)

lemma same_addresses_trans: "same_addresses u v \<Longrightarrow> same_addresses v w \<Longrightarrow> same_addresses u w"
  by (simp add: same_addresses_def)

lemma grant_entry_keeps [simp]:
  "uc_address (grant_entry now src mtype d a) = uc_address a"
  "granted (grant_entry now src mtype d a) = granted a"
  "sydymsk (grant_entry now src mtype d a) = sydymsk a"
  by (simp_all add: grant_entry_def grant_sydy_def split: unicast_state.splits)

text \<open>A grant that is accepted by the entry.\<close>

lemma grant_accepted:
  assumes "unicast_client_ok u m = Some k" "g_durationField g \<noteq> 0" "delayMechanism (u_port u) \<noteq> DM_P2P"
  shows "at_entry (unicast_client_grant e u m g) k
      (grant_entry (mono_seconds e) (sourcePortIdentity (sg_header m)) (drop_bit 4 (g_message_type g)) (g_durationField g)
        ((entry u k)\<lparr>granted := granted (entry u k) OR mtype_mask (drop_bit 4 (g_message_type g))\<rparr>))"
    and "same_addresses (unicast_client_grant e u m g) u"
    and "delayMechanism (u_port (unicast_client_grant e u m g)) = delayMechanism (u_port u)"
    and "state (u_port (unicast_client_grant e u m g)) = state (u_port u)"
    and "unicast_req_duration (unicast_client_grant e u m g) = unicast_req_duration u"
proof -
  let ?f = "\<lambda>a. grant_entry (mono_seconds e) (sourcePortIdentity (sg_header m)) (drop_bit 4 (g_message_type g)) (g_durationField g)
        (a\<lparr>granted := granted a OR mtype_mask (drop_bit 4 (g_message_type g))\<rparr>)"
  let ?u = "change_entry k ?f u"
  have g: "u_port (unicast_client_grant e u m g) = u_port ?u
      \<or> u_port (unicast_client_grant e u m g) = (u_port ?u)\<lparr>logMinDelayReqInterval := g_logInterMessagePeriod g\<rparr>"
    "trp_type (unicast_client_grant e u m g) = trp_type u"
    "unicast_req_duration (unicast_client_grant e u m g) = unicast_req_duration u"
    using assms by (auto simp: unicast_client_grant_def Let_def change_entry_def)
  have a: "at_entry ?u k (?f (entry u k))"
    by (rule at_change_entry [OF client_ok_entry [OF assms(1)]])
  have s: "same_addresses ?u u" by (rule same_addresses_change_entry) simp
  show "at_entry (unicast_client_grant e u m g) k (?f (entry u k))"
    using a g(1) by (auto simp: at_entry_def)
  show "same_addresses (unicast_client_grant e u m g) u"
    using s g(1,2) by (auto simp: same_addresses_def change_entry_def)
  show "delayMechanism (u_port (unicast_client_grant e u m g)) = delayMechanism (u_port u)"
    "state (u_port (unicast_client_grant e u m g)) = state (u_port u)"
    "unicast_req_duration (unicast_client_grant e u m g) = unicast_req_duration u"
    using g by (auto simp: change_entry_def)
qed

subsection \<open>Subscribed means granted\<close>

lemma table_ok_change_entry:
  assumes "table_ok u" "\<And>a. entry_ok a \<Longrightarrow> entry_ok (f a)"
  shows "table_ok (change_entry k f u)"
proof -
  have "entry_ok a" if t: "unicast_table (u_port u) = Some t" and a: "a \<in> set ((addrs t)[k := f (addrs t ! k)])" for a t
  proof (cases "k < length (addrs t)")
    case True
    then have "a = f (addrs t ! k) \<or> a \<in> set (addrs t)" using a set_update_subset_insert by fastforce
    then show ?thesis using assms t True unfolding table_ok_def by (metis nth_mem)
  next
    case False
    then show ?thesis using a assms(1) t by (simp add: table_ok_def list_update_beyond)
  qed
  then show ?thesis by (auto simp: table_ok_def change_entry_def)
qed

lemma table_ok_cong: "unicast_table (u_port u') = unicast_table (u_port u) \<Longrightarrow> table_ok u \<Longrightarrow> table_ok u'"
  by (simp add: table_ok_def)

lemma table_ok_fields [simp]:
  "table_ok (u\<lparr>u_port := (u_port u)\<lparr>logMinDelayReqInterval := i\<rparr>\<rparr>) = table_ok u"
  "table_ok (u\<lparr>u_port := (u_port u)\<lparr>logMinPdelayReqInterval := i\<rparr>\<rparr>) = table_ok u"
  "table_ok (u\<lparr>rates := r\<rparr>) = table_ok u" "table_ok (u\<lparr>service := s\<rparr>) = table_ok u"
  by (simp_all add: table_ok_def)

lemma send_signaling_keeps [simp]:
  "u_port (fst (send_signaling e c u a i f)) = u_port u"
  "service (fst (send_signaling e c u a i f)) = service u"
  "trp_type (fst (send_signaling e c u a i f)) = trp_type u"
  by (auto simp: send_signaling_def port_signaling_construct_def Let_def split: list.splits option.splits)

lemma table_ok_send [simp]: "table_ok (fst (send_signaling e c u a i f)) = table_ok u"
  by (simp add: table_ok_def)

lemma send_signaling_port: "send_signaling e c u a i f = (u', out, err) \<Longrightarrow> u_port u' = u_port u"
  using send_signaling_keeps(1) [of e c u a i f] by simp

lemma or_covers: "x AND m = m \<Longrightarrow> (x OR y) AND m = (m :: 'a :: len word)"
  by (rule bit_word_eqI) (auto simp: bit_eq_iff bit_and_iff bit_or_iff)

lemma entry_ok_grant: "entry_ok a \<Longrightarrow> entry_ok (grant_entry now src mtype d (a\<lparr>granted := granted a OR x\<rparr>))"
  by (cases "uc_state a")
    (auto simp: entry_ok_def grant_entry_def grant_sydy_def unicast_fsm_def or_covers split: if_splits)

lemma table_ok_grant: "table_ok u \<Longrightarrow> table_ok (unicast_client_grant e u m g)"
proof -
  assume ok: "table_ok u"
  have wait: "table_ok (change_entry k (\<lambda>a. a\<lparr>uc_state := UC_WAIT\<rparr>) u)" for k
    by (rule table_ok_change_entry [OF ok]) (simp add: entry_ok_def)
  have grant: "table_ok (change_entry k (\<lambda>a. grant_entry now src mtype d (a\<lparr>granted := granted a OR x\<rparr>)) u)" for k now src mtype d x
    by (rule table_ok_change_entry [OF ok entry_ok_grant])
  have peer: "table_ok (change_table (\<lambda>t. t\<lparr>peer_addr := f (peer_addr t)\<rparr>) u)" for f
    using ok by (auto simp: table_ok_def)
  show ?thesis
    unfolding unicast_client_grant_def Let_def
    using ok wait grant peer [of "\<lambda>p. unicast_client_set_renewal (mono_seconds e) (g_durationField g) (p\<lparr>uc_portIdentity := sourcePortIdentity (sg_header m)\<rparr>)"]
    by (auto split: option.split)
qed

lemma table_ok_cancel: "table_ok u \<Longrightarrow> table_ok (fst (unicast_client_cancel e c u m flags))"
proof -
  assume ok: "table_ok u"
  have "table_ok (change_entry k (\<lambda>a. a\<lparr>uc_state := unicast_fsm (uc_state a) UC_EV_CANCEL, granted := g a\<rparr>) u)" for k g
    by (rule table_ok_change_entry [OF ok]) (simp add: entry_ok_def unicast_fsm_def split: unicast_state.split)
  then show ?thesis
    using ok by (auto simp: unicast_client_cancel_def Let_def split: option.split)
qed

lemma client_timer_entry_ok:
  assumes "client_timer_entry e c u m = (m', u', out, err)"
  shows "entry_ok m \<Longrightarrow> entry_ok m'" "u_port u' = u_port u"
  using assms
  by (auto dest!: send_signaling_port simp: client_timer_entry_def unicast_client_announce_def unicast_client_sydy_def unicast_client_renew_def
      entry_ok_def split: unicast_state.splits if_splits)

lemma peer_renew_keeps:
  assumes "unicast_client_peer_renew e c u t = (t', u', out, err)"
  shows "u_port u' = u_port u"
  using assms by (auto dest!: send_signaling_port simp: unicast_client_peer_renew_def split: if_splits)

lemma client_timer_loop_ok:
  "client_timer_loop es c n u t err ms = (ms', t', u', out, err') \<Longrightarrow> \<forall>a \<in> set ms. entry_ok a \<Longrightarrow> \<forall>a \<in> set ms'. entry_ok a"
proof (induction es c n u t err ms arbitrary: ms' t' u' out err' rule: client_timer_loop.induct)
  case (2 es c n u t err m ms)
  show ?case
  proof (cases "uc_type m = trp_type u")
    case False
    then show ?thesis using 2 by (auto split: prod.splits)
  next
    case True
    obtain m1 u1 o1 e1 where m1: "client_timer_entry (es n) c u m = (m1, u1, o1, e1)" using prod_cases4 by blast
    obtain t2 u2 o2 e2 where t2: "(if delayMechanism (u_port u1) = DM_P2P
               then unicast_client_peer_renew (es (n + 1)) c u1 t else (t, u1, [], False)) = (t2, u2, o2, e2)"
      using prod_cases4 by blast
    obtain ms3 t3 u3 o3 e3 where l: "client_timer_loop es c (n + 2) u2 t2 e1 ms = (ms3, t3, u3, o3, e3)"
      using prod_cases5 by blast
    have "ms' = m1 # ms3" using 2(3) True l by (simp add: m1 t2)
    moreover have "\<forall>a \<in> set ms3. entry_ok a"
      using "2.IH"(2) [OF _ m1 [symmetric] refl refl refl t2 [symmetric] refl refl refl l] True 2(4) by simp
    ultimately show ?thesis using client_timer_entry_ok(1) [OF m1] 2(4) by simp
  qed
qed simp

lemma table_ok_timer: "table_ok u \<Longrightarrow> table_ok (fst (unicast_client_timer es c u))"
proof (cases "unicast_table (u_port u)")
  case (Some t)
  assume ok: "table_ok u"
  obtain ms t' u' out err where l: "client_timer_loop es c 0 u t False (addrs t) = (ms, t', u', out, err)"
    using prod_cases5 by blast
  have "\<forall>a \<in> set ms. entry_ok a"
    using client_timer_loop_ok [OF l] ok Some by (simp add: table_ok_def)
  moreover have "unicast_table (unicast_client_set_tmo p) = unicast_table p" for p :: "'a PtpPort"
    by (simp add: unicast_client_set_tmo_def split: option.split)
  ultimately show ?thesis
    by (auto simp: unicast_client_timer_def Some l table_ok_def change_table_def)
qed (simp add: unicast_client_timer_def)

end
