(* ===== verification/Signaling.thy ===== *)
theory Signaling
  imports UnicastClient
begin

text \<open>
  The handler of signaling messages (portMsgProSignaling of ptpPortMsgMgmt.c) with the answers
  of the unicast service, and the theorems that let a client and a master negotiate.
\<close>

definition unicast_service_reply :: "'d signaling_env \<Rightarrow> ClockData \<Rightarrow> 'd unicast_port \<Rightarrow> signaling_msg
    \<Rightarrow> request_unicast_xmit_tlv \<Rightarrow> u32 \<Rightarrow> 'd unicast_port \<times> signaling_msg list \<times> bool" where
  "unicast_service_reply e c u dst req duration =
     send_signaling e c u (m_address (sg_header dst)) (sourcePortIdentity (sg_header dst))
       (attach_grant (descr_ok e) req duration)"

definition unicast_service_deny :: "'d signaling_env \<Rightarrow> ClockData \<Rightarrow> 'd unicast_port \<Rightarrow> signaling_msg
    \<Rightarrow> request_unicast_xmit_tlv \<Rightarrow> 'd unicast_port \<times> signaling_msg list \<times> bool" where
  "unicast_service_deny e c u m req = unicast_service_reply e c u m req 0"

definition unicast_service_grant :: "'d signaling_env \<Rightarrow> ClockData \<Rightarrow> 'd unicast_port \<Rightarrow> signaling_msg
    \<Rightarrow> request_unicast_xmit_tlv \<Rightarrow> 'd unicast_port \<times> signaling_msg list \<times> bool" where
  "unicast_service_grant e c u m req = unicast_service_reply e c u m req (r_durationField req)"

definition mono_itimer :: "'d signaling_env \<Rightarrow> itimer" where
  "mono_itimer e = \<lparr>it_sec = sint (tv_sec (mono_now (s_env e))), it_nsec = sint (tv_nsec (mono_now (s_env e)))\<rparr>"

text \<open>The service is called with the port's transport and the source of the message.\<close>

definition service_request :: "'d signaling_env \<Rightarrow> 'd unicast_port \<Rightarrow> signaling_msg \<Rightarrow> request_unicast_xmit_tlv
    \<Rightarrow> service_result \<times> 'd unicast_port" where
  "service_request e u m req =
     (let (r, svc, rearm) = unicast_service_add (trp_type u) (mono_itimer e) (s_alloc e) (service u)
            (sourcePortIdentity (sg_header m)) (m_address (sg_header m)) req;
          u = u\<lparr>service := svc\<rparr>
      in (r, if rearm then u\<lparr>u_port := unicastServiceReArmTimer (the svc) (u_port u)\<rparr> else u))"

text \<open>One TLV; \<open>err\<close> is the error so far, which only some cases replace.\<close>

definition signaling_tlv :: "'d signaling_env \<Rightarrow> ClockData \<Rightarrow> 'd unicast_port \<Rightarrow> signaling_msg \<Rightarrow> bool \<Rightarrow> unicast_tlv
    \<Rightarrow> 'd unicast_port \<times> signaling_msg list \<times> bool" where
  "signaling_tlv e c u m err t =
     (case t of
        RequestTlv req \<Rightarrow>
          (let (r, u) = service_request e u m req
           in case r of
                SERVICE_GRANTED \<Rightarrow> unicast_service_grant e c u m req
              | SERVICE_DENIED \<Rightarrow> unicast_service_deny e c u m req
              | SERVICE_DISABLED \<Rightarrow> (u, [], err))
      | GrantTlv g \<Rightarrow> (unicast_client_grant e u m g, [], err)
      | CancelTlv flags \<Rightarrow>
          (let (u, out, err) = unicast_client_cancel e c u m flags
           in (u\<lparr>service := unicast_service_remove (trp_type u) (service u) (m_address (sg_header m)) flags\<rparr>, out, err))
      | AckTlv _ \<Rightarrow> (u, [], err)
      | OtherTlv \<Rightarrow> (u, [], err))"

fun signaling_tlvs :: "(nat \<Rightarrow> 'd signaling_env) \<Rightarrow> ClockData \<Rightarrow> nat \<Rightarrow> 'd unicast_port \<Rightarrow> signaling_msg \<Rightarrow> bool
    \<Rightarrow> unicast_tlv list \<Rightarrow> 'd unicast_port \<times> signaling_msg list \<times> bool" where
  "signaling_tlvs es c n u m err [] = (u, [], err)"
| "signaling_tlvs es c n u m err (t # ts) =
     (let (u, out, err) = signaling_tlv (es n) c u m err t;
          (u, rest, err) = signaling_tlvs es c (n + 1) u m err ts
      in (u, out @ rest, err))"

definition portMsgProSignaling :: "(nat \<Rightarrow> 'd signaling_env) \<Rightarrow> ClockData \<Rightarrow> 'd unicast_port \<Rightarrow> signaling_msg
    \<Rightarrow> 'd unicast_port \<times> signaling_msg list \<times> bool" where
  "portMsgProSignaling es c u m =
     (case state (u_port u) of
        PS_INITIALIZING \<Rightarrow> (u, [], False)
      | PS_FAULTY \<Rightarrow> (u, [], False)
      | PS_DISABLED \<Rightarrow> (u, [], False)
      | _ \<Rightarrow> signaling_tlvs es c 0 u m False (sg_tlvs m))"

subsection \<open>Invariant of the table\<close>

lemma service_request_keeps:
  assumes "service_request e u m req = (r, u')"
  shows "unicast_table (u_port u') = unicast_table (u_port u)" "state (u_port u') = state (u_port u)"
    "portIdentity (u_port u') = portIdentity (u_port u)"
  using assms by (auto simp: service_request_def unicastServiceReArmTimer_def Let_def split: prod.splits if_splits)

lemma table_ok_tlv: "table_ok u \<Longrightarrow> table_ok (fst (signaling_tlv e c u m err t))"
proof (cases t)
  case (RequestTlv req)
  assume ok: "table_ok u"
  obtain r u' where r: "service_request e u m req = (r, u')" by fastforce
  have "table_ok u'" using ok service_request_keeps(1) [OF r] by (rule table_ok_cong [rotated])
  then show ?thesis
    by (simp add: RequestTlv signaling_tlv_def r unicast_service_grant_def unicast_service_deny_def unicast_service_reply_def
        split: service_result.split)
next
  case (CancelTlv flags)
  assume ok: "table_ok u"
  from table_ok_cancel [OF this, of e c m flags] show ?thesis
    by (simp add: CancelTlv signaling_tlv_def split_def Let_def)
qed (simp_all add: signaling_tlv_def table_ok_grant)

lemma table_ok_tlvs: "table_ok u \<Longrightarrow> table_ok (fst (signaling_tlvs es c n u m err ts))"
proof (induction es c n u m err ts rule: signaling_tlvs.induct)
  case (2 es c n u m err t ts)
  obtain u1 o1 e1 where s: "signaling_tlv (es n) c u m err t = (u1, o1, e1)" using prod_cases3 by blast
  have "table_ok u1" using table_ok_tlv [OF 2(2), of "es n" c m err t] by (simp add: s)
  then have "table_ok (fst (signaling_tlvs es c (n + 1) u1 m e1 ts))" by (rule "2.IH" [OF s [symmetric] refl refl])
  then show ?case by (simp add: s split_def Let_def)
qed simp

definition state_changed :: "PortIdentity \<Rightarrow> 'd unicast_port \<Rightarrow> 'd unicast_port" where
  "state_changed pid u = u\<lparr>u_port := (u_port u)\<lparr>unicast_table := unicast_client_state_changed pid (unicast_table (u_port u))\<rparr>\<rparr>"

text \<open>
  C36: an entry of the table of masters counts as subscribed for synchronization only while
  every message type it needs is noted as granted: signaling messages of any kind, the request
  timer and a change of the clock's parent keep this.
\<close>

theorem subscribed_means_granted:
  assumes "table_ok u"
  shows "table_ok (fst (portMsgProSignaling es c u m)) \<and> table_ok (fst (unicast_client_timer es c u))
    \<and> table_ok (state_changed pid u)"
proof (intro conjI)
  show "table_ok (fst (portMsgProSignaling es c u m))"
    using assms table_ok_tlvs by (auto simp: portMsgProSignaling_def split: PORT_STATE.split)
  show "table_ok (fst (unicast_client_timer es c u))" using assms by (rule table_ok_timer)
  have "entry_ok a \<Longrightarrow> entry_ok (unicast_select pid a)" for a
    by (cases "uc_state a") (auto simp: entry_ok_def unicast_select_def unicast_fsm_def)
  then show "table_ok (state_changed pid u)"
    using assms by (auto simp: table_ok_def state_changed_def unicast_client_state_changed_def split: option.splits)
qed

subsection \<open>A grant that was refused\<close>

lemma at_select: "at_entry u k a \<Longrightarrow> at_entry (state_changed pid u) k (unicast_select pid a)"
  by (auto simp: at_entry_def state_changed_def unicast_client_state_changed_def)

lemma select_same_addresses: "same_addresses (state_changed pid u) u"
  by (auto simp: same_addresses_def state_changed_def unicast_client_state_changed_def unicast_select_def o_def
      split: option.split intro!: map_cong)

text \<open>
  C37: a refusal is forgotten. A master that refuses to renew Delay_Resp messages puts the entry
  back to waiting, but the note that they were granted stays: the next grants of Announce and
  Sync alone make the port believe that it is subscribed to all three.
\<close>

theorem refusal_is_forgotten:
  assumes ok: "unicast_client_ok u m = Some k" and dm: "delayMechanism (u_port u) \<noteq> DM_P2P"
    and had: "granted (entry u k) AND sydymsk (entry u k) = sydymsk (entry u k)"
    and refused: "g_durationField g1 = 0" "drop_bit 4 (g_message_type g1) = DELAY_RESP"
    and ann: "g_durationField g2 \<noteq> 0" "drop_bit 4 (g_message_type g2) = ANNOUNCE"
    and sync: "g_durationField g3 \<noteq> 0" "drop_bit 4 (g_message_type g3) = SYNC"
  shows "(let u1 = unicast_client_grant e1 u m g1;
              u2 = unicast_client_grant e2 u1 m g2;
              u3 = state_changed (sourcePortIdentity (sg_header m)) u2;
              u4 = unicast_client_grant e3 u3 m g3
          in uc_state (entry u1 k) = UC_WAIT \<and> uc_state (entry u4 k) = UC_HAVE_SYDY)"
proof -
  let ?pid = "sourcePortIdentity (sg_header m)" and ?a = "entry u k"
  define u1 where "u1 = unicast_client_grant e1 u m g1"
  define u2 where "u2 = unicast_client_grant e2 u1 m g2"
  define u3 where "u3 = state_changed ?pid u2"
  define u4 where "u4 = unicast_client_grant e3 u3 m g3"
  have u1: "u1 = change_entry k (\<lambda>a. a\<lparr>uc_state := UC_WAIT\<rparr>) u"
    using ok refused by (simp add: u1_def unicast_client_grant_def)
  then have a1: "at_entry u1 k (?a\<lparr>uc_state := UC_WAIT\<rparr>)"
    using at_change_entry [OF client_ok_entry [OF ok]] by simp
  have dm1: "delayMechanism (u_port u1) \<noteq> DM_P2P" using dm by (simp add: u1 change_entry_def)
  have s1: "same_addresses u1 u" unfolding u1 by (rule same_addresses_change_entry) simp
  have ok1: "unicast_client_ok u1 m = Some k" using client_ok_cong [OF s1] ok by simp
  note g2 = grant_accepted [OF ok1 ann(1) dm1, of e2, folded u2_def]
  obtain a2 where a2: "at_entry u2 k a2" "uc_state a2 = UC_HAVE_ANN" "uc_portIdentity a2 = ?pid"
      "granted a2 = granted ?a OR mtype_mask ANNOUNCE" "sydymsk a2 = sydymsk ?a"
    using g2(1) ann(2) by (auto simp: at_entry_entry [OF a1] grant_entry_def unicast_fsm_def)
  have a3: "at_entry u3 k (a2\<lparr>uc_state := UC_NEED_SYDY\<rparr>)"
    using at_select [OF a2(1), of ?pid] a2(2,3) by (simp add: u3_def unicast_select_def unicast_fsm_def pid_eq_iff)
  have ok3: "unicast_client_ok u3 m = Some k"
    using client_ok_cong [OF select_same_addresses, of ?pid u2] client_ok_cong [OF g2(2)] ok1 by (simp add: u3_def)
  have dm3: "delayMechanism (u_port u3) \<noteq> DM_P2P" using g2(3) dm1 by (simp add: u3_def state_changed_def)
  have covers: "(x OR y OR z) AND s = s" if "x AND s = s" for x y z s :: u32
    using or_covers [OF that, of "y OR z"] by (simp add: or.assoc)
  have "uc_state (entry u4 k) = UC_HAVE_SYDY"
    using at_entry_entry [OF grant_accepted(1) [OF ok3 sync(1) dm3, of e3]] sync(2) covers [OF had] a2(4,5)
    by (simp add: u4_def at_entry_entry [OF a3] grant_entry_def grant_sydy_def unicast_fsm_def or.assoc)
  with at_entry_entry [OF a1] show ?thesis
    by (simp add: u1_def u2_def u3_def u4_def)
qed

subsection \<open>A negotiation between two ports\<close>

text \<open>
  The transport notes the address a message came from. \<open>deliver\<close> hands messages to a port
  one after the other and collects its answers.
\<close>

definition arrive :: "u8 list \<Rightarrow> signaling_msg \<Rightarrow> signaling_msg" where
  "arrive addr m = m\<lparr>sg_header := (sg_header m)\<lparr>m_address := addr\<rparr>\<rparr>"

fun deliver :: "(nat \<Rightarrow> nat \<Rightarrow> 'd signaling_env) \<Rightarrow> ClockData \<Rightarrow> nat \<Rightarrow> u8 list \<Rightarrow> 'd unicast_port \<Rightarrow> signaling_msg list
    \<Rightarrow> 'd unicast_port \<times> signaling_msg list" where
  "deliver es c n addr u [] = (u, [])"
| "deliver es c n addr u (m # ms) =
     (let (u, out, _) = portMsgProSignaling (es n) c u (arrive addr m);
          (u, rest) = deliver es c (n + 1) addr u ms
      in (u, out @ rest))"

text \<open>Requests of a client at address \<open>ca\<close> to a server at \<open>sa\<close>, and the answers back.\<close>

definition negotiation_round :: "(nat \<Rightarrow> nat \<Rightarrow> nat \<Rightarrow> 'd signaling_env) \<Rightarrow> ClockData \<Rightarrow> ClockData \<Rightarrow> u8 list \<Rightarrow> u8 list
    \<Rightarrow> 'd unicast_port \<Rightarrow> 'd unicast_port \<Rightarrow> signaling_msg list \<Rightarrow> 'd unicast_port \<times> 'd unicast_port" where
  "negotiation_round es cc cs ca sa cl sv reqs =
     (let (sv, grants) = deliver (es 0) cs 0 ca sv reqs;
          (cl, _) = deliver (es 1) cc 0 sa cl grants
      in (cl, sv))"

definition working :: "'d signaling_env \<Rightarrow> bool" where
  "working e \<longleftrightarrow> pool (s_env e) \<noteq> [] \<and> tx_ok (s_env e) 0 \<and> (\<forall>k. descr_ok e k)
     \<and> al_client (s_alloc e) \<and> al_interval (s_alloc e) \<noteq> None \<and> al_queue (s_alloc e)"

definition signaling_enabled :: "'d unicast_port \<Rightarrow> bool" where
  "signaling_enabled u \<longleftrightarrow> state (u_port u) \<notin> {PS_INITIALIZING, PS_FAULTY, PS_DISABLED}"

lemma signaling_handled:
  "signaling_enabled u \<Longrightarrow> portMsgProSignaling es c u m = signaling_tlvs es c 0 u m False (sg_tlvs m)"
  by (auto simp: signaling_enabled_def portMsgProSignaling_def split: PORT_STATE.split)

text \<open>What a sender leaves unchanged.\<close>

definition sender_same :: "'d unicast_port \<Rightarrow> 'd unicast_port \<Rightarrow> bool" where
  "sender_same u' u \<longleftrightarrow> (\<exists>q. u' = u\<lparr>seq_signaling := q\<rparr>)"

definition appends :: "(signaling_msg \<Rightarrow> signaling_msg option) \<Rightarrow> unicast_tlv list \<Rightarrow> bool" where
  "appends attach ts \<longleftrightarrow> (\<forall>m. sg_tlvs m = [] \<longrightarrow> (\<exists>h. attach m = Some (m\<lparr>sg_header := h, sg_tlvs := ts\<rparr>)
     \<and> sourcePortIdentity h = sourcePortIdentity (sg_header m)))"

lemma working_appends:
  assumes "working e"
  shows "appends (attach_request (descr_ok e) i t d) [RequestTlv \<lparr>r_message_type = push_bit 4 t, r_logInterMessagePeriod = i, r_durationField = d\<rparr>]"
    "appends (attach_grant (descr_ok e) req d) [GrantTlv \<lparr>g_message_type = r_message_type req,
       g_logInterMessagePeriod = r_logInterMessagePeriod req, g_durationField = d, g_flags = 1\<rparr>]"
    "delayMechanism (u_port u) \<noteq> DM_P2P \<Longrightarrow> appends (attach_sydy e u)
       [RequestTlv \<lparr>r_message_type = push_bit 4 SYNC, r_logInterMessagePeriod = logSyncInterval (u_port u), r_durationField = unicast_req_duration u\<rparr>,
        RequestTlv \<lparr>r_message_type = push_bit 4 DELAY_RESP, r_logInterMessagePeriod = logMinDelayReqInterval (u_port u), r_durationField = unicast_req_duration u\<rparr>]"
  using assms by (auto simp: appends_def attach_request_def attach_grant_def attach_sydy_def attach_tlv_def working_def)

lemma send_works:
  assumes "working e" "appends attach ts"
  obtains u' g where "send_signaling e c u addr tpid attach = (u', [g], False)" "sg_tlvs g = ts" "targetPortIdentity g = tpid"
    "sourcePortIdentity (sg_header g) = portIdentity (u_port u)" "sender_same u' u"
proof -
  obtain i rest where pool: "pool (s_env e) = i # rest" using assms(1) by (auto simp: working_def neq_Nil_conv)
  obtain m u1 where m: "port_signaling_construct c u i addr tpid = (m, u1)" by fastforce
  then have m': "sg_tlvs m = []" "targetPortIdentity m = tpid" "sourcePortIdentity (sg_header m) = portIdentity (u_port u)"
    "u1 = u\<lparr>seq_signaling := seq_signaling u + 1\<rparr>"
    by (auto simp: port_signaling_construct_def Let_def)
  obtain h where h: "attach m = Some (m\<lparr>sg_header := h, sg_tlvs := ts\<rparr>)" "sourcePortIdentity h = sourcePortIdentity (sg_header m)"
    using assms(2) m'(1) unfolding appends_def by blast
  obtain h' where h': "prepare_and_send (s_env e) (u_port u1) 0 False h = Some h'" "sourcePortIdentity h' = sourcePortIdentity h"
    using assms(1) by (auto simp: prepare_and_send_def working_def Let_def)
  show thesis
    by (rule that [of u1 "m\<lparr>sg_header := h', sg_tlvs := ts\<rparr>"])
      (use pool m m' h h' in \<open>auto simp: send_signaling_def sender_same_def\<close>)
qed

lemma server_grants:
  assumes "working e" "service u = Some s"
    and t: "drop_bit 4 (r_message_type req) = ANNOUNCE \<or> drop_bit 4 (r_message_type req) = SYNC \<or> drop_bit 4 (r_message_type req) = DELAY_RESP"
  obtains u' g where "signaling_tlv e c u m err (RequestTlv req) = (u', [g], False)"
    "sg_tlvs g = [GrantTlv \<lparr>g_message_type = r_message_type req, g_logInterMessagePeriod = r_logInterMessagePeriod req,
       g_durationField = r_durationField req, g_flags = 1\<rparr>]"
    "targetPortIdentity g = sourcePortIdentity (sg_header m)" "sourcePortIdentity (sg_header g) = portIdentity (u_port u)"
    "service u' \<noteq> None" "state (u_port u') = state (u_port u)" "portIdentity (u_port u') = portIdentity (u_port u)"
proof -
  obtain d ivs interval client where loop: "add_loop (\<lambda>c. addreq (trp_type u) (ca_addr c) (m_address (sg_header m)))
      (mtype_mask (drop_bit 4 (r_message_type req))) (unicast_service_extend (it_sec (mono_itimer e)) (r_durationField req))
      (r_logInterMessagePeriod req) (intervals s) None None = (d, ivs, interval, client)"
    using prod_cases4 by blast
  obtain s' rearm where add: "unicast_service_add (trp_type u) (mono_itimer e) (s_alloc e) (Some s) (sourcePortIdentity (sg_header m))
      (m_address (sg_header m)) req = (SERVICE_GRANTED, Some s', rearm)"
    using t assms(1) loop
    by (cases d; cases client; cases interval; cases "initialize_interval (mono_itimer e) (r_logInterMessagePeriod req)")
      (auto simp: unicast_service_add_def working_def Let_def pqueue_insert_def split: option.split prod.split)
  obtain u1 where u1: "service_request e u m req = (SERVICE_GRANTED, u1)" "service u1 = Some s'"
    using add assms(2) by (auto simp: service_request_def Let_def)
  obtain u' g where g: "send_signaling e c u1 (m_address (sg_header m)) (sourcePortIdentity (sg_header m))
        (attach_grant (descr_ok e) req (r_durationField req)) = (u', [g], False)"
    "sg_tlvs g = [GrantTlv \<lparr>g_message_type = r_message_type req, g_logInterMessagePeriod = r_logInterMessagePeriod req,
       g_durationField = r_durationField req, g_flags = 1\<rparr>]"
    "targetPortIdentity g = sourcePortIdentity (sg_header m)" "sourcePortIdentity (sg_header g) = portIdentity (u_port u1)"
    "sender_same u' u1"
    by (rule send_works [OF assms(1) working_appends(2) [OF assms(1)]])
  note keeps = service_request_keeps [OF u1(1)]
  show thesis
    by (rule that [of u' g]) (use g u1 keeps in \<open>auto simp: signaling_tlv_def unicast_service_grant_def
        unicast_service_reply_def sender_same_def\<close>)
qed

definition known_master :: "'d unicast_port \<Rightarrow> u8 list \<Rightarrow> nat \<Rightarrow> bool" where
  "known_master u sa k \<longleftrightarrow> (\<exists>t. unicast_table (u_port u) = Some t
     \<and> find_index (\<lambda>a. addreq (trp_type u) (uc_address a) sa) (addrs t) = Some k)"

lemma known_master_ok:
  "known_master u sa k \<longleftrightarrow> unicast_client_ok u (arrive sa \<lparr>sg_header = zero_msg 0, targetPortIdentity = portIdentity (u_port u), sg_tlvs = []\<rparr>) = Some k"
  by (auto simp: known_master_def unicast_client_ok_def arrive_def split: option.splits)

lemma known_master_cong: "same_addresses u v \<Longrightarrow> known_master u sa k = known_master v sa k"
  unfolding known_master_ok using client_ok_cong [of u v] by (simp add: same_addresses_def)

lemma client_granted:
  assumes "signaling_enabled u" "known_master u sa k" "delayMechanism (u_port u) \<noteq> DM_P2P"
    "sg_tlvs g = [GrantTlv gr]" "g_durationField gr \<noteq> 0" "targetPortIdentity g = portIdentity (u_port u)" "at_entry u k a"
  obtains u' now where "portMsgProSignaling es c u (arrive sa g) = (u', [], False)"
    "at_entry u' k (grant_entry now (sourcePortIdentity (sg_header g)) (drop_bit 4 (g_message_type gr)) (g_durationField gr)
        (a\<lparr>granted := granted a OR mtype_mask (drop_bit 4 (g_message_type gr))\<rparr>))"
    "same_addresses u' u" "signaling_enabled u'" "delayMechanism (u_port u') \<noteq> DM_P2P"
    "unicast_req_duration u' = unicast_req_duration u"
proof -
  have ok: "unicast_client_ok u (arrive sa g) = Some k"
    using assms(2,6) by (auto simp: known_master_def unicast_client_ok_def arrive_def)
  note g = grant_accepted [OF ok assms(5,3), of "es 0"]
  show thesis
    by (rule that [of "unicast_client_grant (es 0) u (arrive sa g) gr" "mono_seconds (es 0)"])
      (use assms g at_entry_entry [OF assms(7)] in
        \<open>auto simp: signaling_handled signaling_tlv_def arrive_def signaling_enabled_def\<close>)
qed

lemma same_sender: "sender_same u' u \<Longrightarrow> same_addresses u' u \<and> u_port u' = u_port u \<and> unicast_req_duration u' = unicast_req_duration u
    \<and> (signaling_enabled u' = signaling_enabled u) \<and> (at_entry u' k a = at_entry u k a)"
  by (auto simp: sender_same_def same_addresses_def signaling_enabled_def at_entry_def)

lemma shift_back: "drop_bit 4 (push_bit 4 ANNOUNCE) = ANNOUNCE" "drop_bit 4 (push_bit 4 SYNC) = SYNC"
  "drop_bit 4 (push_bit 4 DELAY_RESP) = DELAY_RESP"
  by simp_all

lemma server_grants_type:
  assumes "working e" "service u = Some s" "t = ANNOUNCE \<or> t = SYNC \<or> t = DELAY_RESP"
  obtains u' g where "signaling_tlv e c u m err (RequestTlv \<lparr>r_message_type = push_bit 4 t, r_logInterMessagePeriod = i, r_durationField = d\<rparr>) = (u', [g], False)"
    "sg_tlvs g = [GrantTlv \<lparr>g_message_type = push_bit 4 t, g_logInterMessagePeriod = i, g_durationField = d, g_flags = 1\<rparr>]"
    "targetPortIdentity g = sourcePortIdentity (sg_header m)" "sourcePortIdentity (sg_header g) = portIdentity (u_port u)"
    "service u' \<noteq> None" "signaling_enabled u' = signaling_enabled u" "portIdentity (u_port u') = portIdentity (u_port u)"
proof -
  let ?r = "\<lparr>r_message_type = push_bit 4 t, r_logInterMessagePeriod = i, r_durationField = d\<rparr>"
  have "drop_bit 4 (r_message_type ?r) = ANNOUNCE \<or> drop_bit 4 (r_message_type ?r) = SYNC \<or> drop_bit 4 (r_message_type ?r) = DELAY_RESP"
    using assms(3) by (elim disjE) (simp_all add: shift_back)
  from assms(1,2) this obtain u' g where "signaling_tlv e c u m err (RequestTlv ?r) = (u', [g], False)"
    "sg_tlvs g = [GrantTlv \<lparr>g_message_type = r_message_type ?r, g_logInterMessagePeriod = r_logInterMessagePeriod ?r,
       g_durationField = r_durationField ?r, g_flags = 1\<rparr>]"
    "targetPortIdentity g = sourcePortIdentity (sg_header m)" "sourcePortIdentity (sg_header g) = portIdentity (u_port u)"
    "service u' \<noteq> None" "state (u_port u') = state (u_port u)" "portIdentity (u_port u') = portIdentity (u_port u)"
    by (rule server_grants)
  then show thesis by (intro that [of u' g]) (simp_all add: signaling_enabled_def)
qed

lemma client_granted_type:
  assumes "signaling_enabled u" "known_master u sa k" "delayMechanism (u_port u) \<noteq> DM_P2P" "at_entry u k a"
    and t: "t = ANNOUNCE \<or> t = SYNC \<or> t = DELAY_RESP" and d: "d \<noteq> 0"
    and g: "sg_tlvs g = [GrantTlv \<lparr>g_message_type = push_bit 4 t, g_logInterMessagePeriod = i, g_durationField = d, g_flags = 1\<rparr>]"
    "targetPortIdentity g = portIdentity (u_port u)"
  obtains u' now where "portMsgProSignaling es c u (arrive sa g) = (u', [], False)"
    "at_entry u' k (grant_entry now (sourcePortIdentity (sg_header g)) t d (a\<lparr>granted := granted a OR mtype_mask t\<rparr>))"
    "known_master u' sa k" "portIdentity (u_port u') = portIdentity (u_port u)" "signaling_enabled u'"
    "delayMechanism (u_port u') \<noteq> DM_P2P" "unicast_req_duration u' = unicast_req_duration u"
proof -
  let ?g = "\<lparr>g_message_type = push_bit 4 t, g_logInterMessagePeriod = i, g_durationField = d, g_flags = 1\<rparr>"
  have d': "g_durationField ?g \<noteq> 0" using d by simp
  have t': "drop_bit 4 (g_message_type ?g) = t" using t by (elim disjE) (simp_all add: shift_back)
  obtain u' now where "portMsgProSignaling es c u (arrive sa g) = (u', [], False)"
    "at_entry u' k (grant_entry now (sourcePortIdentity (sg_header g)) (drop_bit 4 (g_message_type ?g)) (g_durationField ?g)
        (a\<lparr>granted := granted a OR mtype_mask (drop_bit 4 (g_message_type ?g))\<rparr>))"
    "same_addresses u' u" "signaling_enabled u'" "delayMechanism (u_port u') \<noteq> DM_P2P"
    "unicast_req_duration u' = unicast_req_duration u"
    by (rule client_granted [OF assms(1-3) g(1) d' g(2) assms(4)])
  then show thesis
    using assms(2) known_master_cong [of u' u sa k] by (intro that [of u' now]) (simp_all add: t' [simplified] same_addresses_def)
qed

lemma handled_requests:
  "signaling_enabled u \<Longrightarrow> sg_tlvs m = ts \<Longrightarrow>
    portMsgProSignaling es c u (arrive addr m) = signaling_tlvs es c 0 u (arrive addr m) False ts"
  by (simp add: signaling_handled arrive_def)

lemma arrive_source [simp]: "sourcePortIdentity (sg_header (arrive addr m)) = sourcePortIdentity (sg_header m)"
  by (simp add: arrive_def)

text \<open>
  C35: liveness of the negotiation. When buffers, allocations and transmissions work, a client
  that waits has the Announce messages of a master after one exchange of signaling messages,
  and after the master was selected, one more exchange of the two requests and two grants
  subscribes it to synchronization, with the master's port in its entry.
\<close>

theorem negotiation_subscribes:
  assumes env: "working e1" "working e2" "\<And>i j n. working (es1 i j n)" "\<And>i j n. working (es2 i j n)"
    and cl: "signaling_enabled cl" "known_master cl sa k" "delayMechanism (u_port cl) \<noteq> DM_P2P" "unicast_req_duration cl \<noteq> 0"
    and waiting: "uc_state (entry cl k) = UC_WAIT" "sydymsk (entry cl k) = 2561"
    and sv: "signaling_enabled sv" "service sv \<noteq> None"
  shows "(let (cl1, reqs, _) = unicast_client_announce e1 cc cl (entry cl k);
              (cl2, sv1) = negotiation_round es1 cc cs ca sa cl1 sv reqs;
              cl3 = state_changed (portIdentity (u_port sv)) cl2;
              (cl4, reqs, _) = unicast_client_sydy e2 cc cl3 (entry cl3 k);
              (cl5, sv2) = negotiation_round es2 cc cs ca sa cl4 sv1 reqs
          in uc_state (entry cl2 k) = UC_HAVE_ANN \<and> uc_state (entry cl5 k) = UC_HAVE_SYDY
            \<and> uc_portIdentity (entry cl5 k) = portIdentity (u_port sv))"
proof -
  obtain s where s: "service sv = Some s" using sv(2) by blast
  have types: "ANNOUNCE = ANNOUNCE \<or> ANNOUNCE = SYNC \<or> ANNOUNCE = DELAY_RESP" "SYNC = ANNOUNCE \<or> SYNC = SYNC \<or> SYNC = DELAY_RESP"
    "DELAY_RESP = ANNOUNCE \<or> DELAY_RESP = SYNC \<or> DELAY_RESP = DELAY_RESP" by simp_all
  have a0: "at_entry cl k (entry cl k)"
    using cl(2) by (auto simp: known_master_def at_entry_def entry_def dest!: find_index_Some)
  let ?a = "entry cl k" and ?d = "unicast_req_duration cl" and ?id = "portIdentity (u_port sv)"
  let ?rq = "\<lambda>t i. RequestTlv \<lparr>r_message_type = push_bit 4 t, r_logInterMessagePeriod = i, r_durationField = ?d\<rparr>"
  \<comment> \<open>Announce\<close>
  obtain cl1 m1 where m1: "unicast_client_announce e1 cc cl ?a = (cl1, [m1], False)"
    "sg_tlvs m1 = [?rq ANNOUNCE (logAnnounceInterval (u_port cl))]"
    "sourcePortIdentity (sg_header m1) = portIdentity (u_port cl)" "sender_same cl1 cl"
    unfolding unicast_client_announce_def
    by (rule send_works [OF env(1) working_appends(1) [OF env(1)]])
  note c1 = same_sender [OF m1(4)]
  have e1: "signaling_enabled cl1" "known_master cl1 sa k" "delayMechanism (u_port cl1) \<noteq> DM_P2P" "at_entry cl1 k ?a"
    "portIdentity (u_port cl1) = portIdentity (u_port cl)" "unicast_req_duration cl1 = ?d"
    using c1 cl a0 known_master_cong [of cl1 cl sa k] by auto
  obtain sv1 g1 where g1: "signaling_tlv (es1 0 0 0) cs sv (arrive ca m1) False (?rq ANNOUNCE (logAnnounceInterval (u_port cl))) = (sv1, [g1], False)"
    "sg_tlvs g1 = [GrantTlv \<lparr>g_message_type = push_bit 4 ANNOUNCE, g_logInterMessagePeriod = logAnnounceInterval (u_port cl),
       g_durationField = ?d, g_flags = 1\<rparr>]"
    "targetPortIdentity g1 = sourcePortIdentity (sg_header (arrive ca m1))" "sourcePortIdentity (sg_header g1) = ?id"
    "service sv1 \<noteq> None" "signaling_enabled sv1 = signaling_enabled sv" "portIdentity (u_port sv1) = ?id"
    by (rule server_grants_type [OF env(3) s types(1)])
  have target1: "targetPortIdentity g1 = portIdentity (u_port cl1)" using g1(3) m1(3) e1(5) by simp
  obtain cl2 now1 where c2: "portMsgProSignaling (es1 1 0) cc cl1 (arrive sa g1) = (cl2, [], False)"
    "at_entry cl2 k (grant_entry now1 (sourcePortIdentity (sg_header g1)) ANNOUNCE ?d (?a\<lparr>granted := granted ?a OR mtype_mask ANNOUNCE\<rparr>))"
    "known_master cl2 sa k" "portIdentity (u_port cl2) = portIdentity (u_port cl1)" "signaling_enabled cl2"
    "delayMechanism (u_port cl2) \<noteq> DM_P2P" "unicast_req_duration cl2 = unicast_req_duration cl1"
    by (rule client_granted_type [OF e1(1-4) types(1) cl(4) g1(2) target1])
  define a2 where "a2 = grant_entry now1 (sourcePortIdentity (sg_header g1)) ANNOUNCE ?d (?a\<lparr>granted := granted ?a OR mtype_mask ANNOUNCE\<rparr>)"
  have a2: "uc_state a2 = UC_HAVE_ANN" "uc_portIdentity a2 = ?id" "granted a2 = granted ?a OR mtype_mask ANNOUNCE" "sydymsk a2 = 2561"
    using waiting g1(4) by (simp_all add: a2_def grant_entry_def unicast_fsm_def)
  have r1: "negotiation_round es1 cc cs ca sa cl1 sv [m1] = (cl2, sv1)"
    by (simp add: negotiation_round_def handled_requests [OF sv(1) m1(2)] g1(1) [simplified] c2(1) [simplified])
  \<comment> \<open>Selection\<close>
  define cl3 where "cl3 = state_changed ?id cl2"
  have a3: "at_entry cl3 k (a2\<lparr>uc_state := UC_NEED_SYDY\<rparr>)"
    using at_select [OF c2(2) [folded a2_def], of ?id] a2 by (simp add: cl3_def unicast_select_def unicast_fsm_def)
  have e3: "signaling_enabled cl3" "known_master cl3 sa k" "delayMechanism (u_port cl3) \<noteq> DM_P2P" "unicast_req_duration cl3 = ?d"
    using c2 e1(6) known_master_cong [OF select_same_addresses] by (auto simp: cl3_def state_changed_def signaling_enabled_def)
  \<comment> \<open>Sync and Delay_Resp\<close>
  let ?is = "logSyncInterval (u_port cl3)" and ?ir = "logMinDelayReqInterval (u_port cl3)"
  obtain cl4 m2 where m2: "send_signaling e2 cc cl3 (uc_address (entry cl3 k)) (uc_portIdentity (entry cl3 k)) (attach_sydy e2 cl3) = (cl4, [m2], False)"
    "sg_tlvs m2 = [RequestTlv \<lparr>r_message_type = push_bit 4 SYNC, r_logInterMessagePeriod = ?is, r_durationField = unicast_req_duration cl3\<rparr>,
        RequestTlv \<lparr>r_message_type = push_bit 4 DELAY_RESP, r_logInterMessagePeriod = ?ir, r_durationField = unicast_req_duration cl3\<rparr>]"
    "targetPortIdentity m2 = uc_portIdentity (entry cl3 k)"
    "sourcePortIdentity (sg_header m2) = portIdentity (u_port cl3)" "sender_same cl4 cl3"
    by (rule send_works [OF env(2) working_appends(3) [OF env(2) e3(3)]])
  note c4 = same_sender [OF m2(5)]
  have e4: "signaling_enabled cl4" "known_master cl4 sa k" "delayMechanism (u_port cl4) \<noteq> DM_P2P" "at_entry cl4 k (a2\<lparr>uc_state := UC_NEED_SYDY\<rparr>)"
    "portIdentity (u_port cl4) = portIdentity (u_port cl3)" "unicast_req_duration cl4 = ?d"
    using c4 e3 a3 known_master_cong [of cl4 cl3 sa k] by auto
  have sv1: "signaling_enabled sv1" using g1(6) sv(1) by simp
  obtain s1 where s1: "service sv1 = Some s1" using g1(5) by blast
  obtain sv2 g2 where g2: "signaling_tlv (es2 0 0 0) cs sv1 (arrive ca m2) False (?rq SYNC ?is) = (sv2, [g2], False)"
    "sg_tlvs g2 = [GrantTlv \<lparr>g_message_type = push_bit 4 SYNC, g_logInterMessagePeriod = ?is, g_durationField = ?d, g_flags = 1\<rparr>]"
    "targetPortIdentity g2 = sourcePortIdentity (sg_header (arrive ca m2))" "sourcePortIdentity (sg_header g2) = portIdentity (u_port sv1)"
    "service sv2 \<noteq> None" "signaling_enabled sv2 = signaling_enabled sv1" "portIdentity (u_port sv2) = portIdentity (u_port sv1)"
    by (rule server_grants_type [OF env(4) s1 types(2)])
  obtain s2 where s2: "service sv2 = Some s2" using g2(5) by blast
  obtain sv3 g3 where g3: "signaling_tlv (es2 0 0 1) cs sv2 (arrive ca m2) False (?rq DELAY_RESP ?ir) = (sv3, [g3], False)"
    "sg_tlvs g3 = [GrantTlv \<lparr>g_message_type = push_bit 4 DELAY_RESP, g_logInterMessagePeriod = ?ir, g_durationField = ?d, g_flags = 1\<rparr>]"
    "targetPortIdentity g3 = sourcePortIdentity (sg_header (arrive ca m2))" "sourcePortIdentity (sg_header g3) = portIdentity (u_port sv2)"
    "service sv3 \<noteq> None" "signaling_enabled sv3 = signaling_enabled sv2" "portIdentity (u_port sv3) = portIdentity (u_port sv2)"
    by (rule server_grants_type [OF env(4) s2 types(3)])
  have target2: "targetPortIdentity g2 = portIdentity (u_port cl4)" using g2(3) m2(4) e4(5) by simp
  obtain cl5 now2 where c5: "portMsgProSignaling (es2 1 0) cc cl4 (arrive sa g2) = (cl5, [], False)"
    "at_entry cl5 k (grant_entry now2 (sourcePortIdentity (sg_header g2)) SYNC ?d
       ((a2\<lparr>uc_state := UC_NEED_SYDY\<rparr>)\<lparr>granted := granted (a2\<lparr>uc_state := UC_NEED_SYDY\<rparr>) OR mtype_mask SYNC\<rparr>))"
    "known_master cl5 sa k" "portIdentity (u_port cl5) = portIdentity (u_port cl4)" "signaling_enabled cl5"
    "delayMechanism (u_port cl5) \<noteq> DM_P2P" "unicast_req_duration cl5 = unicast_req_duration cl4"
    by (rule client_granted_type [OF e4(1-4) types(2) cl(4) g2(2) target2])
  define a5 where "a5 = grant_entry now2 (sourcePortIdentity (sg_header g2)) SYNC ?d
       ((a2\<lparr>uc_state := UC_NEED_SYDY\<rparr>)\<lparr>granted := granted (a2\<lparr>uc_state := UC_NEED_SYDY\<rparr>) OR mtype_mask SYNC\<rparr>)"
  have a5: "uc_state a5 = UC_NEED_SYDY \<or> uc_state a5 = UC_HAVE_SYDY" "uc_portIdentity a5 = ?id" "sydymsk a5 = 2561"
    "granted a5 = granted ?a OR mtype_mask ANNOUNCE OR mtype_mask SYNC"
    using a2 by (simp_all add: a5_def grant_entry_def grant_sydy_def unicast_fsm_def or.assoc)
  have target3: "targetPortIdentity g3 = portIdentity (u_port cl5)" using g3(3) m2(4) e4(5) c5(4) by simp
  obtain cl6 now3 where c6: "portMsgProSignaling (es2 1 1) cc cl5 (arrive sa g3) = (cl6, [], False)"
    "at_entry cl6 k (grant_entry now3 (sourcePortIdentity (sg_header g3)) DELAY_RESP ?d (a5\<lparr>granted := granted a5 OR mtype_mask DELAY_RESP\<rparr>))"
    "known_master cl6 sa k" "portIdentity (u_port cl6) = portIdentity (u_port cl5)" "signaling_enabled cl6"
    "delayMechanism (u_port cl6) \<noteq> DM_P2P" "unicast_req_duration cl6 = unicast_req_duration cl5"
    by (rule client_granted_type [OF c5(5,3,6,2) [folded a5_def] types(3) cl(4) g3(2) target3])
  have covered: "(x OR mtype_mask ANNOUNCE OR mtype_mask SYNC OR mtype_mask DELAY_RESP) AND 2561 = (2561 :: u32)" for x
  proof -
    have "mtype_mask ANNOUNCE OR mtype_mask SYNC OR mtype_mask DELAY_RESP = 2561" by (simp add: mtype_mask_def)
    then show ?thesis using or_and_absorb [of x 2561] by simp
  qed
  have a6: "uc_state (entry cl6 k) = UC_HAVE_SYDY" "uc_portIdentity (entry cl6 k) = ?id"
    using a5 covered by (auto simp: at_entry_entry [OF c6(2)] grant_entry_def grant_sydy_def unicast_fsm_def or.assoc)
  have r2: "negotiation_round es2 cc cs ca sa cl4 sv1 [m2] = (cl6, sv3)"
    using g2(1) [simplified] g3(1) [simplified] e3(4)
    by (simp add: negotiation_round_def handled_requests [OF sv1 m2(2)] c5(1) [simplified] c6(1) [simplified])
  show ?thesis
    using a6 at_entry_entry [OF c2(2)] a2(1)
    by (simp add: m1(1) r1 m2(1) r2 a2_def unicast_client_sydy_def flip: cl3_def)
qed

subsection \<open>Concrete ports\<close>

definition sample_entry :: "unicast_state \<Rightarrow> u32 \<Rightarrow> unicast_master_address" where
  "sample_entry st bits = \<lparr>uc_portIdentity = wildcard, uc_type = 1, uc_state = st, uc_address = replicate 20 7,
     granted = bits, sydymsk = 2561, renewal_tmo = 0\<rparr>"

definition sample_unicast :: "unicast_master_table option \<Rightarrow> unicast_service option \<Rightarrow> int unicast_port" where
  "sample_unicast t s = \<lparr>u_port = (sample_port 1)\<lparr>state := PS_LISTENING, delayMechanism := DM_E2E, unicast_table := t\<rparr>,
     trp_type = 1, seq_signaling = 0, unicast_req_duration = 300, service = s,
     rates = \<lparr>sr_freq_est_interval = 1, sr_stats_interval = 0, fest_max_count = 2, stats_max_count = 1, servo_log_interval = 0\<rparr>\<rparr>"

definition sample_client :: "unicast_state \<Rightarrow> u32 \<Rightarrow> int unicast_port" where
  "sample_client st bits = sample_unicast (Some \<lparr>addrs = [sample_entry st bits], logQueryInterval = 0,
     peer_addr = sample_entry UC_WAIT 0, has_peer = False\<rparr>) None"

definition sample_signaling_env :: "nat \<Rightarrow> int signaling_env" where
  "sample_signaling_env i = \<lparr>s_env = sample_env, descr_ok = (\<lambda>_. True), s_alloc = good_alloc i\<rparr>"

lemma sample_signaling_working: "working (sample_signaling_env i)"
  by (simp add: working_def sample_signaling_env_def sample_env_def good_alloc_def)

lemma sample_address: "addreq 1 (replicate 20 7) (replicate 20 7)"
  by code_simp

lemma sample_client_facts:
  "signaling_enabled (sample_client st bits)" "known_master (sample_client st bits) (replicate 20 7) 0"
  "entry (sample_client st bits) 0 = sample_entry st bits" "delayMechanism (u_port (sample_client st bits)) = DM_E2E"
  using sample_address
  by (simp_all add: sample_client_def sample_unicast_def signaling_enabled_def known_master_def entry_def sample_entry_def)

theorem negotiation_subscribes_witness:
  "(let e = sample_signaling_env; sv = sample_unicast None (Some empty_service); sa = replicate 20 7; ca = replicate 20 9;
        (cl1, reqs, _) = unicast_client_announce (e 0) sample_data (sample_client UC_WAIT 0) (entry (sample_client UC_WAIT 0) 0);
        (cl2, sv1) = negotiation_round (\<lambda>i j n. e 1) sample_data sample_data ca sa cl1 sv reqs;
        cl3 = state_changed (portIdentity (u_port sv)) cl2;
        (cl4, reqs, _) = unicast_client_sydy (e 0) sample_data cl3 (entry cl3 0);
        (cl5, sv2) = negotiation_round (\<lambda>i j n. e 2) sample_data sample_data ca sa cl4 sv1 reqs
    in uc_state (entry cl2 0) = UC_HAVE_ANN \<and> uc_state (entry cl5 0) = UC_HAVE_SYDY
      \<and> uc_portIdentity (entry cl5 0) = portIdentity (u_port sv))"
  unfolding Let_def [of sample_signaling_env] Let_def [of "sample_unicast None (Some empty_service)"]
    Let_def [of "replicate 20 7"] Let_def [of "replicate 20 9"]
  by (rule negotiation_subscribes)
    (simp_all add: sample_signaling_working sample_client_facts sample_entry_def,
     simp_all add: sample_client_def sample_unicast_def signaling_enabled_def)

theorem subscribed_means_granted_witness:
  "table_ok (fst (portMsgProSignaling (\<lambda>_. sample_signaling_env 0) sample_data (sample_client UC_NEED_SYDY 2048)
       \<lparr>sg_header = (zero_msg 0)\<lparr>m_address := replicate 20 7\<rparr>, targetPortIdentity = wildcard,
        sg_tlvs = [GrantTlv \<lparr>g_message_type = 0, g_logInterMessagePeriod = 0, g_durationField = 60, g_flags = 1\<rparr>]\<rparr>))"
proof -
  have "table_ok (sample_client UC_NEED_SYDY 2048)"
    by (simp add: table_ok_def sample_client_def sample_unicast_def sample_entry_def entry_ok_def)
  from subscribed_means_granted [OF this] show ?thesis by blast
qed

definition plain_grant :: "u8 \<Rightarrow> u32 \<Rightarrow> grant_unicast_xmit_tlv" where
  "plain_grant t d = \<lparr>g_message_type = push_bit 4 t, g_logInterMessagePeriod = 0, g_durationField = d, g_flags = 1\<rparr>"

theorem refusal_is_forgotten_witness:
  "(let e = sample_signaling_env 0; u = sample_client UC_HAVE_SYDY 2561;
        m = \<lparr>sg_header = (zero_msg 0)\<lparr>m_address := replicate 20 7\<rparr>, targetPortIdentity = wildcard, sg_tlvs = []\<rparr>;
        u1 = unicast_client_grant e u m (plain_grant DELAY_RESP 0);
        u2 = unicast_client_grant e u1 m (plain_grant ANNOUNCE 60);
        u3 = state_changed (sourcePortIdentity (sg_header m)) u2;
        u4 = unicast_client_grant e u3 m (plain_grant SYNC 60)
    in uc_state (entry u1 0) = UC_WAIT \<and> uc_state (entry u4 0) = UC_HAVE_SYDY)"
proof -
  let ?m = "\<lparr>sg_header = (zero_msg 0)\<lparr>m_address := replicate 20 7\<rparr>, targetPortIdentity = wildcard, sg_tlvs = []\<rparr>"
  have ok: "unicast_client_ok (sample_client UC_HAVE_SYDY 2561) ?m = Some 0"
    using sample_address by (simp add: unicast_client_ok_def sample_client_def sample_unicast_def sample_entry_def)
  have had: "granted (entry (sample_client UC_HAVE_SYDY 2561) 0) AND sydymsk (entry (sample_client UC_HAVE_SYDY 2561) 0)
      = sydymsk (entry (sample_client UC_HAVE_SYDY 2561) 0)"
    by (simp add: sample_client_facts sample_entry_def)
  have dm: "delayMechanism (u_port (sample_client UC_HAVE_SYDY 2561)) \<noteq> DM_P2P" by (simp add: sample_client_facts)
  show ?thesis
    unfolding Let_def [of "sample_signaling_env 0"] Let_def [of "sample_client UC_HAVE_SYDY 2561"] Let_def [of ?m]
    by (rule refusal_is_forgotten [OF ok dm had]) (simp_all add: plain_grant_def)
qed

end
