(* ===== verification/TransEvent.thy ===== *)
theory TransEvent
  imports Forwarding ClockSafety
begin

text \<open>
  The event functions \<open>p2p_event\<close> and \<open>e2e_event\<close> of the ports of a transparent clock
  (src/ptpPortDevTransp.c). A received message is forwarded as it is; a duplicate in host order
  is handed to the handlers of the ordinary clock, so that the transparent clock follows the
  master itself. The buffers of the message and of the duplicate are released at the end.
\<close>

subsection \<open>Timers\<close>

definition p2pDelayRequest :: "'d env \<Rightarrow> ClockData \<Rightarrow> 'd PtpPort \<Rightarrow> ('d PtpPort \<times> ptp_message list \<times> bool) option" where
  "p2pDelayRequest e c p =
    (case state p of
       PS_INITIALIZING \<Rightarrow> Some (p, [], False)
     | PS_FAULTY \<Rightarrow> Some (p, [], False)
     | PS_DISABLED \<Rightarrow> Some (p, [], False)
     | _ \<Rightarrow> port_delay_request e c p)"

text \<open>An end to end port measures only while it follows a master and the clock is not free running.\<close>

definition e2e_delay_request :: "'d env \<Rightarrow> bool \<Rightarrow> ClockData \<Rightarrow> 'd PtpPort
    \<Rightarrow> ('d PtpPort \<times> ptp_message list \<times> bool) option" where
  "e2e_delay_request e free_running c p =
    (if \<not> free_running \<and> (state p = PS_UNCALIBRATED \<or> state p = PS_SLAVE)
     then port_delay_request e c p else Some (p, [], False))"

definition tc_timer_event :: "bool \<Rightarrow> 'd env \<Rightarrow> bool \<Rightarrow> ClockData \<Rightarrow> 'd PtpPort \<Rightarrow> FD
    \<Rightarrow> ('d PtpPort \<times> PORT_EVENT \<times> ptp_message list) option" where
  "tc_timer_event p2p e free_running c p fd =
    (let timed_out = Some (port_set_announce_tmo e (clear_best p), EV_ANNOUNCE_RECEIPT_TIMEOUT_EXPIRES, []) in
     case fd of
       FD_ANNOUNCE_TIMER \<Rightarrow> timed_out
     | FD_SYNC_RX_TIMER \<Rightarrow> timed_out
     | FD_DELAY_TIMER \<Rightarrow>
         (let p = port_set_delay_tmo e p;
              p = (if p2p then p else delay_req_prune e p);
              p = tc_prune e p
          in map_option (\<lambda>(p, sent, err). (p, fault_if err, sent))
               (if p2p then p2pDelayRequest e c p else e2e_delay_request e free_running c p))
     | FD_QUALIFICATION_TIMER \<Rightarrow> Some (p, EV_QUALIFICATION_TIMEOUT_EXPIRES, [])
     | _ \<Rightarrow> Some (p, EV_NONE, []))"

subsection \<open>Messages\<close>

text \<open>
  What an event leaves: the clock's data, the ports, the event, the calls to the clock and the
  messages sent, each with its port.
\<close>

record 'd tc_result =
  t_data :: ClockData
  t_ports :: "'d PtpPort list"
  t_event :: PORT_EVENT
  t_calls :: "'d clock_call list"
  t_sent :: "(nat \<times> ptp_message) list"
  t_sde :: bool

abbreviation tc_outcome :: "ClockData \<Rightarrow> 'd PtpPort list \<Rightarrow> PORT_EVENT \<Rightarrow> 'd clock_call list
    \<Rightarrow> (nat \<times> ptp_message) list \<Rightarrow> 'd tc_result" where
  "tc_outcome c ps event calls sent \<equiv>
    \<lparr>t_data = c, t_ports = ps, t_event = event, t_calls = calls, t_sent = sent, t_sde = False\<rparr>"

text \<open>
  A handler of the ordinary clock on the duplicate, on the ingress port, which dispatches
  through the transparent clock's own function.
\<close>

definition on_port :: "nat \<Rightarrow> 'd PtpPort list \<Rightarrow> (nat \<times> ptp_message) list \<Rightarrow> 'd result \<Rightarrow> 'd tc_result" where
  "on_port qi ps sent r =
    \<lparr>t_data = r_data r, t_ports = ps[qi := r_port r], t_event = r_event r, t_calls = r_calls r,
     t_sent = sent @ map (Pair qi) (r_sent r), t_sde = False\<rparr>"

definition handle_dup :: "bool \<Rightarrow> 'd env \<Rightarrow> bool \<Rightarrow> ClockData \<Rightarrow> nat \<Rightarrow> ptp_message option \<Rightarrow> (nat \<times> ptp_message) list
    \<Rightarrow> 'd PtpPort list \<Rightarrow> 'd tc_result option" where
  "handle_dup p2p e ats c qi dup sent ps =
    (case dup of
       None \<Rightarrow> Some (tc_outcome c ps EV_NONE [] sent)
     | Some d \<Rightarrow> map_option (on_port qi ps sent) (handle_message_by (tc_dispatch p2p e) e ats c (ps ! qi) d))"

text \<open>
  The switch over the message type. Peer delay messages stay on the link in the peer to peer
  variant, where Delay_Req and Delay_Resp are dropped; in the end to end variant it is the other
  way round, and a Delay_Resp is both forwarded and handled. \<open>handle_message_by\<close> is the same
  switch of the ordinary clock, and calls the same handler for the types that come here.
\<close>

definition tc_handle :: "bool \<Rightarrow> (nat \<Rightarrow> 'd env) \<Rightarrow> bool \<Rightarrow> ClockData \<Rightarrow> nat \<Rightarrow> ptp_message \<Rightarrow> ptp_message option
    \<Rightarrow> 'd PtpPort list \<Rightarrow> 'd tc_result option" where
  "tc_handle p2p es ats c qi m dup ps =
    (if msg_type m = SYNC then
       (case tc_fwd_sync p2p es ats c qi m ps of
          None \<Rightarrow> None
        | Some (ps, sent, err) \<Rightarrow>
            if err then Some (tc_outcome c ps EV_FAULT_DETECTED [] sent)
            else handle_dup p2p (es qi) ats c qi dup sent ps)
     else if msg_type m = FOLLOW_UP then
       (case tc_fwd_folup p2p es c 0 qi m ps of
          None \<Rightarrow> None
        | Some (ps, sent) \<Rightarrow> handle_dup p2p (es qi) ats c qi dup sent ps)
     else if msg_type m = DELAY_REQ then
       (if p2p then Some (tc_outcome c ps EV_NONE [] [])
        else map_option (\<lambda>(ps, sent). tc_outcome c ps EV_NONE [] sent) (tc_fwd_request p2p es c qi m ps))
     else if msg_type m = DELAY_RESP then
       (if p2p then Some (tc_outcome c ps EV_NONE [] [])
        else (case tc_fwd_response p2p es c qi m ps of
          None \<Rightarrow> None
        | Some (ps, sent) \<Rightarrow> handle_dup p2p (es qi) ats c qi dup sent ps))
     else if msg_type m = PDELAY_REQ \<or> msg_type m = PDELAY_RESP \<or> msg_type m = PDELAY_RESP_FOLLOW_UP then
       (if p2p then handle_dup p2p (es qi) ats c qi dup [] ps else Some (tc_outcome c ps EV_NONE [] []))
     else if msg_type m = ANNOUNCE then
       (case tc_forward p2p es c qi m ps of
          None \<Rightarrow> None
        | Some (ps, sent) \<Rightarrow> handle_dup p2p (es qi) ats c qi dup sent ps)
     else if msg_type m = SIGNALING \<or> msg_type m = MANAGEMENT then
       map_option (\<lambda>(ps, sent). tc_outcome c ps EV_NONE [] sent) (tc_forward p2p es c qi m ps)
     else Some (tc_outcome c ps EV_NONE [] []))"

definition release :: "nat \<Rightarrow> ptp_message \<Rightarrow> ptp_message option \<Rightarrow> 'd tc_result \<Rightarrow> 'd tc_result" where
  "release qi m dup r = r\<lparr>t_ports := (t_ports r)[qi := (t_ports r ! qi)\<lparr>refs :=
     (let rs = msg_put m (refs (t_ports r ! qi)) in case dup of None \<Rightarrow> rs | Some d \<Rightarrow> msg_put d rs)\<rparr>]\<rparr>"

text \<open>
  The duplicate takes the first buffer of the pool; a Follow_Up that is generated takes the
  next one.
\<close>

definition tc_message_event :: "bool \<Rightarrow> (nat \<Rightarrow> 'd env) \<Rightarrow> bool \<Rightarrow> ClockData \<Rightarrow> nat \<Rightarrow> ptp_message \<Rightarrow> 'd PtpPort list
    \<Rightarrow> 'd tc_result option" where
  "tc_message_event p2p es ats c qi m ps =
    (let m = fst (stamp_received (ps ! qi) m) in
     if msg_unicast m then Some (tc_outcome c ps EV_NONE [] [])
     else case pool (es qi) of
         [] \<Rightarrow> Some (tc_outcome c ps EV_NONE [] [])
       | i # is \<Rightarrow>
         (let d = m\<lparr>mid := i\<rparr>;
              dup = (if tc_ignore c (ps ! qi) d then None else Some d);
              es = es(qi := (es qi)\<lparr>pool := is\<rparr>);
              r = msg_get m (refs (ps ! qi));
              r = (case dup of None \<Rightarrow> r | Some d \<Rightarrow> msg_get d r);
              ps = ps[qi := (ps ! qi)\<lparr>refs := r\<rparr>]
          in map_option (release qi m dup) (tc_handle p2p es ats c qi m dup ps)))"

definition tc_event :: "bool \<Rightarrow> (nat \<Rightarrow> 'd env) \<Rightarrow> bool \<Rightarrow> bool \<Rightarrow> ClockData \<Rightarrow> nat \<Rightarrow> port_input \<Rightarrow> 'd PtpPort list
    \<Rightarrow> 'd tc_result option" where
  "tc_event p2p es ats free_running c qi inp ps =
    (case inp of
       Timer fd \<Rightarrow> map_option (\<lambda>(p, event, sent). tc_outcome c (ps[qi := p]) event [] (map (Pair qi) sent))
         (tc_timer_event p2p (es qi) free_running c (ps ! qi) fd)
     | Receive m \<Rightarrow> tc_message_event p2p es ats c qi m ps
     | ReceiveFailed \<Rightarrow> Some (tc_outcome c ps EV_FAULT_DETECTED [] [])
     | ReceiveBad \<Rightarrow> Some (tc_outcome c ps EV_NONE [] [])
     | Link up label info \<Rightarrow>
         (let r = link_outcome c (link_status_by (\<lambda>p. tc_dispatch p2p (es qi) p EV_FAULT_DETECTED False) (ps ! qi) up label info)
          in Some ((on_port qi ps [] r)\<lparr>t_sde := r_sde r\<rparr>)))"

text \<open>The event functions of the two variants of a transparent clock.\<close>

definition p2p_event :: "(nat \<Rightarrow> 'd env) \<Rightarrow> bool \<Rightarrow> bool \<Rightarrow> ClockData \<Rightarrow> nat \<Rightarrow> port_input \<Rightarrow> 'd PtpPort list
    \<Rightarrow> 'd tc_result option" where
  "p2p_event = tc_event True"

definition e2e_event :: "(nat \<Rightarrow> 'd env) \<Rightarrow> bool \<Rightarrow> bool \<Rightarrow> ClockData \<Rightarrow> nat \<Rightarrow> port_input \<Rightarrow> 'd PtpPort list
    \<Rightarrow> 'd tc_result option" where
  "e2e_event = tc_event False"



subsection \<open>What a step keeps\<close>










subsection \<open>The handlers, with the dispatch of a transparent clock\<close>






subsection \<open>The ports\<close>



















subsection \<open>Events\<close>






subsection \<open>Runs\<close>










end
