(* ===== verification/CText.thy ===== *)
theory CText
  imports Prelude
begin

text \<open>
  Strings of C and the parsers of util.c. A string is the list of its bytes without the
  terminator; \<open>lit\<close> gives the bytes of a literal. The functions of the C library that the
  parsers use (strtol, strtoul, strcasecmp, sscanf with the conversions that occur) are defined
  as the C standard says, for 64 bit longs, in the C locale. Errors of parsing are values, as in
  the code.
\<close>

type_synonym cstr = "u8 list"

definition lit :: "string \<Rightarrow> cstr" where
  "lit s = map of_char s"

subsection \<open>Characters\<close>

definition isspace :: "u8 \<Rightarrow> bool" where
  "isspace c \<longleftrightarrow> c = 32 \<or> (9 \<le> c \<and> c \<le> 13)"

definition lower :: "u8 \<Rightarrow> u8" where
  "lower c = (if 65 \<le> c \<and> c \<le> 90 then c + 32 else c)"

definition strcaseeq :: "cstr \<Rightarrow> cstr \<Rightarrow> bool" where
  "strcaseeq a b \<longleftrightarrow> map lower a = map lower b"

text \<open>The value of a digit; 36 stands for no digit in any base.\<close>

definition digit :: "u8 \<Rightarrow> nat" where
  "digit c = (if 48 \<le> c \<and> c \<le> 57 then unat (c - 48)
     else let l = lower c in if 97 \<le> l \<and> l \<le> 122 then unat (l - 87) else 36)"

subsection \<open>Numbers\<close>

definition digits_value :: "nat \<Rightarrow> cstr \<Rightarrow> int" where
  "digits_value b ds = foldl (\<lambda>v c. v * int b + int (digit c)) 0 ds"

text \<open>A sign and what follows it.\<close>

fun sign :: "cstr \<Rightarrow> bool \<times> cstr" where
  "sign (c # s) = (if c = 45 then (True, s) else if c = 43 then (False, s) else (False, c # s))"
| "sign [] = (False, [])"

text \<open>The base of a number by its prefix, for base 0.\<close>

fun number_base :: "cstr \<Rightarrow> nat \<times> cstr" where
  "number_base (c # x # d # s) =
     (if c = 48 \<and> lower x = 120 \<and> digit d < 16 then (16, d # s)
      else if c = 48 then (8, c # x # d # s) else (10, c # x # d # s))"
| "number_base (c # s) = (if c = 48 then (8, c # s) else (10, c # s))"
| "number_base [] = (10, [])"

text \<open>
  The common part of \<open>strtol\<close> and \<open>strtoul\<close> with base 0: the sign, the magnitude and the rest;
  \<^const>\<open>None\<close> when no number is there.
\<close>

definition scan_number :: "cstr \<Rightarrow> (bool \<times> int \<times> cstr) option" where
  "scan_number s =
     (let (neg, s) = sign (dropWhile isspace s);
          (b, s) = number_base s;
          ds = takeWhile (\<lambda>c. digit c < b) s
      in if ds = [] then None else Some (neg, digits_value b ds, dropWhile (\<lambda>c. digit c < b) s))"

abbreviation (input) LONG_MAX :: int where "LONG_MAX \<equiv> 2 ^ 63 - 1"

text \<open>The value, the rest and whether \<open>errno\<close> is \<open>ERANGE\<close>.\<close>

definition strtol :: "cstr \<Rightarrow> (int \<times> cstr \<times> bool) option" where
  "strtol s = map_option (\<lambda>(neg, v, r).
     (let x = (if neg then - v else v)
      in if x < - (2 ^ 63) then (- (2 ^ 63), r, True)
         else if LONG_MAX < x then (LONG_MAX, r, True) else (x, r, False))) (scan_number s)"

definition strtoul :: "cstr \<Rightarrow> (int \<times> cstr \<times> bool) option" where
  "strtoul s = map_option (\<lambda>(neg, v, r).
     (if 2 ^ 64 \<le> v then (2 ^ 64 - 1, r, True)
      else ((if neg then (- v) mod 2 ^ 64 else v), r, False))) (scan_number s)"

datatype parser_result = NOT_PARSED | PARSED_OK | BAD_VALUE | MALFORMED | OUT_OF_RANGE

definition get_ranged_int :: "cstr \<Rightarrow> int \<Rightarrow> int \<Rightarrow> parser_result + int" where
  "get_ranged_int s lo hi =
     (case strtol s of
        None \<Rightarrow> Inl MALFORMED
      | Some (v, r, erange) \<Rightarrow>
          if r \<noteq> [] then Inl MALFORMED
          else if erange \<or> v < lo \<or> hi < v then Inl OUT_OF_RANGE
          else Inr v)"

definition get_ranged_uint :: "cstr \<Rightarrow> int \<Rightarrow> int \<Rightarrow> parser_result + int" where
  "get_ranged_uint s lo hi =
     (case strtoul s of
        None \<Rightarrow> Inl MALFORMED
      | Some (v, r, erange) \<Rightarrow>
          if r \<noteq> [] then Inl MALFORMED
          else if erange \<or> v < lo \<or> hi < v then Inl OUT_OF_RANGE
          else Inr v)"

text \<open>
  Floating point numbers are a parameter: \<open>strtod\<close> gives value, rest and \<open>ERANGE\<close>, \<open>less\<close> is the
  comparison, which is false when a side is not a number. \<open>d_const\<close> gives the constants that the
  code writes: \<open>Decimal m e\<close> is m times ten to the e.
\<close>

datatype dbl_const = Decimal int int | DBL_MAX | DBL_MIN | NEG_DBL_MAX

record 'd dbl =
  d_const :: "dbl_const \<Rightarrow> 'd"
  strtod :: "cstr \<Rightarrow> ('d \<times> cstr \<times> bool) option"
  d_less :: "'d \<Rightarrow> 'd \<Rightarrow> bool"

definition get_ranged_double :: "'d dbl \<Rightarrow> cstr \<Rightarrow> 'd \<Rightarrow> 'd \<Rightarrow> parser_result + 'd" where
  "get_ranged_double f s lo hi =
     (case strtod f s of
        None \<Rightarrow> Inl MALFORMED
      | Some (v, r, erange) \<Rightarrow>
          if r \<noteq> [] then Inl MALFORMED
          else if erange \<or> d_less f v lo \<or> d_less f hi v then Inl OUT_OF_RANGE
          else Inr v)"

text \<open>Options of the programs: \<^const>\<open>None\<close> is the return of -1.\<close>

definition get_arg_val_i :: "cstr \<Rightarrow> int \<Rightarrow> int \<Rightarrow> int option" where
  "get_arg_val_i s lo hi = (case get_ranged_int s lo hi of Inl _ \<Rightarrow> None | Inr v \<Rightarrow> Some v)"

definition get_arg_val_ui :: "cstr \<Rightarrow> int \<Rightarrow> int \<Rightarrow> int option" where
  "get_arg_val_ui s lo hi = (case get_ranged_uint s lo hi of Inl _ \<Rightarrow> None | Inr v \<Rightarrow> Some v)"

definition get_arg_val_d :: "'d dbl \<Rightarrow> cstr \<Rightarrow> 'd \<Rightarrow> 'd \<Rightarrow> 'd option" where
  "get_arg_val_d f s lo hi = (case get_ranged_double f s lo hi of Inl _ \<Rightarrow> None | Inr v \<Rightarrow> Some v)"

subsection \<open>sscanf\<close>

text \<open>
  The conversions take the input and return what they read and the rest. A blank in the format
  skips white space, another character has to match.
\<close>

definition skip :: "cstr \<Rightarrow> cstr" where
  "skip s = dropWhile isspace s"

fun scan_lit :: "cstr \<Rightarrow> cstr \<Rightarrow> cstr option" where
  "scan_lit [] s = Some s"
| "scan_lit (c # cs) [] = None"
| "scan_lit (c # cs) (x # s) = (if c = x then scan_lit cs s else None)"

text \<open>\<open>%ns\<close>\<close>

definition scan_word :: "nat \<Rightarrow> cstr \<Rightarrow> (cstr \<times> cstr) option" where
  "scan_word n s =
     (let s = skip s; w = take n (takeWhile (\<lambda>c. \<not> isspace c) s)
      in if w = [] then None else Some (w, drop (length w) s))"

text \<open>\<open>%d\<close>; the value is stored in an int.\<close>

definition scan_int :: "cstr \<Rightarrow> (int \<times> cstr) option" where
  "scan_int s =
     (let (neg, s) = sign (skip s); ds = takeWhile (\<lambda>c. digit c < 10) s; v = digits_value 10 ds;
          x = (if neg then max (- v) (- (2 ^ 63)) else min v LONG_MAX)
      in if ds = [] then None else Some (sint (word_of_int x :: i32), drop (length ds) s))"

text \<open>\<open>%hhx\<close> with a width; the value is stored in a byte.\<close>

definition scan_hex :: "nat \<Rightarrow> cstr \<Rightarrow> (u8 \<times> cstr) option" where
  "scan_hex n s =
     (let s = skip s; f = take n s; (neg, t) = sign f;
          t = (case t of c # x # d # u \<Rightarrow> if c = 48 \<and> lower x = 120 \<and> digit d < 16 then d # u else t | _ \<Rightarrow> t);
          ds = takeWhile (\<lambda>c. digit c < 16) t;
          v = min (digits_value 16 ds) (2 ^ 64 - 1);
          used = length f - length t + length ds
      in if ds = [] then None else Some (word_of_int (if neg then - v else v), drop used s))"

subsection \<open>Addresses and identities\<close>

text \<open>\<open>k\<close> bytes in hexadecimal with a colon between two of them.\<close>

fun scan_colons :: "nat \<Rightarrow> cstr \<Rightarrow> u8 list option" where
  "scan_colons 0 s = Some []"
| "scan_colons (Suc 0) s = map_option (\<lambda>(b, _). [b]) (scan_hex (length s) s)"
| "scan_colons (Suc (Suc k)) s =
     (case scan_hex (length s) s of
        None \<Rightarrow> None
      | Some (b, r) \<Rightarrow> (case r of
            c # r \<Rightarrow> if c = 58 then map_option ((#) b) (scan_colons (Suc k) r) else None
          | [] \<Rightarrow> None))"

definition str2mac :: "cstr \<Rightarrow> u8 list option" where
  "str2mac s = scan_colons 6 s"

text \<open>
  \<open>str2addr\<close>. \<open>inet_aton\<close> is the library's: the four bytes of an address. The result is the
  union of socket addresses, 128 bytes, and the length in use.
\<close>

record socket_address =
  sa_bytes :: "u8 list"
  sa_len :: nat

definition zero_pad :: "u8 list \<Rightarrow> u8 list" where
  "zero_pad bs = bs @ replicate (128 - length bs) 0"

definition str2addr :: "(cstr \<Rightarrow> u8 list option) \<Rightarrow> nat \<Rightarrow> cstr \<Rightarrow> socket_address option" where
  "str2addr inet_aton type s =
     (if type = 1 then map_option (\<lambda>b. \<lparr>sa_bytes = zero_pad ([2, 0, 0, 0] @ b), sa_len = 16\<rparr>) (inet_aton s)
      else if type = 3 then map_option (\<lambda>b. \<lparr>sa_bytes = zero_pad ([17, 0, 0, 0, 0, 0, 0, 0, 0, 0, 0, 6] @ b),
        sa_len = 20\<rparr>) (str2mac s)
      else None)"

text \<open>The identity of a clock is made of the hardware address of an interface.\<close>

definition generate_clock_identity :: "u8 list option \<Rightarrow> u8 list option" where
  "generate_clock_identity hwaddr =
     (case hwaddr of None \<Rightarrow> None | Some a \<Rightarrow>
      if length a = 6 then Some [a ! 0, a ! 1, a ! 2, 0xFF, 0xFE, a ! 3, a ! 4, a ! 5]
      else if length a = 8 then Some [a ! 0, a ! 1, a ! 2, a ! 3, a ! 4, a ! 5, a ! 6, a ! 7]
      else None)"

definition hex_char :: "nat \<Rightarrow> u8" where
  "hex_char n = (if n < 10 then 48 + of_nat n else 87 + of_nat n)"

definition hex2 :: "u8 \<Rightarrow> cstr" where
  "hex2 b = [hex_char (unat b div 16), hex_char (unat b mod 16)]"

definition cid2str :: "u8 list \<Rightarrow> cstr" where
  "cid2str i = concat (map hex2 (take 3 i)) @ [46] @ concat (map hex2 (take 2 (drop 3 i))) @ [46] @ concat (map hex2 (take 3 (drop 5 i)))"

end
