(* ===== verification/Config.thy ===== *)
theory Config
  imports CText HashTable UnicastClient
begin

text \<open>
  The configuration (src/config.c, include/ptpConfig.h): the table of options with their types
  and ranges, the hash table that maps "section.option" to an item, the parser of the
  configuration file and of the options of the command line, and the functions that read and
  set options. Items live in a store that is indexed by their address: the first ones are the
  static array \<open>config_tab\<close>, the others are allocated for the sections of ports. The member of
  the union of a value that was written last is its tag, so that reading another one is visible.
  Messages to the user and the release of old strings are left out.
\<close>

datatype 'a outcome = Exits | Undefined | Returns 'a

fun and_then :: "'a outcome \<Rightarrow> ('a \<Rightarrow> 'b outcome) \<Rightarrow> 'b outcome" where
  "and_then Exits k = Exits"
| "and_then Undefined k = Undefined"
| "and_then (Returns x) k = k x"

datatype config_type = CFG_TYPE_INT | CFG_TYPE_DOUBLE | CFG_TYPE_ENUM | CFG_TYPE_STRING

datatype 'd any_t = VI int | VD 'd | VS "cstr option"

record 'd config_item =
  ci_label :: cstr
  ci_type :: config_type
  ci_tab :: "(cstr \<times> int) list option"
  ci_flags :: u32
  ci_val :: "'d any_t"
  ci_min :: "'d any_t"
  ci_max :: "'d any_t"

abbreviation (input) CFG_ITEM_STATIC :: u32 where "CFG_ITEM_STATIC \<equiv> 1"
abbreviation (input) CFG_ITEM_LOCKED :: u32 where "CFG_ITEM_LOCKED \<equiv> 2"
abbreviation (input) CFG_ITEM_PORT :: u32 where "CFG_ITEM_PORT \<equiv> 4"
abbreviation (input) CFG_ITEM_DYNSTR :: u32 where "CFG_ITEM_DYNSTR \<equiv> 16"
abbreviation (input) CONFIG_LABEL_SIZE :: nat where "CONFIG_LABEL_SIZE \<equiv> 32"
abbreviation (input) MAX_IFNAME_SIZE :: nat where "MAX_IFNAME_SIZE \<equiv> 108"

subsection \<open>The options\<close>

text \<open>Members that an initializer does not name are zero; of a union that is its first member.\<close>

definition config_dbl :: "'d dbl \<Rightarrow> string \<Rightarrow> bool \<Rightarrow> dbl_const \<Rightarrow> dbl_const \<Rightarrow> dbl_const \<Rightarrow> 'd config_item" where
  "config_dbl f l port dflt lo hi =
     \<lparr>ci_label = lit l, ci_type = CFG_TYPE_DOUBLE, ci_tab = None, ci_flags = (if port then CFG_ITEM_PORT else 0),
      ci_val = VD (d_const f dflt), ci_min = VD (d_const f lo), ci_max = VD (d_const f hi)\<rparr>"

definition config_enum :: "string \<Rightarrow> bool \<Rightarrow> int \<Rightarrow> (string \<times> int) list \<Rightarrow> 'd config_item" where
  "config_enum l port dflt table =
     \<lparr>ci_label = lit l, ci_type = CFG_TYPE_ENUM, ci_tab = Some (map (\<lambda>(n, v). (lit n, v)) table),
      ci_flags = (if port then CFG_ITEM_PORT else 0), ci_val = VI dflt, ci_min = VI 0, ci_max = VI 0\<rparr>"

definition config_int :: "string \<Rightarrow> bool \<Rightarrow> int \<Rightarrow> int \<Rightarrow> int \<Rightarrow> 'd config_item" where
  "config_int l port dflt lo hi =
     \<lparr>ci_label = lit l, ci_type = CFG_TYPE_INT, ci_tab = None, ci_flags = (if port then CFG_ITEM_PORT else 0),
      ci_val = VI dflt, ci_min = VI lo, ci_max = VI hi\<rparr>"

definition config_string :: "string \<Rightarrow> bool \<Rightarrow> string option \<Rightarrow> 'd config_item" where
  "config_string l port dflt =
     \<lparr>ci_label = lit l, ci_type = CFG_TYPE_STRING, ci_tab = None, ci_flags = (if port then CFG_ITEM_PORT else 0),
      ci_val = VS (map_option lit dflt), ci_min = VI 0, ci_max = VI 0\<rparr>"

definition clock_servo_enu :: "(string \<times> int) list" where
  "clock_servo_enu = [(''pi'', 0), (''linreg'', 1), (''ntpshm'', 2), (''nullf'', 3)]"

definition clock_type_enu :: "(string \<times> int) list" where
  "clock_type_enu = [(''OC'', 0x8000), (''BC'', 0x4000), (''P2P_TC'', 0x2000), (''E2E_TC'', 0x1000)]"

definition dataset_comp_enu :: "(string \<times> int) list" where
  "dataset_comp_enu = [(''ieee1588'', 0), (''G.8275.x'', 1)]"

definition delay_filter_enu :: "(string \<times> int) list" where
  "delay_filter_enu = [(''moving_average'', 0), (''moving_median'', 1)]"

definition delay_mech_enu :: "(string \<times> int) list" where
  "delay_mech_enu = [(''Auto'', 0), (''E2E'', 1), (''P2P'', 2)]"

definition nw_trans_enu :: "(string \<times> int) list" where
  "nw_trans_enu = [(''L2'', 3), (''UDPv4'', 1), (''UDPv6'', 2)]"

definition timestamping_enu :: "(string \<times> int) list" where
  "timestamping_enu = [(''hardware'', 1), (''software'', 0), (''legacy'', 2), (''onestep'', 3), (''p2p1step'', 4)]"

definition tsproc_enu :: "(string \<times> int) list" where
  "tsproc_enu = [(''filter'', 0), (''raw'', 1), (''filter_weight'', 2), (''raw_weight'', 3)]"

abbreviation (input) RUN_HOME :: string where "RUN_HOME \<equiv> ''/tmp''"

definition config_tab :: "'d dbl \<Rightarrow> 'd config_item list" where
  "config_tab f =
    [config_int ''announceReceiptTimeout'' True 3 2 255,
     config_int ''assume_two_step'' False 0 0 1,
     config_int ''boundary_clock_jbod'' True 0 0 1,
     config_int ''check_fup_sync'' False 0 0 1,
     config_int ''clockAccuracy'' False 254 0 255,
     config_int ''clockClass'' False 248 0 255,
     config_enum ''clock_servo'' False 0 clock_servo_enu,
     config_enum ''clock_type'' False 32768 clock_type_enu,
     config_enum ''dataset_comparison'' False 0 dataset_comp_enu,
     config_int ''delayAsymmetry'' True 0 (-2147483648) 2147483647,
     config_enum ''delay_filter'' True 1 delay_filter_enu,
     config_int ''delay_filter_length'' True 10 1 2147483647,
     config_enum ''delay_mechanism'' True 1 delay_mech_enu,
     config_int ''dscp_event'' False 0 0 63,
     config_int ''dscp_general'' False 0 0 63,
     config_int ''domainNumber'' False 0 0 127,
     config_int ''egressLatency'' True 0 (-2147483648) 2147483647,
     config_int ''fault_badpeernet_interval'' True 16 (-2147483648) 2147483647,
     config_int ''fault_reset_interval'' True 4 (-128) 127,
     config_dbl f ''first_step_threshold'' False (Decimal 2 (-5)) (Decimal 0 0) DBL_MAX,
     config_int ''follow_up_info'' True 0 0 1,
     config_int ''free_running'' False 0 0 1,
     config_int ''freq_est_interval'' True 1 0 2147483647,
     config_int ''G.8275.defaultDS.localPriority'' False 128 1 255,
     config_int ''G.8275.portDS.localPriority'' True 128 1 255,
     config_int ''gmCapable'' False 1 0 1,
     config_int ''hybrid_e2e'' True 0 0 1,
     config_int ''ignore_transport_specific'' True 0 0 1,
     config_int ''ingressLatency'' True 0 (-2147483648) 2147483647,
     config_int ''inhibit_multicast_service'' True 0 0 1,
     config_int ''initial_delay'' False 0 0 2147483647,
     config_int ''kernel_leap'' False 1 0 1,
     config_int ''logAnnounceInterval'' True 1 (-128) 127,
     config_int ''logMinDelayReqInterval'' True 0 (-128) 127,
     config_int ''logMinPdelayReqInterval'' True 0 (-128) 127,
     config_int ''logSyncInterval'' True 0 (-128) 127,
     config_int ''logging_level'' False 6 0 7,
     config_int ''masterOnly'' True 0 0 1,
     config_string ''message_tag'' False None,
     config_string ''manufacturerIdentity'' False (Some ''00:00:00''),
     config_int ''max_frequency'' False 900000000 0 2147483647,
     config_int ''min_neighbor_prop_delay'' True (-20000000) (-2147483648) (-1),
     config_int ''neighborPropDelayThresh'' True 20000000 0 2147483647,
     config_int ''net_sync_monitor'' True 0 0 1,
     config_enum ''network_transport'' True 1 nw_trans_enu,
     config_int ''ntpshm_segment'' False 0 (-2147483648) 2147483647,
     config_int ''offsetScaledLogVariance'' False 65535 0 65535,
     config_int ''path_trace_enabled'' True 0 0 1,
     config_dbl f ''pi_integral_const'' False (Decimal 0 0) (Decimal 0 0) DBL_MAX,
     config_dbl f ''pi_integral_exponent'' False (Decimal 4 (-1)) NEG_DBL_MAX DBL_MAX,
     config_dbl f ''pi_integral_norm_max'' False (Decimal 3 (-1)) DBL_MIN (Decimal 2 0),
     config_dbl f ''pi_integral_scale'' False (Decimal 0 0) (Decimal 0 0) DBL_MAX,
     config_dbl f ''pi_proportional_const'' False (Decimal 0 0) (Decimal 0 0) DBL_MAX,
     config_dbl f ''pi_proportional_exponent'' False (Decimal (-3) (-1)) NEG_DBL_MAX DBL_MAX,
     config_dbl f ''pi_proportional_norm_max'' False (Decimal 7 (-1)) DBL_MIN (Decimal 1 0),
     config_dbl f ''pi_proportional_scale'' False (Decimal 0 0) (Decimal 0 0) DBL_MAX,
     config_int ''priority1'' False 128 0 255,
     config_int ''priority2'' False 128 0 255,
     config_string ''productDescription'' False (Some '';;''),
     config_string ''ptp_dst_mac'' True (Some ''01:1B:19:00:00:00''),
     config_string ''p2p_dst_mac'' True (Some ''01:80:C2:00:00:0E''),
     config_string ''revisionData'' False (Some '';;''),
     config_int ''sanity_freq_limit'' False 200000000 0 2147483647,
     config_int ''slaveOnly'' False 0 0 1,
     config_dbl f ''step_threshold'' False (Decimal 0 0) (Decimal 0 0) DBL_MAX,
     config_int ''summary_interval'' False 0 (-2147483648) 2147483647,
     config_int ''syncReceiptTimeout'' True 0 0 255,
     config_int ''tc_spanning_tree'' False 0 0 1,
     config_int ''timeSource'' False 160 16 254,
     config_enum ''time_stamping'' False 1 timestamping_enu,
     config_int ''transportSpecific'' True 0 0 15,
     config_enum ''tsproc_mode'' True 0 tsproc_enu,
     config_int ''twoStepFlag'' False 1 0 1,
     config_int ''tx_timestamp_timeout'' False 1 1 2147483647,
     config_int ''udp_ttl'' True 1 1 255,
     config_int ''udp6_scope'' True 14 0 15,
     config_string ''uds_address'' False (Some (RUN_HOME @ ''/ptp4l'')),
     config_int ''unicast_listen'' True 0 0 1,
     config_int ''unicast_master_table'' True 0 0 2147483647,
     config_int ''unicast_req_duration'' True 3600 10 2147483647,
     config_int ''use_syslog'' False 1 0 1,
     config_string ''userDescription'' False (Some []),
     config_int ''utc_offset'' False 37 0 2147483647,
     config_int ''verbose'' False 0 0 1]"

subsection \<open>The state\<close>

record mtab = unicast_master_table +
  table_index :: int
  mtab_count :: nat
  peer_name :: "cstr option"

text \<open>
  \<open>cf_current\<close> is the static variable \<open>current_uc_mtab\<close>, an index into the tables.
  \<open>cf_memory\<close> says of the next allocations whether they succeed; those after the list do.
  Of an interface only the name is kept; the rest of the structure is zero here.
\<close>

record 'd config =
  cf_items :: "'d config_item list"
  cf_htab :: "nat hash"
  cf_intfs :: "cstr list"
  cf_tables :: "mtab list"
  cf_current :: "nat option"
  cf_memory :: "bool list"

definition alloc :: "'d config \<Rightarrow> bool \<times> 'd config" where
  "alloc cfg = (case cf_memory cfg of [] \<Rightarrow> (True, cfg) | m # ms \<Rightarrow> (m, cfg\<lparr>cf_memory := ms\<rparr>))"

definition item :: "'d config \<Rightarrow> nat \<Rightarrow> 'd config_item" where
  "item cfg a = cf_items cfg ! a"

definition set_item :: "nat \<Rightarrow> ('d config_item \<Rightarrow> 'd config_item) \<Rightarrow> 'd config \<Rightarrow> 'd config" where
  "set_item a g cfg = cfg\<lparr>cf_items := (cf_items cfg)[a := g (item cfg a)]\<rparr>"

subsection \<open>Looking up and allocating items\<close>

text \<open>\<open>snprintf\<close> into a buffer of \<open>n\<close> bytes.\<close>

definition dotted :: "nat \<Rightarrow> cstr \<Rightarrow> cstr \<Rightarrow> cstr" where
  "dotted n a b = take (n - 1) (a @ [46] @ b)"

definition config_section_item :: "'d config \<Rightarrow> cstr \<Rightarrow> cstr \<Rightarrow> nat option" where
  "config_section_item cfg section name = hash_lookup (cf_htab cfg) (dotted (CONFIG_LABEL_SIZE + MAX_IFNAME_SIZE) section name)"

definition config_global_item :: "'d config \<Rightarrow> cstr \<Rightarrow> nat option" where
  "config_global_item cfg name = config_section_item cfg (lit ''global'') name"

definition config_find_item :: "'d config \<Rightarrow> cstr option \<Rightarrow> cstr \<Rightarrow> nat option" where
  "config_find_item cfg section name =
     (case section of None \<Rightarrow> config_global_item cfg name
      | Some s \<Rightarrow> (case config_section_item cfg s name of
          Some a \<Rightarrow> Some a
        | None \<Rightarrow> config_global_item cfg name))"

text \<open>What \<open>calloc\<close> leaves in the union, seen through the member of the type.\<close>

definition zero_value :: "'d dbl \<Rightarrow> config_type \<Rightarrow> 'd any_t" where
  "zero_value f ty = (case ty of CFG_TYPE_DOUBLE \<Rightarrow> VD (d_const f (Decimal 0 0)) | CFG_TYPE_STRING \<Rightarrow> VS None | _ \<Rightarrow> VI 0)"

definition new_item :: "'d dbl \<Rightarrow> cstr \<Rightarrow> config_type \<Rightarrow> 'd config_item" where
  "new_item f label ty = \<lparr>ci_label = label, ci_type = ty, ci_tab = None, ci_flags = 0,
     ci_val = zero_value f ty, ci_min = zero_value f ty, ci_max = zero_value f ty\<rparr>"

text \<open>The insertion of a key, with the allocations of the node and of the copy of the key.\<close>

definition insert_key :: "'d config \<Rightarrow> cstr \<Rightarrow> nat \<Rightarrow> int \<times> 'd config" where
  "insert_key cfg key a =
     (let known = hash_lookup (cf_htab cfg) key \<noteq> None;
          (nodes, cfg) = (if known then (True, cfg) else alloc cfg);
          (keys, cfg) = (if known \<or> \<not> nodes then (True, cfg) else alloc cfg);
          (r, ht) = hash_insert nodes keys (cf_htab cfg) key a
      in (r, cfg\<lparr>cf_htab := ht\<rparr>))"

definition config_item_alloc :: "'d dbl \<Rightarrow> 'd config \<Rightarrow> cstr \<Rightarrow> cstr \<Rightarrow> config_type \<Rightarrow> nat option \<times> 'd config" where
  "config_item_alloc f cfg section name ty =
     (let (m, cfg) = alloc cfg
      in if \<not> m then (None, cfg)
         else
           let ci = new_item f (take (CONFIG_LABEL_SIZE - 1) name) ty;
               a = length (cf_items cfg);
               (r, cfg) = insert_key cfg (dotted (CONFIG_LABEL_SIZE + MAX_IFNAME_SIZE) section (ci_label ci)) a
           in if r \<noteq> 0 then (None, cfg) else (Some a, cfg\<lparr>cf_items := cf_items cfg @ [ci]\<rparr>))"

subsection \<open>Creation and destruction\<close>

text \<open>
  \<open>config_create\<close> on the array \<open>tab\<close>; \<^const>\<open>None\<close> is the null pointer. The three allocations
  before the loop are the structure, the table of long options and the hash table.
\<close>

definition insert_default :: "nat \<Rightarrow> 'd config \<Rightarrow> 'd config option" where
  "insert_default i cfg =
     (let cfg = set_item i (\<lambda>ci. ci\<lparr>ci_flags := ci_flags ci OR CFG_ITEM_STATIC\<rparr>) cfg;
          (r, cfg) = insert_key cfg (dotted (CONFIG_LABEL_SIZE + 8) (lit ''global'') (ci_label (item cfg i))) i
      in if r \<noteq> 0 then None else Some cfg)"

fun insert_defaults :: "nat list \<Rightarrow> 'd config \<Rightarrow> 'd config option" where
  "insert_defaults [] cfg = Some cfg"
| "insert_defaults (i # is') cfg = (case insert_default i cfg of None \<Rightarrow> None | Some cfg \<Rightarrow> insert_defaults is' cfg)"

definition self_test :: "nat \<Rightarrow> 'd config \<Rightarrow> bool" where
  "self_test n cfg = list_all (\<lambda>i. config_global_item cfg (ci_label (item cfg i)) = Some i) [0..<n]"

fun take_memory :: "nat \<Rightarrow> 'd config \<Rightarrow> 'd config option" where
  "take_memory 0 cfg = Some cfg"
| "take_memory (Suc n) cfg = (let (m, cfg) = alloc cfg in if m then take_memory n cfg else None)"

definition config_create :: "'d config_item list \<Rightarrow> bool list \<Rightarrow> 'd config option" where
  "config_create tab mem =
     (case take_memory 3 \<lparr>cf_items = tab, cf_htab = hash_create, cf_intfs = [], cf_tables = [],
         cf_current = None, cf_memory = mem\<rparr> of
        None \<Rightarrow> None
      | Some cfg \<Rightarrow> (case insert_defaults [0..<length tab] cfg of
          None \<Rightarrow> None
        | Some cfg \<Rightarrow> if self_test (length tab) cfg then Some cfg else None))"

text \<open>The long options of the command line, and the items that \<open>config_destroy\<close> frees.\<close>

definition config_alloc_longopts :: "'d config_item list \<Rightarrow> cstr list" where
  "config_alloc_longopts tab = map ci_label tab"

definition config_destroy :: "'d config \<Rightarrow> nat list" where
  "config_destroy cfg = filter (\<lambda>a. ci_flags (item cfg a) AND CFG_ITEM_STATIC = 0) (hash_destroy (cf_htab cfg))"

subsection \<open>Reading options\<close>

definition config_get_double :: "'d config \<Rightarrow> cstr option \<Rightarrow> cstr \<Rightarrow> 'd outcome" where
  "config_get_double cfg section option =
     (case config_find_item cfg section option of None \<Rightarrow> Exits | Some a \<Rightarrow>
        if ci_type (item cfg a) \<noteq> CFG_TYPE_DOUBLE then Exits
        else case ci_val (item cfg a) of VD d \<Rightarrow> Returns d | _ \<Rightarrow> Undefined)"

definition config_get_int :: "'d config \<Rightarrow> cstr option \<Rightarrow> cstr \<Rightarrow> int outcome" where
  "config_get_int cfg section option =
     (case config_find_item cfg section option of None \<Rightarrow> Exits | Some a \<Rightarrow>
        if ci_type (item cfg a) = CFG_TYPE_DOUBLE \<or> ci_type (item cfg a) = CFG_TYPE_STRING then Exits
        else case ci_val (item cfg a) of VI i \<Rightarrow> Returns i | _ \<Rightarrow> Undefined)"

definition config_get_string :: "'d config \<Rightarrow> cstr option \<Rightarrow> cstr \<Rightarrow> cstr option outcome" where
  "config_get_string cfg section option =
     (case config_find_item cfg section option of None \<Rightarrow> Exits | Some a \<Rightarrow>
        if ci_type (item cfg a) \<noteq> CFG_TYPE_STRING then Exits
        else case ci_val (item cfg a) of VS s \<Rightarrow> Returns s | _ \<Rightarrow> Undefined)"

subsection \<open>Setting options\<close>

text \<open>
  The setters of the programs. \<open>config_set_section_int\<close> without a section is also
  \<open>config_set_int\<close>.
\<close>

definition lock_item :: "nat \<Rightarrow> 'd any_t \<Rightarrow> 'd config \<Rightarrow> 'd config" where
  "lock_item a v = set_item a (\<lambda>ci. ci\<lparr>ci_flags := ci_flags ci OR CFG_ITEM_LOCKED, ci_val := v\<rparr>)"

definition config_set_double :: "'d config \<Rightarrow> cstr \<Rightarrow> 'd \<Rightarrow> int \<times> 'd config" where
  "config_set_double cfg option v =
     (case config_find_item cfg None option of None \<Rightarrow> (-1, cfg) | Some a \<Rightarrow>
        if ci_type (item cfg a) \<noteq> CFG_TYPE_DOUBLE then (-1, cfg) else (0, lock_item a (VD v) cfg))"

definition config_set_section_int ::
  "'d dbl \<Rightarrow> 'd config \<Rightarrow> cstr option \<Rightarrow> cstr \<Rightarrow> int \<Rightarrow> int \<times> 'd config" where
  "config_set_section_int f cfg section option v =
     (case config_find_item cfg None option of None \<Rightarrow> (-1, cfg) | Some g \<Rightarrow>
        if ci_type (item cfg g) = CFG_TYPE_DOUBLE \<or> ci_type (item cfg g) = CFG_TYPE_STRING then (-1, cfg)
        else case section of
          None \<Rightarrow> (0, lock_item g (VI v) cfg)
        | Some s \<Rightarrow>
            let (dst, cfg) = (case config_section_item cfg s option of
                  Some a \<Rightarrow> (Some a, cfg)
                | None \<Rightarrow> config_item_alloc f cfg s option (ci_type (item cfg g)))
            in case dst of None \<Rightarrow> (-1, cfg)
               | Some a \<Rightarrow> (0, set_item a (\<lambda>ci. ci\<lparr>ci_val := VI v\<rparr>) cfg))"

definition config_set_int :: "'d dbl \<Rightarrow> 'd config \<Rightarrow> cstr \<Rightarrow> int \<Rightarrow> int \<times> 'd config" where
  "config_set_int f cfg option v = config_set_section_int f cfg None option v"

text \<open>A copy of the string; the flags change in the order of the code.\<close>

definition config_set_string :: "'d config \<Rightarrow> cstr \<Rightarrow> cstr \<Rightarrow> int \<times> 'd config" where
  "config_set_string cfg option v =
     (case config_find_item cfg None option of None \<Rightarrow> (-1, cfg) | Some a \<Rightarrow>
        if ci_type (item cfg a) \<noteq> CFG_TYPE_STRING then (-1, cfg)
        else
          let (m, cfg) = alloc cfg
          in if \<not> m then (-1, lock_item a (VS None) cfg)
             else (0, set_item a (\<lambda>ci. ci\<lparr>ci_flags := ci_flags ci OR CFG_ITEM_DYNSTR\<rparr>) (lock_item a (VS (Some v)) cfg)))"

definition config_harmonize_onestep :: "'d dbl \<Rightarrow> 'd config \<Rightarrow> (int \<times> 'd config) outcome" where
  "config_harmonize_onestep f cfg =
     and_then (config_get_int cfg None (lit ''time_stamping'')) (\<lambda>tstype.
     and_then (config_get_int cfg None (lit ''twoStepFlag'')) (\<lambda>two_step_flag.
       Returns (if tstype = 0 \<or> tstype = 2 then (if two_step_flag = 0 then (-1, cfg) else (0, cfg))
         else if tstype = 1 then
           (if two_step_flag = 0
            then (let (r, cfg) = config_set_int f cfg (lit ''time_stamping'') 3 in (if r \<noteq> 0 then -1 else 0, cfg))
            else (0, cfg))
         else if tstype = 3 \<or> tstype = 4 then
           (if two_step_flag \<noteq> 0
            then (let (r, cfg) = config_set_int f cfg (lit ''twoStepFlag'') 0 in (if r \<noteq> 0 then -1 else 0, cfg))
            else (0, cfg))
         else (0, cfg))))"

subsection \<open>One option and its value\<close>

fun fault_option :: "(string \<times> int) list \<Rightarrow> 'd dbl \<Rightarrow> 'd config \<Rightarrow> cstr option \<Rightarrow> cstr \<Rightarrow> (parser_result \<times> 'd config) outcome" where
  "fault_option [] f cfg section option = Returns (NOT_PARSED, cfg)"
| "fault_option ((str, v) # opts) f cfg section option =
     (if option = lit str
      then (let (r, cfg) = config_set_section_int f cfg section (lit str) v
            in if r \<noteq> 0 then Exits else Returns (PARSED_OK, cfg))
      else fault_option opts f cfg section option)"

definition parse_fault_interval ::
  "'d dbl \<Rightarrow> 'd config \<Rightarrow> cstr option \<Rightarrow> cstr \<Rightarrow> cstr \<Rightarrow> (parser_result \<times> 'd config) outcome" where
  "parse_fault_interval f cfg section option v =
     (if \<not> strcaseeq (lit ''ASAP'') v then Returns (NOT_PARSED, cfg)
      else fault_option [(''fault_badpeernet_interval'', 0), (''fault_reset_interval'', - 128)] f cfg section option)"

text \<open>
  The first switch: the value by the type of the global item. The labels of an enumeration are
  read through a pointer, which is null in an allocated item.
\<close>

definition parse_value :: "'d dbl \<Rightarrow> 'd config_item \<Rightarrow> cstr \<Rightarrow> (parser_result + 'd any_t) outcome" where
  "parse_value f cgi v =
     (case ci_type cgi of
        CFG_TYPE_INT \<Rightarrow> (case (ci_min cgi, ci_max cgi) of
            (VI lo, VI hi) \<Rightarrow> Returns (case get_ranged_int v lo hi of Inl r \<Rightarrow> Inl r | Inr i \<Rightarrow> Inr (VI i))
          | _ \<Rightarrow> Undefined)
      | CFG_TYPE_DOUBLE \<Rightarrow> (case (ci_min cgi, ci_max cgi) of
            (VD lo, VD hi) \<Rightarrow> Returns (case get_ranged_double f v lo hi of Inl r \<Rightarrow> Inl r | Inr d \<Rightarrow> Inr (VD d))
          | _ \<Rightarrow> Undefined)
      | CFG_TYPE_ENUM \<Rightarrow> (case ci_tab cgi of
            None \<Rightarrow> Undefined
          | Some t \<Rightarrow> Returns (case find (\<lambda>cte. strcaseeq (fst cte) v) t of
                Some cte \<Rightarrow> Inr (VI (snd cte)) | None \<Rightarrow> Inl BAD_VALUE))
      | CFG_TYPE_STRING \<Rightarrow> Returns (Inr (VS (Some v))))"

text \<open>
  The second switch stores by the type of the destination; a local variable that the first switch
  did not set is undefined.
\<close>

definition store_value :: "nat \<Rightarrow> 'd any_t \<Rightarrow> cstr \<Rightarrow> 'd config \<Rightarrow> (bool \<times> 'd config) outcome" where
  "store_value a v s cfg =
     (case ci_type (item cfg a) of
        CFG_TYPE_DOUBLE \<Rightarrow> (case v of VD d \<Rightarrow> Returns (True, set_item a (\<lambda>ci. ci\<lparr>ci_val := VD d\<rparr>) cfg) | _ \<Rightarrow> Undefined)
      | CFG_TYPE_STRING \<Rightarrow>
          (let (m, cfg) = alloc cfg
           in if \<not> m then Returns (False, set_item a (\<lambda>ci. ci\<lparr>ci_val := VS None\<rparr>) cfg)
              else Returns (True, set_item a (\<lambda>ci. ci\<lparr>ci_val := VS (Some s), ci_flags := ci_flags ci OR CFG_ITEM_DYNSTR\<rparr>) cfg))
      | _ \<Rightarrow> (case v of VI i \<Rightarrow> Returns (True, set_item a (\<lambda>ci. ci\<lparr>ci_val := VI i\<rparr>) cfg) | _ \<Rightarrow> Undefined))"

definition finish_item :: "bool \<Rightarrow> nat \<Rightarrow> bool \<times> 'd config \<Rightarrow> (parser_result \<times> 'd config) outcome" where
  "finish_item commandline a = (\<lambda>(stored, cfg).
     Returns (if \<not> stored then (NOT_PARSED, cfg)
       else (PARSED_OK, if commandline
         then set_item a (\<lambda>ci. ci\<lparr>ci_flags := ci_flags ci OR CFG_ITEM_LOCKED\<rparr>) cfg else cfg)))"

definition parse_item ::
  "'d dbl \<Rightarrow> 'd config \<Rightarrow> bool \<Rightarrow> cstr option \<Rightarrow> cstr \<Rightarrow> cstr \<Rightarrow> (parser_result \<times> 'd config) outcome" where
  "parse_item f cfg commandline section option v =
     and_then (parse_fault_interval f cfg section option v) (\<lambda>(r, cfg).
       if r \<noteq> NOT_PARSED then Returns (r, cfg)
       else case config_global_item cfg option of
         None \<Rightarrow> Returns (NOT_PARSED, cfg)
       | Some g \<Rightarrow> and_then (parse_value f (item cfg g) v) (\<lambda>pv. case pv of
           Inl r \<Rightarrow> Returns (r, cfg)
         | Inr pv \<Rightarrow> (case section of
             Some s \<Rightarrow>
               if ci_flags (item cfg g) AND CFG_ITEM_PORT = 0 then Returns (NOT_PARSED, cfg)
               else
                 let (dst, cfg) = (case config_section_item cfg s option of
                       Some a \<Rightarrow> (Some a, cfg)
                     | None \<Rightarrow> config_item_alloc f cfg s option (ci_type (item cfg g)))
                 in (case dst of None \<Rightarrow> Returns (NOT_PARSED, cfg)
                    | Some a \<Rightarrow> and_then (store_value a pv v cfg) (finish_item commandline a))
           | None \<Rightarrow>
               if \<not> commandline \<and> ci_flags (item cfg g) AND CFG_ITEM_LOCKED \<noteq> 0 then Returns (PARSED_OK, cfg)
               else and_then (store_value g pv v cfg) (finish_item commandline g))))"

definition config_parse_option :: "'d dbl \<Rightarrow> 'd config \<Rightarrow> cstr \<Rightarrow> cstr \<Rightarrow> (int \<times> 'd config) outcome" where
  "config_parse_option f cfg opt v =
     and_then (parse_item f cfg True None opt v) (\<lambda>(r, cfg). Returns (if r = PARSED_OK then 0 else -1, cfg))"

subsection \<open>The tables of unicast masters\<close>

definition zero_master_address :: unicast_master_address where
  "zero_master_address = \<lparr>uc_portIdentity = wildcard, uc_type = 0, uc_state = UC_WAIT, uc_address = zero_pad [],
     granted = 0, sydymsk = 0, renewal_tmo = 0\<rparr>"

definition config_switch_unicast_mtab :: "'d config \<Rightarrow> int \<Rightarrow> int \<times> 'd config" where
  "config_switch_unicast_mtab cfg idx =
     (if idx < 1 then (-1, cfg)
      else if list_ex (\<lambda>t. table_index t = idx) (cf_tables cfg) then (-1, cfg)
      else
        let (m, cfg) = alloc cfg
        in if \<not> m then (-1, cfg)
           else (0, cfg\<lparr>cf_tables := cf_tables cfg @ [\<lparr>addrs = [], logQueryInterval = 0, peer_addr = zero_master_address,
                   has_peer = False, table_index = idx, mtab_count = 0, peer_name = None\<rparr>],
                 cf_current := Some (length (cf_tables cfg))\<rparr>))"

definition set_table :: "nat \<Rightarrow> (mtab \<Rightarrow> mtab) \<Rightarrow> 'd config \<Rightarrow> 'd config" where
  "set_table k g cfg = cfg\<lparr>cf_tables := (cf_tables cfg)[k := g (cf_tables cfg ! k)]\<rparr>"

definition config_unicast_mtab_address ::
  "(cstr \<Rightarrow> u8 list option) \<Rightarrow> 'd config \<Rightarrow> nat \<Rightarrow> cstr \<Rightarrow> int \<times> 'd config" where
  "config_unicast_mtab_address inet_aton cfg type address =
     (case cf_current cfg of None \<Rightarrow> (-1, cfg) | Some k \<Rightarrow>
      let (m, cfg) = alloc cfg
      in if \<not> m then (-1, cfg)
         else case str2addr inet_aton type address of None \<Rightarrow> (-1, cfg)
           | Some a \<Rightarrow> (0, set_table k (\<lambda>t. t\<lparr>
                 addrs := addrs t @ [zero_master_address\<lparr>uc_type := type, uc_address := sa_bytes a\<rparr>],
                 mtab_count := mtab_count t + 1\<rparr>) cfg))"

definition config_unicast_mtab_peer :: "'d config \<Rightarrow> cstr \<Rightarrow> int \<times> 'd config" where
  "config_unicast_mtab_peer cfg address =
     (case cf_current cfg of None \<Rightarrow> (-1, cfg) | Some k \<Rightarrow>
      let (m, cfg) = alloc cfg
      in if \<not> m then (-1, set_table k (\<lambda>t. t\<lparr>peer_name := None\<rparr>) cfg)
         else (0, set_table k (\<lambda>t. t\<lparr>peer_name := Some address\<rparr>) cfg))"

definition config_unicast_mtab_query_interval :: "'d config \<Rightarrow> int \<Rightarrow> int \<times> 'd config" where
  "config_unicast_mtab_query_interval cfg lqi =
     (case cf_current cfg of None \<Rightarrow> (-1, cfg) | Some k \<Rightarrow>
      if lqi < - 128 \<or> 127 < lqi then (-1, cfg)
      else (0, set_table k (\<lambda>t. t\<lparr>logQueryInterval := word_of_int lqi\<rparr>) cfg))"

text \<open>The formats of \<open>sscanf\<close>: a word and a number, a word and a word.\<close>

definition scan_number_line :: "string \<Rightarrow> cstr \<Rightarrow> int option" where
  "scan_number_line w s = (case scan_lit (lit w) (skip s) of None \<Rightarrow> None | Some s \<Rightarrow> map_option fst (scan_int s))"

definition scan_word_line :: "string \<Rightarrow> cstr \<Rightarrow> cstr option" where
  "scan_word_line w s = (case scan_lit (lit w) (skip s) of None \<Rightarrow> None | Some s \<Rightarrow> map_option fst (scan_word 64 s))"

definition transport_of :: "cstr \<Rightarrow> nat" where
  "transport_of w = (case find (\<lambda>(n, _). strcaseeq (lit n) w) nw_trans_enu of Some (_, v) \<Rightarrow> nat v | None \<Rightarrow> 0)"

definition parse_unicast_mtab_line :: "(cstr \<Rightarrow> u8 list option) \<Rightarrow> 'd config \<Rightarrow> cstr \<Rightarrow> int \<times> 'd config" where
  "parse_unicast_mtab_line inet_aton cfg line =
     (case scan_number_line ''table_id'' line of
        Some table_id \<Rightarrow> config_switch_unicast_mtab cfg table_id
      | None \<Rightarrow> (case scan_number_line ''logQueryInterval'' line of
        Some lqi \<Rightarrow> config_unicast_mtab_query_interval cfg lqi
      | None \<Rightarrow> (case scan_word_line ''peer_address'' line of
        Some address \<Rightarrow> config_unicast_mtab_peer cfg address
      | None \<Rightarrow> (case scan_word 16 line of None \<Rightarrow> (-1, cfg)
        | Some (transport, rest) \<Rightarrow> (case scan_word 64 rest of None \<Rightarrow> (-1, cfg)
          | Some (address, _) \<Rightarrow> config_unicast_mtab_address inet_aton cfg (transport_of transport) address)))))"

subsection \<open>The configuration file\<close>

datatype config_section = GLOBAL_SECTION | UC_MTAB_SECTION | PORT_SECTION | UNKNOWN_SECTION

text \<open>\<^const>\<open>None\<close> is \<^const>\<open>NOT_PARSED\<close>; the line of a port loses its square brackets.\<close>

definition parse_section_line :: "'d config \<Rightarrow> cstr \<Rightarrow> (config_section \<times> cstr \<times> 'd config) option" where
  "parse_section_line cfg s =
     (if strcaseeq s (lit ''[global]'') then Some (GLOBAL_SECTION, s, cfg)
      else if strcaseeq s (lit ''[unicast_master_table]'') then Some (UC_MTAB_SECTION, s, cfg\<lparr>cf_current := None\<rparr>)
      else if take 1 s = [91] then Some (PORT_SECTION, map (\<lambda>c. if c = 91 \<or> c = 93 then 32 else c) s, cfg)
      else None)"

definition parse_setting_line :: "cstr \<Rightarrow> (cstr \<times> cstr) option" where
  "parse_setting_line line =
     (let opt = takeWhile (\<lambda>c. \<not> isspace c) line; rest = dropWhile (\<lambda>c. \<not> isspace c) line
      in if rest = [] then None else Some (opt, dropWhile isspace rest))"

definition check_deprecated_options :: "cstr \<Rightarrow> cstr" where
  "check_deprecated_options option =
     (if option = lit ''pi_offset_const'' then lit ''step_threshold''
      else if option = lit ''pi_f_offset_const'' then lit ''first_step_threshold''
      else if option = lit ''pi_max_frequency'' then lit ''max_frequency''
      else option)"

text \<open>The interface of that name, or a new one; \<^const>\<open>None\<close> is the null pointer.\<close>

definition config_create_interface :: "cstr \<Rightarrow> 'd config \<Rightarrow> cstr option \<times> 'd config" where
  "config_create_interface name cfg =
     (case find (\<lambda>n. take MAX_IFNAME_SIZE name = take MAX_IFNAME_SIZE n) (cf_intfs cfg) of
        Some n \<Rightarrow> (Some n, cfg)
      | None \<Rightarrow>
          let (m, cfg) = alloc cfg; n = take MAX_IFNAME_SIZE name
          in if \<not> m then (None, cfg) else (Some n, cfg\<lparr>cf_intfs := cf_intfs cfg @ [n]\<rparr>))"

text \<open>
  The state of the loop: the current section, the current port and the configuration. A line
  gives the next state and whether the parser goes on.
\<close>

type_synonym 'd reader = "config_section \<times> cstr option \<times> 'd config"

text \<open>The part of a line that the parser looks at.\<close>

definition trim_line :: "cstr \<Rightarrow> cstr" where
  "trim_line buf = rev (dropWhile isspace (rev (dropWhile isspace (takeWhile (\<lambda>c. c \<noteq> 0) buf))))"

definition read_section :: "config_section \<Rightarrow> cstr \<Rightarrow> 'd reader \<Rightarrow> bool \<times> 'd reader" where
  "read_section section line = (\<lambda>(_, port, cfg).
     if section \<noteq> PORT_SECTION then (True, section, port, cfg)
     else case scan_word 16 line of None \<Rightarrow> (False, section, port, cfg)
       | Some (name, _) \<Rightarrow>
           (case config_create_interface name cfg of
              (None, cfg) \<Rightarrow> (False, section, None, cfg)
            | (Some n, cfg) \<Rightarrow> (True, section, Some n, cfg)))"

definition read_setting :: "'d dbl \<Rightarrow> cstr \<Rightarrow> 'd reader \<Rightarrow> (bool \<times> 'd reader) outcome" where
  "read_setting f line = (\<lambda>(section, port, cfg).
     case parse_setting_line line of None \<Rightarrow> (if section \<noteq> GLOBAL_SECTION \<and> port = None then Undefined else Returns (False, section, port, cfg))
     | Some (option, v) \<Rightarrow>
         if section \<noteq> GLOBAL_SECTION \<and> port = None then Undefined
         else and_then (parse_item f cfg False (if section = GLOBAL_SECTION then None else port) (check_deprecated_options option) v)
           (\<lambda>(r, cfg). Returns (r = PARSED_OK, section, port, cfg)))"

definition read_line ::
  "'d dbl \<Rightarrow> (cstr \<Rightarrow> u8 list option) \<Rightarrow> cstr \<Rightarrow> 'd reader \<Rightarrow> (bool \<times> 'd reader) outcome" where
  "read_line f inet_aton buf = (\<lambda>(section, port, cfg).
     let line = trim_line buf
     in if line = [] \<or> hd line = 35 then Returns (True, section, port, cfg)
        else case parse_section_line cfg line of
          Some (section, line, cfg) \<Rightarrow> Returns (read_section section line (section, port, cfg))
        | None \<Rightarrow>
            if section = UC_MTAB_SECTION
            then (let (r, cfg) = parse_unicast_mtab_line inet_aton cfg line in Returns (r = 0, section, port, cfg))
            else if section = UNKNOWN_SECTION then Returns (False, section, port, cfg)
            else read_setting f line (section, port, cfg))"

text \<open>\<open>fgets\<close> on a buffer of 1024 bytes: up to 1023 bytes, a newline ends them.\<close>

definition fgets :: "cstr \<Rightarrow> cstr" where
  "fgets s = (let t = take 1023 s; l = takeWhile (\<lambda>c. c \<noteq> 10) t in take (length l + 1) t)"

function read_lines :: "cstr \<Rightarrow> cstr list" where
  "read_lines s = (if s = [] then [] else fgets s # read_lines (drop (length (fgets s)) s))"
  by pat_completeness auto
termination
proof (relation "measure length")
  fix s :: cstr assume "s \<noteq> []"
  then have "0 < length (fgets s)" by (cases s) (simp_all add: fgets_def Let_def)
  with \<open>s \<noteq> []\<close> show "(drop (length (fgets s)) s, s) \<in> measure length" by simp
qed simp

declare read_lines.simps [simp del]

fun read_loop ::
  "'d dbl \<Rightarrow> (cstr \<Rightarrow> u8 list option) \<Rightarrow> cstr list \<Rightarrow> 'd reader \<Rightarrow> (int \<times> 'd config) outcome" where
  "read_loop f inet_aton [] st = Returns (0, snd (snd st))"
| "read_loop f inet_aton (l # ls) st =
     and_then (read_line f inet_aton l st) (\<lambda>(go, st). if go then read_loop f inet_aton ls st else Returns (-2, snd (snd st)))"

text \<open>The file is its content, \<^const>\<open>None\<close> one that cannot be opened.\<close>

definition config_read ::
  "'d dbl \<Rightarrow> (cstr \<Rightarrow> u8 list option) \<Rightarrow> cstr option \<Rightarrow> 'd config \<Rightarrow> (int \<times> 'd config) outcome" where
  "config_read f inet_aton file cfg =
     (case file of None \<Rightarrow> Returns (-1, cfg)
      | Some s \<Rightarrow> read_loop f inet_aton (read_lines s) (UNKNOWN_SECTION, None, cfg))"

end
