(* ===== verification/ConfigTyped.thy ===== *)
theory ConfigTyped
  imports Config "HOL-Library.Sublist"
begin

text \<open>
  The configuration is typed: facts about the table of options, the invariant of the
  hash table and the items, and that every operation keeps it.
\<close>

subsection \<open>Literals\<close>

lemma unat_of_char: "unat (of_char c :: u8) = of_char c"
proof -
  have "(of_char c :: u8) = of_nat (of_char c)" by (simp only: of_nat_of_char)
  then have "unat (of_char c :: u8) = of_char c mod 256" by (simp add: unat_of_nat)
  then show ?thesis by simp
qed

lemma of_char_inject_u8: "(of_char c :: u8) = of_char d \<longleftrightarrow> c = d"
  by (metis unat_of_char of_char_eq_iff)

lemma lit_inject [simp]: "lit s = lit t \<longleftrightarrow> s = t"
  unfolding lit_def by (rule inj_map_eq_map) (simp add: inj_def of_char_inject_u8)

lemma lit_append: "lit (s @ t) = lit s @ lit t"
  by (simp add: lit_def)

subsection \<open>The names of the options\<close>

definition option_names :: "string list" where
  "option_names = [''announceReceiptTimeout'', ''assume_two_step'', ''boundary_clock_jbod'', ''check_fup_sync'',
     ''clockAccuracy'', ''clockClass'', ''clock_servo'', ''clock_type'', ''dataset_comparison'',
     ''delayAsymmetry'', ''delay_filter'', ''delay_filter_length'', ''delay_mechanism'',
     ''dscp_event'', ''dscp_general'', ''domainNumber'', ''egressLatency'',
     ''fault_badpeernet_interval'', ''fault_reset_interval'', ''first_step_threshold'',
     ''follow_up_info'', ''free_running'', ''freq_est_interval'', ''G.8275.defaultDS.localPriority'',
     ''G.8275.portDS.localPriority'', ''gmCapable'', ''hybrid_e2e'', ''ignore_transport_specific'',
     ''ingressLatency'', ''inhibit_multicast_service'', ''initial_delay'', ''kernel_leap'',
     ''logAnnounceInterval'', ''logMinDelayReqInterval'', ''logMinPdelayReqInterval'',
     ''logSyncInterval'', ''logging_level'', ''masterOnly'', ''message_tag'',
     ''manufacturerIdentity'', ''max_frequency'', ''min_neighbor_prop_delay'',
     ''neighborPropDelayThresh'', ''net_sync_monitor'', ''network_transport'', ''ntpshm_segment'',
     ''offsetScaledLogVariance'', ''path_trace_enabled'', ''pi_integral_const'',
     ''pi_integral_exponent'', ''pi_integral_norm_max'', ''pi_integral_scale'',
     ''pi_proportional_const'', ''pi_proportional_exponent'', ''pi_proportional_norm_max'',
     ''pi_proportional_scale'', ''priority1'', ''priority2'', ''productDescription'',
     ''ptp_dst_mac'', ''p2p_dst_mac'', ''revisionData'', ''sanity_freq_limit'', ''slaveOnly'',
     ''step_threshold'', ''summary_interval'', ''syncReceiptTimeout'', ''tc_spanning_tree'',
     ''timeSource'', ''time_stamping'', ''transportSpecific'', ''tsproc_mode'', ''twoStepFlag'',
     ''tx_timestamp_timeout'', ''udp_ttl'', ''udp6_scope'', ''uds_address'', ''unicast_listen'',
     ''unicast_master_table'', ''unicast_req_duration'', ''use_syslog'', ''userDescription'',
     ''utc_offset'', ''verbose'']"

lemma config_tab_labels: "map ci_label (config_tab f) = map lit option_names"
  by (simp add: config_tab_def option_names_def config_int_def config_dbl_def config_enum_def config_string_def)

lemma option_names_distinct: "distinct option_names"
  unfolding option_names_def by code_simp

lemma option_names_short: "n \<in> set option_names \<Longrightarrow> length n \<le> 30"
proof -
  have "list_all (\<lambda>n. length n \<le> 30) option_names" by (simp add: option_names_def)
  then show "n \<in> set option_names \<Longrightarrow> length n \<le> 30" by (simp add: list_all_iff)
qed

lemma option_names_dots:
  "filter (\<lambda>n. CHR ''.'' \<in> set n) option_names = [''G.8275.defaultDS.localPriority'', ''G.8275.portDS.localPriority'']"
  by (simp add: option_names_def)

text \<open>An option name is determined by any key that ends in it.\<close>

lemma suffix_lit: "suffix (lit s) (lit t) \<longleftrightarrow> suffix s t"
proof
  assume "suffix (lit s) (lit t)"
  then obtain u where u: "lit t = u @ lit s" by (auto simp: suffix_def)
  have "map of_char (drop (length u) t) = lit s"
    using u by (simp add: lit_def flip: drop_map)
  then have "drop (length u) t = s" by (metis lit_def lit_inject)
  then show "suffix s t" by (metis suffix_drop)
next
  assume "suffix s t"
  then show "suffix (lit s) (lit t)" by (auto simp: suffix_def lit_append)
qed

lemma dotted_names:
  assumes m: "m \<in> set option_names" and n: "n \<in> set option_names" and s: "suffix (CHR ''.'' # m) (CHR ''.'' # n)"
  shows "m = n"
proof (rule ccontr)
  assume "m \<noteq> n"
  with s have sn: "suffix (CHR ''.'' # m) n" by (simp add: suffix_Cons)
  then have "CHR ''.'' \<in> set n" by (auto simp: suffix_def)
  with n have "n \<in> set (filter (\<lambda>n. CHR ''.'' \<in> set n) option_names)" by simp
  then consider "n = ''G.8275.defaultDS.localPriority''" | "n = ''G.8275.portDS.localPriority''"
    unfolding option_names_dots by auto
  then have "m \<in> {''8275.defaultDS.localPriority'', ''8275.portDS.localPriority'', ''defaultDS.localPriority'',
      ''portDS.localPriority'', ''localPriority''}"
    using sn by cases (auto simp: suffix_Cons)
  moreover have "list_all (\<lambda>n. n \<notin> {''8275.defaultDS.localPriority'', ''8275.portDS.localPriority'', ''defaultDS.localPriority'',
      ''portDS.localPriority'', ''localPriority''}) option_names"
    by (simp add: option_names_def)
  ultimately show False using m by (auto simp: list_all_iff)
qed

lemma key_name:
  assumes "m \<in> set option_names" "n \<in> set option_names" "s @ [46] @ lit m = t @ [46] @ lit n"
  shows "m = n"
proof -
  have dot: "(46 :: u8) # lit x = lit (CHR ''.'' # x)" for x by (simp add: lit_def)
  let ?k = "s @ [46] @ lit m"
  have "suffix (lit (CHR ''.'' # m)) ?k" "suffix (lit (CHR ''.'' # n)) ?k"
    using assms(3) by (simp_all add: dot suffix_def) metis
  then have "suffix (lit (CHR ''.'' # m)) (lit (CHR ''.'' # n)) \<or> suffix (lit (CHR ''.'' # n)) (lit (CHR ''.'' # m))"
    by (rule suffix_same_cases)
  then show ?thesis unfolding suffix_lit using dotted_names assms(1,2) by blast
qed

subsection \<open>The options by number\<close>

abbreviation N_CONFIG_ITEMS :: nat where "N_CONFIG_ITEMS \<equiv> length option_names"

definition option_label :: "nat \<Rightarrow> cstr" where
  "option_label j = lit (option_names ! j)"

lemma config_tab_length [simp]: "length (config_tab f) = N_CONFIG_ITEMS"
  using arg_cong [OF config_tab_labels [of f], of length] by simp

lemma config_tab_label [simp]: "j < N_CONFIG_ITEMS \<Longrightarrow> ci_label (config_tab f ! j) = option_label j"
  using arg_cong [OF config_tab_labels [of f], of "\<lambda>l. l ! j"] by (simp add: option_label_def)

lemma option_label_inject:
  "i < N_CONFIG_ITEMS \<Longrightarrow> j < N_CONFIG_ITEMS \<Longrightarrow> option_label i = option_label j \<longleftrightarrow> i = j"
  by (simp add: option_label_def nth_eq_iff_index_eq [OF option_names_distinct])

lemma option_label_length: "j < N_CONFIG_ITEMS \<Longrightarrow> length (option_label j) \<le> 30"
  using option_names_short [of "option_names ! j"] by (simp add: option_label_def lit_def)

lemma option_key:
  assumes "i < N_CONFIG_ITEMS" "j < N_CONFIG_ITEMS" "s @ [46] @ option_label i = t @ [46] @ option_label j"
  shows "i = j \<and> s = t"
proof -
  have "option_names ! i = option_names ! j"
    using key_name [of "option_names ! i" "option_names ! j" s t] assms by (simp add: option_label_def)
  then have "i = j" using assms by (simp add: nth_eq_iff_index_eq [OF option_names_distinct])
  with assms show ?thesis by simp
qed

subsection \<open>The invariant\<close>

text \<open>
  \<open>conforms d v\<close>: the value has the type of the option \<open>d\<close>, an integer is in its range and an
  enumeration has one of its values.
\<close>

definition conforms :: "'d config_item \<Rightarrow> 'd any_t \<Rightarrow> bool" where
  "conforms d v = (case ci_type d of
       CFG_TYPE_INT \<Rightarrow> (\<exists>i lo hi. v = VI i \<and> ci_min d = VI lo \<and> ci_max d = VI hi \<and> lo \<le> i \<and> i \<le> hi)
     | CFG_TYPE_ENUM \<Rightarrow> (\<exists>i t. v = VI i \<and> ci_tab d = Some t \<and> i \<in> snd ` set t)
     | CFG_TYPE_DOUBLE \<Rightarrow> (\<exists>x lo hi. v = VD x \<and> ci_min d = VD lo \<and> ci_max d = VD hi)
     | CFG_TYPE_STRING \<Rightarrow> (\<exists>s. v = VS s))"

lemma defaults_conform: "j < N_CONFIG_ITEMS \<Longrightarrow> conforms (config_tab f ! j) (ci_val (config_tab f ! j))"
proof -
  have "list_all (\<lambda>d. conforms d (ci_val d)) (config_tab f)"
    by (simp add: config_tab_def conforms_def config_int_def config_dbl_def config_enum_def config_string_def
      clock_servo_enu_def clock_type_enu_def dataset_comp_enu_def delay_filter_enu_def delay_mech_enu_def
      nw_trans_enu_def timestamping_enu_def tsproc_enu_def)
  then show "j < N_CONFIG_ITEMS \<Longrightarrow> conforms (config_tab f ! j) (ci_val (config_tab f ! j))"
    by (simp add: list_all_length)
qed

text \<open>What no operation changes of a default item.\<close>

definition same_option :: "'d config_item \<Rightarrow> 'd config_item \<Rightarrow> bool" where
  "same_option d ci \<longleftrightarrow> ci_label ci = ci_label d \<and> ci_type ci = ci_type d \<and> ci_tab ci = ci_tab d
     \<and> ci_min ci = ci_min d \<and> ci_max ci = ci_max d \<and> ci_flags ci AND CFG_ITEM_PORT = ci_flags d AND CFG_ITEM_PORT"

definition global_key :: "nat \<Rightarrow> cstr" where
  "global_key j = lit ''global'' @ [46] @ option_label j"

text \<open>A section that cannot be mistaken for the global one in a key.\<close>

definition plain_section :: "cstr \<Rightarrow> bool" where
  "plain_section s \<longleftrightarrow> length s \<le> MAX_IFNAME_SIZE \<and> \<not> prefix (lit ''global'' @ [46]) (s @ [46])"

text \<open>
  The entry of option \<open>j\<close> under \<open>k\<close> at address \<open>a\<close>. \<open>X\<close> are addresses whose value is not set
  yet.
\<close>

definition entry :: "'d dbl \<Rightarrow> nat set \<Rightarrow> nat \<Rightarrow> cstr \<Rightarrow> nat \<Rightarrow> 'd config_item \<Rightarrow> bool" where
  "entry f X j k a ci \<longleftrightarrow> j < N_CONFIG_ITEMS \<and> ci_label ci = option_label j \<and> ci_type ci = ci_type (config_tab f ! j)
     \<and> (a \<notin> X \<longrightarrow> conforms (config_tab f ! j) (ci_val ci))
     \<and> (a = j \<and> k = global_key j \<or> N_CONFIG_ITEMS \<le> a \<and> (\<exists>s. plain_section s \<and> k = s @ [46] @ option_label j))"

definition well_typed :: "'d dbl \<Rightarrow> nat set \<Rightarrow> 'd config \<Rightarrow> bool" where
  "well_typed f X cfg \<longleftrightarrow> hash_ok (cf_htab cfg) \<and> N_CONFIG_ITEMS \<le> length (cf_items cfg)
     \<and> (\<forall>j < N_CONFIG_ITEMS. same_option (config_tab f ! j) (item cfg j) \<and> hash_lookup (cf_htab cfg) (global_key j) = Some j)
     \<and> (\<forall>k a. hash_lookup (cf_htab cfg) k = Some a \<longrightarrow> a < length (cf_items cfg) \<and> (\<exists>j. entry f X j k a (item cfg a)))"

subsection \<open>Steps that keep it\<close>

lemma well_typed_cong:
  "cf_items cfg' = cf_items cfg \<Longrightarrow> cf_htab cfg' = cf_htab cfg \<Longrightarrow> well_typed f X cfg' = well_typed f X cfg"
  by (simp add: well_typed_def item_def)

lemma alloc_same [simp]:
  "cf_items (snd (alloc cfg)) = cf_items cfg" "cf_htab (snd (alloc cfg)) = cf_htab cfg"
  "cf_intfs (snd (alloc cfg)) = cf_intfs cfg" "cf_tables (snd (alloc cfg)) = cf_tables cfg"
  "cf_current (snd (alloc cfg)) = cf_current cfg"
  by (simp_all add: alloc_def split: list.splits)

lemma alloc_plenty: "cf_memory cfg = [] \<Longrightarrow> alloc cfg = (True, cfg)"
  by (simp add: alloc_def)

lemma alloc_memory: "alloc cfg = (m, cfg') \<Longrightarrow> cfg' = cfg\<lparr>cf_memory := tl (cf_memory cfg)\<rparr>"
  by (auto simp: alloc_def split: list.splits)

lemma item_set_item: "a < length (cf_items cfg) \<Longrightarrow> item (set_item a g cfg) b = (if b = a then g (item cfg a) else item cfg b)"
  by (simp add: set_item_def item_def)

lemma set_item_same [simp]:
  "cf_htab (set_item a g cfg) = cf_htab cfg" "length (cf_items (set_item a g cfg)) = length (cf_items cfg)"
  "cf_intfs (set_item a g cfg) = cf_intfs cfg" "cf_memory (set_item a g cfg) = cf_memory cfg"
  by (simp_all add: set_item_def)

lemma well_typed_set:
  assumes wt: "well_typed f X cfg" and k: "hash_lookup (cf_htab cfg) k = Some a"
    and same: "same_option (item cfg a) (g (item cfg a))"
    and j: "ci_label (item cfg a) = option_label j" "j < N_CONFIG_ITEMS" "conforms (config_tab f ! j) (ci_val (g (item cfg a)))"
  shows "well_typed f (X - {a}) (set_item a g cfg)"
proof -
  from wt k have a: "a < length (cf_items cfg)" by (simp add: well_typed_def)
  have "entry f (X - {a}) i k' b (item (set_item a g cfg) b)"
    if "entry f X i k' b (item cfg b)" "hash_lookup (cf_htab cfg) k' = Some b" for i k' b
  proof (cases "b = a")
    case True
    with that j have "i = j" by (auto simp: entry_def option_label_inject)
    with True that same j show ?thesis by (auto simp: entry_def item_set_item [OF a] same_option_def)
  next
    case False
    with that show ?thesis by (auto simp: entry_def item_set_item [OF a])
  qed
  moreover have "same_option (config_tab f ! i) (item (set_item a g cfg) i)" if "i < N_CONFIG_ITEMS" for i
    using wt that same by (auto simp: well_typed_def item_set_item [OF a] same_option_def)
  ultimately show ?thesis using wt unfolding well_typed_def set_item_same by blast
qed

lemma dotted_section:
  assumes "j < N_CONFIG_ITEMS" "length s \<le> MAX_IFNAME_SIZE"
  shows "dotted (CONFIG_LABEL_SIZE + MAX_IFNAME_SIZE) s (option_label j) = s @ [46] @ option_label j"
  using option_label_length [OF assms(1)] assms(2) by (simp add: dotted_def)

lemma global_length: "length (lit ''global'') = 6"
  by (simp add: lit_def)

lemma config_global_item_label:
  assumes "well_typed f X cfg" "j < N_CONFIG_ITEMS"
  shows "config_global_item cfg (option_label j) = Some j"
proof -
  have "dotted (CONFIG_LABEL_SIZE + MAX_IFNAME_SIZE) (lit ''global'') (option_label j) = global_key j"
    unfolding global_key_def by (rule dotted_section) (use assms(2) in \<open>simp_all add: global_length\<close>)
  with assms show ?thesis
    by (simp add: config_global_item_def config_section_item_def well_typed_def del: One_nat_def)
qed

text \<open>Conversely the items that are found globally are the defaults.\<close>

lemma config_global_item_Some:
  assumes wt: "well_typed f X cfg" and g: "config_global_item cfg name = Some g"
  shows "g < N_CONFIG_ITEMS \<and> name = option_label g"
proof -
  let ?k = "dotted (CONFIG_LABEL_SIZE + MAX_IFNAME_SIZE) (lit ''global'') name"
  from g have "hash_lookup (cf_htab cfg) ?k = Some g" by (simp add: config_global_item_def config_section_item_def)
  with wt obtain j where e: "entry f X j ?k g (item cfg g)" unfolding well_typed_def by blast
  have k: "?k = lit ''global'' @ [46] @ take 132 name"
    by (simp add: dotted_def global_length)
  from e consider "g = j" "?k = global_key j" | s where "plain_section s" "?k = s @ [46] @ option_label j"
    by (auto simp: entry_def)
  then show ?thesis
  proof cases
    case 1
    have "take 132 name = option_label j" using 1(2) k by (simp add: global_key_def)
    moreover from this e have "length (take 132 name) \<le> 30" using option_label_length by (simp add: entry_def)
    then have "take 132 name = name" by simp
    ultimately show ?thesis using 1 e by (simp add: entry_def)
  next
    case 2
    have "prefix (lit ''global'' @ [46]) ?k" unfolding k by simp
    moreover have "prefix (s @ [46]) ?k" using 2 by simp
    ultimately have "prefix (lit ''global'' @ [46]) (s @ [46]) \<or> prefix (s @ [46]) (lit ''global'' @ [46])"
      by (rule prefix_same_cases)
    moreover have "\<not> prefix (s @ [46]) (lit ''global'' @ [46])" if "s \<noteq> lit ''global''"
    proof
      assume "prefix (s @ [46]) (lit ''global'' @ [46])"
      with that have "prefix (s @ [46]) (lit ''global'')" by (auto simp: prefix_snoc)
      then have "(46 :: u8) \<in> set (lit ''global'')" using set_mono_prefix by fastforce
      then show False by (simp add: lit_def)
    qed
    ultimately show ?thesis using 2 by (cases "s = lit ''global''") (auto simp: plain_section_def)
  qed
qed

lemma well_typed_lookup:
  assumes "well_typed f X cfg" "hash_lookup (cf_htab cfg) k = Some a"
  obtains j where "entry f X j k a (item cfg a)" "a < length (cf_items cfg)"
  using assms unfolding well_typed_def by blast

lemma well_typed_same: "well_typed f X cfg \<Longrightarrow> j < N_CONFIG_ITEMS \<Longrightarrow> same_option (config_tab f ! j) (item cfg j)"
  by (simp add: well_typed_def)

text \<open>The item of a section, when it is there.\<close>

lemma section_item:
  assumes wt: "well_typed f X cfg" and j: "j < N_CONFIG_ITEMS" and s: "length s \<le> MAX_IFNAME_SIZE"
    and a: "config_section_item cfg s (option_label j) = Some a"
  shows "hash_lookup (cf_htab cfg) (s @ [46] @ option_label j) = Some a \<and> entry f X j (s @ [46] @ option_label j) a (item cfg a)"
proof -
  from a dotted_section [OF j s] have k: "hash_lookup (cf_htab cfg) (s @ [46] @ option_label j) = Some a"
    by (simp add: config_section_item_def)
  from well_typed_lookup [OF wt k] obtain i where i: "entry f X i (s @ [46] @ option_label j) a (item cfg a)" .
  then have "i = j" using j option_key [of j i s "lit ''global''"] option_key [of j i s]
    by (auto simp: entry_def global_key_def)
  with i k show ?thesis by simp
qed

lemma plain_not_global: "plain_section s \<Longrightarrow> s @ [46] @ option_label j \<noteq> global_key i"
proof
  assume p: "plain_section s" and "s @ [46] @ option_label j = global_key i"
  then have "prefix (s @ [46]) (global_key i)" "prefix (lit ''global'' @ [46]) (global_key i)"
    by (metis append.assoc prefixI) (simp add: global_key_def)
  then have "prefix (s @ [46]) (lit ''global'' @ [46]) \<or> prefix (lit ''global'' @ [46]) (s @ [46])"
    by (rule prefix_same_cases)
  moreover have False if "prefix (s @ [46]) (lit ''global'')"
    using set_mono_prefix [OF that] by (simp add: lit_def)
  ultimately show False using p by (auto simp: plain_section_def)
qed

lemma plain_section_address:
  "plain_section s \<Longrightarrow> entry f X j (s @ [46] @ option_label j) a ci \<Longrightarrow> N_CONFIG_ITEMS \<le> a"
  using plain_not_global by (auto simp: entry_def)

lemma hash_insert_cases:
  assumes "hash_insert nodes keys ht k v = (r, ht')"
  shows "r \<noteq> 0 \<and> ht' = ht \<or> r = 0 \<and> hash_lookup ht k = None \<and> nodes \<and> keys \<and> hash_insert True True ht k v = (0, ht')"
  using assms by (auto simp: hash_insert_def hash_lookup_def Let_def split: if_splits)

lemma hash_insert_new:
  "hash_lookup ht k = None \<Longrightarrow> fst (hash_insert True True ht k v) = 0"
  by (simp add: hash_insert_def hash_lookup_def Let_def)

lemma insert_key_cases:
  assumes "insert_key cfg key a = (r, cfg')"
  shows "\<exists>mem. r \<noteq> 0 \<and> cfg' = cfg\<lparr>cf_memory := mem\<rparr>
    \<or> (\<exists>ht. r = 0 \<and> hash_lookup (cf_htab cfg) key = None \<and> hash_insert True True (cf_htab cfg) key a = (0, ht)
        \<and> cfg' = cfg\<lparr>cf_memory := mem, cf_htab := ht\<rparr>)"
proof -
  define known where "known = (hash_lookup (cf_htab cfg) key \<noteq> None)"
  obtain nodes c1 where n: "(if known then (True, cfg) else alloc cfg) = (nodes, c1)" by fastforce
  obtain keys c2 where k: "(if known \<or> \<not> nodes then (True, c1) else alloc c1) = (keys, c2)" by fastforce
  obtain z ht where i: "hash_insert nodes keys (cf_htab c2) key a = (z, ht)" by fastforce
  have "\<exists>mem. c1 = cfg\<lparr>cf_memory := mem\<rparr>"
    using n alloc_memory [of cfg nodes c1] by (cases known) (auto intro: exI [of _ "cf_memory cfg"])
  then obtain mem where c2: "c2 = cfg\<lparr>cf_memory := mem\<rparr>"
    using k alloc_memory [of c1 keys c2] by (cases "known \<or> \<not> nodes") auto
  have "insert_key cfg key a = (z, c2\<lparr>cf_htab := ht\<rparr>)"
    unfolding insert_key_def Let_def known_def [symmetric] n prod.case k i ..
  with assms have z: "r = z" "cfg' = c2\<lparr>cf_htab := ht\<rparr>" by simp_all
  from c2 have h: "cf_htab c2 = cf_htab cfg" by simp
  show ?thesis
    using hash_insert_cases [OF i [unfolded h]] z c2 by (intro exI [of _ mem]) auto
qed

lemma config_item_alloc_cases:
  assumes "config_item_alloc f cfg s name ty = (r, cfg')"
  defines "key \<equiv> dotted (CONFIG_LABEL_SIZE + MAX_IFNAME_SIZE) s (take (CONFIG_LABEL_SIZE - 1) name)"
  shows "\<exists>mem. r = None \<and> cfg' = cfg\<lparr>cf_memory := mem\<rparr>
    \<or> (\<exists>ht. r = Some (length (cf_items cfg)) \<and> hash_lookup (cf_htab cfg) key = None
        \<and> hash_insert True True (cf_htab cfg) key (length (cf_items cfg)) = (0, ht)
        \<and> cfg' = cfg\<lparr>cf_memory := mem, cf_htab := ht, cf_items := cf_items cfg @ [new_item f (take (CONFIG_LABEL_SIZE - 1) name) ty]\<rparr>)"
proof -
  obtain m c1 where m: "alloc cfg = (m, c1)" by fastforce
  note c1 = alloc_memory [OF m]
  obtain z c2 where i: "insert_key c1 key (length (cf_items c1)) = (z, c2)" by fastforce
  have lab: "ci_label (new_item f l ty) = l" for l by (simp add: new_item_def)
  have eq: "config_item_alloc f cfg s name ty = (if \<not> m then (None, c1) else if z \<noteq> 0 then (None, c2)
      else (Some (length (cf_items c1)), c2\<lparr>cf_items := cf_items c2 @ [new_item f (take (CONFIG_LABEL_SIZE - 1) name) ty]\<rparr>))"
    unfolding config_item_alloc_def Let_def m prod.case lab i [unfolded key_def] ..
  from insert_key_cases [OF i] obtain mem where
    k: "z \<noteq> 0 \<and> c2 = cfg\<lparr>cf_memory := mem\<rparr> \<or> (\<exists>ht. z = 0 \<and> hash_lookup (cf_htab cfg) key = None
       \<and> hash_insert True True (cf_htab cfg) key (length (cf_items cfg)) = (0, ht) \<and> c2 = cfg\<lparr>cf_memory := mem, cf_htab := ht\<rparr>)"
    by (auto simp: c1)
  show ?thesis
  proof (cases "m \<and> z = 0")
    case True
    then obtain ht where "hash_lookup (cf_htab cfg) key = None" "c2 = cfg\<lparr>cf_memory := mem, cf_htab := ht\<rparr>"
      "hash_insert True True (cf_htab cfg) key (length (cf_items cfg)) = (0, ht)" using k by blast
    with True eq assms(1) show ?thesis by (intro exI [of _ mem] disjI2 exI [of _ ht]) (simp add: c1)
  next
    case False
    then have "r = None" "cfg' = (if m then c2 else c1)" using eq assms(1) by (auto split: if_splits)
    moreover have "\<exists>mem. (if m then c2 else c1) = cfg\<lparr>cf_memory := mem\<rparr>" using False k c1 by (cases m) auto
    ultimately show ?thesis by blast
  qed
qed

lemma item_append: "item (cfg\<lparr>cf_memory := mem, cf_htab := ht, cf_items := cf_items cfg @ [ci]\<rparr>) b
    = (if b < length (cf_items cfg) then item cfg b else [ci] ! (b - length (cf_items cfg)))"
  by (simp add: item_def nth_append)

lemma config_item_alloc_typed:
  assumes wt: "well_typed f {} cfg" and j: "j < N_CONFIG_ITEMS" and s: "plain_section s"
    and r: "config_item_alloc f cfg s (option_label j) (ci_type (config_tab f ! j)) = (Some a, cfg')"
  shows "well_typed f {a} cfg' \<and> entry f {a} j (s @ [46] @ option_label j) a (item cfg' a)
    \<and> hash_lookup (cf_htab cfg') (s @ [46] @ option_label j) = Some a \<and> N_CONFIG_ITEMS \<le> a
    \<and> (\<forall>b < length (cf_items cfg). item cfg' b = item cfg b) \<and> cf_intfs cfg' = cf_intfs cfg"
proof -
  have len: "length s \<le> MAX_IFNAME_SIZE" using s by (simp add: plain_section_def)
  have lab: "take (CONFIG_LABEL_SIZE - 1) (option_label j) = option_label j" using option_label_length [OF j] by simp
  note key = dotted_section [OF j len]
  from config_item_alloc_cases [OF r, unfolded lab key] obtain mem ht where
    a: "a = length (cf_items cfg)" and none: "hash_lookup (cf_htab cfg) (s @ [46] @ option_label j) = None"
    and ins: "hash_insert True True (cf_htab cfg) (s @ [46] @ option_label j) (length (cf_items cfg)) = (0, ht)"
    and c: "cfg' = cfg\<lparr>cf_memory := mem, cf_htab := ht,
      cf_items := cf_items cfg @ [new_item f (option_label j) (ci_type (config_tab f ! j))]\<rparr>"
    by (elim exE disjE conjE) (simp_all only: option.inject option.distinct)
  from wt have ok: "hash_ok (cf_htab cfg)" and N: "N_CONFIG_ITEMS \<le> a" by (simp_all add: well_typed_def a)
  have lk: "hash_lookup ht = (hash_lookup (cf_htab cfg))(s @ [46] @ option_label j \<mapsto> a)"
    using options.lookup_insert [OF ok, of "s @ [46] @ option_label j" a] ins by (simp add: a)
  have ok': "hash_ok ht" using options.insert_ok [OF ok, of "s @ [46] @ option_label j" a] ins by (simp add: a)
  have old: "item cfg' b = item cfg b" if "b < length (cf_items cfg)" for b using that by (simp add: c item_append)
  have e: "entry f {a} j (s @ [46] @ option_label j) a (item cfg' a)"
    using j N s by (auto simp: c item_append a entry_def new_item_def)
  have "well_typed f {a} cfg'"
    unfolding well_typed_def
  proof (intro conjI; (intro allI impI)?)
    show "hash_ok (cf_htab cfg')" "N_CONFIG_ITEMS \<le> length (cf_items cfg')" using ok' N by (simp_all add: c a)
  next
    fix i assume "i < N_CONFIG_ITEMS"
    then show "same_option (config_tab f ! i) (item cfg' i) \<and> hash_lookup (cf_htab cfg') (global_key i) = Some i"
      using wt N old [of i] plain_not_global [OF s, of j i] by (auto simp: well_typed_def c lk a)
  next
    fix k b assume kb: "hash_lookup (cf_htab cfg') k = Some b"
    have h: "hash_lookup (cf_htab cfg') k = (if k = s @ [46] @ option_label j then Some a else hash_lookup (cf_htab cfg) k)"
      by (simp add: c lk)
    show "b < length (cf_items cfg') \<and> (\<exists>i. entry f {a} i k b (item cfg' b))"
    proof (cases "k = s @ [46] @ option_label j")
      case True
      then have "b = a" using kb h by simp
      moreover have "a < length (cf_items cfg')" by (simp add: c a)
      ultimately show ?thesis using e True by blast
    next
      case False
      then have "hash_lookup (cf_htab cfg) k = Some b" using kb h by simp
      then obtain i where "entry f {} i k b (item cfg b)" "b < length (cf_items cfg)"
        using well_typed_lookup [OF wt] by metis
      then have "entry f {a} i k b (item cfg' b)" "b < length (cf_items cfg')"
        using old [of b] by (simp_all add: entry_def c)
      then show ?thesis by blast
    qed
  qed
  with e N old lk show ?thesis by (simp add: c)
qed

end
