(* ===== verification/ConfigSafe.thy ===== *)
theory ConfigSafe
  imports ConfigTyped
begin

text \<open>
  The operations of the configuration keep it typed: parsing an option, reading a file,
  setting an option. The properties of the configuration are at the end.
\<close>

subsection \<open>Flags\<close>

definition locked :: "'d config_item \<Rightarrow> bool" where
  "locked ci \<longleftrightarrow> ci_flags ci AND CFG_ITEM_LOCKED \<noteq> 0"

lemma flag_bits:
  "(w OR 2) AND 4 = w AND (4 :: u32)" "(w OR 16) AND 4 = w AND (4 :: u32)" "(w OR 1) AND 4 = w AND (4 :: u32)"
  "(w OR 16) AND 2 = w AND (2 :: u32)" "(w OR 2) AND 2 = (2 :: u32)" "(w OR 1) AND 2 = w AND (2 :: u32)"
  by (simp_all add: word_ao_dist)

lemma same_option_refl [simp]: "same_option ci ci"
  by (simp add: same_option_def)

subsection \<open>Values\<close>

lemma get_ranged_int_range: "get_ranged_int s lo hi = Inr i \<Longrightarrow> lo \<le> i \<and> i \<le> hi"
  by (auto simp: get_ranged_int_def split: option.splits prod.splits if_splits)

lemma find_in_set: "find P xs = Some x \<Longrightarrow> snd x \<in> snd ` set xs"
  by (auto simp: find_Some_iff)

lemma parse_value_conforms:
  assumes "same_option (config_tab f ! g) ci" "g < N_CONFIG_ITEMS"
  shows "\<exists>pv. parse_value f ci v = Returns pv \<and> (\<forall>x. pv = Inr x \<longrightarrow> conforms (config_tab f ! g) x)"
proof -
  have d: "conforms (config_tab f ! g) (ci_val (config_tab f ! g))" using defaults_conform assms(2) .
  show ?thesis
  proof (cases "ci_type (config_tab f ! g)")
    case CFG_TYPE_INT
    with d obtain lo hi where "ci_min (config_tab f ! g) = VI lo" "ci_max (config_tab f ! g) = VI hi"
      by (auto simp: conforms_def)
    with CFG_TYPE_INT assms(1) get_ranged_int_range [of v lo hi] show ?thesis
      by (auto simp: parse_value_def same_option_def conforms_def split: sum.splits)
  next
    case CFG_TYPE_DOUBLE
    with d obtain lo hi where "ci_min (config_tab f ! g) = VD lo" "ci_max (config_tab f ! g) = VD hi"
      by (auto simp: conforms_def)
    with CFG_TYPE_DOUBLE assms(1) show ?thesis
      by (auto simp: parse_value_def same_option_def conforms_def split: sum.splits)
  next
    case CFG_TYPE_ENUM
    with d obtain t where t: "ci_tab (config_tab f ! g) = Some t" by (auto simp: conforms_def)
    with CFG_TYPE_ENUM assms(1) show ?thesis
      by (auto simp: parse_value_def same_option_def conforms_def split: option.splits dest!: find_in_set intro: rev_image_eqI)
  next
    case CFG_TYPE_STRING
    with assms(1) show ?thesis by (simp add: parse_value_def same_option_def conforms_def)
  qed
qed

lemma store_value_conforms:
  assumes ty: "ci_type (item cfg a) = ci_type d" and x: "conforms d x"
  shows "\<exists>b mem h. store_value a x s cfg = Returns (b, set_item a h (cfg\<lparr>cf_memory := mem\<rparr>))
    \<and> same_option (item cfg a) (h (item cfg a)) \<and> conforms d (ci_val (h (item cfg a)))
    \<and> ci_flags (h (item cfg a)) AND 2 = ci_flags (item cfg a) AND 2
    \<and> (cf_memory cfg = [] \<longrightarrow> b \<and> mem = [])"
proof -
  have plain: "?thesis" if "store_value a x s cfg = Returns (True, set_item a (\<lambda>ci. ci\<lparr>ci_val := x\<rparr>) cfg)"
    using that x by (intro exI [of _ True] exI [of _ "cf_memory cfg"] exI [of _ "\<lambda>ci. ci\<lparr>ci_val := x\<rparr>"])
      (simp add: same_option_def)
  obtain m c where m: "alloc cfg = (m, c)" by fastforce
  note c = alloc_memory [OF m]
  have full: "m \<and> tl (cf_memory cfg) = []" if "cf_memory cfg = []" using m alloc_plenty [OF that] that by simp
  show ?thesis
  proof (cases "ci_type d")
    case CFG_TYPE_STRING
    show ?thesis
    proof (cases m)
      case True
      then show ?thesis using CFG_TYPE_STRING ty m c full
        by (intro exI [of _ True] exI [of _ "tl (cf_memory cfg)"] exI [of _ "\<lambda>ci. ci\<lparr>ci_val := VS (Some s), ci_flags := ci_flags ci OR 16\<rparr>"])
          (simp add: store_value_def same_option_def conforms_def flag_bits)
    next
      case False
      then show ?thesis using CFG_TYPE_STRING ty m c full
        by (intro exI [of _ False] exI [of _ "tl (cf_memory cfg)"] exI [of _ "\<lambda>ci. ci\<lparr>ci_val := VS None\<rparr>"])
          (auto simp add: store_value_def same_option_def conforms_def flag_bits)
    qed
  qed (use ty x plain in \<open>auto simp: store_value_def conforms_def\<close>)
qed

subsection \<open>Allocation or look up of the item of a section\<close>

definition section_dst :: "'d dbl \<Rightarrow> 'd config \<Rightarrow> cstr \<Rightarrow> cstr \<Rightarrow> config_type \<Rightarrow> nat option \<times> 'd config" where
  "section_dst f cfg s name ty = (case config_section_item cfg s name of
     Some a \<Rightarrow> (Some a, cfg) | None \<Rightarrow> config_item_alloc f cfg s name ty)"

lemma well_typed_mono: "well_typed f X cfg \<Longrightarrow> X \<subseteq> Y \<Longrightarrow> well_typed f Y cfg"
  by (fastforce simp: well_typed_def entry_def)

lemma config_item_alloc_plenty:
  assumes mem: "cf_memory cfg = []" and none: "config_section_item cfg s (option_label j) = None" and j: "j < N_CONFIG_ITEMS"
  shows "\<exists>a cfg'. config_item_alloc f cfg s (option_label j) ty = (Some a, cfg') \<and> cf_memory cfg' = []"
proof -
  have lab: "take (CONFIG_LABEL_SIZE - 1) (option_label j) = option_label j" using option_label_length [OF j] by simp
  have lab2: "ci_label (new_item f l ty) = l" for l by (simp add: new_item_def)
  let ?k = "dotted (CONFIG_LABEL_SIZE + MAX_IFNAME_SIZE) s (option_label j)"
  have n: "hash_lookup (cf_htab cfg) ?k = None" using none by (simp add: config_section_item_def)
  obtain z ht where i: "hash_insert True True (cf_htab cfg) ?k (length (cf_items cfg)) = (z, ht)" by fastforce
  then have z: "z = 0" using hash_insert_new [OF n, of "length (cf_items cfg)"] by simp
  have "insert_key cfg ?k (length (cf_items cfg)) = (0, cfg\<lparr>cf_htab := ht\<rparr>)"
    using i z by (simp add: insert_key_def Let_def alloc_plenty [OF mem])
  then have "config_item_alloc f cfg s (option_label j) ty
      = (Some (length (cf_items cfg)), cfg\<lparr>cf_htab := ht, cf_items := cf_items cfg @ [new_item f (option_label j) ty]\<rparr>)"
    unfolding config_item_alloc_def alloc_plenty [OF mem] Let_def prod.case lab lab2 by simp
  then show ?thesis using mem by simp
qed

lemma section_dst_typed:
  assumes wt: "well_typed f {} cfg" and j: "j < N_CONFIG_ITEMS" and s: "plain_section s"
    and r: "section_dst f cfg s (option_label j) (ci_type (config_tab f ! j)) = (dst, cfg')"
  shows "(dst = None \<longrightarrow> well_typed f {} cfg' \<and> cf_memory cfg \<noteq> []) \<and>
    (\<forall>a. dst = Some a \<longrightarrow> well_typed f {a} cfg' \<and> entry f {a} j (s @ [46] @ option_label j) a (item cfg' a)
       \<and> hash_lookup (cf_htab cfg') (s @ [46] @ option_label j) = Some a \<and> N_CONFIG_ITEMS \<le> a)
    \<and> (\<forall>b < N_CONFIG_ITEMS. item cfg' b = item cfg b) \<and> cf_intfs cfg' = cf_intfs cfg
    \<and> (cf_memory cfg = [] \<longrightarrow> cf_memory cfg' = [])"
proof (cases "config_section_item cfg s (option_label j)")
  case (Some a)
  with r have "dst = Some a" "cfg' = cfg" by (simp_all add: section_dst_def)
  moreover have "length s \<le> MAX_IFNAME_SIZE" using s by (simp add: plain_section_def)
  from section_item [OF wt j this Some] have e: "hash_lookup (cf_htab cfg) (s @ [46] @ option_label j) = Some a"
    "entry f {} j (s @ [46] @ option_label j) a (item cfg a)" by simp_all
  moreover have "entry f {a} j (s @ [46] @ option_label j) a (item cfg a)" using e(2) by (simp add: entry_def)
  ultimately show ?thesis using plain_section_address [OF s e(2)] well_typed_mono [OF wt] by simp
next
  case None
  with r have al: "config_item_alloc f cfg s (option_label j) (ci_type (config_tab f ! j)) = (dst, cfg')"
    by (simp add: section_dst_def)
  have mem: "cf_memory cfg = [] \<longrightarrow> dst \<noteq> None \<and> cf_memory cfg' = []"
    using config_item_alloc_plenty [OF _ None j, of f "ci_type (config_tab f ! j)"] al by auto
  show ?thesis
  proof (cases dst)
    case (Some a)
    from config_item_alloc_typed [OF wt j s al [unfolded Some]] wt Some mem show ?thesis
      by (auto simp: well_typed_def)
  next
    case None
    from config_item_alloc_cases [OF al] None obtain mem where "cfg' = cfg\<lparr>cf_memory := mem\<rparr>" by auto
    with wt None mem well_typed_cong [of cfg' cfg] show ?thesis by (auto simp: item_def)
  qed
qed

subsection \<open>What a step keeps\<close>

text \<open>
  \<open>kept c cfg cfg'\<close>: unless the step comes from the command line, a locked default keeps its
  value and its lock; the two options that accept ASAP are exempt.
\<close>

definition asap_options :: "nat set" where
  "asap_options = {j. option_label j = lit ''fault_badpeernet_interval'' \<or> option_label j = lit ''fault_reset_interval''}"

definition kept :: "bool \<Rightarrow> 'd config \<Rightarrow> 'd config \<Rightarrow> bool" where
  "kept c cfg cfg' \<longleftrightarrow> (\<forall>j < N_CONFIG_ITEMS. \<not> c \<longrightarrow> j \<notin> asap_options \<longrightarrow> locked (item cfg j) \<longrightarrow>
     locked (item cfg' j) \<and> ci_val (item cfg' j) = ci_val (item cfg j))"

definition ready :: "'d dbl \<Rightarrow> 'd config \<Rightarrow> bool" where
  "ready f cfg \<longleftrightarrow> well_typed f {} cfg \<and> (\<forall>n \<in> set (cf_intfs cfg). length n \<le> MAX_IFNAME_SIZE)"

definition step :: "'d dbl \<Rightarrow> bool \<Rightarrow> 'd config \<Rightarrow> 'd config \<Rightarrow> bool" where
  "step f c cfg cfg' \<longleftrightarrow> ready f cfg' \<and> kept c cfg cfg' \<and> (cf_memory cfg = [] \<longrightarrow> cf_memory cfg' = [])"

fun good :: "'d dbl \<Rightarrow> bool \<Rightarrow> 'd config \<Rightarrow> ('r \<times> 'd config) outcome \<Rightarrow> bool" where
  "good f c cfg Exits \<longleftrightarrow> cf_memory cfg \<noteq> []"
| "good f c cfg Undefined \<longleftrightarrow> False"
| "good f c cfg (Returns (r, cfg')) \<longleftrightarrow> step f c cfg cfg'"

lemma kept_refl [simp]: "kept c cfg cfg"
  by (simp add: kept_def)

lemma kept_trans: "kept c cfg cfg' \<Longrightarrow> kept c cfg' cfg'' \<Longrightarrow> kept c cfg cfg''"
  by (simp add: kept_def)

lemma step_refl: "ready f cfg \<Longrightarrow> step f c cfg cfg"
  by (simp add: step_def)

lemma step_trans: "step f c cfg cfg' \<Longrightarrow> step f c cfg' cfg'' \<Longrightarrow> step f c cfg cfg''"
  by (auto simp: step_def intro: kept_trans)

lemma good_bind:
  assumes "good f c cfg out" "\<And>r cfg'. out = Returns (r, cfg') \<Longrightarrow> step f c cfg cfg' \<Longrightarrow> good f c cfg' (k (r, cfg'))"
  shows "good f c cfg (and_then out k)"
proof (cases out)
  case (Returns x)
  obtain r cfg' where x: "x = (r, cfg')" by fastforce
  with assms Returns have st: "step f c cfg cfg'" by simp
  with assms(2) [of r cfg'] Returns x have g: "good f c cfg' (k (r, cfg'))" by simp
  have "good f c cfg (k (r, cfg'))"
    using g st by (cases "k (r, cfg')" rule: outcome.exhaust) (auto simp: step_def intro: step_trans kept_trans)
  with Returns x show ?thesis by simp
qed (use assms(1) in simp_all)

lemma item_memory [simp]: "item (cfg\<lparr>cf_memory := m\<rparr>) = item cfg"
  by (simp add: item_def fun_eq_iff)

lemma well_typed_memory [simp]: "well_typed f X (cfg\<lparr>cf_memory := m\<rparr>) = well_typed f X cfg"
  by (rule well_typed_cong) simp_all

lemma ready_memory [simp]: "ready f (cfg\<lparr>cf_memory := m\<rparr>) = ready f cfg"
  by (simp add: ready_def)

text \<open>The value of an item that was just found or allocated for a section.\<close>

lemma step_section:
  assumes rd: "ready f cfg" and j: "j < N_CONFIG_ITEMS" and s: "plain_section s"
    and r: "section_dst f cfg s (option_label j) (ci_type (config_tab f ! j)) = (Some a, cfg1)"
    and h: "same_option (item cfg1 a) (h (item cfg1 a))" "conforms (config_tab f ! j) (ci_val (h (item cfg1 a)))"
    and mem: "cf_memory cfg1 = [] \<longrightarrow> mem = []"
  shows "step f c cfg (set_item a h (cfg1\<lparr>cf_memory := mem\<rparr>))"
proof -
  from rd have wt: "well_typed f {} cfg" by (simp add: ready_def)
  from section_dst_typed [OF wt j s r] have a: "well_typed f {a} cfg1" "entry f {a} j (s @ [46] @ option_label j) a (item cfg1 a)"
    "hash_lookup (cf_htab cfg1) (s @ [46] @ option_label j) = Some a" "N_CONFIG_ITEMS \<le> a"
    "\<forall>b < N_CONFIG_ITEMS. item cfg1 b = item cfg b" "cf_intfs cfg1 = cf_intfs cfg" "cf_memory cfg = [] \<longrightarrow> cf_memory cfg1 = []"
    by auto
  have "well_typed f ({a} - {a}) (set_item a h (cfg1\<lparr>cf_memory := mem\<rparr>))"
    by (rule well_typed_set [where k = "s @ [46] @ option_label j" and j = j]) (use a h j in \<open>simp_all add: entry_def\<close>)
  moreover have "item (set_item a h (cfg1\<lparr>cf_memory := mem\<rparr>)) b = item cfg b" if "b < N_CONFIG_ITEMS" for b
    using that a(4,5) by (simp add: item_def set_item_def)
  ultimately show ?thesis using rd a(6,7) mem by (auto simp: step_def ready_def kept_def)
qed

text \<open>The value of a default.\<close>

lemma step_global:
  assumes rd: "ready f cfg" and g: "g < N_CONFIG_ITEMS"
    and h: "same_option (item cfg g) (h (item cfg g))" "conforms (config_tab f ! g) (ci_val (h (item cfg g)))"
    and l: "c \<or> g \<in> asap_options \<or> \<not> locked (item cfg g)" and mem: "cf_memory cfg = [] \<longrightarrow> mem = []"
  shows "step f c cfg (set_item g h (cfg\<lparr>cf_memory := mem\<rparr>))"
proof -
  from rd have wt: "well_typed f {} cfg" by (simp add: ready_def)
  then have k: "hash_lookup (cf_htab cfg) (global_key g) = Some g" and len: "g < length (cf_items cfg)"
    and so: "same_option (config_tab f ! g) (item cfg g)"
    using g by (simp_all add: well_typed_def)
  have "well_typed f ({} - {g}) (set_item g h (cfg\<lparr>cf_memory := mem\<rparr>))"
    by (rule well_typed_set [where k = "global_key g" and j = g]) (use wt k h g so in \<open>simp_all add: same_option_def\<close>)
  moreover have "item (set_item g h (cfg\<lparr>cf_memory := mem\<rparr>)) b = (if b = g then h (item cfg g) else item cfg b)" for b
    using len by (simp add: item_def set_item_def)
  ultimately show ?thesis using rd l mem by (auto simp: step_def ready_def kept_def)
qed

subsection \<open>The operations\<close>

lemma set_section_int_step:
  assumes rd: "ready f cfg" and j: "j < N_CONFIG_ITEMS" and v: "conforms (config_tab f ! j) (VI v)"
    and s: "case section of None \<Rightarrow> c \<or> j \<in> asap_options | Some s \<Rightarrow> plain_section s"
    and r: "config_set_section_int f cfg section (option_label j) v = (r, cfg')"
  shows "step f c cfg cfg' \<and> (r \<noteq> 0 \<longrightarrow> cf_memory cfg \<noteq> [])"
proof -
  from rd have wt: "well_typed f {} cfg" by (simp add: ready_def)
  have g: "config_find_item cfg None (option_label j) = Some j"
    by (simp add: config_find_item_def config_global_item_label [OF wt j])
  have so: "same_option (config_tab f ! j) (item cfg j)" using well_typed_same [OF wt j] .
  then have ty: "ci_type (item cfg j) = ci_type (config_tab f ! j)" by (simp add: same_option_def)
  have vi: "ci_type (config_tab f ! j) = CFG_TYPE_INT \<or> ci_type (config_tab f ! j) = CFG_TYPE_ENUM"
    using v by (auto simp: conforms_def split: config_type.splits)
  then have nt: "\<not> (ci_type (item cfg j) = CFG_TYPE_DOUBLE \<or> ci_type (item cfg j) = CFG_TYPE_STRING)" using ty by auto
  show ?thesis
  proof (cases "section")
    case None
    then have "r = 0" "cfg' = set_item j (\<lambda>ci. ci\<lparr>ci_flags := ci_flags ci OR 2, ci_val := VI v\<rparr>) (cfg\<lparr>cf_memory := cf_memory cfg\<rparr>)"
      using r g nt by (simp_all add: config_set_section_int_def lock_item_def)
    moreover have "step f c cfg (set_item j (\<lambda>ci. ci\<lparr>ci_flags := ci_flags ci OR 2, ci_val := VI v\<rparr>) (cfg\<lparr>cf_memory := cf_memory cfg\<rparr>))"
      by (rule step_global [OF rd j]) (use s None v in \<open>auto simp: same_option_def flag_bits\<close>)
    ultimately show ?thesis by simp
  next
    case (Some sec)
    then have sec: "plain_section sec" using s by simp
    obtain dst cfg1 where d: "section_dst f cfg sec (option_label j) (ci_type (config_tab f ! j)) = (dst, cfg1)" by fastforce
    have e: "config_set_section_int f cfg section (option_label j) v = (case dst of None \<Rightarrow> (-1, cfg1)
        | Some a \<Rightarrow> (0, set_item a (\<lambda>ci. ci\<lparr>ci_val := VI v\<rparr>) cfg1))"
      using g nt d [unfolded ty [symmetric] section_dst_def] Some by (simp add: config_set_section_int_def)
    show ?thesis
    proof (cases dst)
      case None
      with section_dst_typed [OF wt j sec d] have "well_typed f {} cfg1" "cf_memory cfg \<noteq> []" "cf_intfs cfg1 = cf_intfs cfg"
        "\<forall>b < N_CONFIG_ITEMS. item cfg1 b = item cfg b" by simp_all
      with e r None rd show ?thesis by (simp add: step_def ready_def kept_def)
    next
      case (Some a)
      have "step f c cfg (set_item a (\<lambda>ci. ci\<lparr>ci_val := VI v\<rparr>) (cfg1\<lparr>cf_memory := cf_memory cfg1\<rparr>))"
        by (rule step_section [OF rd j sec d [unfolded Some]]) (use v in \<open>simp_all add: same_option_def\<close>)
      with e r Some show ?thesis by simp
    qed
  qed
qed

lemma option_index: "n \<in> set option_names \<Longrightarrow> \<exists>j < N_CONFIG_ITEMS. lit n = option_label j"
  by (auto simp: option_label_def in_set_conv_nth)

lemma asap_conforms:
  assumes "j < N_CONFIG_ITEMS"
  shows "option_label j = lit ''fault_badpeernet_interval'' \<Longrightarrow> conforms (config_tab f ! j) (VI 0)"
    "option_label j = lit ''fault_reset_interval'' \<Longrightarrow> conforms (config_tab f ! j) (VI (- 128))"
proof -
  have "list_all (\<lambda>d. (ci_label d = lit ''fault_badpeernet_interval'' \<longrightarrow> conforms d (VI 0))
      \<and> (ci_label d = lit ''fault_reset_interval'' \<longrightarrow> conforms d (VI (- 128)))) (config_tab f)"
    by (simp add: config_tab_def config_int_def config_dbl_def config_enum_def config_string_def conforms_def)
  then have "(ci_label (config_tab f ! j) = lit ''fault_badpeernet_interval'' \<longrightarrow> conforms (config_tab f ! j) (VI 0))
      \<and> (ci_label (config_tab f ! j) = lit ''fault_reset_interval'' \<longrightarrow> conforms (config_tab f ! j) (VI (- 128)))"
    using assms by (simp add: list_all_length)
  then show "option_label j = lit ''fault_badpeernet_interval'' \<Longrightarrow> conforms (config_tab f ! j) (VI 0)"
    "option_label j = lit ''fault_reset_interval'' \<Longrightarrow> conforms (config_tab f ! j) (VI (- 128))"
    using assms by simp_all
qed

lemma fault_names: "''fault_badpeernet_interval'' \<in> set option_names" "''fault_reset_interval'' \<in> set option_names"
  by (simp_all add: option_names_def)

lemma fault_step:
  assumes rd: "ready f cfg" and s: "case section of None \<Rightarrow> True | Some s \<Rightarrow> plain_section s"
    and n: "n \<in> set option_names" "lit n = option_label j" "j < N_CONFIG_ITEMS" "j \<in> asap_options"
    and v: "conforms (config_tab f ! j) (VI v)"
  shows "good f c cfg (case config_set_section_int f cfg section (lit n) v of (r, cfg) \<Rightarrow>
    if r \<noteq> 0 then Exits else Returns (PARSED_OK, cfg))"
proof -
  obtain r cfg' where r: "config_set_section_int f cfg section (option_label j) v = (r, cfg')" by fastforce
  have "step f c cfg cfg' \<and> (r \<noteq> 0 \<longrightarrow> cf_memory cfg \<noteq> [])"
    by (rule set_section_int_step [OF rd n(3) v _ r]) (use s n(4) in \<open>simp split: option.splits\<close>)
  with r n(2) show ?thesis by simp
qed

lemma parse_fault_good:
  assumes rd: "ready f cfg" and s: "case section of None \<Rightarrow> True | Some s \<Rightarrow> plain_section s"
  shows "good f c cfg (parse_fault_interval f cfg section option v)"
proof -
  obtain i j where ij: "i < N_CONFIG_ITEMS" "lit ''fault_badpeernet_interval'' = option_label i"
    "j < N_CONFIG_ITEMS" "lit ''fault_reset_interval'' = option_label j"
    using option_index [OF fault_names(1)] option_index [OF fault_names(2)] by blast
  have a: "i \<in> asap_options" "j \<in> asap_options" using ij by (simp_all add: asap_options_def)
  note i = fault_step [OF rd s fault_names(1) ij(2,1) a(1) asap_conforms(1) [OF ij(1) ij(2) [symmetric]], of c]
  note j = fault_step [OF rd s fault_names(2) ij(4,3) a(2) asap_conforms(2) [OF ij(3) ij(4) [symmetric]], of c]
  show ?thesis
    using i j step_refl [OF rd, of c] by (simp add: parse_fault_interval_def)
qed

lemma set_item_twice: "a < length (cf_items cfg) \<Longrightarrow> set_item a g (set_item a h cfg) = set_item a (\<lambda>ci. g (h ci)) cfg"
  by (simp add: set_item_def item_def)

lemma store_finish:
  assumes st: "\<And>h mem. same_option (item cfg1 a) (h (item cfg1 a)) \<Longrightarrow> conforms d (ci_val (h (item cfg1 a))) \<Longrightarrow>
      cf_memory cfg1 = [] \<longrightarrow> mem = [] \<Longrightarrow> step f c cfg (set_item a h (cfg1\<lparr>cf_memory := mem\<rparr>))"
    and ty: "ci_type (item cfg1 a) = ci_type d" and x: "conforms d x" and a: "a < length (cf_items cfg1)"
  shows "good f c cfg (and_then (store_value a x s cfg1) (finish_item c a))"
proof -
  from store_value_conforms [OF ty x, of s] obtain b mem h where
    sv: "store_value a x s cfg1 = Returns (b, set_item a h (cfg1\<lparr>cf_memory := mem\<rparr>))"
    and h: "same_option (item cfg1 a) (h (item cfg1 a))" "conforms d (ci_val (h (item cfg1 a)))"
    and mem: "cf_memory cfg1 = [] \<longrightarrow> b \<and> mem = []" by blast
  let ?g = "\<lambda>ci. (h ci)\<lparr>ci_flags := ci_flags (h ci) OR 2\<rparr>"
  have "step f c cfg (set_item a h (cfg1\<lparr>cf_memory := mem\<rparr>))" using st h mem by simp
  moreover have "step f c cfg (set_item a ?g (cfg1\<lparr>cf_memory := mem\<rparr>))"
    by (rule st) (use h mem in \<open>simp_all add: same_option_def flag_bits\<close>)
  moreover have "set_item a (\<lambda>ci. ci\<lparr>ci_flags := ci_flags ci OR 2\<rparr>) (set_item a h (cfg1\<lparr>cf_memory := mem\<rparr>))
      = set_item a ?g (cfg1\<lparr>cf_memory := mem\<rparr>)"
    by (rule set_item_twice) (use a in simp)
  ultimately show ?thesis by (cases c) (simp_all add: sv finish_item_def)
qed

lemma parse_item_good:
  assumes rd: "ready f cfg" and s: "case section of None \<Rightarrow> True | Some s \<Rightarrow> plain_section s"
  shows "good f c cfg (parse_item f cfg c section option v)"
  unfolding parse_item_def
proof (rule good_bind [OF parse_fault_good [OF rd s]], unfold prod.case)
  fix r cfg' assume st: "step f c cfg cfg'"
  then have rd: "ready f cfg'" by (simp add: step_def)
  then have wt: "well_typed f {} cfg'" by (simp add: ready_def)
  note refl = step_refl [OF rd, of c]
  let ?store = "\<lambda>g x. case section of
      Some s \<Rightarrow> if ci_flags (item cfg' g) AND 4 = 0 then Returns (NOT_PARSED, cfg')
        else let (dst, cfg) = section_dst f cfg' s option (ci_type (item cfg' g))
          in (case dst of None \<Rightarrow> Returns (NOT_PARSED, cfg) | Some a \<Rightarrow> and_then (store_value a x v cfg) (finish_item c a))
    | None \<Rightarrow> if \<not> c \<and> ci_flags (item cfg' g) AND 2 \<noteq> 0 then Returns (PARSED_OK, cfg')
        else and_then (store_value g x v cfg') (finish_item c g)"
  have store: "good f c cfg' (?store g x)"
    if g: "g < N_CONFIG_ITEMS" "option = option_label g" and x: "conforms (config_tab f ! g) x" for g x
  proof (cases "section")
    case None
    have so: "same_option (config_tab f ! g) (item cfg' g)" using well_typed_same [OF wt g(1)] .
    show ?thesis
    proof (cases "\<not> c \<and> ci_flags (item cfg' g) AND 2 \<noteq> 0")
      case False
      have "good f c cfg' (and_then (store_value g x v cfg') (finish_item c g))"
        by (rule store_finish [where d = "config_tab f ! g"])
          (use step_global [OF rd g(1)] False so x wt g in \<open>auto simp: locked_def same_option_def well_typed_def\<close>)
      then show ?thesis by (subst None, subst option.case, subst if_not_P [OF False])
    qed (use refl in \<open>auto simp: None\<close>)
  next
    case (Some sec)
    then have sec: "plain_section sec" using s by simp
    have ty: "ci_type (item cfg' g) = ci_type (config_tab f ! g)" using well_typed_same [OF wt g(1)] by (simp add: same_option_def)
    obtain dst cfg1 where d: "section_dst f cfg' sec option (ci_type (item cfg' g)) = (dst, cfg1)" by fastforce
    note typed = section_dst_typed [OF wt g(1) sec d [unfolded g(2) ty]]
    have "good f c cfg' (case dst of None \<Rightarrow> Returns (NOT_PARSED, cfg1) | Some a \<Rightarrow> and_then (store_value a x v cfg1) (finish_item c a))"
    proof (cases dst)
      case None
      with typed rd show ?thesis by (simp add: step_def ready_def kept_def)
    next
      case (Some a)
      then have a: "entry f {a} g (sec @ [46] @ option_label g) a (item cfg1 a)" "a < length (cf_items cfg1)"
        using typed by (auto simp: well_typed_def)
      have "good f c cfg' (and_then (store_value a x v cfg1) (finish_item c a))"
        by (rule store_finish [where d = "config_tab f ! g", OF _ _ x a(2)])
          (use step_section [OF rd g(1) sec d [unfolded g(2) ty Some]] a(1) in \<open>auto simp: entry_def\<close>)
      with Some show ?thesis by simp
    qed
    then show ?thesis by (simp add: Some d refl)
  qed
  show "good f c cfg' (if r \<noteq> NOT_PARSED then Returns (r, cfg')
      else case config_global_item cfg' option of None \<Rightarrow> Returns (NOT_PARSED, cfg')
        | Some g \<Rightarrow> and_then (parse_value f (item cfg' g) v) (\<lambda>pv. case pv of Inl r \<Rightarrow> Returns (r, cfg')
          | Inr pv \<Rightarrow> (case section of
             Some s \<Rightarrow>
               if ci_flags (item cfg' g) AND 4 = 0 then Returns (NOT_PARSED, cfg')
               else
                 let (dst, cfg) = (case config_section_item cfg' s option of
                       Some a \<Rightarrow> (Some a, cfg')
                     | None \<Rightarrow> config_item_alloc f cfg' s option (ci_type (item cfg' g)))
                 in (case dst of None \<Rightarrow> Returns (NOT_PARSED, cfg)
                    | Some a \<Rightarrow> and_then (store_value a pv v cfg) (finish_item c a))
           | None \<Rightarrow>
               if \<not> c \<and> ci_flags (item cfg' g) AND 2 \<noteq> 0 then Returns (PARSED_OK, cfg')
               else and_then (store_value g pv v cfg') (finish_item c g))))"
  proof (cases "r \<noteq> NOT_PARSED \<or> config_global_item cfg' option = None")
    case False
    then obtain g where g: "config_global_item cfg' option = Some g" and r: "r = NOT_PARSED" by auto
    from config_global_item_Some [OF wt g] have gl: "g < N_CONFIG_ITEMS" "option = option_label g" by simp_all
    from parse_value_conforms [OF well_typed_same [OF wt gl(1)] gl(1), of v] obtain pv where
      pv: "parse_value f (item cfg' g) v = Returns pv" "\<forall>x. pv = Inr x \<longrightarrow> conforms (config_tab f ! g) x" by blast
    show ?thesis
    proof (cases pv)
      case (Inr x)
      with store [OF gl, of x] pv(2) show ?thesis
        unfolding r g section_dst_def pv(1) Inr option.case and_then.simps sum.case by simp
    qed (simp add: r g pv refl)
  qed (use refl in auto)
qed

subsection \<open>Setters\<close>

text \<open>A setter of a program that stays in the range of its option.\<close>

lemma set_double_step:
  assumes rd: "ready f cfg" and r: "config_set_double cfg option v = (r, cfg')"
  shows "step f True cfg cfg'"
proof (cases "r = 0")
  case True
  from rd have wt: "well_typed f {} cfg" by (simp add: ready_def)
  from r True obtain a where a: "config_global_item cfg option = Some a" "ci_type (item cfg a) = CFG_TYPE_DOUBLE"
    "cfg' = set_item a (\<lambda>ci. ci\<lparr>ci_flags := ci_flags ci OR 2, ci_val := VD v\<rparr>) (cfg\<lparr>cf_memory := cf_memory cfg\<rparr>)"
    by (auto simp: config_set_double_def config_find_item_def lock_item_def split: option.splits if_splits)
  have al: "a < N_CONFIG_ITEMS" using config_global_item_Some [OF wt a(1)] by simp
  have ty: "ci_type (config_tab f ! a) = CFG_TYPE_DOUBLE" using a(2) well_typed_same [OF wt al] by (simp add: same_option_def)
  show ?thesis unfolding a(3)
    by (rule step_global [OF rd al]) (use ty defaults_conform [OF al, of f] in \<open>auto simp: same_option_def flag_bits conforms_def\<close>)
next
  case False
  with r have "cfg' = cfg" by (auto simp: config_set_double_def split: option.splits if_splits)
  with rd show ?thesis by (simp add: step_refl)
qed

lemma set_string_step:
  assumes rd: "ready f cfg" and r: "config_set_string cfg option v = (r, cfg')"
  shows "step f True cfg cfg'"
proof (cases "config_global_item cfg option")
  case (Some a)
  from rd have wt: "well_typed f {} cfg" by (simp add: ready_def)
  have al: "a < N_CONFIG_ITEMS" using config_global_item_Some [OF wt Some] by simp
  then have len: "a < length (cf_items cfg)" using wt by (simp add: well_typed_def)
  have ty: "ci_type (item cfg a) = ci_type (config_tab f ! a)" using well_typed_same [OF wt al] by (simp add: same_option_def)
  obtain m c where m: "alloc cfg = (m, c)" by fastforce
  have mem: "cf_memory cfg = [] \<longrightarrow> tl (cf_memory cfg) = []" by simp
  note c = alloc_memory [OF m]
  show ?thesis
  proof (cases "ci_type (item cfg a) = CFG_TYPE_STRING")
    case True
    have st: "step f True cfg (set_item a h (cfg\<lparr>cf_memory := tl (cf_memory cfg)\<rparr>))"
      if "\<And>ci. same_option ci (h ci)" "\<And>ci. \<exists>s. ci_val (h ci) = VS s" for h
      by (rule step_global [OF rd al]) (use True ty that in \<open>simp_all add: conforms_def\<close>)
    let ?h = "\<lambda>s ci. ci\<lparr>ci_flags := ci_flags ci OR 2, ci_val := VS s\<rparr>"
    let ?g = "\<lambda>ci. (?h (Some v) ci)\<lparr>ci_flags := (ci_flags ci OR 2) OR 16\<rparr>"
    have "step f True cfg (set_item a (?h None) c)" "step f True cfg (set_item a ?g c)"
      unfolding c by (rule st; simp add: same_option_def flag_bits)+
    moreover have "set_item a (\<lambda>ci. ci\<lparr>ci_flags := ci_flags ci OR 16\<rparr>) (set_item a (?h (Some v)) c) = set_item a ?g c"
      by (subst set_item_twice) (use len in \<open>simp_all add: c\<close>)
    ultimately show ?thesis
      using r m True Some by (auto simp: config_set_string_def config_find_item_def lock_item_def split: if_splits)
  qed (use r Some rd in \<open>simp add: config_set_string_def config_find_item_def step_refl\<close>)
qed (use r rd in \<open>simp add: config_set_string_def config_find_item_def step_refl\<close>)

subsection \<open>Reading values\<close>

lemma find_item_entry:
  assumes wt: "well_typed f {} cfg" and j: "j < N_CONFIG_ITEMS"
    and s: "case section of None \<Rightarrow> True | Some s \<Rightarrow> length s \<le> MAX_IFNAME_SIZE"
  shows "\<exists>a. config_find_item cfg section (option_label j) = Some a \<and> ci_type (item cfg a) = ci_type (config_tab f ! j)
    \<and> conforms (config_tab f ! j) (ci_val (item cfg a))"
proof -
  have g: "hash_lookup (cf_htab cfg) (global_key j) = Some j" using wt j by (simp add: well_typed_def)
  from well_typed_lookup [OF wt g] obtain i where i: "entry f {} i (global_key j) j (item cfg j)" .
  then have "i = j" using option_key [of j i "lit ''global''"] j by (auto simp: entry_def global_key_def)
  with i have "ci_type (item cfg j) = ci_type (config_tab f ! j)" "conforms (config_tab f ! j) (ci_val (item cfg j))"
    by (simp_all add: entry_def)
  note glob = config_global_item_label [OF wt j] this
  show ?thesis
  proof (cases "section")
    case (Some sec)
    show ?thesis
    proof (cases "config_section_item cfg sec (option_label j)")
      case None
      with Some glob show ?thesis by (simp add: config_find_item_def)
    next
      case a: (Some a)
      have "length sec \<le> 108" using Some s by simp
      from section_item [OF wt j this a] a Some show ?thesis by (simp add: config_find_item_def entry_def)
    qed
  qed (use glob in \<open>simp add: config_find_item_def\<close>)
qed

lemma get_int_entry:
  assumes wt: "well_typed f {} cfg" and j: "j < N_CONFIG_ITEMS"
    and s: "case section of None \<Rightarrow> True | Some s \<Rightarrow> length s \<le> MAX_IFNAME_SIZE"
    and ty: "ci_type (config_tab f ! j) = CFG_TYPE_INT \<or> ci_type (config_tab f ! j) = CFG_TYPE_ENUM"
  shows "\<exists>i. config_get_int cfg section (option_label j) = Returns i \<and> conforms (config_tab f ! j) (VI i)"
proof -
  from find_item_entry [OF wt j s] obtain a where a: "config_find_item cfg section (option_label j) = Some a"
    "ci_type (item cfg a) = ci_type (config_tab f ! j)" "conforms (config_tab f ! j) (ci_val (item cfg a))" by blast
  from a(3) ty obtain i where "ci_val (item cfg a) = VI i" by (auto simp: conforms_def)
  with a ty show ?thesis by (auto simp: config_get_int_def)
qed

lemma option_in_table: "d \<in> set (config_tab f) \<Longrightarrow> \<exists>j < N_CONFIG_ITEMS. config_tab f ! j = d \<and> ci_label d = option_label j"
  by (auto simp: in_set_conv_nth)

lemma onestep_options:
  "config_enum ''time_stamping'' False 1 timestamping_enu \<in> set (config_tab f)"
  "config_int ''twoStepFlag'' False 1 0 1 \<in> set (config_tab f)"
  by (simp_all add: config_tab_def)

lemma onestep_obtain:
  obtains i j where "i < N_CONFIG_ITEMS" "j < N_CONFIG_ITEMS" "option_label i = lit ''time_stamping''"
    "option_label j = lit ''twoStepFlag''" "ci_type (config_tab f ! i) = CFG_TYPE_ENUM" "ci_type (config_tab f ! j) = CFG_TYPE_INT"
    "\<And>v. conforms (config_tab f ! i) (VI v) \<longleftrightarrow> v \<in> {0..4}" "\<And>v. conforms (config_tab f ! j) (VI v) \<longleftrightarrow> v \<in> {0..1}"
proof -
  from option_in_table [OF onestep_options(1) [of f]] obtain i where i: "i < N_CONFIG_ITEMS"
    "config_tab f ! i = config_enum ''time_stamping'' False 1 timestamping_enu" "lit ''time_stamping'' = option_label i"
    by (auto simp: config_enum_def)
  from option_in_table [OF onestep_options(2) [of f]] obtain j where j: "j < N_CONFIG_ITEMS"
    "config_tab f ! j = config_int ''twoStepFlag'' False 1 0 1" "lit ''twoStepFlag'' = option_label j"
    by (auto simp: config_int_def)
  show ?thesis
    by (rule that [OF i(1) j(1) i(3) [symmetric] j(3) [symmetric]])
      (auto simp: i(2) j(2) config_enum_def config_int_def conforms_def timestamping_enu_def)
qed

text \<open>After it succeeds the two options agree.\<close>

lemma harmonize_result:
  assumes rd: "ready f cfg"
  shows "\<exists>r cfg'. config_harmonize_onestep f cfg = Returns (r, cfg') \<and> step f True cfg cfg' \<and> (r = 0 \<or> r = -1)
    \<and> (r = 0 \<longrightarrow> (\<exists>ts tw. config_get_int cfg' None (lit ''time_stamping'') = Returns ts
          \<and> config_get_int cfg' None (lit ''twoStepFlag'') = Returns tw \<and> (tw = 0 \<longleftrightarrow> ts = 3 \<or> ts = 4)))"
proof -
  from rd have wt: "well_typed f {} cfg" by (simp add: ready_def)
  from onestep_obtain [of f] obtain i j where ij: "i < N_CONFIG_ITEMS" "j < N_CONFIG_ITEMS"
    "option_label i = lit ''time_stamping''" "option_label j = lit ''twoStepFlag''"
    "ci_type (config_tab f ! i) = CFG_TYPE_ENUM" "ci_type (config_tab f ! j) = CFG_TYPE_INT"
    "\<And>v. conforms (config_tab f ! i) (VI v) \<longleftrightarrow> v \<in> {0..4}" "\<And>v. conforms (config_tab f ! j) (VI v) \<longleftrightarrow> v \<in> {0..1}"
    by metis
  have ne: "i \<noteq> j" using ij(5,6) by auto
  have get: "config_get_int cfg None (option_label k) = Returns v \<longleftrightarrow> ci_val (item cfg k) = VI v"
    if "well_typed f {} cfg" "k = i \<or> k = j" for cfg k v
  proof -
    have k: "k < N_CONFIG_ITEMS" using that ij by auto
    show ?thesis
      using config_global_item_label [OF that(1) k] well_typed_same [OF that(1) k] ij(5,6) that(2)
      by (auto simp: config_get_int_def config_find_item_def same_option_def split: any_t.splits)
  qed
  from get_int_entry [OF wt ij(1), of None] get_int_entry [OF wt ij(2), of None] ij obtain ts tw where
    t: "config_get_int cfg None (lit ''time_stamping'') = Returns ts" "ts \<in> {0..4}"
    "config_get_int cfg None (lit ''twoStepFlag'') = Returns tw" "tw \<in> {0..1}" by auto
  have set: "\<exists>cfg'. config_set_int f cfg (option_label k) v = (0, cfg') \<and> step f True cfg cfg'
      \<and> ci_val (item cfg' k) = VI v \<and> (\<forall>l. l \<noteq> k \<longrightarrow> item cfg' l = item cfg l)"
    if k: "k = i \<or> k = j" and v: "conforms (config_tab f ! k) (VI v)" for k v
  proof -
    have kl: "k < N_CONFIG_ITEMS" "k < length (cf_items cfg)" using k ij wt by (auto simp: well_typed_def)
    obtain r cfg' where r: "config_set_section_int f cfg None (option_label k) v = (r, cfg')" by fastforce
    have "step f True cfg cfg'" using set_section_int_step [OF rd kl(1) v _ r, of True] by simp
    moreover have "r = 0" "cfg' = lock_item k (VI v) cfg"
      using r config_global_item_label [OF wt kl(1)] well_typed_same [OF wt kl(1)] ij(5,6) k
      by (auto simp: config_set_section_int_def config_find_item_def same_option_def)
    ultimately show ?thesis using r kl(2) by (simp add: config_set_int_def lock_item_def item_set_item)
  qed
  consider "tw = 0" "ts = 1" | "tw = 1" "ts = 3 \<or> ts = 4" | "tw = 0" "ts = 3 \<or> ts = 4" | "tw = 1" "ts = 0 \<or> ts = 1 \<or> ts = 2"
    | "tw = 0" "ts = 0 \<or> ts = 2" using t(2,4) by force
  then show ?thesis
  proof cases
    case 1
    from set [of i 3] ij(7) obtain cfg' where c: "config_set_int f cfg (lit ''time_stamping'') 3 = (0, cfg')"
      "step f True cfg cfg'" "ci_val (item cfg' i) = VI 3" "\<forall>l. l \<noteq> i \<longrightarrow> item cfg' l = item cfg l"
      using ij(3) by auto
    then have wt': "well_typed f {} cfg'" by (simp add: step_def ready_def)
    have "config_harmonize_onestep f cfg = Returns (0, cfg')"
      using 1 t c(1) by (simp add: config_harmonize_onestep_def)
    moreover have "config_get_int cfg' None (lit ''time_stamping'') = Returns 3"
      using get [OF wt', of i 3] c(3) ij(3) by simp
    moreover have "config_get_int cfg' None (lit ''twoStepFlag'') = Returns 0"
      using get [OF wt', of j 0] get [OF wt, of j 0] c(4) ne t(3) 1 ij(4) by simp
    ultimately show ?thesis using c(2) by auto
  next
    case 2
    from set [of j 0] ij(8) obtain cfg' where c: "config_set_int f cfg (lit ''twoStepFlag'') 0 = (0, cfg')"
      "step f True cfg cfg'" "ci_val (item cfg' j) = VI 0" "\<forall>l. l \<noteq> j \<longrightarrow> item cfg' l = item cfg l"
      using ij(4) by auto
    then have wt': "well_typed f {} cfg'" by (simp add: step_def ready_def)
    have "config_harmonize_onestep f cfg = Returns (0, cfg')"
      using 2 t c(1) by (auto simp: config_harmonize_onestep_def)
    moreover have "config_get_int cfg' None (lit ''twoStepFlag'') = Returns 0"
      using get [OF wt', of j 0] c(3) ij(4) by simp
    moreover have "config_get_int cfg' None (lit ''time_stamping'') = Returns ts"
      using get [OF wt', of i ts] get [OF wt, of i ts] c(4) ne t(1) ij(3) by simp
    ultimately show ?thesis using c(2) 2 by auto
  qed (use t step_refl [OF rd] in \<open>auto simp: config_harmonize_onestep_def\<close>)
qed

subsection \<open>Reading a file\<close>

definition same_options :: "'d config \<Rightarrow> 'd config \<Rightarrow> bool" where
  "same_options cfg cfg' \<longleftrightarrow> cf_items cfg' = cf_items cfg \<and> cf_htab cfg' = cf_htab cfg \<and> cf_intfs cfg' = cf_intfs cfg
     \<and> (cf_memory cfg = [] \<longrightarrow> cf_memory cfg' = [])"

lemma same_options_step: "ready f cfg \<Longrightarrow> same_options cfg cfg' \<Longrightarrow> step f c cfg cfg'"
  using well_typed_cong [of cfg' cfg f "{}"] by (simp add: step_def ready_def same_options_def kept_def item_def)

lemma same_options_alloc [simp]: "same_options cfg (snd (alloc cfg))"
  by (simp add: same_options_def alloc_plenty)

lemma same_options_refl [simp]: "same_options cfg cfg"
  by (simp add: same_options_def)

lemma same_options_trans: "same_options cfg cfg' \<Longrightarrow> same_options cfg' cfg'' \<Longrightarrow> same_options cfg cfg''"
  by (simp add: same_options_def)

lemma same_options_tables [simp]:
  "same_options cfg (set_table k g cfg') = same_options cfg cfg'"
  "same_options cfg (cfg'\<lparr>cf_tables := ts\<rparr>) = same_options cfg cfg'"
  "same_options cfg (cfg'\<lparr>cf_current := u\<rparr>) = same_options cfg cfg'"
  by (simp_all add: same_options_def set_table_def)

lemma alloc_same_options: "alloc cfg = (m, cfg') \<Longrightarrow> same_options cfg cfg'"
  using same_options_alloc [of cfg] by simp

lemma mtab_same_options: "same_options cfg (snd (parse_unicast_mtab_line ia cfg line))"
  by (auto simp: parse_unicast_mtab_line_def config_switch_unicast_mtab_def config_unicast_mtab_query_interval_def
    config_unicast_mtab_peer_def config_unicast_mtab_address_def Let_def
    split: option.splits prod.splits dest: alloc_same_options)

text \<open>
  The name of a port in a section line, and the requirement on a file: no port has the name
  "global" or one that starts with "global.".
\<close>

definition port_section :: "cstr \<Rightarrow> cstr option" where
  "port_section buf =
     (let line = trim_line buf
      in if line = [] \<or> hd line \<noteq> 91 \<or> strcaseeq line (lit ''[global]'') \<or> strcaseeq line (lit ''[unicast_master_table]'')
         then None
         else map_option fst (scan_word 16 (map (\<lambda>c. if c = 91 \<or> c = 93 then 32 else c) line)))"

definition plain_ports :: "cstr list \<Rightarrow> bool" where
  "plain_ports ls \<longleftrightarrow> (\<forall>l \<in> set ls. \<forall>n. port_section l = Some n \<longrightarrow> \<not> prefix (lit ''global'' @ [46]) (n @ [46]))"

lemma scan_word_length: "scan_word k s = Some (w, r) \<Longrightarrow> length w \<le> k"
  by (auto simp: scan_word_def Let_def split: if_splits)

lemma create_interface_step:
  assumes rd: "ready f cfg" and c: "config_create_interface name cfg = (r, cfg')"
  shows "step f c cfg cfg' \<and> (\<forall>n. r = Some n \<longrightarrow> length name \<le> MAX_IFNAME_SIZE \<longrightarrow> n = name)"
proof (cases "find (\<lambda>n. take MAX_IFNAME_SIZE name = take MAX_IFNAME_SIZE n) (cf_intfs cfg)")
  case None
  obtain m c1 where m: "alloc cfg = (m, c1)" by fastforce
  note so = alloc_same_options [OF m]
  from None c m have r: "(r, cfg') = (if \<not> m then (None, c1)
      else (Some (take 108 name), c1\<lparr>cf_intfs := cf_intfs c1 @ [take 108 name]\<rparr>))"
    by (auto simp: config_create_interface_def Let_def)
  have st: "step f c cfg c1" using same_options_step [OF rd so] .
  have "step f c cfg (c1\<lparr>cf_intfs := cf_intfs c1 @ [take 108 name]\<rparr>)"
    using st well_typed_cong [of "c1\<lparr>cf_intfs := cf_intfs c1 @ [take 108 name]\<rparr>" c1 f "{}"]
    by (auto simp: step_def ready_def kept_def item_def)
  with st r show ?thesis by (auto split: if_splits)
next
  case (Some n)
  then have n: "n \<in> set (cf_intfs cfg)" "take 108 name = take 108 n" by (auto simp: find_Some_iff)
  with rd have "length n \<le> 108" by (simp add: ready_def)
  moreover have "r = Some n" "cfg' = cfg" using c Some by (simp_all add: config_create_interface_def)
  ultimately show ?thesis using n(2) rd by (auto simp: step_refl)
qed

definition reader_ok :: "'d dbl \<Rightarrow> config_section \<Rightarrow> cstr option \<Rightarrow> bool" where
  "reader_ok f section port \<longleftrightarrow> (\<forall>n. port = Some n \<longrightarrow> plain_section n) \<and> (section = PORT_SECTION \<longrightarrow> port \<noteq> None)"

text \<open>One line; the next state of the reader is usable when the parser goes on.\<close>

fun good_line :: "'d dbl \<Rightarrow> 'd config \<Rightarrow> (bool \<times> 'd reader) outcome \<Rightarrow> bool" where
  "good_line f cfg Exits \<longleftrightarrow> cf_memory cfg \<noteq> []"
| "good_line f cfg Undefined \<longleftrightarrow> False"
| "good_line f cfg (Returns (go, section, port, cfg')) \<longleftrightarrow> step f False cfg cfg' \<and> (go \<longrightarrow> reader_ok f section port)"

lemma read_section_good:
  assumes rd: "ready f cfg" and ok: "reader_ok f section0 port"
    and p: "section = PORT_SECTION \<Longrightarrow> (\<forall>n r. scan_word 16 line = Some (n, r) \<longrightarrow> \<not> prefix (lit ''global'' @ [46]) (n @ [46]))"
  shows "good_line f cfg (Returns (read_section section line (section', port, cfg)))"
proof (cases "section = PORT_SECTION")
  case False
  with ok step_refl [OF rd] show ?thesis by (simp add: read_section_def reader_ok_def)
next
  case True
  show ?thesis
  proof (cases "scan_word 16 line")
    case None
    with True step_refl [OF rd] show ?thesis by (simp add: read_section_def)
  next
    case (Some wr)
    obtain name r where wr: "wr = (name, r)" by fastforce
    obtain res cfg' where c: "config_create_interface name cfg = (res, cfg')" by fastforce
    from create_interface_step [OF rd c, of False] have st: "step f False cfg cfg'"
      and n: "\<forall>n. res = Some n \<longrightarrow> length name \<le> 108 \<longrightarrow> n = name" by simp_all
    have "length name \<le> 16" using scan_word_length Some wr by blast
    moreover have "\<not> prefix (lit ''global'' @ [46]) (name @ [46])" using p True Some wr by blast
    ultimately have "plain_section name" by (simp add: plain_section_def)
    then show ?thesis using Some wr c st n True \<open>length name \<le> 16\<close>
      by (cases res) (auto simp: read_section_def reader_ok_def)
  qed
qed

lemma read_setting_good:
  assumes rd: "ready f cfg" and ok: "reader_ok f section port" and s: "section = GLOBAL_SECTION \<or> section = PORT_SECTION"
  shows "good_line f cfg (read_setting f line (section, port, cfg))"
proof (cases "parse_setting_line line")
  case None
  with ok s step_refl [OF rd] show ?thesis by (auto simp: read_setting_def reader_ok_def)
next
  case (Some ov)
  obtain opt v where ov: "ov = (opt, v)" by fastforce
  let ?sec = "if section = GLOBAL_SECTION then None else port"
  have sec: "case ?sec of None \<Rightarrow> True | Some s \<Rightarrow> plain_section s"
    using ok by (auto simp: reader_ok_def split: option.splits)
  let ?out = "parse_item f cfg False ?sec (check_deprecated_options opt) v"
  have g: "good f False cfg ?out" by (rule parse_item_good [OF rd sec])
  have e: "read_setting f line (section, port, cfg) = and_then ?out (\<lambda>(r, cfg). Returns (r = PARSED_OK, section, port, cfg))"
    using Some ov ok s by (auto simp: read_setting_def reader_ok_def)
  show ?thesis unfolding e using g ok by (cases ?out) auto
qed

lemma read_line_good:
  assumes rd: "ready f cfg" and ok: "reader_ok f section port" and p: "plain_ports [buf]"
  shows "good_line f cfg (read_line f ia buf (section, port, cfg))"
proof -
  let ?line = "trim_line buf"
  show ?thesis
  proof (cases "?line = [] \<or> hd ?line = 35")
    case True
    with ok step_refl [OF rd] show ?thesis by (simp add: read_line_def)
  next
    case ne: False
    show ?thesis
    proof (cases "parse_section_line cfg ?line")
      case (Some x)
      obtain sec line cfg1 where x: "x = (sec, line, cfg1)" by (cases x)
      have so: "same_options cfg cfg1" using Some x by (auto simp: parse_section_line_def split: if_splits)
      have st: "step f False cfg cfg1" by (rule same_options_step [OF rd so])
      then have rd1: "ready f cfg1" by (simp add: step_def)
      have "\<forall>n r. scan_word 16 line = Some (n, r) \<longrightarrow> \<not> prefix (lit ''global'' @ [46]) (n @ [46])" if "sec = PORT_SECTION"
      proof -
        have "take 1 ?line = [91]" "\<not> strcaseeq ?line (lit ''[global]'')" "\<not> strcaseeq ?line (lit ''[unicast_master_table]'')"
          "line = map (\<lambda>c. if c = 91 \<or> c = 93 then 32 else c) ?line"
          using Some x that by (auto simp: parse_section_line_def split: if_splits)
        moreover from this(1) have "hd ?line = 91" by (cases ?line) auto
        ultimately have "port_section buf = map_option fst (scan_word 16 line)"
          using ne by (simp add: port_section_def Let_def)
        with p show ?thesis by (auto simp: plain_ports_def)
      qed
      then have "good_line f cfg1 (Returns (read_section sec line (section, port, cfg1)))"
        by (rule read_section_good [OF rd1 ok])
      then have "good_line f cfg (Returns (read_section sec line (sec, port, cfg1)))"
        using st by (cases "read_section sec line (sec, port, cfg1)") (auto simp: read_section_def intro: step_trans)
      with ne Some x show ?thesis by (simp add: read_line_def)
    next
      case None
      obtain r cfg1 where m: "parse_unicast_mtab_line ia cfg ?line = (r, cfg1)" by fastforce
      have "step f False cfg cfg1" using same_options_step [OF rd mtab_same_options [of cfg ia ?line]] m by simp
      with ne None m ok rd read_setting_good [OF rd ok] step_refl [OF rd] show ?thesis
        by (cases "section") (auto simp: read_line_def)
    qed
  qed
qed

lemma read_loop_good:
  "ready f cfg \<Longrightarrow> reader_ok f section port \<Longrightarrow> plain_ports ls \<Longrightarrow> good f False cfg (read_loop f ia ls (section, port, cfg))"
proof (induction ls arbitrary: "section" port cfg)
  case Nil
  then show ?case by (simp add: step_refl)
next
  case (Cons l ls)
  have p: "plain_ports [l]" "plain_ports ls" using Cons.prems(3) by (simp_all add: plain_ports_def)
  note g = read_line_good [OF Cons.prems(1,2) p(1), of ia]
  show ?case
  proof (cases "read_line f ia l (section, port, cfg)")
    case (Returns x)
    obtain go section1 port1 cfg1 where x: "x = (go, section1, port1, cfg1)" by (cases x)
    have st: "step f False cfg cfg1" and ok: "go \<longrightarrow> reader_ok f section1 port1" using g Returns x by simp_all
    show ?thesis
    proof (cases go)
      case True
      have "good f False cfg1 (read_loop f ia ls (section1, port1, cfg1))"
        using Cons.IH [OF _ _ p(2)] st ok True by (simp add: step_def)
      then have "good f False cfg (read_loop f ia ls (section1, port1, cfg1))"
        using good_bind [of f False cfg "Returns (0 :: nat, cfg1)" "\<lambda>_. read_loop f ia ls (section1, port1, cfg1)"] st by simp
      with Returns x True show ?thesis by simp
    qed (use st Returns x in simp)
  qed (use g in simp_all)
qed

lemma config_read_good:
  assumes "ready f cfg" "case file of None \<Rightarrow> True | Some s \<Rightarrow> plain_ports (read_lines s)"
  shows "good f False cfg (config_read f ia file cfg)"
  using assms read_loop_good [OF assms(1), of UNKNOWN_SECTION None]
  by (auto simp: config_read_def reader_ok_def step_refl split: option.splits)

subsection \<open>Creation\<close>

definition inserted :: "'d dbl \<Rightarrow> nat \<Rightarrow> 'd config \<Rightarrow> bool" where
  "inserted f k cfg \<longleftrightarrow> hash_ok (cf_htab cfg) \<and> length (cf_items cfg) = N_CONFIG_ITEMS \<and> cf_intfs cfg = []
     \<and> (\<forall>j < N_CONFIG_ITEMS. \<exists>fl. item cfg j = (config_tab f ! j)\<lparr>ci_flags := fl\<rparr> \<and> fl AND 4 = ci_flags (config_tab f ! j) AND 4)
     \<and> (\<forall>key a. hash_lookup (cf_htab cfg) key = Some a \<longleftrightarrow> a < k \<and> key = global_key a)"

lemma global_key_inject: "i < N_CONFIG_ITEMS \<Longrightarrow> j < N_CONFIG_ITEMS \<Longrightarrow> global_key i = global_key j \<longleftrightarrow> i = j"
  using option_key [of i j "lit ''global''" "lit ''global''"] by (auto simp: global_key_def)

lemma insert_default_step:
  assumes ins: "inserted f k cfg" and k: "k < N_CONFIG_ITEMS"
  shows "(\<forall>cfg'. insert_default k cfg = Some cfg' \<longrightarrow> inserted f (Suc k) cfg')
    \<and> (cf_memory cfg = [] \<longrightarrow> (\<exists>cfg'. insert_default k cfg = Some cfg' \<and> cf_memory cfg' = []))"
proof -
  define c where "c = set_item k (\<lambda>ci. ci\<lparr>ci_flags := ci_flags ci OR 1\<rparr>) cfg"
  have len: "k < length (cf_items cfg)" using ins k by (simp add: inserted_def)
  have it: "\<exists>fl. item c j = (config_tab f ! j)\<lparr>ci_flags := fl\<rparr> \<and> fl AND 4 = ci_flags (config_tab f ! j) AND 4"
    if "j < N_CONFIG_ITEMS" for j
  proof -
    from ins that obtain fl where "item cfg j = (config_tab f ! j)\<lparr>ci_flags := fl\<rparr>" "fl AND 4 = ci_flags (config_tab f ! j) AND 4"
      by (auto simp: inserted_def)
    then show ?thesis by (auto simp: c_def item_set_item [OF len] flag_bits)
  qed
  have key: "dotted (CONFIG_LABEL_SIZE + 8) (lit ''global'') (ci_label (item c k)) = global_key k"
  proof -
    from it [OF k] k have "ci_label (item c k) = option_label k" by auto
    with option_label_length [OF k] show ?thesis by (simp add: dotted_def global_length global_key_def)
  qed
  have none: "hash_lookup (cf_htab c) (global_key k) = None"
  proof (rule ccontr)
    assume "hash_lookup (cf_htab c) (global_key k) \<noteq> None"
    then obtain a where "a < k" "global_key k = global_key a" using ins by (auto simp: inserted_def c_def)
    with k global_key_inject [of k a] show False by simp
  qed
  obtain r c1 where i: "insert_key c (global_key k) k = (r, c1)" by fastforce
  have e: "insert_default k cfg = (if r \<noteq> 0 then None else Some c1)"
    using i key by (simp add: insert_default_def Let_def flip: c_def)
  have "inserted f (Suc k) c1" if "r = 0"
  proof -
    from insert_key_cases [OF i] that obtain mem ht where
      ht: "hash_insert True True (cf_htab c) (global_key k) k = (0, ht)" "c1 = c\<lparr>cf_memory := mem, cf_htab := ht\<rparr>" by auto
    have ok: "hash_ok (cf_htab c)" using ins by (simp add: c_def inserted_def)
    have "hash_lookup ht = (hash_lookup (cf_htab c))(global_key k \<mapsto> k)" "hash_ok ht"
      using options.lookup_insert [OF ok, of "global_key k" k] options.insert_ok [OF ok, of "global_key k" k] ht(1) by simp_all
    moreover have "hash_lookup (cf_htab c) key = Some a \<longleftrightarrow> a < k \<and> key = global_key a" for key a
      using ins by (simp add: inserted_def c_def)
    moreover have "item c1 j = item c j" for j by (simp add: ht(2) item_def)
    moreover have "length (cf_items c1) = N_CONFIG_ITEMS" "cf_intfs c1 = []" using ins by (simp_all add: ht(2) c_def inserted_def)
    moreover have "global_key k = global_key a \<longleftrightarrow> a = k" if "a < k" for a using that k global_key_inject [of k a] by auto
    ultimately show ?thesis
      using it by (auto simp: inserted_def ht(2) less_Suc_eq)
  qed
  moreover have "r = 0 \<and> cf_memory c1 = []" if "cf_memory cfg = []"
  proof -
    have mem: "cf_memory c = []" using that by (simp add: c_def)
    obtain z ht where h: "hash_insert True True (cf_htab c) (global_key k) k = (z, ht)" by fastforce
    then have "z = 0" using hash_insert_new [OF none, of k] by simp
    with h i none mem show ?thesis by (auto simp: insert_key_def Let_def alloc_plenty [OF mem])
  qed
  ultimately show ?thesis using e by auto
qed

lemma insert_defaults_step:
  "inserted f k cfg \<Longrightarrow> k \<le> N_CONFIG_ITEMS \<Longrightarrow>
    (\<forall>cfg'. insert_defaults [k..<N_CONFIG_ITEMS] cfg = Some cfg' \<longrightarrow> inserted f N_CONFIG_ITEMS cfg')
    \<and> (cf_memory cfg = [] \<longrightarrow> (\<exists>cfg'. insert_defaults [k..<N_CONFIG_ITEMS] cfg = Some cfg' \<and> cf_memory cfg' = []))"
proof (induction "N_CONFIG_ITEMS - k" arbitrary: k cfg)
  case (Suc n)
  then have k: "k < N_CONFIG_ITEMS" by simp
  from insert_default_step [OF Suc.prems(1) k] Suc.hyps(1) [of "Suc k"] Suc.hyps(2) k show ?case
    by (auto simp: upt_conv_Cons split: option.splits)
qed simp

lemma inserted_ready:
  assumes ins: "inserted f N_CONFIG_ITEMS cfg"
  shows "ready f cfg"
proof -
  have so: "same_option (config_tab f ! j) (item cfg j) \<and> entry f {} j (global_key j) j (item cfg j)"
    if j: "j < N_CONFIG_ITEMS" for j
  proof -
    from ins j obtain fl where "item cfg j = (config_tab f ! j)\<lparr>ci_flags := fl\<rparr>" "fl AND 4 = ci_flags (config_tab f ! j) AND 4"
      by (auto simp: inserted_def)
    with j defaults_conform [OF j, of f] show ?thesis by (simp add: same_option_def entry_def)
  qed
  moreover have "hash_lookup (cf_htab cfg) key = Some a \<longleftrightarrow> a < N_CONFIG_ITEMS \<and> key = global_key a" for key a
    using ins by (simp add: inserted_def)
  moreover have "hash_ok (cf_htab cfg)" "length (cf_items cfg) = N_CONFIG_ITEMS" using ins by (simp_all add: inserted_def)
  ultimately have "well_typed f {} cfg" unfolding well_typed_def by simp blast
  with ins show ?thesis by (simp add: ready_def inserted_def)
qed

lemma take_memory_cases:
  "take_memory n cfg = Some cfg' \<Longrightarrow> \<exists>mem. cfg' = cfg\<lparr>cf_memory := mem\<rparr>"
proof (induction n arbitrary: cfg)
  case 0
  then show ?case by (auto intro: exI [of _ "cf_memory cfg"])
next
  case (Suc n)
  obtain m c where m: "alloc cfg = (m, c)" by fastforce
  with Suc.prems have "take_memory n c = Some cfg'" by (auto split: if_splits)
  from Suc.IH [OF this] alloc_memory [OF m] show ?case by auto
qed

lemma take_memory_plenty: "cf_memory cfg = [] \<Longrightarrow> take_memory n cfg = Some cfg"
  by (induction n) (simp_all add: alloc_plenty)

lemma hash_create_ok: "hash_ok (hash_create :: nat hash)"
  by (rule options.empty_ok)

lemma created_inserted: "inserted f 0 \<lparr>cf_items = config_tab f, cf_htab = hash_create, cf_intfs = [], cf_tables = [],
  cf_current = None, cf_memory = mem\<rparr>"
  by (auto simp: inserted_def hash_create_ok item_def options.lookup_empty) (metis config_item.surjective config_item.update_convs(4))

lemma config_create_ready:
  assumes "config_create (config_tab f) mem = Some cfg"
  shows "ready f cfg"
proof -
  let ?c = "\<lparr>cf_items = config_tab f, cf_htab = hash_create, cf_intfs = [], cf_tables = [], cf_current = None, cf_memory = mem\<rparr>"
  from assms obtain c where c: "take_memory 3 ?c = Some c" "insert_defaults [0..<N_CONFIG_ITEMS] c = Some cfg"
    by (auto simp: config_create_def simp del: take_memory.simps split: option.splits if_splits)
  from take_memory_cases [OF c(1)] obtain m where "c = ?c\<lparr>cf_memory := m\<rparr>" by blast
  then have "inserted f 0 c" using created_inserted [of f m] by simp
  from insert_defaults_step [OF this] c(2) show ?thesis by (simp add: inserted_ready)
qed

lemma config_create_succeeds: "\<exists>cfg. config_create (config_tab f) [] = Some cfg \<and> cf_memory cfg = []"
proof -
  let ?c = "\<lparr>cf_items = config_tab f, cf_htab = hash_create, cf_intfs = [], cf_tables = [], cf_current = None, cf_memory = []\<rparr>"
  from insert_defaults_step [OF created_inserted [of f "[]"]] obtain cfg where
    c: "insert_defaults [0..<N_CONFIG_ITEMS] ?c = Some cfg" "cf_memory cfg = []" "inserted f N_CONFIG_ITEMS cfg" by auto
  have rd: "ready f cfg" by (rule inserted_ready) (rule c(3))
  then have wt: "well_typed f {} cfg" by (simp add: ready_def)
  have "self_test N_CONFIG_ITEMS cfg"
    unfolding self_test_def list_all_iff
  proof
    fix i assume "i \<in> set [0..<N_CONFIG_ITEMS]"
    then have i: "i < N_CONFIG_ITEMS" by simp
    have "ci_label (item cfg i) = option_label i" using well_typed_same [OF wt i] i by (simp add: same_option_def)
    with config_global_item_label [OF wt i] show "config_global_item cfg (ci_label (item cfg i)) = Some i" by simp
  qed
  with c show ?thesis by (simp add: config_create_def take_memory_plenty del: take_memory.simps)
qed

end
