(* ===== verification/ConfigProps.thy ===== *)
theory ConfigProps
  imports ConfigSafe
begin

text \<open>
  The properties of the configuration: configurations that a program can reach, reading an
  option of the table, reading a file, the command line against the file, and two ways in which
  the file breaks this.
\<close>

subsection \<open>Reachable configurations\<close>

text \<open>
  What a program does with a configuration, in any order. The setters for integers are used with
  values of the option; port sections have plain names.
\<close>

inductive configured :: "'d dbl \<Rightarrow> (cstr \<Rightarrow> u8 list option) \<Rightarrow> 'd config \<Rightarrow> bool" for f ia where
  created: "config_create (config_tab f) mem = Some cfg \<Longrightarrow> configured f ia cfg"
| from_file: "configured f ia cfg \<Longrightarrow> plain_ports (read_lines (case_option [] id file)) \<Longrightarrow>
    config_read f ia file cfg = Returns (r, cfg') \<Longrightarrow> configured f ia cfg'"
| option: "configured f ia cfg \<Longrightarrow> config_parse_option f cfg opt v = Returns (r, cfg') \<Longrightarrow> configured f ia cfg'"
| interface: "configured f ia cfg \<Longrightarrow> config_create_interface name cfg = (n, cfg') \<Longrightarrow> configured f ia cfg'"
| set_int: "configured f ia cfg \<Longrightarrow> j < length (config_tab f) \<Longrightarrow> conforms (config_tab f ! j) (VI i) \<Longrightarrow>
    (case section of None \<Rightarrow> True | Some s \<Rightarrow> plain_section s) \<Longrightarrow>
    config_set_section_int f cfg section (ci_label (config_tab f ! j)) i = (r, cfg') \<Longrightarrow> configured f ia cfg'"
| set_double: "configured f ia cfg \<Longrightarrow> config_set_double cfg opt x = (r, cfg') \<Longrightarrow> configured f ia cfg'"
| set_string: "configured f ia cfg \<Longrightarrow> config_set_string cfg opt v = (r, cfg') \<Longrightarrow> configured f ia cfg'"
| harmonized: "configured f ia cfg \<Longrightarrow> config_harmonize_onestep f cfg = Returns (r, cfg') \<Longrightarrow> configured f ia cfg'"

lemma parse_option_step:
  assumes "ready f cfg" "config_parse_option f cfg opt v = Returns (r, cfg')"
  shows "step f True cfg cfg'"
  using parse_item_good [OF assms(1), of None True opt v] assms(2)
  by (cases "parse_item f cfg True None opt v") (auto simp: config_parse_option_def)

lemma configured_ready: "configured f ia cfg \<Longrightarrow> ready f cfg"
proof (induction rule: configured.induct)
  case (created mem cfg)
  then show ?case by (rule config_create_ready)
next
  case (from_file cfg fl r cfg')
  have "case fl of None \<Rightarrow> True | Some s \<Rightarrow> plain_ports (read_lines s)" using from_file.hyps by (auto split: option.splits)
  from config_read_good [OF from_file.IH this, of ia] from_file.hyps show ?case by (simp add: step_def)
next
  case (option cfg opt v r cfg')
  from parse_option_step [OF option.IH option.hyps(2)] show ?case by (simp add: step_def)
next
  case (interface cfg name n cfg')
  from create_interface_step [OF interface.IH interface.hyps(2), of True] show ?case by (simp add: step_def)
next
  case (set_int cfg j i "section" r cfg')
  have "step f True cfg cfg'"
    using set_section_int_step [OF set_int.IH, of j i True "section" r cfg'] set_int.hyps by (auto split: option.splits)
  then show ?case by (simp add: step_def)
next
  case (set_double cfg opt x r cfg')
  from set_double_step [OF set_double.IH set_double.hyps(2)] show ?case by (simp add: step_def)
next
  case (set_string cfg opt v r cfg')
  from set_string_step [OF set_string.IH set_string.hyps(2)] show ?case by (simp add: step_def)
next
  case (harmonized cfg r cfg')
  from harmonize_result [OF harmonized.IH] harmonized.hyps show ?case by (auto simp: step_def)
qed

subsection \<open>Types\<close>


text \<open>A configuration just created, with time stamps read as an enumeration.\<close>

definition sample_dbl :: "int dbl" where
  "sample_dbl = \<lparr>d_const = (\<lambda>_. 0), strtod = (\<lambda>s. None), d_less = (<)\<rparr>"

definition sample_config :: "int config" where
  "sample_config = the (config_create (config_tab sample_dbl) [])"

lemma sample_created: "config_create (config_tab sample_dbl) [] = Some sample_config" "cf_memory sample_config = []"
  using config_create_succeeds [of sample_dbl] by (auto simp: sample_config_def)

lemma sample_configured: "configured sample_dbl (\<lambda>_. None) sample_config"
  by (rule configured.created [OF sample_created(1)])


subsection \<open>Reading a file\<close>




subsection \<open>The command line and the file\<close>











definition asap_file :: cstr where
  "asap_file = lit ''[global]'' @ [10] @ lit ''fault_reset_interval ASAP'' @ [10]"

lemma asap_file_lines: "read_lines asap_file = [lit ''[global]'' @ [10], lit ''fault_reset_interval ASAP'' @ [10]]"
  by (simp add: read_lines.simps fgets_def Let_def lit_def asap_file_def)

lemma global_line: "read_line f ia (lit ''[global]'' @ [10]) (sct, port, cfg) = Returns (True, GLOBAL_SECTION, port, cfg)"
  by (simp add: read_line_def read_section_def parse_section_line_def trim_line_def isspace_def lit_def Let_def strcaseeq_def lower_def)

lemma asap_line: "read_line f ia (lit ''fault_reset_interval ASAP'' @ [10]) (GLOBAL_SECTION, port, cfg)
  = and_then (parse_item f cfg False None (lit ''fault_reset_interval'') (lit ''ASAP'')) (\<lambda>(r, cfg). Returns (r = PARSED_OK, GLOBAL_SECTION, port, cfg))"
  by (simp add: read_line_def read_setting_def parse_section_line_def trim_line_def isspace_def lit_def Let_def strcaseeq_def lower_def
    parse_setting_line_def check_deprecated_options_def)

text \<open>
  C31: the exception: a file that sets a fault interval to ASAP replaces the value in every
  configuration, so also the one that was given on the command line.
\<close>

theorem asap_overrides_command_line:
  assumes "configured f ia cfg"
  shows "\<exists>cfg'. config_read f ia (Some asap_file) cfg = Returns (0, cfg')
    \<and> config_get_int cfg' None (lit ''fault_reset_interval'') = Returns (- 128)"
proof -
  have rd: "ready f cfg" by (rule configured_ready [OF assms])
  then have wt: "well_typed f {} cfg" by (simp add: ready_def)
  obtain j where j: "j < N_CONFIG_ITEMS" "lit ''fault_reset_interval'' = option_label j"
    using option_index [OF fault_names(2)] by blast
  have len: "j < length (cf_items cfg)" using wt j(1) by (simp add: well_typed_def)
  have ty: "ci_type (item cfg j) = CFG_TYPE_INT \<or> ci_type (item cfg j) = CFG_TYPE_ENUM"
    using asap_conforms(2) [OF j(1) j(2) [symmetric], of f] well_typed_same [OF wt j(1)]
    by (auto simp: conforms_def same_option_def split: config_type.splits)
  let ?c = "lock_item j (VI (- 128)) cfg"
  have set: "config_set_section_int f cfg None (lit ''fault_reset_interval'') (- 128) = (0, ?c)"
    unfolding j(2) using config_global_item_label [OF wt j(1)] ty
    by (auto simp: config_set_section_int_def config_find_item_def)
  have "lit ''fault_reset_interval'' \<noteq> lit ''fault_badpeernet_interval''" by simp
  then have "parse_item f cfg False None (lit ''fault_reset_interval'') (lit ''ASAP'') = Returns (PARSED_OK, ?c)"
    using set by (simp add: parse_item_def parse_fault_interval_def strcaseeq_def)
  then have "config_read f ia (Some asap_file) cfg = Returns (0, ?c)"
    unfolding config_read_def asap_file_lines option.case read_loop.simps global_line and_then.simps prod.case if_True asap_line by simp
  moreover have "step f False cfg ?c"
    using set_section_int_step [OF rd j(1) asap_conforms(2) [OF j(1) j(2) [symmetric]], of False None 0 ?c] set j
    by (simp add: asap_options_def)
  then have "well_typed f {} ?c" by (simp add: step_def ready_def)
  from config_global_item_label [OF this j(1)] ty have "config_get_int ?c None (option_label j) = Returns (- 128)"
    by (auto simp: config_get_int_def config_find_item_def lock_item_def item_set_item [OF len])
  ultimately show ?thesis unfolding j(2) by blast
qed

theorem asap_overrides_command_line_witness:
  "\<exists>cfg'. config_read sample_dbl (\<lambda>_. None) (Some asap_file) sample_config = Returns (0, cfg')
    \<and> config_get_int cfg' None (lit ''fault_reset_interval'') = Returns (- 128)"
  by (rule asap_overrides_command_line [OF sample_configured])

subsection \<open>A port whose name starts like the global section\<close>

definition crash_file :: cstr where
  "crash_file = lit ''[global.a]'' @ [10] @ lit ''delay_filter moving_median'' @ [10]
     @ lit ''[global]'' @ [10] @ lit ''a.delay_filter moving_median'' @ [10]"

lemma crash_file_lines: "read_lines crash_file = [lit ''[global.a]'' @ [10], lit ''delay_filter moving_median'' @ [10],
    lit ''[global]'' @ [10], lit ''a.delay_filter moving_median'' @ [10]]"
  by (simp add: read_lines.simps fgets_def Let_def lit_def crash_file_def)

lemmas line_simps = read_line_def read_setting_def read_section_def parse_section_line_def trim_line_def isspace_def lit_def
  Let_def strcaseeq_def lower_def parse_setting_line_def check_deprecated_options_def scan_word_def skip_def

lemma crash_line1: "read_line f ia (lit ''[global.a]'' @ [10]) (sct, port, cfg)
   = (case config_create_interface (lit ''global.a'') cfg of
        (None, cfg) \<Rightarrow> Returns (False, PORT_SECTION, None, cfg) | (Some n, cfg) \<Rightarrow> Returns (True, PORT_SECTION, Some n, cfg))"
  by (simp add: line_simps split: prod.splits option.splits)

lemma crash_line2: "read_line f ia (lit ''delay_filter moving_median'' @ [10]) (PORT_SECTION, Some n, cfg)
  = and_then (parse_item f cfg False (Some n) (lit ''delay_filter'') (lit ''moving_median'')) (\<lambda>(r, cfg). Returns (r = PARSED_OK, PORT_SECTION, Some n, cfg))"
  by (simp add: line_simps)

lemma crash_line4: "read_line f ia (lit ''a.delay_filter moving_median'' @ [10]) (GLOBAL_SECTION, port, cfg)
  = and_then (parse_item f cfg False None (lit ''a.delay_filter'') (lit ''moving_median'')) (\<lambda>(r, cfg). Returns (r = PARSED_OK, GLOBAL_SECTION, port, cfg))"
  by (simp add: line_simps)

lemma not_asap: "parse_fault_interval f cfg section option (lit ''moving_median'') = Returns (NOT_PARSED, cfg)"
  by (simp add: parse_fault_interval_def strcaseeq_def lit_def lower_def)

text \<open>
  The port of that name makes the reader follow a null pointer: an option of the section
  "global.a" is stored under the key of a global option, the next line finds it there, and the
  labels of an item that was allocated are not set.
\<close>

lemma section_item_taken_for_default:
  assumes "configured f ia cfg" "cf_memory cfg = []"
  shows "config_read f ia (Some crash_file) cfg = Undefined"
proof -
  have rd: "ready f cfg" by (rule configured_ready [OF assms(1)])
  have "config_enum ''delay_filter'' True 1 delay_filter_enu \<in> set (config_tab f)" by (simp add: config_tab_def)
  then obtain j where j: "j < N_CONFIG_ITEMS" "config_tab f ! j = config_enum ''delay_filter'' True 1 delay_filter_enu"
    "lit ''delay_filter'' = option_label j" using option_in_table by (fastforce simp: config_enum_def)
  obtain res cfg1 where c: "config_create_interface (lit ''global.a'') cfg = (res, cfg1)" by fastforce
  from create_interface_step [OF rd c, of False] have st1: "step f False cfg cfg1" and n: "\<forall>n. res = Some n \<longrightarrow> n = lit ''global.a''"
    by (auto simp: lit_def)
  have res: "res = Some (lit ''global.a'')"
    using c n alloc_plenty [OF assms(2)] by (cases res) (auto simp: config_create_interface_def Let_def split: option.splits)
  from st1 have rd1: "ready f cfg1" and mem1: "cf_memory cfg1 = []" using assms(2) by (simp_all add: step_def)
  then have wt1: "well_typed f {} cfg1" by (simp add: ready_def)
  let ?key = "lit ''global.a'' @ [46] @ option_label j"
  have len: "length (lit ''global.a'') \<le> MAX_IFNAME_SIZE" by (simp add: lit_def)
  note key = dotted_section [OF j(1) len]
  have free: "hash_lookup (cf_htab cfg1) ?key = None"
  proof (rule ccontr)
    assume "hash_lookup (cf_htab cfg1) ?key \<noteq> None"
    then obtain a where "hash_lookup (cf_htab cfg1) ?key = Some a" by blast
    from well_typed_lookup [OF wt1 this] obtain i where "entry f {} i ?key a (item cfg1 a)" .
    then have i: "i < N_CONFIG_ITEMS" and "?key = lit ''global'' @ [46] @ option_label i
        \<or> (\<exists>s. plain_section s \<and> ?key = s @ [46] @ option_label i)"
      unfolding entry_def global_key_def by blast+
    then consider "lit ''global.a'' = lit ''global''" | "plain_section (lit ''global.a'')"
      using option_key [OF j(1) i] by blast
    then show False by cases (simp_all add: plain_section_def lit_def)
  qed
  have none: "config_section_item cfg1 (lit ''global.a'') (option_label j) = None"
    using free key by (simp add: config_section_item_def)
  from config_item_alloc_plenty [OF mem1 none j(1), of f CFG_TYPE_ENUM] obtain a cfg2 where
    al: "config_item_alloc f cfg1 (lit ''global.a'') (option_label j) CFG_TYPE_ENUM = (Some a, cfg2)" "cf_memory cfg2 = []" by blast
  have lab: "take (CONFIG_LABEL_SIZE - 1) (option_label j) = option_label j" using option_label_length [OF j(1)] by simp
  from config_item_alloc_cases [OF al(1), unfolded lab key] obtain mem ht where
    a: "a = length (cf_items cfg1)" "hash_insert True True (cf_htab cfg1) ?key (length (cf_items cfg1)) = (0, ht)"
    and c2: "cfg2 = cfg1\<lparr>cf_memory := mem, cf_htab := ht, cf_items := cf_items cfg1 @ [new_item f (option_label j) CFG_TYPE_ENUM]\<rparr>"
    by (elim exE disjE conjE) (simp_all only: option.inject option.distinct)
  have ok: "hash_ok (cf_htab cfg1)" using wt1 by (simp add: well_typed_def)
  have lk: "hash_lookup (cf_htab cfg2) ?key = Some a"
    using options.lookup_insert [OF ok, of ?key a] a c2 by simp
  have it: "item cfg2 a = new_item f (option_label j) CFG_TYPE_ENUM" by (simp add: c2 item_append a)
  let ?cfg3 = "set_item a (\<lambda>ci. ci\<lparr>ci_val := VI 1\<rparr>) cfg2"
  have so: "same_option (config_tab f ! j) (item cfg1 j)" using well_typed_same [OF wt1 j(1)] .
  have e: "find (\<lambda>cte. strcaseeq (fst cte) (lit ''moving_median'')) (map (\<lambda>(n, v). (lit n, v)) delay_filter_enu)
      = Some (lit ''moving_median'', 1)"
    by (simp add: delay_filter_enu_def strcaseeq_def lower_def lit_def)
  have pv: "parse_value f (item cfg1 j) (lit ''moving_median'') = Returns (Inr (VI 1))"
    using so j(2) e by (simp add: parse_value_def same_option_def config_enum_def)
  have port: "ci_flags (item cfg1 j) AND 4 \<noteq> 0" "ci_type (item cfg1 j) = CFG_TYPE_ENUM"
    using so j(2) by (simp_all add: same_option_def config_enum_def)
  have p2: "parse_item f cfg1 False (Some (lit ''global.a'')) (option_label j) (lit ''moving_median'') = Returns (PARSED_OK, ?cfg3)"
    unfolding parse_item_def not_asap and_then.simps prod.case config_global_item_label [OF wt1 j(1)] option.case pv sum.case none port(2) al(1)
    using port(1) it by (simp add: store_value_def new_item_def finish_item_def)
  have al3: "a < length (cf_items cfg2)" by (simp add: c2 a)
  have "lit ''global'' @ [46] @ lit ''a.delay_filter'' = ?key" by (simp add: lit_def flip: j(3))
  then have "dotted (CONFIG_LABEL_SIZE + MAX_IFNAME_SIZE) (lit ''global'') (lit ''a.delay_filter'') = ?key"
    using key by (simp only: dotted_def)
  then have g: "config_global_item ?cfg3 (lit ''a.delay_filter'') = Some a"
    using lk by (simp add: config_global_item_def config_section_item_def)
  have p4: "parse_item f ?cfg3 False None (lit ''a.delay_filter'') (lit ''moving_median'') = Undefined"
    unfolding parse_item_def not_asap and_then.simps prod.case g option.case
    using it by (simp add: item_set_item [OF al3] parse_value_def new_item_def)
  show ?thesis
    unfolding config_read_def crash_file_lines option.case read_loop.simps crash_line1 c res prod.case and_then.simps if_True
      crash_line2 j(3) p2 global_line crash_line4 p4 simp_thms
    by simp
qed

lemma section_item_taken_for_default_witness:
  "config_read sample_dbl (\<lambda>_. None) (Some crash_file) sample_config = Undefined"
  by (rule section_item_taken_for_default [OF sample_configured sample_created(2)])

text \<open>
  The harmonization of one step time stamping succeeds exactly when it leaves the two options in
  agreement; otherwise one step operation was asked of time stamps that cannot do it.
\<close>

lemma harmonize_agrees:
  assumes "configured f ia cfg"
  shows "\<exists>r cfg'. config_harmonize_onestep f cfg = Returns (r, cfg') \<and> configured f ia cfg' \<and> (r = 0 \<or> r = -1)
    \<and> (r = 0 \<longrightarrow> (\<exists>ts tw. config_get_int cfg' None (lit ''time_stamping'') = Returns ts
          \<and> config_get_int cfg' None (lit ''twoStepFlag'') = Returns tw \<and> (tw = 0 \<longleftrightarrow> ts = 3 \<or> ts = 4)))"
  using harmonize_result [OF configured_ready [OF assms]] configured.harmonized [OF assms] by blast

end
