(* ===== verification/Servo.thy ===== *)
theory Servo
  imports Config Tsproc Complex_Main
begin

text \<open>
  The clock servos: servo.c, servoPi.c, servoLinreg.c and servoNtpShm.c (with the null servo).
  A servo turns measured offsets into a frequency correction and a state. The table of function
  pointers of \<open>struct servo\<close> is the datatype of the four implementations. Floating point
  operations are a parameter, with the operations of time stamp processing; a constant of the
  code is \<open>Decimal m e\<close>, m times ten to the e.
\<close>

record 'd servo_ops = "'d double_ops" +
  s_const :: "dbl_const \<Rightarrow> 'd"
  s_add :: "'d \<Rightarrow> 'd \<Rightarrow> 'd"
  s_sub :: "'d \<Rightarrow> 'd \<Rightarrow> 'd"
  s_neg :: "'d \<Rightarrow> 'd"
  s_abs :: "'d \<Rightarrow> 'd"
  s_pow :: "'d \<Rightarrow> 'd \<Rightarrow> 'd"
  s_sqrt :: "'d \<Rightarrow> 'd"
  s_less :: "'d \<Rightarrow> 'd \<Rightarrow> bool"
  s_of_u64 :: "u64 \<Rightarrow> 'd"
  s_of_int :: "int \<Rightarrow> 'd"
  s_to_int :: "'d \<Rightarrow> int"

abbreviation s_zero :: "'d servo_ops \<Rightarrow> 'd" where "s_zero fp \<equiv> s_const fp (Decimal 0 0)"
abbreviation giga :: "'d servo_ops \<Rightarrow> 'd" where "giga fp \<equiv> s_const fp (Decimal 1 9)"

text \<open>A double as a condition.\<close>

definition nonzero :: "'d servo_ops \<Rightarrow> 'd \<Rightarrow> bool" where
  "nonzero fp x = d_neq fp x (s_zero fp)"

subsection \<open>The servos\<close>

record 'd pi_servo =
  offset0 :: i64
  offset1 :: i64
  local0 :: u64
  local1 :: u64
  drift :: 'd
  kp :: 'd
  ki :: 'd
  last_freq :: 'd
  pi_count :: nat
  configured_pi_kp :: 'd
  configured_pi_ki :: 'd
  configured_pi_kp_scale :: 'd
  configured_pi_kp_exponent :: 'd
  configured_pi_kp_norm_max :: 'd
  configured_pi_ki_scale :: 'd
  configured_pi_ki_exponent :: 'd
  configured_pi_ki_norm_max :: 'd

record 'd point =
  pt_x :: u64
  pt_y :: u64
  pt_w :: 'd

record 'd regression =
  slope :: 'd
  intercept :: 'd
  err :: 'd
  err_updates :: nat

record 'd linreg_servo =
  points :: "'d point list"
  reference :: "'d point"
  num_points :: nat
  last_point :: nat
  x_remainder :: 'd
  last_update :: u64
  results :: "'d regression list"
  lr_size :: nat
  clock_freq :: 'd
  update_interval :: 'd
  frequency_ratio :: 'd
  lr_leap :: int

text \<open>The segment that is shared with ntpd; the members that the code never writes are left out.\<close>

record shmTime =
  shm_mode :: int
  shm_count :: i32
  clockTimeStampSec :: u64
  clockTimeStampUSec :: i32
  receiveTimeStampSec :: u64
  receiveTimeStampUSec :: i32
  shm_leap :: int
  shm_precision :: int
  shm_valid :: int
  clockTimeStampNSec :: i32
  receiveTimeStampNSec :: i32

record ntpshm_servo =
  shm :: shmTime
  shm_next_leap :: int

datatype 'd servo_impl = PiServo "'d pi_servo" | LinregServo "'d linreg_servo" | NtpShmServo ntpshm_servo | NullfServo

text \<open>What all servos share, and the implementation that embeds it.\<close>

record 'd servo =
  max_frequency :: 'd
  step_threshold :: 'd
  first_step_threshold :: 'd
  first_update :: bool
  impl :: "'d servo_impl"

text \<open>The condition for a step, on an offset or an intercept.\<close>

definition wants_step :: "'d servo_ops \<Rightarrow> 'd servo \<Rightarrow> 'd \<Rightarrow> bool" where
  "wants_step fp sv x \<longleftrightarrow>
     first_update sv \<and> nonzero fp (first_step_threshold sv) \<and> s_less fp (first_step_threshold sv) (s_abs fp x)
     \<or> nonzero fp (step_threshold sv) \<and> s_less fp (step_threshold sv) (s_abs fp x)"

subsection \<open>The proportional integral servo\<close>

definition clamp :: "'d servo_ops \<Rightarrow> 'd servo \<Rightarrow> 'd \<Rightarrow> 'd" where
  "clamp fp sv x = (if s_less fp x (s_neg fp (max_frequency sv)) then s_neg fp (max_frequency sv)
     else if s_less fp (max_frequency sv) x then max_frequency sv else x)"

definition pi_first :: "i64 \<Rightarrow> u64 \<Rightarrow> 'd pi_servo \<Rightarrow> servo_state \<times> 'd \<times> 'd pi_servo" where
  "pi_first offset local_ts s =
     (SERVO_UNLOCKED, last_freq s, s\<lparr>offset0 := offset, local0 := local_ts, pi_count := 1\<rparr>)"

text \<open>Whether the two samples are too close, and the estimate of the drift they give.\<close>

definition pi_wait :: "'d servo_ops \<Rightarrow> 'd pi_servo \<Rightarrow> bool" where
  "pi_wait fp s =
     (let localdiff = d_div fp (s_of_u64 fp (local1 s - local0 s)) (giga fp);
          localdiff = s_add fp localdiff (d_mul fp localdiff (s_const fp (Decimal 1 (-3))));
          freq_est_interval = d_div fp (s_const fp (Decimal 16 (-3))) (ki s);
          freq_est_interval = (if d_gt fp freq_est_interval (s_const fp (Decimal 1000 0))
            then s_const fp (Decimal 1000 0) else freq_est_interval)
      in s_less fp localdiff freq_est_interval)"

definition pi_drift :: "'d servo_ops \<Rightarrow> 'd pi_servo \<Rightarrow> 'd" where
  "pi_drift fp s = s_add fp (drift s) (d_div fp (d_mul fp (s_sub fp (giga fp) (drift s))
     (d_of_i64 fp (offset1 s - offset0 s))) (s_of_u64 fp (local1 s - local0 s)))"

definition pi_second :: "'d servo_ops \<Rightarrow> 'd servo \<Rightarrow> i64 \<Rightarrow> u64 \<Rightarrow> 'd pi_servo \<Rightarrow> servo_state \<times> 'd \<times> 'd pi_servo" where
  "pi_second fp sv offset local_ts s =
     (let s = s\<lparr>offset1 := offset, local1 := local_ts\<rparr>
      in if local0 s \<ge> local1 s then (SERVO_UNLOCKED, last_freq s, s\<lparr>pi_count := 0\<rparr>)
         else if pi_wait fp s then (SERVO_UNLOCKED, last_freq s, s)
         else
           let dr = clamp fp sv (pi_drift fp s)
           in (if wants_step fp sv (d_of_i64 fp offset) then SERVO_JUMP else SERVO_LOCKED, dr, s\<lparr>drift := dr, pi_count := 2\<rparr>))"

definition pi_tracking :: "'d servo_ops \<Rightarrow> 'd servo \<Rightarrow> i64 \<Rightarrow> 'd \<Rightarrow> 'd pi_servo \<Rightarrow> servo_state \<times> 'd \<times> 'd pi_servo" where
  "pi_tracking fp sv offset weight s =
     (if nonzero fp (step_threshold sv) \<and> s_less fp (step_threshold sv) (s_abs fp (d_of_i64 fp offset))
      then (SERVO_UNLOCKED, last_freq s, s\<lparr>pi_count := 0\<rparr>)
      else
        let ki_term = d_mul fp (d_mul fp (ki s) (d_of_i64 fp offset)) weight;
            ppb = s_add fp (s_add fp (d_mul fp (d_mul fp (kp s) (d_of_i64 fp offset)) weight) (drift s)) ki_term
        in if s_less fp ppb (s_neg fp (max_frequency sv)) then (SERVO_LOCKED, s_neg fp (max_frequency sv), s)
           else if s_less fp (max_frequency sv) ppb then (SERVO_LOCKED, max_frequency sv, s)
           else (SERVO_LOCKED, ppb, s\<lparr>drift := s_add fp (drift s) ki_term\<rparr>))"

definition pi_sample :: "'d servo_ops \<Rightarrow> 'd servo \<Rightarrow> i64 \<Rightarrow> u64 \<Rightarrow> 'd \<Rightarrow> 'd pi_servo \<Rightarrow> servo_state \<times> 'd \<times> 'd pi_servo" where
  "pi_sample fp sv offset local_ts weight s =
     (let (state, ppb, s) =
        (if pi_count s = 0 then pi_first offset local_ts s
         else if pi_count s = 1 then pi_second fp sv offset local_ts s
         else if pi_count s = 2 then pi_tracking fp sv offset weight s
         else (SERVO_UNLOCKED, last_freq s, s))
      in (state, ppb, s\<lparr>last_freq := ppb\<rparr>))"

definition pi_sync_interval :: "'d servo_ops \<Rightarrow> 'd \<Rightarrow> 'd pi_servo \<Rightarrow> 'd pi_servo" where
  "pi_sync_interval fp interval s =
     (let p = d_mul fp (configured_pi_kp_scale s) (s_pow fp interval (configured_pi_kp_exponent s));
          p = (if d_gt fp p (d_div fp (configured_pi_kp_norm_max s) interval)
               then d_div fp (configured_pi_kp_norm_max s) interval else p);
          i = d_mul fp (configured_pi_ki_scale s) (s_pow fp interval (configured_pi_ki_exponent s));
          i = (if d_gt fp i (d_div fp (configured_pi_ki_norm_max s) interval)
               then d_div fp (configured_pi_ki_norm_max s) interval else i)
      in s\<lparr>kp := p, ki := i\<rparr>)"

definition pi_reset :: "'d pi_servo \<Rightarrow> 'd pi_servo" where
  "pi_reset s = s\<lparr>pi_count := 0\<rparr>"

text \<open>The constants by the configuration; \<open>sw_ts\<close> chooses the scales of software time stamps.\<close>

definition pi_constants :: "'d servo_ops \<Rightarrow> bool \<Rightarrow> 'd pi_servo \<Rightarrow> 'd pi_servo" where
  "pi_constants fp sw_ts s =
     (if nonzero fp (configured_pi_kp s) \<and> nonzero fp (configured_pi_ki s)
      then s\<lparr>configured_pi_kp_scale := configured_pi_kp s, configured_pi_ki_scale := configured_pi_ki s,
             configured_pi_kp_exponent := s_zero fp, configured_pi_ki_exponent := s_zero fp,
             configured_pi_kp_norm_max := s_const fp (Decimal 1 0), configured_pi_ki_norm_max := s_const fp (Decimal 2 0)\<rparr>
      else if \<not> nonzero fp (configured_pi_kp_scale s) \<or> \<not> nonzero fp (configured_pi_ki_scale s)
      then (if sw_ts
            then s\<lparr>configured_pi_kp_scale := s_const fp (Decimal 1 (-1)), configured_pi_ki_scale := s_const fp (Decimal 1 (-3))\<rparr>
            else s\<lparr>configured_pi_kp_scale := s_const fp (Decimal 7 (-1)), configured_pi_ki_scale := s_const fp (Decimal 3 (-1))\<rparr>)
      else s)"

definition pi_servo_create :: "'d servo_ops \<Rightarrow> 'd config \<Rightarrow> int \<Rightarrow> bool \<Rightarrow> bool \<Rightarrow> 'd pi_servo option outcome" where
  "pi_servo_create fp cfg fadj sw_ts memory =
     (if \<not> memory then Returns None
      else Config.and_then (config_get_double cfg None (lit ''pi_proportional_const'')) (\<lambda>p.
           Config.and_then (config_get_double cfg None (lit ''pi_integral_const'')) (\<lambda>i.
           Config.and_then (config_get_double cfg None (lit ''pi_proportional_scale'')) (\<lambda>ps.
           Config.and_then (config_get_double cfg None (lit ''pi_proportional_exponent'')) (\<lambda>pe.
           Config.and_then (config_get_double cfg None (lit ''pi_proportional_norm_max'')) (\<lambda>pn.
           Config.and_then (config_get_double cfg None (lit ''pi_integral_scale'')) (\<lambda>is'.
           Config.and_then (config_get_double cfg None (lit ''pi_integral_exponent'')) (\<lambda>ie.
           Config.and_then (config_get_double cfg None (lit ''pi_integral_norm_max'')) (\<lambda>in'.
             Returns (Some (pi_constants fp sw_ts
               \<lparr>offset0 = 0, offset1 = 0, local0 = 0, local1 = 0, drift = s_of_int fp fadj, kp = s_zero fp, ki = s_zero fp,
                last_freq = s_of_int fp fadj, pi_count = 0, configured_pi_kp = p, configured_pi_ki = i,
                configured_pi_kp_scale = ps, configured_pi_kp_exponent = pe, configured_pi_kp_norm_max = pn,
                configured_pi_ki_scale = is', configured_pi_ki_exponent = ie, configured_pi_ki_norm_max = in'\<rparr>)))))))))))"

subsection \<open>The linear regression servo\<close>

abbreviation (input) MAX_SIZE :: nat where "MAX_SIZE \<equiv> 6"
abbreviation (input) MIN_SIZE :: nat where "MIN_SIZE \<equiv> 2"
abbreviation (input) MAX_POINTS :: nat where "MAX_POINTS \<equiv> 64"

definition move_reference :: "'d servo_ops \<Rightarrow> i64 \<Rightarrow> i64 \<Rightarrow> 'd linreg_servo \<Rightarrow> 'd linreg_servo" where
  "move_reference fp x y s =
     s\<lparr>reference := (reference s)\<lparr>pt_x := pt_x (reference s) + x, pt_y := pt_y (reference s) + y\<rparr>,
       results := map (\<lambda>res. res\<lparr>intercept := s_add fp (intercept res)
         (s_sub fp (d_mul fp (d_of_i64 fp x) (slope res)) (d_of_i64 fp y))\<rparr>) (results s)\<rparr>"

definition update_reference :: "'d servo_ops \<Rightarrow> u64 \<Rightarrow> 'd linreg_servo \<Rightarrow> 'd linreg_servo" where
  "update_reference fp local_ts s =
     (let s = (if last_update s \<noteq> 0
        then let y_interval = local_ts - last_update s;
                 x_interval = d_div fp (d_of_i64 fp y_interval) (s_add fp (d_one fp) (d_div fp (clock_freq s) (giga fp)));
                 x_interval = s_add fp x_interval (x_remainder s);
                 s = s\<lparr>x_remainder := s_sub fp x_interval (d_of_i64 fp (d_to_i64 fp x_interval))\<rparr>
             in move_reference fp (d_to_i64 fp x_interval) y_interval s
        else s)
      in s\<lparr>last_update := local_ts\<rparr>)"

definition add_sample :: "i64 \<Rightarrow> 'd \<Rightarrow> 'd linreg_servo \<Rightarrow> 'd linreg_servo" where
  "add_sample offset weight s =
     (let l = (last_point s + 1) mod MAX_POINTS
      in s\<lparr>last_point := l,
           points := (points s)[l := \<lparr>pt_x = pt_x (reference s), pt_y = pt_y (reference s) - offset, pt_w = weight\<rparr>],
           num_points := (if num_points s < MAX_POINTS then num_points s + 1 else num_points s)\<rparr>)"

text \<open>The sums of x, y, xy, xx and w over the points, from newest to oldest.\<close>

type_synonym 'd moments = "'d \<times> 'd \<times> 'd \<times> 'd \<times> 'd"

definition add_point :: "'d servo_ops \<Rightarrow> 'd linreg_servo \<Rightarrow> nat \<Rightarrow> 'd moments \<Rightarrow> 'd moments" where
  "add_point fp s i = (\<lambda>(x_sum, y_sum, xy_sum, x2_sum, w_sum).
     let l = (MAX_POINTS + last_point s - i) mod MAX_POINTS;
         x = d_of_i64 fp (pt_x (points s ! l) - pt_x (reference s));
         y = d_of_i64 fp (pt_y (points s ! l) - pt_y (reference s));
         w = pt_w (points s ! l)
     in (s_add fp x_sum (d_mul fp x w), s_add fp y_sum (d_mul fp y w),
         s_add fp xy_sum (d_mul fp (d_mul fp x y) w), s_add fp x2_sum (d_mul fp (d_mul fp x x) w), s_add fp w_sum w))"

text \<open>The moving average of the prediction error.\<close>

definition update_err :: "'d servo_ops \<Rightarrow> 'd \<Rightarrow> 'd regression \<Rightarrow> 'd regression" where
  "update_err fp y0 res =
     (if \<not> nonzero fp (slope res) then res
      else
        let e = s_abs fp (s_sub fp (intercept res) y0)
        in if err_updates res < 10
           then let n = err_updates res;
                    r = s_add fp (d_mul fp (err res) (s_of_int fp (int n))) e
                in res\<lparr>err := d_div fp r (s_of_int fp (int (n + 1))), err_updates := n + 1\<rparr>
           else res\<lparr>err := s_add fp (err res) (d_mul fp (s_const fp (Decimal 2 (-2))) (s_sub fp e (err res)))\<rparr>)"

definition fit_line :: "'d servo_ops \<Rightarrow> 'd moments \<Rightarrow> 'd regression \<Rightarrow> 'd regression" where
  "fit_line fp = (\<lambda>(x_sum, y_sum, xy_sum, x2_sum, w_sum) res.
     let b = d_div fp (s_sub fp xy_sum (d_div fp (d_mul fp x_sum y_sum) w_sum))
                      (s_sub fp x2_sum (d_div fp (d_mul fp x_sum x_sum) w_sum))
     in res\<lparr>slope := b, intercept := d_div fp (s_sub fp y_sum (d_mul fp b x_sum)) w_sum\<rparr>)"

fun regress_sizes :: "'d servo_ops \<Rightarrow> 'd \<Rightarrow> nat list \<Rightarrow> nat \<Rightarrow> 'd moments \<Rightarrow> 'd linreg_servo \<Rightarrow> 'd linreg_servo" where
  "regress_sizes fp y0 [] i mom s = s"
| "regress_sizes fp y0 (sz # szs) i mom s =
     (if 2 ^ sz > num_points s then s
      else
        let k = sz - MIN_SIZE;
            res = update_err fp y0 (results s ! k);
            mom = fold (add_point fp s) [i..<2 ^ sz] mom;
            s = s\<lparr>results := (results s)[k := fit_line fp mom res]\<rparr>
        in regress_sizes fp y0 szs (max i (2 ^ sz)) mom s)"

definition regress :: "'d servo_ops \<Rightarrow> 'd linreg_servo \<Rightarrow> 'd linreg_servo" where
  "regress fp s =
     (let y0 = d_of_i64 fp (pt_y (points s ! last_point s) - pt_y (reference s)); z = s_zero fp
      in regress_sizes fp y0 [MIN_SIZE..<MAX_SIZE + 1] 0 (z, z, z, z, z) s)"

fun best_size :: "'d servo_ops \<Rightarrow> 'd regression list \<Rightarrow> nat \<Rightarrow> nat \<Rightarrow> 'd \<Rightarrow> nat" where
  "best_size fp [] sz b be = b"
| "best_size fp (res # rs) sz b be =
     (if b = 0 \<and> nonzero fp (slope res)
         \<or> d_gt fp (d_mul fp be (s_const fp (Decimal 105 (-2)))) (err res) \<and> err_updates res \<ge> 10
      then best_size fp rs (sz + 1) sz (err res) else best_size fp rs (sz + 1) b be)"

definition update_size :: "'d servo_ops \<Rightarrow> 'd linreg_servo \<Rightarrow> 'd linreg_servo" where
  "update_size fp s = s\<lparr>lr_size := best_size fp (results s) MIN_SIZE 0 (s_zero fp)\<rparr>"

definition linreg_clamp :: "'d servo_ops \<Rightarrow> 'd servo \<Rightarrow> 'd \<Rightarrow> 'd" where
  "linreg_clamp fp sv x = (if s_less fp (max_frequency sv) x then max_frequency sv
     else if s_less fp x (s_neg fp (max_frequency sv)) then s_neg fp (max_frequency sv) else x)"

definition linregSample :: "'d servo_ops \<Rightarrow> 'd servo \<Rightarrow> i64 \<Rightarrow> u64 \<Rightarrow> 'd \<Rightarrow> 'd linreg_servo
    \<Rightarrow> servo_state \<times> 'd \<times> 'd linreg_servo" where
  "linregSample fp sv offset local_ts weight s =
     (let s = update_size fp (regress fp (add_sample offset weight (update_reference fp local_ts s)))
      in if lr_size s < MIN_SIZE then (SERVO_UNLOCKED, s_neg fp (clock_freq s), s)
         else
           let k = lr_size s - MIN_SIZE;
               (state, s) = (if wants_step fp sv (intercept (results s ! k))
                 then (SERVO_JUMP, (move_reference fp 0 (- offset) s)\<lparr>last_update := last_update s - offset\<rparr>)
                 else (SERVO_LOCKED, s));
               res = results s ! k;
               freq = d_mul fp (giga fp) (s_sub fp (slope res) (d_one fp));
               corr_interval = (if lr_size s \<le> 4 then 1 else lr_size s div 2);
               freq = s_add fp freq (d_div fp (d_div fp (intercept res) (update_interval s)) (s_of_int fp (int corr_interval)));
               freq = linreg_clamp fp sv freq;
               s = s\<lparr>clock_freq := freq,
                     frequency_ratio := d_div fp (slope res) (s_add fp (d_one fp) (d_div fp freq (giga fp)))\<rparr>
           in (state, s_neg fp freq, s))"

definition linregSyncInterval :: "'d \<Rightarrow> 'd linreg_servo \<Rightarrow> 'd linreg_servo" where
  "linregSyncInterval interval s = s\<lparr>update_interval := interval\<rparr>"

definition linregReset :: "'d servo_ops \<Rightarrow> 'd linreg_servo \<Rightarrow> 'd linreg_servo" where
  "linregReset fp s = s\<lparr>num_points := 0, last_update := 0, lr_size := 0, frequency_ratio := d_one fp,
     results := map (\<lambda>res. res\<lparr>slope := s_zero fp, err_updates := 0\<rparr>) (results s)\<rparr>"

definition linregLeap :: "'d servo_ops \<Rightarrow> int \<Rightarrow> 'd linreg_servo \<Rightarrow> 'd linreg_servo" where
  "linregLeap fp leap s =
     (let s = (if lr_leap s \<noteq> 0 \<and> leap = 0 then move_reference fp 0 (word_of_int (lr_leap s * 1000000000)) s else s)
      in s\<lparr>lr_leap := leap\<rparr>)"

definition linreg_servo_create :: "'d servo_ops \<Rightarrow> int \<Rightarrow> bool \<Rightarrow> 'd linreg_servo option" where
  "linreg_servo_create fp fadj memory =
     (if \<not> memory then None
      else
        let z = s_zero fp; pt = \<lparr>pt_x = 0, pt_y = 0, pt_w = z\<rparr>;
            res = \<lparr>slope = z, intercept = z, err = z, err_updates = 0\<rparr>
        in Some \<lparr>points = replicate MAX_POINTS pt, reference = pt, num_points = 0, last_point = 0, x_remainder = z,
             last_update = 0, results = replicate (MAX_SIZE - MIN_SIZE + 1) res, lr_size = 0,
             clock_freq = s_of_int fp (- fadj), update_interval = z, frequency_ratio = d_one fp, lr_leap = 0\<rparr>)"

subsection \<open>The servo for NTP\<close>

definition ntpshm_sample :: "i64 \<Rightarrow> u64 \<Rightarrow> ntpshm_servo \<Rightarrow> ntpshm_servo" where
  "ntpshm_sample offset local_ts s =
     (let clock_ts = local_ts - offset;
          m = shm s;
          m = m\<lparr>shm_mode := 1, shm_count := shm_count m + 1, shm_valid := 0\<rparr>;
          cn = ucast (clock_ts mod 1000000000) :: i32;
          rn = ucast (local_ts mod 1000000000) :: i32;
          m = m\<lparr>clockTimeStampSec := clock_ts div 1000000000, clockTimeStampNSec := cn, clockTimeStampUSec := cn div 1000,
                receiveTimeStampSec := local_ts div 1000000000, receiveTimeStampNSec := rn, receiveTimeStampUSec := rn div 1000,
                shm_precision := - 30,
                shm_leap := (if shm_next_leap s = -1 then 2 else if shm_next_leap s = 1 then 1 else 0)\<rparr>
      in s\<lparr>shm := m\<lparr>shm_count := shm_count m + 1, shm_valid := 1\<rparr>\<rparr>)"

text \<open>The segment that \<open>shmget\<close> and \<open>shmat\<close> give; \<^const>\<open>None\<close> when one of them fails.\<close>

definition ntpshm_servo_create :: "'d config \<Rightarrow> shmTime option \<Rightarrow> bool \<Rightarrow> ntpshm_servo option outcome" where
  "ntpshm_servo_create cfg segment memory =
     Config.and_then (config_get_int cfg None (lit ''ntpshm_segment'')) (\<lambda>_.
       Returns (if \<not> memory then None else map_option (\<lambda>m. \<lparr>shm = m, shm_next_leap = 0\<rparr>) segment))"

subsection \<open>The null servo\<close>

definition nullfSample :: "'d servo_ops \<Rightarrow> 'd servo \<Rightarrow> i64 \<Rightarrow> servo_state \<times> 'd" where
  "nullfSample fp sv offset =
     (if offset = 0 then (SERVO_LOCKED, s_zero fp)
      else (if wants_step fp sv (d_of_i64 fp offset) then SERVO_JUMP else SERVO_UNLOCKED, s_zero fp))"

subsection \<open>The operations of a servo\<close>

definition servo_sample :: "'d servo_ops \<Rightarrow> 'd servo \<Rightarrow> i64 \<Rightarrow> u64 \<Rightarrow> 'd \<Rightarrow> servo_state \<times> 'd \<times> 'd servo" where
  "servo_sample fp sv offset local_ts weight =
     (let (state, r, im) = (case impl sv of
            PiServo s \<Rightarrow> (let (st, r, s) = pi_sample fp sv offset local_ts weight s in (st, r, PiServo s))
          | LinregServo s \<Rightarrow> (let (st, r, s) = linregSample fp sv offset local_ts weight s in (st, r, LinregServo s))
          | NtpShmServo s \<Rightarrow> (SERVO_UNLOCKED, s_zero fp, NtpShmServo (ntpshm_sample offset local_ts s))
          | NullfServo \<Rightarrow> (let (st, r) = nullfSample fp sv offset in (st, r, NullfServo)))
      in (state, r, sv\<lparr>impl := im, first_update := first_update sv \<and> state = SERVO_UNLOCKED\<rparr>))"

definition servo_sync_interval :: "'d servo_ops \<Rightarrow> 'd \<Rightarrow> 'd servo \<Rightarrow> 'd servo" where
  "servo_sync_interval fp interval sv = sv\<lparr>impl := (case impl sv of
       PiServo s \<Rightarrow> PiServo (pi_sync_interval fp interval s)
     | LinregServo s \<Rightarrow> LinregServo (linregSyncInterval interval s)
     | im \<Rightarrow> im)\<rparr>"

definition servo_reset :: "'d servo_ops \<Rightarrow> 'd servo \<Rightarrow> 'd servo" where
  "servo_reset fp sv = sv\<lparr>impl := (case impl sv of
       PiServo s \<Rightarrow> PiServo (pi_reset s)
     | LinregServo s \<Rightarrow> LinregServo (linregReset fp s)
     | im \<Rightarrow> im)\<rparr>"

definition servo_rate_ratio :: "'d servo_ops \<Rightarrow> 'd servo \<Rightarrow> 'd" where
  "servo_rate_ratio fp sv = (case impl sv of LinregServo s \<Rightarrow> frequency_ratio s | _ \<Rightarrow> d_one fp)"

definition servo_leap :: "'d servo_ops \<Rightarrow> int \<Rightarrow> 'd servo \<Rightarrow> 'd servo" where
  "servo_leap fp leap sv = sv\<lparr>impl := (case impl sv of
       LinregServo s \<Rightarrow> LinregServo (linregLeap fp leap s)
     | NtpShmServo s \<Rightarrow> NtpShmServo (s\<lparr>shm_next_leap := leap\<rparr>)
     | im \<Rightarrow> im)\<rparr>"

text \<open>
  Creation: the implementation by the number of its type, then the limits of the configuration.
  \<open>memory\<close> is the answer of \<open>calloc\<close>; the null pointer is \<^const>\<open>None\<close>.
\<close>

definition create_impl :: "'d servo_ops \<Rightarrow> 'd config \<Rightarrow> int \<Rightarrow> int \<Rightarrow> bool \<Rightarrow> shmTime option \<Rightarrow> bool \<Rightarrow> 'd servo_impl option outcome" where
  "create_impl fp cfg type fadj sw_ts segment memory =
     (if type = 0 then Config.and_then (pi_servo_create fp cfg fadj sw_ts memory) (\<lambda>s. Returns (map_option PiServo s))
      else if type = 1 then Returns (map_option LinregServo (linreg_servo_create fp fadj memory))
      else if type = 2 then Config.and_then (ntpshm_servo_create cfg segment memory) (\<lambda>s. Returns (map_option NtpShmServo s))
      else if type = 3 then Returns (if memory then Some NullfServo else None)
      else Returns None)"

definition threshold :: "'d servo_ops \<Rightarrow> 'd \<Rightarrow> 'd" where
  "threshold fp x = (if d_gt fp x (s_zero fp) then d_mul fp x (s_of_int fp 1000000000) else s_zero fp)"

definition servo_create ::
  "'d servo_ops \<Rightarrow> 'd config \<Rightarrow> int \<Rightarrow> int \<Rightarrow> int \<Rightarrow> bool \<Rightarrow> shmTime option \<Rightarrow> bool \<Rightarrow> 'd servo option outcome" where
  "servo_create fp cfg type fadj max_ppb sw_ts segment memory =
     Config.and_then (create_impl fp cfg type fadj sw_ts segment memory) (\<lambda>im. case im of
       None \<Rightarrow> Returns None
     | Some im \<Rightarrow>
        Config.and_then (config_get_double cfg None (lit ''step_threshold'')) (\<lambda>step.
        Config.and_then (config_get_double cfg None (lit ''first_step_threshold'')) (\<lambda>first.
        Config.and_then (config_get_int cfg None (lit ''max_frequency'')) (\<lambda>mf.
          Returns (Some \<lparr>
            max_frequency = (if mf \<noteq> 0 \<and> d_gt fp (s_of_int fp max_ppb) (s_of_int fp mf) then s_of_int fp mf else s_of_int fp max_ppb),
            step_threshold = threshold fp step, first_step_threshold = threshold fp first,
            first_update = True, impl = im\<rparr>)))))"

subsection \<open>Steps of the clock and the limit of the frequency\<close>

text \<open>
  What the limits need of floating point: the comparison is irreflexive at the limits, negation
  reverses it, and the maximum is not negative. All of it holds of IEEE 754 doubles.
\<close>

definition lawful :: "'d servo_ops \<Rightarrow> 'd \<Rightarrow> bool" where
  "lawful fp m \<longleftrightarrow> \<not> s_less fp m m \<and> \<not> s_less fp (s_neg fp m) (s_neg fp m) \<and> \<not> s_less fp m (s_neg fp m)
     \<and> \<not> s_less fp (s_zero fp) (s_neg fp m) \<and> \<not> s_less fp m (s_zero fp)
     \<and> (\<forall>x. s_less fp (s_neg fp x) (s_neg fp m) = s_less fp m x) \<and> (\<forall>x. s_less fp m (s_neg fp x) = s_less fp x (s_neg fp m))
     \<and> s_neg fp (s_neg fp m) = m"

text \<open>
  A frequency is not beyond the limits when it compares as less than none of them. That is what
  the clamps of src/servoPi.c and src/servoLinreg.c establish: a NaN, which compares as less
  than nothing, passes them unchanged and is not beyond either.
\<close>

definition not_beyond :: "'d servo_ops \<Rightarrow> 'd \<Rightarrow> 'd \<Rightarrow> bool" where
  "not_beyond fp m x \<longleftrightarrow> \<not> s_less fp x (s_neg fp m) \<and> \<not> s_less fp m x"

lemma clamp_limits:
  assumes "lawful fp (max_frequency sv)"
  shows "not_beyond fp (max_frequency sv) (clamp fp sv x)"
proof -
  have "\<not> s_less fp (max_frequency sv) (max_frequency sv)" "\<not> s_less fp (max_frequency sv) (s_neg fp (max_frequency sv))"
    "\<not> s_less fp (s_neg fp (max_frequency sv)) (s_neg fp (max_frequency sv))"
    using assms unfolding lawful_def by blast+
  then show ?thesis unfolding not_beyond_def clamp_def by (auto split: if_splits)
qed

lemma linreg_clamp_limits:
  assumes law: "lawful fp (max_frequency sv)"
  shows "not_beyond fp (max_frequency sv) (s_neg fp (linreg_clamp fp sv x))"
proof -
  let ?y = "linreg_clamp fp sv x"
  have neg: "s_less fp (s_neg fp ?y) (s_neg fp (max_frequency sv)) = s_less fp (max_frequency sv) ?y"
    "s_less fp (max_frequency sv) (s_neg fp ?y) = s_less fp ?y (s_neg fp (max_frequency sv))"
    using law unfolding lawful_def by blast+
  have lim: "not_beyond fp (max_frequency sv) (s_neg fp ?y) = not_beyond fp (max_frequency sv) ?y"
    unfolding not_beyond_def by (simp only: neg) blast
  have "\<not> s_less fp (max_frequency sv) (max_frequency sv)" "\<not> s_less fp (max_frequency sv) (s_neg fp (max_frequency sv))"
    "\<not> s_less fp (s_neg fp (max_frequency sv)) (s_neg fp (max_frequency sv))"
    using law unfolding lawful_def by blast+
  then show ?thesis unfolding lim unfolding not_beyond_def linreg_clamp_def by (auto split: if_splits)
qed

lemma servo_sample_first: "first_update (snd (snd (servo_sample fp sv offset ts w)))
    = (first_update sv \<and> fst (servo_sample fp sv offset ts w) = SERVO_UNLOCKED)"
  by (simp add: servo_sample_def split: servo_impl.split prod.split)

lemma servo_sample_config:
  "max_frequency (snd (snd (servo_sample fp sv offset ts w))) = max_frequency sv"
  "step_threshold (snd (snd (servo_sample fp sv offset ts w))) = step_threshold sv"
  "first_step_threshold (snd (snd (servo_sample fp sv offset ts w))) = first_step_threshold sv"
  by (simp_all add: servo_sample_def split: servo_impl.split prod.split)

lemma pi_second_state:
  "pi_second fp sv offset ts s = (st, r, s') \<Longrightarrow> st = SERVO_UNLOCKED
     \<or> (\<exists>x. r = clamp fp sv x) \<and> (st = SERVO_JUMP \<longrightarrow> wants_step fp sv (d_of_i64 fp offset))"
  unfolding pi_second_def Let_def by (auto split: if_splits)

lemma pi_tracking_state:
  "pi_tracking fp sv offset w s = (st, r, s') \<Longrightarrow> st = SERVO_UNLOCKED \<or> st = SERVO_LOCKED \<and> (\<exists>x. r = clamp fp sv x)"
proof -
  assume t: "pi_tracking fp sv offset w s = (st, r, s')"
  define k where "k = d_mul fp (d_mul fp (ki s) (d_of_i64 fp offset)) w"
  define p where "p = s_add fp (s_add fp (d_mul fp (d_mul fp (kp s) (d_of_i64 fp offset)) w) (drift s)) k"
  from t have "st = SERVO_UNLOCKED \<or> st = SERVO_LOCKED \<and> r = clamp fp sv p"
    unfolding pi_tracking_def Let_def k_def [symmetric] p_def [symmetric] clamp_def by (auto split: if_splits)
  then show ?thesis by blast
qed

lemma pi_sample_state:
  assumes "pi_sample fp sv offset ts w s = (st, r, s')"
  shows "st = SERVO_UNLOCKED \<or> (\<exists>x. r = clamp fp sv x) \<and> (st = SERVO_JUMP \<longrightarrow> wants_step fp sv (d_of_i64 fp offset))"
proof -
  let ?x = "if pi_count s = 0 then pi_first offset ts s
         else if pi_count s = 1 then pi_second fp sv offset ts s
         else if pi_count s = 2 then pi_tracking fp sv offset w s
         else (SERVO_UNLOCKED, last_freq s, s)"
  obtain st1 r1 u where x: "?x = (st1, r1, u)" by (metis prod_cases3)
  with assms have "?x = (st, r, u)" unfolding pi_sample_def x Let_def by simp
  then consider "pi_first offset ts s = (st, r, u)" | "pi_second fp sv offset ts s = (st, r, u)"
    | "pi_tracking fp sv offset w s = (st, r, u)" | "st = SERVO_UNLOCKED" by (auto split: if_splits)
  then show ?thesis
  proof cases
    case 1
    then show ?thesis by (simp add: pi_first_def)
  next
    case 2
    then show ?thesis by (rule pi_second_state)
  next
    case 3
    from pi_tracking_state [OF this] show ?thesis by auto
  qed simp
qed

lemma linreg_sample_state:
  assumes "linregSample fp sv offset ts w s = (st, r, s')"
  shows "st = SERVO_UNLOCKED \<or> (\<exists>x. r = s_neg fp (linreg_clamp fp sv x)) \<and> (st = SERVO_JUMP \<longrightarrow> (\<exists>x. wants_step fp sv x))"
proof -
  define u where "u = update_size fp (regress fp (add_sample offset w (update_reference fp ts s)))"
  show ?thesis
  proof (cases "lr_size u < 2")
    case True
    with assms show ?thesis by (simp add: linregSample_def flip: u_def)
  next
    case False
    show ?thesis
    proof (cases "wants_step fp sv (intercept (results u ! (lr_size u - 2)))")
      case True
      with False assms show ?thesis
        unfolding linregSample_def Let_def u_def [symmetric] by (simp only: if_False if_True prod.case) blast
    next
      case no: False
      with False assms show ?thesis
        unfolding linregSample_def Let_def u_def [symmetric] by (simp only: if_False if_True prod.case prod.inject) blast
    qed
  qed
qed

lemma servo_sample_state:
  assumes "servo_sample fp sv offset ts w = (st, r, sv')"
  shows "st = SERVO_JUMP \<Longrightarrow> \<exists>x. wants_step fp sv x"
    "lawful fp (max_frequency sv) \<Longrightarrow> st \<noteq> SERVO_UNLOCKED \<Longrightarrow> not_beyond fp (max_frequency sv) r"
proof -
  have "(st = SERVO_JUMP \<longrightarrow> (\<exists>x. wants_step fp sv x)) \<and>
     (lawful fp (max_frequency sv) \<longrightarrow> st \<noteq> SERVO_UNLOCKED \<longrightarrow> not_beyond fp (max_frequency sv) r)"
  proof (cases "impl sv")
    case (PiServo s)
    obtain st' r' s' where "pi_sample fp sv offset ts w s = (st', r', s')" by (metis prod_cases3)
    with pi_sample_state [OF this] assms PiServo clamp_limits [of fp sv] show ?thesis by (auto simp: servo_sample_def)
  next
    case (LinregServo s)
    obtain st' r' s' where "linregSample fp sv offset ts w s = (st', r', s')" by (metis prod_cases3)
    with linreg_sample_state [OF this] assms LinregServo linreg_clamp_limits [of fp sv] show ?thesis by (auto simp: servo_sample_def)
  qed (use assms in \<open>auto simp: servo_sample_def nullfSample_def lawful_def not_beyond_def split: if_splits\<close>)
  then show "st = SERVO_JUMP \<Longrightarrow> \<exists>x. wants_step fp sv x"
    "lawful fp (max_frequency sv) \<Longrightarrow> st \<noteq> SERVO_UNLOCKED \<Longrightarrow> not_beyond fp (max_frequency sv) r" by auto
qed

text \<open>What the clock does with its servo over time.\<close>

datatype 'd servo_op = Sample i64 u64 'd | SyncInterval 'd | Reset | Leap int

fun run_servo :: "'d servo_ops \<Rightarrow> 'd servo \<Rightarrow> 'd servo_op list \<Rightarrow> (servo_state \<times> 'd) list" where
  "run_servo fp sv [] = []"
| "run_servo fp sv (Sample offset ts w # os) =
     (let (st, r, sv) = servo_sample fp sv offset ts w in (st, r) # run_servo fp sv os)"
| "run_servo fp sv (SyncInterval x # os) = run_servo fp (servo_sync_interval fp x sv) os"
| "run_servo fp sv (Reset # os) = run_servo fp (servo_reset fp sv) os"
| "run_servo fp sv (Leap l # os) = run_servo fp (servo_leap fp l sv) os"

definition answers :: "servo_state \<Rightarrow> (servo_state \<times> 'd) list \<Rightarrow> nat" where
  "answers st out = length (filter (\<lambda>(s, _). s = st) out)"

lemma run_servo_steps:
  "\<not> nonzero fp (step_threshold sv) \<Longrightarrow> \<not> first_update sv \<Longrightarrow> answers SERVO_JUMP (run_servo fp sv os) = 0"
proof (induction fp sv os rule: run_servo.induct)
  case (2 fp sv offset ts w os)
  obtain st r sv' where s: "servo_sample fp sv offset ts w = (st, r, sv')" by (metis prod_cases3)
  have "st \<noteq> SERVO_JUMP" using servo_sample_state(1) [OF s] 2(2,3) by (auto simp: wants_step_def)
  moreover have "\<not> first_update sv'" "\<not> nonzero fp (step_threshold sv')"
    using servo_sample_first [of fp sv offset ts w] servo_sample_config [of fp sv offset ts w] s 2(2,3) by simp_all
  ultimately show ?case using 2(1) s by (simp add: answers_def)
qed (simp_all add: answers_def servo_sync_interval_def servo_reset_def servo_leap_def)

text \<open>
  No frequency that a servo of any of the four kinds answers when it steps or locks is beyond
  the limits; and when the configuration allows no steps after the first update, the
  servo asks for a step of the clock at most once, whatever samples, intervals, resets and leap
  seconds it gets.
\<close>

lemma servo_bounded_and_steps_once:
  assumes "lawful fp (max_frequency sv)"
  shows "(\<forall>(st, r) \<in> set (run_servo fp sv os). st \<noteq> SERVO_UNLOCKED \<longrightarrow> not_beyond fp (max_frequency sv) r)
    \<and> (\<not> nonzero fp (step_threshold sv) \<longrightarrow> answers SERVO_JUMP (run_servo fp sv os) \<le> 1)"
  using assms
proof (induction fp sv os rule: run_servo.induct)
  case (2 fp sv offset ts w os)
  obtain st r sv' where s: "servo_sample fp sv offset ts w = (st, r, sv')" by (metis prod_cases3)
  have c: "max_frequency sv' = max_frequency sv" "step_threshold sv' = step_threshold sv"
    using servo_sample_config [of fp sv offset ts w] s by simp_all
  have b: "st \<noteq> SERVO_UNLOCKED \<longrightarrow> not_beyond fp (max_frequency sv) r" using servo_sample_state(2) [OF s 2(2)] by simp
  have "answers SERVO_JUMP (run_servo fp sv' os) = 0" if "st = SERVO_JUMP" "\<not> nonzero fp (step_threshold sv)"
    using run_servo_steps [of fp sv' os] servo_sample_first [of fp sv offset ts w] s that c by simp
  with 2(1) [OF s [symmetric] refl] 2(2) s b c show ?case by (auto simp: answers_def)
qed (simp_all add: answers_def servo_sync_interval_def servo_reset_def servo_leap_def)

subsection \<open>Exact arithmetic\<close>

text \<open>The operations on real numbers, with the conversions of C.\<close>

definition real_const :: "dbl_const \<Rightarrow> real" where
  "real_const c = (case c of
     Decimal m e \<Rightarrow> real_of_int m * (if 0 \<le> e then 10 ^ nat e else 1 / 10 ^ nat (- e))
   | DBL_MAX \<Rightarrow> 2 ^ 1024 - 2 ^ 971
   | DBL_MIN \<Rightarrow> 1 / 2 ^ 1022
   | NEG_DBL_MAX \<Rightarrow> - (2 ^ 1024 - 2 ^ 971))"

definition real_trunc :: "real \<Rightarrow> int" where
  "real_trunc x = (if 0 \<le> x then \<lfloor>x\<rfloor> else \<lceil>x\<rceil>)"

definition real_ops :: "real servo_ops" where
  "real_ops = \<lparr>d_one = 1, d_mul = (*), d_div = (/), d_of_i64 = (\<lambda>w. real_of_int (sint w)),
     d_to_i64 = (\<lambda>x. word_of_int (real_trunc x)), d_gt = (>), d_neq = (\<noteq>), s_const = real_const,
     s_add = (+), s_sub = (-), s_neg = uminus, s_abs = abs, s_pow = (powr), s_sqrt = sqrt, s_less = (<),
     s_of_u64 = (\<lambda>w. real_of_int (uint w)), s_of_int = real_of_int, s_to_int = real_trunc\<rparr>"

lemma real_ops_simps [simp]:
  "d_one real_ops = 1" "d_mul real_ops x y = x * y" "d_div real_ops x y = x / y"
  "d_of_i64 real_ops w = real_of_int (sint w)" "d_gt real_ops x y \<longleftrightarrow> x > y" "d_neq real_ops x y \<longleftrightarrow> x \<noteq> y"
  "s_const real_ops c = real_const c" "s_add real_ops x y = x + y" "s_sub real_ops x y = x - y" "s_neg real_ops x = - x"
  "s_abs real_ops x = \<bar>x\<bar>" "s_less real_ops x y \<longleftrightarrow> x < y" "s_of_u64 real_ops v = real_of_int (uint v)"
  "s_of_int real_ops i = real_of_int i"
  by (simp_all add: real_ops_def)

lemma real_const_simps [simp]:
  "real_const (Decimal m 0) = real_of_int m" "real_const (Decimal 1 9) = 1000000000"
  "real_const (Decimal 1 (-3)) = 1 / 1000" "real_const (Decimal 16 (-3)) = 16 / 1000"
  by (simp_all add: real_const_def)

lemma lawful_real: "0 \<le> m \<Longrightarrow> lawful real_ops m"
  by (auto simp: lawful_def)

definition sample_pi :: "real pi_servo" where
  "sample_pi = \<lparr>offset0 = 0, offset1 = 0, local0 = 1000000000, local1 = 0, drift = 0, kp = 7 / 10, ki = 3 / 10, last_freq = 0,
     pi_count = 1, configured_pi_kp = 0, configured_pi_ki = 0, configured_pi_kp_scale = 7 / 10, configured_pi_kp_exponent = 0,
     configured_pi_kp_norm_max = 1, configured_pi_ki_scale = 3 / 10, configured_pi_ki_exponent = 0, configured_pi_ki_norm_max = 2\<rparr>"

definition sample_servo :: "real servo" where
  "sample_servo = \<lparr>max_frequency = 900000000, step_threshold = 0, first_step_threshold = 20000, first_update = True,
     impl = PiServo sample_pi\<rparr>"

lemma servo_bounded_and_steps_once_witness:
  "answers SERVO_JUMP (run_servo real_ops sample_servo [Sample 1000000 2001000000 1, Sample 5000000 3001000000 1]) \<le> 1"
  using servo_bounded_and_steps_once [OF lawful_real, of sample_servo "[Sample 1000000 2001000000 1, Sample 5000000 3001000000 1]"]
  by (simp add: sample_servo_def nonzero_def del: run_servo.simps)

text \<open>
  C20: with exact arithmetic the first estimate of the proportional integral servo takes the
  clock to the frequency of the master. The clock runs at \<open>r\<close> times the true rate when it is
  not corrected, and is corrected by the current drift; between the two samples, \<open>T\<close>
  nanoseconds pass at the master. Then the correction that the servo answers makes the product
  one, provided it is within the limit.
\<close>

theorem first_estimate_syntonizes:
  fixes r T :: real
  assumes sv: "impl sv = PiServo s" "pi_count s = 1" and order: "local0 s < ts"
    and long: "\<not> pi_wait real_ops (s\<lparr>offset1 := offset, local1 := ts\<rparr>)"
    and rate: "0 < r" "drift s < 1000000000" "0 < T"
      "real_of_int (uint ts - uint (local0 s)) = r * (1 - drift s / 1000000000) * T"
    and offsets: "real_of_int (sint offset - sint (offset0 s)) = real_of_int (uint ts - uint (local0 s)) - T"
      "i64_range (sint offset - sint (offset0 s))"
    and limit: "\<bar>1000000000 - 1000000000 / r\<bar> \<le> max_frequency sv"
  shows "\<exists>st f sv'. servo_sample real_ops sv offset ts w = (st, f, sv') \<and> st \<noteq> SERVO_UNLOCKED \<and> r * (1 - f / 1000000000) = 1"
proof -
  let ?s = "s\<lparr>offset1 := offset, local1 := ts\<rparr>"
  let ?L = "real_of_int (uint ts - uint (local0 s))" and ?d = "drift s"
  have u: "uint (ts - local0 s) = uint ts - uint (local0 s)"
  proof -
    have "uint (ts - local0 s) = (uint ts - uint (local0 s)) mod 2 ^ 64" by (simp add: uint_word_ariths)
    moreover have "0 \<le> uint ts - uint (local0 s)" using order by (simp add: word_less_def)
    moreover have "uint ts - uint (local0 s) < 2 ^ 64"
      using uint_lt2p [of ts] uint_ge_0 [of "local0 s"] by (simp del: uint_ge_0, linarith)
    ultimately show ?thesis by simp
  qed
  have o: "sint (offset - offset0 s) = sint offset - sint (offset0 s)"
    using offsets(2) by (rule sint_sub_i64)
  have "0 < uint ts - uint (local0 s)" using order by (simp add: word_less_def)
  then have Lpos: "0 < ?L" by (simp only: of_int_0_less_iff)
  have "pi_drift real_ops ?s = ?d + (1000000000 - ?d) * (?L - T) / ?L"
    using offsets(1) by (simp add: pi_drift_def u o)
  also have "\<dots> = 1000000000 - 1000000000 / r"
  proof -
    have e: "?L = r * (1000000000 - ?d) / 1000000000 * T" using rate(4) by (simp add: field_simps)
    have p: "0 < 1000000000 - ?d" using rate(2) by simp
    have "?d + (1000000000 - ?d) * (?L - T) / ?L = ?d + (1000000000 - ?d) * (1 - T / ?L)"
      using Lpos by (simp add: field_simps)
    also have "T / ?L = 1000000000 / (r * (1000000000 - ?d))" unfolding e using rate(1,3) p by (simp add: field_simps)
    also have "?d + (1000000000 - ?d) * (1 - 1000000000 / (r * (1000000000 - ?d))) = 1000000000 - 1000000000 / r"
      using rate(1) p by (simp add: field_simps)
    finally show ?thesis .
  qed
  finally have d: "pi_drift real_ops ?s = 1000000000 - 1000000000 / r" .
  have c: "clamp real_ops sv (1000000000 - 1000000000 / r) = 1000000000 - 1000000000 / r"
    using limit by (auto simp: clamp_def)
  let ?st = "if wants_step real_ops sv (real_of_int (sint offset)) then SERVO_JUMP else SERVO_LOCKED"
  have no: "\<not> ts \<le> local0 s" using order by simp
  have "fst (servo_sample real_ops sv offset ts w) = ?st"
    "fst (snd (servo_sample real_ops sv offset ts w)) = 1000000000 - 1000000000 / r"
    using sv no long by (simp_all add: servo_sample_def pi_sample_def pi_second_def Let_def d c)
  moreover have "r * (1 - (1000000000 - 1000000000 / r) / 1000000000) = 1" using rate(1) by (simp add: field_simps)
  moreover have "?st \<noteq> SERVO_UNLOCKED" by simp
  ultimately show ?thesis by (metis prod.collapse)
qed

theorem first_estimate_syntonizes_witness:
  "\<exists>st f sv'. servo_sample real_ops sample_servo 1000000 2001000000 1 = (st, f, sv') \<and> st \<noteq> SERVO_UNLOCKED
    \<and> (1001 / 1000) * (1 - f / 1000000000) = 1"
proof (rule first_estimate_syntonizes [where s = sample_pi and T = 1000000000])
  show "\<not> pi_wait real_ops (sample_pi\<lparr>offset1 := 1000000, local1 := 2001000000\<rparr>)"
    by (simp add: pi_wait_def sample_pi_def Let_def)
qed (simp_all add: sample_servo_def sample_pi_def i64_range_def)

end
