(* ===== verification/SysClock.thy ===== *)
theory SysClock
  imports Servo
begin

text \<open>
  What the synchronization of the clock rests on: the leap second functions of util.c, the
  check against the monotonic clock (clockcheck.c), the requests to adjust a clock
  (clockadj.c), and the statistics and the system offset of ptpSysDeps.c. A request to the
  kernel is the \<open>struct timex\<close> that the code fills.
\<close>

subsection \<open>Leap seconds\<close>

abbreviation NS_PER_DAY :: u64 where "NS_PER_DAY \<equiv> 86400000000000"
abbreviation NS_PER_HOUR :: u64 where "NS_PER_HOUR \<equiv> 3600000000000"
abbreviation (input) LEAP_61 :: u8 where "LEAP_61 \<equiv> 1"
abbreviation (input) LEAP_59 :: u8 where "LEAP_59 \<equiv> 2"
abbreviation (input) PTP_TIMESCALE :: u8 where "PTP_TIMESCALE \<equiv> 8"

definition is_utc_ambiguous :: "u64 \<Rightarrow> bool" where
  "is_utc_ambiguous ts \<longleftrightarrow> NS_PER_DAY - ts mod NS_PER_DAY \<le> 1000000000"

text \<open>The status, and the leap and the offset as they are left in the variables of the caller.\<close>

definition leap_second_status :: "u64 \<Rightarrow> int \<Rightarrow> int \<Rightarrow> int \<Rightarrow> int \<times> int \<times> int" where
  "leap_second_status ts leap_set leap utc_off =
     (let status = (if ts mod NS_PER_DAY > 6 * NS_PER_HOUR then (if leap_set = 0 then leap else leap_set)
                    else 0)
      in if leap = 0 \<and> status \<noteq> 0 then (status, status, utc_off - status)
         else if leap \<noteq> 0 \<and> status = 0 then (status, status, utc_off + leap)
         else (status, leap, utc_off))"

subsection \<open>The check against the monotonic clock\<close>

record clockcheck =
  freq_limit :: int
  freq_known :: bool
  current_freq :: int
  max_freq :: int
  min_freq :: int
  last_ts :: u64
  last_mono_ts :: u64

abbreviation (input) CHECK_MAX_FREQ :: int where "CHECK_MAX_FREQ \<equiv> 900000000"
abbreviation (input) CHECK_MIN_INTERVAL :: int where "CHECK_MIN_INTERVAL \<equiv> 100000000"

definition clockcheck_create :: "int \<Rightarrow> bool \<Rightarrow> clockcheck option" where
  "clockcheck_create limit memory = (if \<not> memory then None
     else Some \<lparr>freq_limit = limit, freq_known = False, current_freq = 0, max_freq = - CHECK_MAX_FREQ,
       min_freq = CHECK_MAX_FREQ, last_ts = 0, last_mono_ts = 0\<rparr>)"

text \<open>The offset of the frequency that the interval shows, when the clock was corrected by \<open>freq\<close>.\<close>

definition foffset :: "'d servo_ops \<Rightarrow> i64 \<Rightarrow> i64 \<Rightarrow> int \<Rightarrow> 'd" where
  "foffset fp interval mono_interval freq =
     d_mul fp (giga fp) (s_sub fp (d_div fp (d_div fp (d_of_i64 fp interval)
       (s_add fp (d_one fp) (d_div fp (s_of_int fp freq) (giga fp)))) (d_of_i64 fp mono_interval)) (d_one fp))"

definition clockcheck_sample :: "'d servo_ops \<Rightarrow> timespec \<Rightarrow> u64 \<Rightarrow> clockcheck \<Rightarrow> bool \<times> clockcheck" where
  "clockcheck_sample fp now ts cc =
     (if \<not> freq_known cc then (False, cc)
      else
        let interval = ts - last_ts cc
        in if 0 \<le> sint interval \<and> sint interval < CHECK_MIN_INTERVAL then (False, cc)
           else
             let mono_ts = tv_sec now * 1000000000 + tv_nsec now;
                 mono_interval = mono_ts - last_mono_ts cc
             in if sint mono_interval < CHECK_MIN_INTERVAL then (False, cc)
                else
                  let ret = (last_ts cc \<noteq> 0 \<and> max_freq cc \<le> CHECK_MAX_FREQ
                        \<and> (d_gt fp (foffset fp interval mono_interval (max_freq cc)) (s_of_int fp (freq_limit cc))
                          \<or> s_less fp (foffset fp interval mono_interval (min_freq cc)) (s_of_int fp (- freq_limit cc))))
                  in (ret, cc\<lparr>last_mono_ts := mono_ts, last_ts := ts, max_freq := current_freq cc, min_freq := current_freq cc\<rparr>))"

definition clockcheck_set_freq :: "int \<Rightarrow> clockcheck \<Rightarrow> clockcheck" where
  "clockcheck_set_freq freq cc =
     cc\<lparr>max_freq := (if max_freq cc < freq then freq else max_freq cc),
        min_freq := (if min_freq cc > freq then freq else min_freq cc),
        current_freq := freq, freq_known := True\<rparr>"

definition clockcheck_step :: "i64 \<Rightarrow> clockcheck \<Rightarrow> clockcheck" where
  "clockcheck_step step cc = (if last_ts cc \<noteq> 0 then cc\<lparr>last_ts := last_ts cc + step\<rparr> else cc)"

subsection \<open>Statistics\<close>

record 'd stats =
  st_num :: u32
  st_min :: 'd
  st_max :: 'd
  st_mean :: 'd
  sum_sqr :: 'd
  sum_diff_sqr :: 'd

definition stats_reset :: "'d servo_ops \<Rightarrow> 'd stats" where
  "stats_reset fp = \<lparr>st_num = 0, st_min = s_zero fp, st_max = s_zero fp, st_mean = s_zero fp, sum_sqr = s_zero fp,
     sum_diff_sqr = s_zero fp\<rparr>"

definition stats_create :: "'d servo_ops \<Rightarrow> bool \<Rightarrow> 'd stats option" where
  "stats_create fp memory = (if memory then Some (stats_reset fp) else None)"

definition stats_add_value :: "'d servo_ops \<Rightarrow> 'd \<Rightarrow> 'd stats \<Rightarrow> 'd stats" where
  "stats_add_value fp v s =
     (let old_mean = st_mean s; n = st_num s + 1;
          mean = s_add fp old_mean (d_div fp (s_sub fp v old_mean) (s_of_int fp (uint n)))
      in \<lparr>st_num = n,
          st_min = (if st_num s = 0 \<or> d_gt fp (st_min s) v then v else st_min s),
          st_max = (if st_num s = 0 \<or> s_less fp (st_max s) v then v else st_max s),
          st_mean = mean, sum_sqr = s_add fp (sum_sqr s) (d_mul fp v v),
          sum_diff_sqr = s_add fp (sum_diff_sqr s) (d_mul fp (s_sub fp v old_mean) (s_sub fp v mean))\<rparr>)"

record 'd stats_result =
  res_min :: 'd
  res_max :: 'd
  max_abs :: 'd
  res_mean :: 'd
  rms :: 'd
  stddev :: 'd

definition stats_get_result :: "'d servo_ops \<Rightarrow> 'd stats \<Rightarrow> 'd stats_result option" where
  "stats_get_result fp s =
     (if st_num s = 0 then None
      else Some \<lparr>res_min = st_min s, res_max = st_max s,
        max_abs = (if d_gt fp (st_max s) (s_neg fp (st_min s)) then st_max s else s_neg fp (st_min s)),
        res_mean = st_mean s, rms = s_sqrt fp (d_div fp (sum_sqr s) (s_of_int fp (uint (st_num s)))),
        stddev = s_sqrt fp (d_div fp (sum_diff_sqr s) (s_of_int fp (uint (st_num s))))\<rparr>)"

subsection \<open>Requests to adjust a clock\<close>

text \<open>The values that the code writes: the modes are a set of bits, and the status is one of three.\<close>

datatype adj_mode = ADJ_FREQUENCY | ADJ_MAXERROR | ADJ_STATUS | ADJ_TAI | ADJ_SETOFFSET | ADJ_NANO | ADJ_TICK
datatype leap_bit = STA_NONE | STA_INS | STA_DEL

record timex =
  modes :: "adj_mode set"
  tx_tick :: i64
  tx_freq :: i64
  tx_status :: leap_bit
  tx_constant :: int
  tx_sec :: i64
  tx_usec :: i64

definition zero_timex :: timex where
  "zero_timex = \<lparr>modes = {}, tx_tick = 0, tx_freq = 0, tx_status = STA_NONE, tx_constant = 0, tx_sec = 0, tx_usec = 0\<rparr>"

text \<open>The static variables of clockadj.c.\<close>

record adj_static =
  realtime_leap_bit :: leap_bit
  realtime_hz :: i64
  realtime_nominal_tick :: i64

abbreviation NS :: int where "NS \<equiv> 1000000000"

definition clockadj_init :: "bool \<Rightarrow> i64 \<Rightarrow> adj_static \<Rightarrow> adj_static" where
  "clockadj_init realtime sysconf a =
     (if realtime
      then (let a = a\<lparr>realtime_hz := sysconf\<rparr>
            in if 0 < sint sysconf
               then a\<lparr>realtime_nominal_tick := word_of_int ((1000000 + sint sysconf sdiv 2) sdiv sint sysconf)\<rparr>
               else a)
      else a)"

text \<open>The share of the frequency that the tick makes, in parts per billion.\<close>

definition tick_ppb :: "'d servo_ops \<Rightarrow> adj_static \<Rightarrow> i64 \<Rightarrow> 'd" where
  "tick_ppb fp a tick = d_mul fp (d_mul fp (s_const fp (Decimal 1 3)) (d_of_i64 fp (realtime_hz a)))
     (d_of_i64 fp (tick - realtime_nominal_tick a))"

definition clockadj_set_freq :: "'d servo_ops \<Rightarrow> ('d \<Rightarrow> 'd) \<Rightarrow> adj_static \<Rightarrow> bool \<Rightarrow> 'd \<Rightarrow> timex" where
  "clockadj_set_freq fp round' a realtime freq =
     (let ticks = realtime \<and> realtime_nominal_tick a \<noteq> 0;
          tick = (if ticks then d_to_i64 fp (s_add fp (round' (d_div fp (d_div fp freq (s_const fp (Decimal 1 3)))
                     (d_of_i64 fp (realtime_hz a)))) (d_of_i64 fp (realtime_nominal_tick a)))
                  else 0);
          freq = (if ticks then s_sub fp freq (tick_ppb fp a tick) else freq)
      in zero_timex\<lparr>modes := {ADJ_FREQUENCY} \<union> (if ticks then {ADJ_TICK} else {}), tx_tick := tick,
           tx_freq := d_to_i64 fp (d_mul fp freq (s_const fp (Decimal 65536 (-3))))\<rparr>)"

text \<open>The answer of the kernel is \<^const>\<open>None\<close> when the call fails.\<close>

definition clockadj_get_freq :: "'d servo_ops \<Rightarrow> adj_static \<Rightarrow> bool \<Rightarrow> timex option \<Rightarrow> 'd" where
  "clockadj_get_freq fp a realtime answer = (case answer of
      None \<Rightarrow> s_zero fp
    | Some tx \<Rightarrow>
        let f = d_div fp (d_of_i64 fp (tx_freq tx)) (s_const fp (Decimal 65536 (-3)))
        in if realtime \<and> realtime_nominal_tick a \<noteq> 0 \<and> tx_tick tx \<noteq> 0 then s_add fp f (tick_ppb fp a (tx_tick tx))
           else f)"

definition clockadj_step :: "i64 \<Rightarrow> timex" where
  "clockadj_step step =
     (let sign = (if sint step < 0 then -1 else 1);
          step = (if sint step < 0 then - step else step);
          sec = word_of_int (sign * (sint step sdiv NS));
          usec = word_of_int (sign * (sint step smod NS));
          tx = zero_timex\<lparr>modes := {ADJ_SETOFFSET, ADJ_NANO}, tx_sec := sec, tx_usec := usec\<rparr>
      in if sint (tx_usec tx) < 0 then tx\<lparr>tx_sec := tx_sec tx - 1, tx_usec := tx_usec tx + 1000000000\<rparr> else tx)"

definition sysclk_set_leap :: "int \<Rightarrow> adj_static \<Rightarrow> timex \<times> adj_static" where
  "sysclk_set_leap leap a =
     (let st = (if leap = -1 then STA_DEL else if leap = 1 then STA_INS else STA_NONE)
      in (zero_timex\<lparr>modes := {ADJ_STATUS}, tx_status := st\<rparr>, a\<lparr>realtime_leap_bit := st\<rparr>))"

definition sysclk_set_tai_offset :: "int \<Rightarrow> timex" where
  "sysclk_set_tai_offset off = zero_timex\<lparr>modes := {ADJ_TAI}, tx_constant := off\<rparr>"

definition sysclk_set_sync :: "adj_static \<Rightarrow> timex" where
  "sysclk_set_sync a = zero_timex\<lparr>modes := {ADJ_STATUS, ADJ_MAXERROR}, tx_status := realtime_leap_bit a\<rparr>"

text \<open>The answer is the tolerance that the kernel reports; the result is an int.\<close>

definition sysclk_max_freq :: "'d servo_ops \<Rightarrow> adj_static \<Rightarrow> i64 option \<Rightarrow> int" where
  "sysclk_max_freq fp a tolerance =
     (let f = (case tolerance of None \<Rightarrow> 0
               | Some t \<Rightarrow> s_to_int fp (d_div fp (d_of_i64 fp t) (s_const fp (Decimal 65536 (-3)))));
          f = (if f = 0 then 500000 else f)
      in if realtime_nominal_tick a \<noteq> 0 \<and> 2 * f \<ge> 1000 * sint (realtime_hz a)
         then sint (word_of_int (sint (realtime_nominal_tick a) sdiv 10 * 1000 * sint (realtime_hz a)) :: i32)
         else f)"

text \<open>The limit of a hardware clock by its capabilities, for a long of \<open>bits_per_long\<close> bits.\<close>

definition phc_max_adj :: "nat \<Rightarrow> int option \<Rightarrow> int" where
  "phc_max_adj bits_per_long max_adj = (case max_adj of
      None \<Rightarrow> 0
    | Some m \<Rightarrow> if bits_per_long = 32 \<and> m > 32767999 then 32767999 else m)"

subsection \<open>The offset between a hardware clock and the system clock\<close>

record ptp_clock_time =
  pct_sec :: i64
  pct_nsec :: u32

definition pctns :: "ptp_clock_time \<Rightarrow> i64" where
  "pctns t = pct_sec t * 1000000000 + ucast (pct_nsec t)"

text \<open>An element of the array: the interval, the offset and the time stamp.\<close>

record sys_sample =
  smp_interval :: i64
  smp_offset :: i64
  smp_timestamp :: u64

text \<open>The loop of \<open>insertion_sort\<close>; the number is \<open>i + 1\<close>.\<close>

fun insertion_sort :: "nat \<Rightarrow> sys_sample \<Rightarrow> sys_sample list \<Rightarrow> sys_sample list" where
  "insertion_sort 0 new xs = xs[0 := new]"
| "insertion_sort (Suc i) new xs =
     (if smp_interval (xs ! i) <s smp_interval new then xs[Suc i := new]
      else insertion_sort i new (xs[Suc i := xs ! i]))"

definition reading :: "ptp_clock_time list \<Rightarrow> nat \<Rightarrow> sys_sample" where
  "reading pct i =
     (let t1 = pctns (pct ! (2 * i)); tp = pctns (pct ! (2 * i + 1)); t2 = pctns (pct ! (2 * i + 2));
          mid = word_of_int (sint (t2 + t1) sdiv 2)
      in \<lparr>smp_interval = t2 - t1, smp_offset = mid - tp, smp_timestamp = mid\<rparr>)"

text \<open>The offset, the time stamp and the delay.\<close>

definition sysoff_estimate :: "ptp_clock_time list \<Rightarrow> nat \<Rightarrow> sys_sample list \<Rightarrow> i64 \<times> u64 \<times> i64" where
  "sysoff_estimate pct n samples =
     (let xs = fold (\<lambda>i. insertion_sort i (reading pct i)) [0..<n] samples
      in (smp_offset (xs ! 0), smp_timestamp (xs ! 0), smp_interval (xs ! 0)))"

datatype sysoff_result = SYSOFF_RUN_TIME_MISSING | SYSOFF_SUPPORTED "i64 \<times> u64 \<times> i64"

text \<open>The readings are the answer of the system call, if it succeeds.\<close>

definition sysoff_measure :: "ptp_clock_time list option \<Rightarrow> nat \<Rightarrow> sys_sample list \<Rightarrow> sysoff_result" where
  "sysoff_measure answer n samples = (case answer of
      None \<Rightarrow> SYSOFF_RUN_TIME_MISSING
    | Some pct \<Rightarrow> SYSOFF_SUPPORTED (sysoff_estimate pct n samples))"

definition sysoff_probe :: "nat \<Rightarrow> ptp_clock_time list option \<Rightarrow> nat \<Rightarrow> sys_sample list \<Rightarrow> sysoff_result" where
  "sysoff_probe max_samples answer n samples =
     (if n > max_samples then SYSOFF_RUN_TIME_MISSING else sysoff_measure answer n samples)"

subsection \<open>Leap seconds come at midnight\<close>

text \<open>The status is carried from one call to the next; a sample is a time and what the master announces.\<close>

fun leap_run :: "int \<Rightarrow> (u64 \<times> int \<times> int) list \<Rightarrow> (int \<times> int \<times> int) list" where
  "leap_run leap_set [] = []"
| "leap_run leap_set ((ts, leap, off) # xs) =
     (let r = leap_second_status ts leap_set leap off in r # leap_run (fst r) xs)"

definition before_midnight :: "u64 \<Rightarrow> bool" where
  "before_midnight ts \<longleftrightarrow> ts mod NS_PER_DAY > 6 * NS_PER_HOUR"

definition announced :: "int \<Rightarrow> int \<Rightarrow> int \<times> int \<Rightarrow> bool" where
  "announced L U a \<longleftrightarrow> a = (L, U) \<or> a = (0, U + L)"

lemma leap_before:
  assumes "before_midnight ts" "announced L U (leap, off)" "leap_set = L \<or> leap_set = 0 \<and> leap = L" "L \<noteq> 0"
  shows "leap_second_status ts leap_set leap off = (L, L, U)"
  using assms by (auto simp: leap_second_status_def before_midnight_def announced_def)

lemma leap_after:
  assumes "\<not> before_midnight ts" "announced L U (leap, off)" "L \<noteq> 0"
  shows "leap_second_status ts leap_set leap off = (0, 0, U + L)"
  using assms by (auto simp: leap_second_status_def before_midnight_def announced_def)

lemma leap_run_after:
  assumes "\<And>ts a. (ts, a) \<in> set xs \<Longrightarrow> \<not> before_midnight ts \<and> announced L U a" "L \<noteq> 0"
  shows "leap_run leap_set xs = replicate (length xs) (0, 0, U + L)"
  using assms(1)
proof (induction xs arbitrary: leap_set)
  case (Cons x xs)
  obtain ts leap off where x: "x = (ts, leap, off)" by (metis prod_cases3)
  have "\<not> before_midnight ts" "announced L U (leap, off)" using Cons(2) [of ts "(leap, off)"] x by auto
  moreover have "leap_run 0 xs = replicate (length xs) (0, 0, U + L)"
    by (rule Cons.IH) (meson Cons.prems list.set_intros(2))
  ultimately show ?case by (simp add: x leap_after assms(2) Let_def)
qed simp

lemma leap_run_before:
  assumes "\<And>ts a. (ts, a) \<in> set xs \<Longrightarrow> before_midnight ts \<and> announced L U a" "L \<noteq> 0"
    "leap_set = L \<or> leap_set = 0 \<and> (xs \<noteq> [] \<longrightarrow> fst (snd (hd xs)) = L)"
    "\<And>ts a. (ts, a) \<in> set ys \<Longrightarrow> \<not> before_midnight ts \<and> announced L U a"
  shows "leap_run leap_set (xs @ ys) = replicate (length xs) (L, L, U) @ replicate (length ys) (0, 0, U + L)"
  using assms(1,3)
proof (induction xs arbitrary: leap_set)
  case Nil
  then show ?case using leap_run_after [of ys L U leap_set] assms(2,4) by simp
next
  case (Cons x xs)
  obtain ts leap off where x: "x = (ts, leap, off)" by (metis prod_cases3)
  have b: "before_midnight ts" "announced L U (leap, off)" using Cons(2) [of ts "(leap, off)"] x by auto
  have "leap_second_status ts leap_set leap off = (L, L, U)"
    using Cons(3) x by (intro leap_before [OF b _ assms(2)]) auto
  moreover have "leap_run L (xs @ ys) = replicate (length xs) (L, L, U) @ replicate (length ys) (0, 0, U + L)"
    by (rule Cons.IH) (meson Cons.prems(1) list.set_intros(2), simp)
  ultimately show ?case by (simp add: x Let_def)
qed

text \<open>
  C21: a leap second takes effect at midnight, whenever the master changes its announcement. The
  master announces the leap second with the old offset or, early or late, no leap second with
  the new offset; once it was announced before midnight, every call before midnight answers the
  leap second and the old offset, and every call after midnight no leap second and the new one.
\<close>

theorem leap_second_at_midnight:
  assumes "L \<noteq> 0" "fst (snd (hd (bs @ [(0, L, U)]))) = L"
    "\<And>ts a. (ts, a) \<in> set bs \<Longrightarrow> before_midnight ts \<and> announced L U a"
    "\<And>ts a. (ts, a) \<in> set as \<Longrightarrow> \<not> before_midnight ts \<and> announced L U a"
  shows "leap_run 0 (bs @ as) = replicate (length bs) (L, L, U) @ replicate (length as) (0, 0, U + L)"
  using assms by (intro leap_run_before) (auto simp: hd_append split: if_splits)

theorem leap_second_at_midnight_witness:
  "leap_run 0 [(86399000000000, 1, 36), (86399500000000, 0, 37), (86400000000001, 1, 36), (86400500000000, 0, 37)]
    = [(1, 1, 36), (1, 1, 36), (0, 0, 37), (0, 0, 37)]"
proof -
  have "leap_run 0 ([(86399000000000, 1, 36), (86399500000000, 0, 37)] @ [(86400000000001, 1, 36), (86400500000000, 0, 37)])
    = replicate (length [(86399000000000 :: u64, 1 :: int, 36 :: int), (86399500000000, 0, 37)]) (1, 1, 36)
      @ replicate (length [(86400000000001 :: u64, 1 :: int, 36 :: int), (86400500000000, 0, 37)]) (0, 0, 36 + 1)"
    by (rule leap_second_at_midnight) (auto simp: before_midnight_def announced_def)
  then show ?thesis by (simp del: leap_run.simps)
qed

subsection \<open>The check finds every wrong frequency\<close>

lemma foffset_real:
  "foffset real_ops i m f = 1000000000 * (real_of_int (sint i) / (1 + real_of_int f / 1000000000) / real_of_int (sint m) - 1)"
  by (simp add: foffset_def)

lemma clockcheck_sample_result:
  assumes "freq_known cc" "last_ts cc \<noteq> 0" "max_freq cc \<le> CHECK_MAX_FREQ"
    "\<not> (0 \<le> sint (ts - last_ts cc) \<and> sint (ts - last_ts cc) < CHECK_MIN_INTERVAL)"
    "mi = tv_sec now * 1000000000 + tv_nsec now - last_mono_ts cc" "CHECK_MIN_INTERVAL \<le> sint mi"
  shows "fst (clockcheck_sample real_ops now ts cc) \<longleftrightarrow>
    foffset real_ops (ts - last_ts cc) mi (max_freq cc) > real_of_int (freq_limit cc)
    \<or> foffset real_ops (ts - last_ts cc) mi (min_freq cc) < - real_of_int (freq_limit cc)"
  using assms by (auto simp: clockcheck_sample_def Let_def)

lemma giga_scale:
  fixes a g :: real
  shows "a \<le> 1 + g / 1000000000 \<Longrightarrow> 1000000000 * (a - 1) \<le> g"
    "1 + g / 1000000000 \<le> a \<Longrightarrow> g \<le> 1000000000 * (a - 1)"
  by (simp_all add: field_simps)

text \<open>
  C22: with exact arithmetic the check against the monotonic clock is right. The clock ran at
  \<open>1 + g / 1e9\<close> times the rate of the monotonic clock, apart from its correction, which was \<open>f\<close> on
  average. While \<open>g\<close> is within the limit there is no alarm, whatever the corrections were between
  the least and the greatest of them; and when the correction did not change, there is an alarm
  exactly when \<open>g\<close> is beyond the limit.
\<close>

theorem clockcheck_exact:
  fixes f g :: real
  assumes cc: "freq_known cc" "last_ts cc \<noteq> 0" "max_freq cc \<le> CHECK_MAX_FREQ" "- CHECK_MAX_FREQ \<le> min_freq cc"
    and long: "\<not> (0 \<le> sint (ts - last_ts cc) \<and> sint (ts - last_ts cc) < CHECK_MIN_INTERVAL)"
      "mi = tv_sec now * 1000000000 + tv_nsec now - last_mono_ts cc" "CHECK_MIN_INTERVAL \<le> sint mi"
    and rate: "real_of_int (sint (ts - last_ts cc)) = (1 + f / 1000000000) * (1 + g / 1000000000) * real_of_int (sint mi)"
      "real_of_int (min_freq cc) \<le> f" "f \<le> real_of_int (max_freq cc)"
    and limit: "freq_limit cc \<le> 1000000000"
  shows "(\<bar>g\<bar> \<le> real_of_int (freq_limit cc) \<longrightarrow> \<not> fst (clockcheck_sample real_ops now ts cc))
    \<and> (min_freq cc = max_freq cc \<longrightarrow> fst (clockcheck_sample real_ops now ts cc) = (\<bar>g\<bar> > real_of_int (freq_limit cc)))"
proof -
  let ?R = "fst (clockcheck_sample real_ops now ts cc)" and ?l = "real_of_int (freq_limit cc)"
  have "0 < sint mi" using long(3) by linarith
  then have m: "0 < real_of_int (sint mi)" by (simp only: of_int_0_less_iff)
  have pos: "0 < 1 + real_of_int (min_freq cc) / 1000000000" "0 < 1 + real_of_int (max_freq cc) / 1000000000"
    "0 < 1 + f / 1000000000"
    using cc(4) rate(2,3) by (auto simp: field_simps)
  have off: "foffset real_ops (ts - last_ts cc) mi k
      = 1000000000 * ((1 + f / 1000000000) / (1 + real_of_int k / 1000000000) * (1 + g / 1000000000) - 1)"
    for k using m rate(1) by (simp add: foffset_real)
  have R: "?R \<longleftrightarrow> foffset real_ops (ts - last_ts cc) mi (max_freq cc) > ?l
    \<or> foffset real_ops (ts - last_ts cc) mi (min_freq cc) < - ?l"
    by (rule clockcheck_sample_result [OF cc(1,2,3) long])
  have same: "foffset real_ops (ts - last_ts cc) mi k = g" if "real_of_int k = f" for k
    using pos(3) that by (simp add: off)
  have quiet: "\<not> ?R" if "\<bar>g\<bar> \<le> ?l"
  proof -
    have g: "0 \<le> 1 + g / 1000000000" using that limit by simp
    have le: "a \<le> 1 \<Longrightarrow> a * (1 + g / 1000000000) \<le> 1 + g / 1000000000" "1 \<le> a \<Longrightarrow> 1 + g / 1000000000 \<le> a * (1 + g / 1000000000)" for a
      using mult_right_mono [of a 1, OF _ g] mult_right_mono [of 1 a, OF _ g] by auto
    have lt: "(1 + f / 1000000000) / (1 + real_of_int (max_freq cc) / 1000000000) \<le> 1"
      and ge: "1 \<le> (1 + f / 1000000000) / (1 + real_of_int (min_freq cc) / 1000000000)"
      using pos rate(2,3) by simp_all
    from le(1) [OF lt]
    have "foffset real_ops (ts - last_ts cc) mi (max_freq cc) \<le> g" unfolding off by (rule giga_scale)
    moreover from le(2) [OF ge] have "g \<le> foffset real_ops (ts - last_ts cc) mi (min_freq cc)" unfolding off by (rule giga_scale)
    ultimately
    show ?thesis using that unfolding R by linarith
  qed
  have "?R = (\<bar>g\<bar> > ?l)" if "min_freq cc = max_freq cc"
  proof -
    have "real_of_int (max_freq cc) = f" "real_of_int (min_freq cc) = f" using that rate(2,3) by linarith+
    then show ?thesis unfolding R using same by auto
  qed
  with quiet show ?thesis by blast
qed

definition sample_cc :: clockcheck where
  "sample_cc = \<lparr>freq_limit = 200000000, freq_known = True, current_freq = 0, max_freq = 0, min_freq = 0,
     last_ts = 1000000000, last_mono_ts = 5000000000\<rparr>"

theorem clockcheck_exact_witness:
  "fst (clockcheck_sample real_ops \<lparr>tv_sec = 6, tv_nsec = 0\<rparr> 2500000000 sample_cc)"
proof -
  have "(\<bar>500000000\<bar> \<le> real_of_int (freq_limit sample_cc) \<longrightarrow> \<not> fst (clockcheck_sample real_ops \<lparr>tv_sec = 6, tv_nsec = 0\<rparr> 2500000000 sample_cc))
    \<and> (min_freq sample_cc = max_freq sample_cc \<longrightarrow>
      fst (clockcheck_sample real_ops \<lparr>tv_sec = 6, tv_nsec = 0\<rparr> 2500000000 sample_cc) = (\<bar>500000000\<bar> > real_of_int (freq_limit sample_cc)))"
    by (rule clockcheck_exact [where f = 0 and mi = 1000000000]) (simp_all add: sample_cc_def)
  then show ?thesis by (simp add: sample_cc_def)
qed

subsection \<open>The statistics\<close>

definition stats_of :: "real list \<Rightarrow> real stats" where
  "stats_of xs = fold (stats_add_value real_ops) xs (stats_reset real_ops)"

lemma stats_of_snoc: "stats_of (xs @ [x]) = stats_add_value real_ops x (stats_of xs)"
  by (simp add: stats_of_def)

lemma sum_diff_step:
  fixes S Q x n :: real
  assumes "0 < n"
  shows "Q - S\<^sup>2 / n + (x - S / n) * (x - (S + x) / (n + 1)) = Q + x\<^sup>2 - (S + x)\<^sup>2 / (n + 1)"
proof -
  have "n + 1 \<noteq> 0" "n \<noteq> 0" using assms by linarith+
  then show ?thesis by (simp add: divide_simps) algebra
qed

lemma mean_step:
  fixes S x n :: real
  assumes "0 < n"
  shows "S / n + (x - S / n) / (n + 1) = (S + x) / (n + 1)"
proof -
  have "n + 1 \<noteq> 0" "n \<noteq> 0" using assms by linarith+
  then show ?thesis by (simp add: divide_simps) algebra
qed

lemma stats_min_max:
  "st_min (stats_add_value real_ops x s) = (if st_num s = 0 \<or> st_min s > x then x else st_min s)"
  "st_max (stats_add_value real_ops x s) = (if st_num s = 0 \<or> st_max s < x then x else st_max s)"
  by (simp_all add: stats_add_value_def Let_def)

lemma Min_snoc: "xs \<noteq> [] \<Longrightarrow> Min (set (xs @ [x])) = (if Min (set xs) > x then x else Min (set xs))"
  and Max_snoc: "xs \<noteq> [] \<Longrightarrow> Max (set (xs @ [x])) = (if Max (set xs) < x then x else Max (set xs))" for x :: real
proof -
  assume n: "xs \<noteq> []"
  have e: "set (xs @ [x]) = insert x (set xs)" by simp
  have "Min (set (xs @ [x])) = min x (Min (set xs))" "Max (set (xs @ [x])) = max x (Max (set xs))"
    unfolding e using n by (auto intro: Min_insert Max_insert)
  then show "Min (set (xs @ [x])) = (if Min (set xs) > x then x else Min (set xs))"
    "Max (set (xs @ [x])) = (if Max (set xs) < x then x else Max (set xs))"
    by (auto simp: min_def max_def simp del: set_append)
qed

lemma stats_of_correct:
  assumes "length xs < 2 ^ 32"
  shows "uint (st_num (stats_of xs)) = int (length xs) \<and> st_mean (stats_of xs) = sum_list xs / real (length xs)
    \<and> sum_sqr (stats_of xs) = (\<Sum>x\<leftarrow>xs. x\<^sup>2)
    \<and> sum_diff_sqr (stats_of xs) = (\<Sum>x\<leftarrow>xs. x\<^sup>2) - (sum_list xs)\<^sup>2 / real (length xs)
    \<and> (xs \<noteq> [] \<longrightarrow> st_min (stats_of xs) = Min (set xs) \<and> st_max (stats_of xs) = Max (set xs))"
  using assms
proof (induction xs rule: rev_induct)
  case Nil
  show ?case by (simp add: stats_of_def stats_reset_def)
next
  case (snoc x xs)
  let ?s = "stats_of xs" and ?n = "real (length xs)"
  from snoc have IH: "uint (st_num ?s) = int (length xs)" "st_mean ?s = sum_list xs / ?n" "sum_sqr ?s = (\<Sum>x\<leftarrow>xs. x\<^sup>2)"
    "sum_diff_sqr ?s = (\<Sum>x\<leftarrow>xs. x\<^sup>2) - (sum_list xs)\<^sup>2 / ?n"
    "xs \<noteq> [] \<Longrightarrow> st_min ?s = Min (set xs)" "xs \<noteq> [] \<Longrightarrow> st_max ?s = Max (set xs)" by simp_all
  have num: "uint (st_num ?s + 1) = int (length xs) + 1"
    using snoc.prems IH(1) by (simp add: uint_word_ariths)
  have num_real: "real_of_int (uint (st_num ?s + 1)) = ?n + 1" unfolding num by simp
  have zero: "st_num ?s = 0 \<longleftrightarrow> xs = []"
    using IH(1) uint_0_iff [of "st_num ?s"] by simp
  have mean: "st_mean (stats_of (xs @ [x])) = (sum_list xs + x) / (?n + 1)"
  proof -
    have "st_mean (stats_of (xs @ [x])) = st_mean ?s + (x - st_mean ?s) / (?n + 1)"
      using num_real by (simp add: stats_of_snoc stats_add_value_def Let_def)
    then show ?thesis unfolding IH(2) by (cases "xs = []") (simp_all add: mean_step)
  qed
  have "sum_diff_sqr (stats_of (xs @ [x])) = sum_diff_sqr ?s + (x - st_mean ?s) * (x - st_mean (stats_of (xs @ [x])))"
    by (simp add: stats_of_snoc stats_add_value_def Let_def)
  then have diff: "sum_diff_sqr (stats_of (xs @ [x])) = (\<Sum>x\<leftarrow>xs. x\<^sup>2) + x\<^sup>2 - (sum_list xs + x)\<^sup>2 / (?n + 1)"
    unfolding mean IH(2,4) by (cases "xs = []") (simp_all add: sum_diff_step)
  have "st_min (stats_of (xs @ [x])) = Min (set (xs @ [x]))" "st_max (stats_of (xs @ [x])) = Max (set (xs @ [x]))"
    unfolding stats_of_snoc stats_min_max
    using IH(5,6) zero Min_snoc [of xs x] Max_snoc [of xs x] by (cases "xs = []"; simp del: set_append Max_less_iff Min_gr_iff)+
  moreover have "sum_sqr (stats_of (xs @ [x])) = (\<Sum>x\<leftarrow>xs @ [x]. x\<^sup>2)" "uint (st_num (stats_of (xs @ [x]))) = int (length xs) + 1"
    using IH(3) num by (simp_all add: stats_of_snoc stats_add_value_def Let_def power2_eq_square)
  ultimately show ?case using mean diff by (simp add: add.commute)
qed

lemma sum_deviations:
  fixes xs :: "real list"
  assumes "xs \<noteq> []"
  shows "(\<Sum>x\<leftarrow>xs. (x - m)\<^sup>2) = (\<Sum>x\<leftarrow>xs. x\<^sup>2) - 2 * m * sum_list xs + real (length xs) * m\<^sup>2"
  by (induction xs) (simp_all add: power2_eq_square algebra_simps)

lemma Max_abs:
  fixes xs :: "real list"
  assumes "xs \<noteq> []"
  shows "(if Max (set xs) > - Min (set xs) then Max (set xs) else - Min (set xs)) = Max (abs ` set xs)"
proof -
  have f: "finite (set xs)" "set xs \<noteq> {}" using assms by simp_all
  have in_range: "x \<in> set xs \<Longrightarrow> x \<le> Max (set xs) \<and> Min (set xs) \<le> x" for x using f by simp
  have "Max (abs ` set xs) = (if Max (set xs) > - Min (set xs) then Max (set xs) else - Min (set xs))"
  proof (rule Max_eqI)
    fix y assume "y \<in> abs ` set xs"
    then obtain x where x: "x \<in> set xs" "y = \<bar>x\<bar>" by auto
    from in_range [OF x(1)] show "y \<le> (if Max (set xs) > - Min (set xs) then Max (set xs) else - Min (set xs))"
      unfolding x(2) by (auto simp: abs_le_iff simp del: Max_less_iff Min_gr_iff)
  next
    have "- Min (set xs) = \<bar>Min (set xs)\<bar>" if "\<not> Max (set xs) > - Min (set xs)"
      using that in_range [OF Min_in [OF f]] by linarith
    moreover have "Max (set xs) = \<bar>Max (set xs)\<bar>" if "Max (set xs) > - Min (set xs)"
      using that in_range [OF Max_in [OF f]] by linarith
    ultimately show "(if Max (set xs) > - Min (set xs) then Max (set xs) else - Min (set xs)) \<in> abs ` set xs"
      using Min_in [OF f] Max_in [OF f] image_eqI [of _ abs] by (metis (full_types))
  qed simp
  then show ?thesis by (rule sym)
qed

text \<open>
  C26: with exact arithmetic the running statistics are the statistics of the values: the least,
  the greatest and the greatest absolute value, the mean, the root of the mean square, and the
  standard deviation, without the values being kept.
\<close>

theorem stats_are_exact:
  assumes "xs \<noteq> []" "length xs < 2 ^ 32"
  shows "stats_get_result real_ops (fold (stats_add_value real_ops) xs (stats_reset real_ops)) =
    Some \<lparr>res_min = Min (set xs), res_max = Max (set xs), max_abs = Max (abs ` set xs),
      res_mean = sum_list xs / real (length xs),
      rms = sqrt ((\<Sum>x\<leftarrow>xs. x\<^sup>2) / real (length xs)),
      stddev = sqrt ((\<Sum>x\<leftarrow>xs. (x - sum_list xs / real (length xs))\<^sup>2) / real (length xs))\<rparr>"
proof -
  have n: "real (length xs) \<noteq> 0" using assms(1) by simp
  have z: "st_num (stats_of xs) \<noteq> 0" using stats_of_correct [OF assms(2)] assms(1) by (auto simp: uint_0_iff)
  have d: "(\<Sum>x\<leftarrow>xs. (x - sum_list xs / real (length xs))\<^sup>2) = (\<Sum>x\<leftarrow>xs. x\<^sup>2) - (sum_list xs)\<^sup>2 / real (length xs)"
    using n unfolding sum_deviations [OF assms(1)] by (simp add: field_simps power2_eq_square)
  show ?thesis
    unfolding stats_of_def [symmetric] d Max_abs [OF assms(1), symmetric]
    using stats_of_correct [OF assms(2)] assms(1) z
    by (simp add: stats_get_result_def real_ops_def)
qed

theorem stats_are_exact_witness:
  "stats_get_result real_ops (fold (stats_add_value real_ops) [3, -5] (stats_reset real_ops)) =
    Some \<lparr>res_min = -5, res_max = 3, max_abs = 5, res_mean = -1, rms = sqrt 17, stddev = 4\<rparr>"
  using stats_are_exact [of "[3, -5]"] by (simp add: real_sqrt_unique del: fold.simps)

subsection \<open>A step moves the clock by what was asked\<close>

lemma sdiv_smod_nonneg: "0 \<le> n \<Longrightarrow> n sdiv NS = n div NS" "0 \<le> n \<Longrightarrow> n smod NS = n mod NS"
  by (cases "n = 0"; simp add: signed_divide_int_def signed_modulo_int_def minus_div_mult_eq_mod)+

text \<open>
  C24: the seconds and the nanoseconds of a request to step a clock add up to the step, and the
  nanoseconds are those of a normalized time value, also for steps back. The one step left out
  is the most negative one, whose negation overflows.
\<close>

theorem clockadj_step_exact:
  assumes "sint step \<noteq> - (2 ^ 63)"
  shows "sint (tx_sec (clockadj_step step)) * NS + sint (tx_usec (clockadj_step step)) = sint step
    \<and> 0 \<le> sint (tx_usec (clockadj_step step)) \<and> sint (tx_usec (clockadj_step step)) < NS"
proof -
  define n where "n = \<bar>sint step\<bar>"
  have r: "0 \<le> n" "n < 2 ^ 63" using assms sint_i64_range [of step] by (auto simp: n_def i64_range_def)
  have neg: "sint (if sint step < 0 then - step else step) = n"
  proof (cases "sint step < 0")
    case True
    have "i64_range (sint (0 :: i64) - sint step)" using r True by (simp add: n_def i64_range_def)
    from sint_sub_i64 [OF this] True show ?thesis by (simp add: n_def)
  qed (simp add: n_def)
  define q where "q = n div NS"
  define m where "m = n mod NS"
  have dm: "n sdiv NS = q" "n smod NS = m" "n = q * NS + m" "0 \<le> m" "m < NS" "0 \<le> q" "q \<le> 9223372036"
    using r sdiv_smod_nonneg [OF r(1)] by (simp_all add: q_def m_def)
  have range: "i64_range q" "i64_range (- q)" "i64_range m" "i64_range (- m)" "i64_range (- q - 1)" "i64_range (NS - m)"
    using dm by (auto simp: i64_range_def)
  have sneg: "sint (- (word_of_int m :: i64)) = - m" "sint (- (word_of_int q :: i64)) = - q"
    using sint_of_int_i64 [OF range(4)] sint_of_int_i64 [OF range(2)] by simp_all
  show ?thesis
  proof (cases "sint step < 0 \<and> m \<noteq> 0")
    case True
    then have "tx_sec (clockadj_step step) = word_of_int (- q - 1)" "tx_usec (clockadj_step step) = word_of_int (NS - m)"
      using neg range dm sneg by (auto simp: clockadj_step_def Let_def)
    then have e: "sint (tx_sec (clockadj_step step)) = - q - 1" "sint (tx_usec (clockadj_step step)) = NS - m"
      using range by (simp_all only: sint_of_int_i64)
    have "sint step = - (q * NS + m)" using True dm(3) by (simp add: n_def)
    then show ?thesis unfolding e using True dm(4,5) by simp
  next
    case False
    then show ?thesis using neg range dm sneg by (auto simp: clockadj_step_def Let_def n_def)
  qed
qed

theorem clockadj_step_exact_witness:
  "sint (tx_sec (clockadj_step (- 1500000000))) * NS + sint (tx_usec (clockadj_step (- 1500000000))) = - 1500000000"
  using clockadj_step_exact [of "- 1500000000"] by simp

subsection \<open>The system clock gets the frequency that was asked for\<close>

text \<open>The rounding of C, half away from zero.\<close>

definition real_round :: "real \<Rightarrow> real" where
  "real_round x = (if 0 \<le> x then of_int \<lfloor>x + 1 / 2\<rfloor> else of_int \<lceil>x - 1 / 2\<rceil>)"

lemma real_round_near: "\<exists>i. real_round x = real_of_int i \<and> \<bar>real_of_int i - x\<bar> \<le> 1 / 2"
proof (cases "0 \<le> x")
  case True
  have "\<bar>real_of_int \<lfloor>x + 1 / 2\<rfloor> - x\<bar> \<le> 1 / 2" by linarith
  with True show ?thesis by (auto simp: real_round_def)
next
  case False
  have "\<bar>real_of_int \<lceil>x - 1 / 2\<rceil> - x\<bar> \<le> 1 / 2" by linarith
  with False show ?thesis by (auto simp: real_round_def)
qed

lemma real_trunc_near: "\<bar>real_of_int (real_trunc x) - x\<bar> < 1" "\<bar>real_of_int (real_trunc x)\<bar> \<le> \<bar>x\<bar>"
proof -
  have "\<bar>real_of_int \<lfloor>x\<rfloor> - x\<bar> < 1" "\<bar>real_of_int \<lceil>x\<rceil> - x\<bar> < 1" by linarith+
  then show "\<bar>real_of_int (real_trunc x) - x\<bar> < 1" by (simp add: real_trunc_def)
  show "\<bar>real_of_int (real_trunc x)\<bar> \<le> \<bar>x\<bar>"
  proof (cases "0 \<le> x")
    case True
    have "0 \<le> real_of_int \<lfloor>x\<rfloor>" "real_of_int \<lfloor>x\<rfloor> \<le> x" using True by simp_all
    then have "\<bar>real_of_int \<lfloor>x\<rfloor>\<bar> \<le> \<bar>x\<bar>" by linarith
    with True show ?thesis by (simp add: real_trunc_def)
  next
    case False
    have "real_of_int \<lceil>x\<rceil> \<le> 0" "x \<le> real_of_int \<lceil>x\<rceil>" using False by simp_all
    then have "\<bar>real_of_int \<lceil>x\<rceil>\<bar> \<le> \<bar>x\<bar>" by linarith
    with False show ?thesis by (simp add: real_trunc_def)
  qed
qed

lemma real_trunc_of_int [simp]: "real_trunc (real_of_int i) = i"
  by (simp add: real_trunc_def)

lemma real_const_adj: "real_const (Decimal 1 3) = 1000" "real_const (Decimal 65536 (-3)) = 65536 / 1000" "real_const (Decimal 0 0) = 0"
  by (simp_all add: real_const_def)

lemma d_to_i64_real: "i64_range (real_trunc x) \<Longrightarrow> sint (d_to_i64 real_ops x) = real_trunc x"
  by (simp add: real_ops_def)

text \<open>The tick that the kernel gets, and what is left for the frequency.\<close>

lemma tick_split:
  assumes hz: "0 < sint (realtime_hz a)" "sint (realtime_hz a) \<le> 10000" and f: "\<bar>freq\<bar> \<le> 100000000"
    and nom: "realtime_nominal_tick a = word_of_int n" "0 < n" "n \<le> 1000000"
  shows "\<exists>i. d_to_i64 real_ops (real_round (freq / 1000 / real_of_int (sint (realtime_hz a)))
       + real_of_int (sint (realtime_nominal_tick a))) = word_of_int (i + n)
     \<and> \<bar>freq - 1000 * real_of_int (sint (realtime_hz a)) * real_of_int i\<bar> \<le> 500 * real_of_int (sint (realtime_hz a))
     \<and> \<bar>i\<bar> \<le> 200000"
proof -
  let ?h = "real_of_int (sint (realtime_hz a))"
  have h: "1 \<le> ?h" "?h \<le> 10000" using hz by linarith+
  obtain i where i: "real_round (freq / 1000 / ?h) = real_of_int i" "\<bar>real_of_int i - freq / 1000 / ?h\<bar> \<le> 1 / 2"
    using real_round_near by blast
  have "\<bar>freq / 1000 / ?h\<bar> \<le> 100000" using f h by (simp add: abs_divide divide_simps)
  with i(2) have small: "\<bar>i\<bar> \<le> 200000" by linarith
  have n: "sint (realtime_nominal_tick a) = n" using nom by (simp add: i64_range_def)
  have "d_to_i64 real_ops (real_round (freq / 1000 / ?h) + real_of_int (sint (realtime_nominal_tick a))) = word_of_int (i + n)"
    unfolding i(1) n by (simp add: real_ops_def flip: of_int_add)
  moreover have "\<bar>freq - 1000 * ?h * real_of_int i\<bar> = 1000 * ?h * \<bar>real_of_int i - freq / 1000 / ?h\<bar>"
  proof -
    have "freq - 1000 * ?h * real_of_int i = 1000 * ?h * (freq / 1000 / ?h - real_of_int i)" using h by (simp add: field_simps)
    then show ?thesis using h by (simp add: abs_mult abs_minus_commute)
  qed
  moreover have "1000 * ?h * \<bar>real_of_int i - freq / 1000 / ?h\<bar> \<le> 1000 * ?h * (1 / 2)"
    using h i(2) by (intro mult_left_mono) auto
  ultimately show ?thesis using small by (intro exI [of _ i]) auto
qed

lemma readback:
  assumes "\<bar>x\<bar> \<le> 100000000"
  shows "\<bar>real_of_int (sint (d_to_i64 real_ops (x * (65536 / 1000)))) / (65536 / 1000) - x\<bar> < 1000 / 65536"
    "\<bar>real_of_int (sint (d_to_i64 real_ops (x * (65536 / 1000))))\<bar> \<le> 65536 / 1000 * \<bar>x\<bar>"
proof -
  let ?y = "x * (65536 / 1000)"
  have "\<bar>?y\<bar> \<le> 7000000000" using assms by linarith
  then have "i64_range (real_trunc ?y)" using real_trunc_near(2) [of ?y] by (auto simp: i64_range_def)
  then have e: "sint (d_to_i64 real_ops ?y) = real_trunc ?y" by (rule d_to_i64_real)
  show "\<bar>real_of_int (sint (d_to_i64 real_ops ?y)) / (65536 / 1000) - x\<bar> < 1000 / 65536"
  proof -
    have "real_of_int (real_trunc ?y) / (65536 / 1000) - x = (real_of_int (real_trunc ?y) - ?y) * (1000 / 65536)" by simp
    then show ?thesis unfolding e using real_trunc_near(1) [of ?y] by (simp only: abs_mult) simp
  qed
  show "\<bar>real_of_int (sint (d_to_i64 real_ops ?y))\<bar> \<le> 65536 / 1000 * \<bar>x\<bar>"
    unfolding e using real_trunc_near(2) [of ?y] by linarith
qed

text \<open>
  C23: what clockadj.c asks of the kernel is the frequency that it was given. For a frequency
  within the ten percent that the kernel allows, reading back the request gives the frequency
  up to one unit of the kernel, 1/65.536 parts per billion; for the system clock the tick takes
  the most of it, so that the rest is at most half a step of the tick.
\<close>

theorem clockadj_freq_roundtrip:
  fixes freq :: real
  assumes "\<bar>freq\<bar> \<le> 100000000" "0 < sint hz" "sint hz \<le> 10000"
    "a = clockadj_init True hz a0" "tx = clockadj_set_freq real_ops real_round a realtime freq"
  shows "\<bar>clockadj_get_freq real_ops a realtime (Some tx) - freq\<bar> < 1000 / 65536
    \<and> (realtime \<longrightarrow> \<bar>real_of_int (sint (tx_freq tx))\<bar> \<le> 65536 / 1000 * (500 * real_of_int (sint hz)))"
proof -
  define n where "n = (1000000 + sint hz sdiv 2) sdiv sint hz"
  have "sint hz sdiv 2 = sint hz div 2" using assms(2) by (simp add: signed_divide_int_def)
  then have n_div: "n = (1000000 + sint hz div 2) div sint hz" using assms(2) by (simp add: n_def signed_divide_int_def)
  define h where "h = sint hz"
  have h: "0 < h" "h \<le> 10000" using assms(2,3) by (simp_all add: h_def)
  have div: "n * h \<le> 1000000 + h div 2" "1000000 + h div 2 < n * h + h"
  proof -
    have e: "n * h + (1000000 + h div 2) mod h = 1000000 + h div 2" unfolding n_div h_def by simp
    have "0 \<le> (1000000 + h div 2) mod h" "(1000000 + h div 2) mod h < h" using h by simp_all
    then show "n * h \<le> 1000000 + h div 2" "1000000 + h div 2 < n * h + h" using e by linarith+
  qed
  have half: "0 \<le> h div 2" "h div 2 \<le> 1000000 * h - 1000000" using h by linarith+
  have n: "0 < n" "n \<le> 1000000"
  proof -
    have "0 < n * h" "n * h \<le> 1000000 * h" using div h half by linarith+
    then show "0 < n" "n \<le> 1000000" using h(1) by (simp_all add: zero_less_mult_iff)
  qed
  have a: "realtime_hz a = hz" "realtime_nominal_tick a = word_of_int n" using assms(2,4) by (simp_all add: clockadj_init_def n_def)
  have sn: "sint (realtime_nominal_tick a) = n" using n by (simp add: a i64_range_def)
  then have nz: "realtime_nominal_tick a \<noteq> 0" using n(1) by auto
  show ?thesis
  proof (cases realtime)
    case False
    have tx: "tx_freq tx = d_to_i64 real_ops (freq * (65536 / 1000))"
      using False by (simp add: assms(5) clockadj_set_freq_def Let_def real_const_adj)
    have g: "clockadj_get_freq real_ops a realtime (Some tx) = real_of_int (sint (tx_freq tx)) / (65536 / 1000)"
      using False by (simp add: clockadj_get_freq_def real_const_adj)
    show ?thesis unfolding g tx using readback [of freq] assms(1) False by simp
  next
    case True
    obtain i where i: "d_to_i64 real_ops (real_round (freq / 1000 / real_of_int (sint (realtime_hz a)))
         + real_of_int (sint (realtime_nominal_tick a))) = word_of_int (i + n)"
       "\<bar>freq - 1000 * real_of_int (sint (realtime_hz a)) * real_of_int i\<bar> \<le> 500 * real_of_int (sint (realtime_hz a))"
       "\<bar>i\<bar> \<le> 200000"
      using tick_split [OF _ _ assms(1) a(2) n] assms(2,3) unfolding a(1) by blast
    have tick: "tx_tick tx = word_of_int (i + n)"
      using True nz i(1) by (simp add: assms(5) clockadj_set_freq_def Let_def real_const_adj)
    have r: "i64_range i" "i64_range (i + n)" using i(3) n by (auto simp: i64_range_def)
    have share: "tick_ppb real_ops a (tx_tick tx) = 1000 * real_of_int h * real_of_int i"
    proof -
      have "tx_tick tx - realtime_nominal_tick a = word_of_int i" unfolding tick a(2) by simp
      then have "sint (tx_tick tx - realtime_nominal_tick a) = i" using r(1) by simp
      then show ?thesis unfolding tick_ppb_def by (simp add: real_const_adj a(1) h_def)
    qed
    have rest: "\<bar>freq - 1000 * real_of_int h * real_of_int i\<bar> \<le> 500 * real_of_int h"
      using i(2) unfolding a(1) h_def .
    have "tx_tick tx \<noteq> 0"
    proof -
      have "- 100000000 - 500 * real_of_int h \<le> 1000 * real_of_int h * real_of_int i"
        using rest assms(1) by linarith
      then have "real_of_int (- 100000000 - 500 * h) \<le> real_of_int (1000 * h * i)" by simp
      then have "- 100000000 - 500 * h \<le> 1000 * (h * i)" unfolding of_int_le_iff by (simp add: mult.assoc)
      then have "0 < h * i + n * h" using div half h by linarith
      moreover have "h * i + n * h = h * (i + n)" by (simp add: algebra_simps)
      ultimately have "i + n \<noteq> 0" by auto
      then show ?thesis using r(2) unfolding tick by (metis sint_0 sint_of_int_i64)
    qed
    then have g: "clockadj_get_freq real_ops a realtime (Some tx)
        = real_of_int (sint (tx_freq tx)) / (65536 / 1000) + 1000 * real_of_int h * real_of_int i"
      using True nz by (simp add: clockadj_get_freq_def real_const_adj share)
    have tx: "tx_freq tx = d_to_i64 real_ops ((freq - 1000 * real_of_int h * real_of_int i) * (65536 / 1000))"
      using True nz i(1) share by (simp add: assms(5) clockadj_set_freq_def Let_def real_const_adj)
    have "\<bar>freq - 1000 * real_of_int h * real_of_int i\<bar> \<le> 100000000" using rest h by linarith
    note rb = readback [OF this]
    have "X / (65536 / 1000) + B - freq = X / (65536 / 1000) - (freq - B)" for X B :: real by simp
    with rb(1) order_trans [OF rb(2) mult_left_mono [OF rest]] show ?thesis
      unfolding g tx h_def [symmetric] by (simp only:) simp
  qed
qed

definition sample_adj :: adj_static where
  "sample_adj = clockadj_init True 100 \<lparr>realtime_leap_bit = STA_NONE, realtime_hz = 0, realtime_nominal_tick = 0\<rparr>"

theorem clockadj_freq_roundtrip_witness:
  "\<bar>clockadj_get_freq real_ops sample_adj True (Some (clockadj_set_freq real_ops real_round sample_adj True 12345678)) - 12345678\<bar>
    < 1000 / 65536"
  using clockadj_freq_roundtrip [OF _ _ _ sample_adj_def refl, of 12345678 True] by simp

subsection \<open>The offset comes from the shortest reading\<close>

lemma insertion_sort_length [simp]: "length (insertion_sort i new xs) = length xs"
  by (induction i new xs rule: insertion_sort.induct) auto

text \<open>The array holds a sorted prefix; the element is put in its place and the rest is kept.\<close>

lemma insertion_sort_prefix:
  assumes "i < length xs" "sorted (map (\<lambda>s. sint (smp_interval s)) (take i xs))"
  shows "sorted (map (\<lambda>s. sint (smp_interval s)) (take (Suc i) (insertion_sort i new xs)))
    \<and> mset (take (Suc i) (insertion_sort i new xs)) = add_mset new (mset (take i xs))
    \<and> drop (Suc i) (insertion_sort i new xs) = drop (Suc i) xs"
  using assms
proof (induction i new xs rule: insertion_sort.induct)
  case (1 new xs)
  then show ?case by (cases xs) auto
next
  case (2 i new xs)
  let ?k = "\<lambda>s. sint (smp_interval s)"
  have pre: "take (Suc i) xs = take i xs @ [xs ! i]" using 2(2) by (simp add: take_Suc_conv_app_nth)
  have above: "\<forall>s \<in> set (take i xs). ?k s \<le> ?k (xs ! i)" and srt: "sorted (map ?k (take i xs))"
    using 2(3) unfolding pre by (simp_all add: sorted_append)
  show ?case
  proof (cases "smp_interval (xs ! i) <s smp_interval new")
    case True
    have "take (Suc (Suc i)) (xs[Suc i := new]) = take i xs @ [xs ! i, new]"
      using 2(2) pre by (simp add: take_Suc_conv_app_nth take_update_cancel)
    with True above srt show ?thesis by (fastforce simp: sorted_append pre word_sless_alt)
  next
    case False
    let ?ys = "xs[Suc i := xs ! i]"
    have "take i ?ys = take i xs" "i < length ?ys" using 2(2) by simp_all
    from 2(1) [OF False _ ] this srt have IH: "sorted (map ?k (take (Suc i) (insertion_sort i new ?ys)))"
      "mset (take (Suc i) (insertion_sort i new ?ys)) = add_mset new (mset (take i xs))"
      "drop (Suc i) (insertion_sort i new ?ys) = drop (Suc i) ?ys" by simp_all
    have last: "insertion_sort i new ?ys ! Suc i = xs ! i"
    proof -
      have "drop (Suc i) (insertion_sort i new ?ys) ! 0 = drop (Suc i) ?ys ! 0" using IH(3) by simp
      then show ?thesis using 2(2) by simp
    qed
    have t: "take (Suc (Suc i)) (insertion_sort i new ?ys) = take (Suc i) (insertion_sort i new ?ys) @ [xs ! i]"
      using 2(2) last by (simp add: take_Suc_conv_app_nth [of "Suc i"])
    have "\<forall>s \<in> set (take (Suc i) (insertion_sort i new ?ys)). ?k s \<le> ?k (xs ! i)"
    proof
      fix s assume "s \<in> set (take (Suc i) (insertion_sort i new ?ys))"
      then have "s \<in># add_mset new (mset (take i xs))" unfolding IH(2) [symmetric] by simp
      with above False show "?k s \<le> ?k (xs ! i)" by (auto simp: word_sless_alt)
    qed
    moreover have "drop (Suc (Suc i)) (insertion_sort i new ?ys) = drop (Suc (Suc i)) xs"
    proof -
      have "drop 1 (drop (Suc i) (insertion_sort i new ?ys)) = drop 1 (drop (Suc i) ?ys)" unfolding IH(3) ..
      then show ?thesis by simp
    qed
    ultimately show ?thesis using False IH(1,2) t pre by (simp add: sorted_append)
  qed
qed

lemma sysoff_array:
  assumes "n \<le> length samples"
  shows "length (fold (\<lambda>i. insertion_sort i (reading pct i)) [0..<n] samples) = length samples
    \<and> sorted (map (\<lambda>s. sint (smp_interval s)) (take n (fold (\<lambda>i. insertion_sort i (reading pct i)) [0..<n] samples)))
    \<and> mset (take n (fold (\<lambda>i. insertion_sort i (reading pct i)) [0..<n] samples)) = mset (map (reading pct) [0..<n])"
  using assms
proof (induction n)
  case (Suc n)
  let ?xs = "fold (\<lambda>i. insertion_sort i (reading pct i)) [0..<n] samples"
  from Suc have IH: "length ?xs = length samples" "sorted (map (\<lambda>s. sint (smp_interval s)) (take n ?xs))"
    "mset (take n ?xs) = mset (map (reading pct) [0..<n])" by simp_all
  have "n < length ?xs" using IH(1) Suc.prems by simp
  from insertion_sort_prefix [OF this IH(2), of "reading pct n"] IH(1,3) show ?case by simp
qed simp

text \<open>
  C25: the offset of a hardware clock from the system clock is that of the reading whose two
  system times are closest together, which bounds its error best; the time stamp and the delay
  are of the same reading.
\<close>

theorem sysoff_of_shortest_reading:
  assumes "0 < n" "n \<le> length samples"
  shows "\<exists>i < n. (\<forall>j < n. sint (smp_interval (reading pct i)) \<le> sint (smp_interval (reading pct j)))
    \<and> sysoff_estimate pct n samples
        = (smp_offset (reading pct i), smp_timestamp (reading pct i), smp_interval (reading pct i))"
proof -
  define xs where "xs = fold (\<lambda>i. insertion_sort i (reading pct i)) [0..<n] samples"
  from sysoff_array [OF assms(2), of pct] have xs: "length xs = length samples"
    "sorted (map (\<lambda>s. sint (smp_interval s)) (take n xs))" "mset (take n xs) = mset (map (reading pct) [0..<n])"
    unfolding xs_def by simp_all
  have set: "set (take n xs) = reading pct ` {0..<n}" using mset_eq_setD [OF xs(3)] by simp
  have ne: "xs \<noteq> []" "take n xs = xs ! 0 # take (n - 1) (tl xs)"
    using assms xs(1) by (cases xs; cases n; simp)+
  have least: "sint (smp_interval (xs ! 0)) \<le> sint (smp_interval s)" if "s \<in> set (take n xs)" for s
    using xs(2) that unfolding ne(2) by auto
  have "xs ! 0 \<in> set (take n xs)" unfolding ne(2) by simp
  then obtain i where "i < n" "xs ! 0 = reading pct i" unfolding set by auto
  with least set show ?thesis
    by (intro exI [of _ i]) (auto simp: sysoff_estimate_def Let_def simp flip: xs_def)
qed

definition sample_pct :: "ptp_clock_time list" where
  "sample_pct = map (\<lambda>n. \<lparr>pct_sec = 0, pct_nsec = n\<rparr>) [0, 50, 80, 120, 140]"

theorem sysoff_of_shortest_reading_witness:
  "sysoff_estimate sample_pct 2 (replicate 2 (reading sample_pct 0)) = (- 10, 110, 60)"
proof -
  let ?xs = "replicate 2 (reading sample_pct 0)"
  obtain i where i: "i < (2 :: nat)"
    "\<forall>j < 2. sint (smp_interval (reading sample_pct i)) \<le> sint (smp_interval (reading sample_pct j))"
    "sysoff_estimate sample_pct 2 ?xs
       = (smp_offset (reading sample_pct i), smp_timestamp (reading sample_pct i), smp_interval (reading sample_pct i))"
    using sysoff_of_shortest_reading [of 2 ?xs sample_pct] by auto
  have r: "reading sample_pct 0 = \<lparr>smp_interval = 80, smp_offset = - 10, smp_timestamp = 40\<rparr>"
    "reading sample_pct 1 = \<lparr>smp_interval = 60, smp_offset = - 10, smp_timestamp = 110\<rparr>" by code_simp+
  have "i = 0 \<or> i = 1" using i(1) by linarith
  moreover have "i \<noteq> 0"
  proof
    assume "i = 0"
    with i(2) have "sint (smp_interval (reading sample_pct 0)) \<le> sint (smp_interval (reading sample_pct 1))" by simp
    then show False unfolding r by simp
  qed
  ultimately show ?thesis using i(3) r(2) by simp
qed
end
