(* ===== verification/ClockSync.thy ===== *)
theory ClockSync
  imports SysClock StateDecision Samples
begin

text \<open>
  The synchronization of the clock: the second half of src/ptpClock.c. Offsets and path delays
  come from time stamp processing, are corrected for UTC and leap seconds, go through the
  servo, and become requests to adjust the clock. The requests are a list of commands, each a
  call of a function of clockadj.c; the theory SysClock says what that function asks of the
  kernel.
\<close>

text \<open>
  The clock with the members that its synchronization uses. \<open>on_realtime\<close> says that the clock is
  the system clock; the three statistics exist from the creation of the clock on.
\<close>

record 'd SyncClock = "'d PtpClock" +
  c_servo :: "'d servo"
  c_servo_state :: servo_state
  master_offset :: tmv_t
  free_running :: bool
  on_realtime :: bool
  utc_timescale :: bool
  utc_offset_set :: int
  leap_set :: int
  kernel_leap :: bool
  master_local_rr :: 'd
  freq_est_interval :: int
  fest_max_count :: u32
  sanity_check :: "clockcheck option"
  offset_stats :: "'d stats"
  freq_stats :: "'d stats"
  delay_stats :: "'d stats"
  stats_interval :: int
  stats_max_count :: u32

datatype 'd command = SetFreq 'd | StepClock i64 | SetLeap int | SetTaiOffset int | SetSync

subsection \<open>Statistics and a free running clock\<close>

definition clock_stats_update :: "'d servo_ops \<Rightarrow> 'd \<Rightarrow> 'd \<Rightarrow> 'd SyncClock \<Rightarrow> 'd SyncClock" where
  "clock_stats_update fp offset freq c =
     (let c = c\<lparr>offset_stats := stats_add_value fp offset (offset_stats c),
                freq_stats := stats_add_value fp freq (freq_stats c)\<rparr>
      in if st_num (offset_stats c) < stats_max_count c then c
         else c\<lparr>offset_stats := stats_reset fp, freq_stats := stats_reset fp, delay_stats := stats_reset fp\<rparr>)"

definition clock_no_adjust :: "'d servo_ops \<Rightarrow> tmv_t \<Rightarrow> tmv_t \<Rightarrow> 'd SyncClock \<Rightarrow> 'd SyncClock" where
  "clock_no_adjust fp ingress origin c =
     (if tmv_is_zero (fest_ingress1 c) then c\<lparr>fest_ingress1 := ingress, fest_origin1 := origin\<rparr>
      else
        let c = c\<lparr>fest_count := fest_count c + 1\<rparr>
        in if fest_count c < fest_max_count c then c
           else if tmv_cmp ingress (fest_ingress1 c) = 0 then c
           else
             let ratio = d_div fp (tmv_dbl fp (tmv_sub origin (fest_origin1 c))) (tmv_dbl fp (tmv_sub ingress (fest_ingress1 c)));
                 freq = d_mul fp (s_sub fp (d_one fp) ratio) (giga fp);
                 c = (if stats_max_count c > 1 then clock_stats_update fp (tmv_dbl fp (master_offset c)) freq c else c)
             in c\<lparr>fest_ingress1 := ingress, fest_origin1 := origin, fest_count := 0, master_local_rr := ratio\<rparr>)"

definition clk_rate_ratio :: "'d servo_ops \<Rightarrow> 'd SyncClock \<Rightarrow> 'd" where
  "clk_rate_ratio fp c = (if free_running c then master_local_rr c else servo_rate_ratio fp (c_servo c))"

subsection \<open>UTC and leap seconds\<close>

definition leap_of :: "u8 \<Rightarrow> int" where
  "leap_of flags = (if flags AND LEAP_61 \<noteq> 0 then 1 else if flags AND LEAP_59 \<noteq> 0 then -1 else 0)"

text \<open>The time that decides about the leap second.\<close>

definition leap_time :: "tmv_t \<Rightarrow> 'd SyncClock \<Rightarrow> u64" where
  "leap_time ingress c =
     (if c_servo_state c = SERVO_UNLOCKED
      then let ts = tmv_to_nanoseconds (tmv_sub ingress (master_offset c))
           in if tds_flags (cdata c) AND PTP_TIMESCALE \<noteq> 0 then ts - word_of_int (utc_offset (cdata c) * NS) else ts
      else tmv_to_nanoseconds ingress)"

text \<open>
  The leap second is set or unset; the result has the offset to use, and is \<^const>\<open>None\<close> in the last
  second before midnight.
\<close>

definition handle_leap :: "'d servo_ops \<Rightarrow> tmv_t \<Rightarrow> 'd SyncClock \<Rightarrow> (int \<times> 'd SyncClock \<times> 'd command list) option" where
  "handle_leap fp ingress c =
     (let off = utc_offset (cdata c); leap = leap_of (tds_flags (cdata c))
      in if (leap \<noteq> 0 \<or> leap_set c \<noteq> 0) \<and> on_realtime c
         then if is_utc_ambiguous (leap_time ingress c) then None
              else
                let (clock_leap, leap, off) = leap_second_status (leap_time ingress c) (leap_set c) leap off
                in if leap_set c = clock_leap then Some (off, c, [])
                   else if kernel_leap c then Some (off, c\<lparr>leap_set := clock_leap\<rparr>, [SetLeap clock_leap])
                   else Some (off, c\<lparr>c_servo := servo_leap fp clock_leap (c_servo c), leap_set := clock_leap\<rparr>, [])
         else Some (off, c, []))"

definition set_tai :: "int \<Rightarrow> 'd SyncClock \<Rightarrow> 'd SyncClock \<times> 'd command list" where
  "set_tai off c =
     (if tds_flags (cdata c) AND UTC_OFF_VALID \<noteq> 0 \<and> tds_flags (cdata c) AND TIME_TRACEABLE \<noteq> 0
         \<and> utc_offset_set c \<noteq> off \<and> on_realtime c
      then (c\<lparr>utc_offset_set := off\<rparr>, [SetTaiOffset off]) else (c, []))"

text \<open>\<^const>\<open>None\<close> is the result -1.\<close>

definition clock_utc_correct :: "'d servo_ops \<Rightarrow> tmv_t \<Rightarrow> 'd SyncClock \<Rightarrow> ('d SyncClock \<times> 'd command list) option" where
  "clock_utc_correct fp ingress c =
     (if \<not> utc_timescale c then Some (c, [])
      else case handle_leap fp ingress c of
        None \<Rightarrow> None
      | Some (off, c, cmds) \<Rightarrow>
          let (c, cmds') = set_tai off c;
              c = (if tds_flags (cdata c) AND PTP_TIMESCALE \<noteq> 0
                   then c\<lparr>master_offset := tmv_add (master_offset c) (timespec_to_tmv \<lparr>tv_sec = word_of_int off, tv_nsec = 0\<rparr>)\<rparr>
                   else c)
          in Some (c, cmds @ cmds'))"

subsection \<open>Path delay and intervals\<close>

definition ptpClockPathDelay :: "'d servo_ops \<Rightarrow> tmv_t \<Rightarrow> tmv_t \<Rightarrow> 'd SyncClock \<Rightarrow> 'd SyncClock" where
  "ptpClockPathDelay fp req rx c =
     (let c = c\<lparr>c_tsproc := tsproc_up_ts (c_tsproc c) req rx\<rparr>
      in case tsproc_update_delay fp (c_tsproc c) True of
           Some (tsp, Some d) \<Rightarrow>
             c\<lparr>c_tsproc := tsp, path_delay := d, cdata := (cdata c)\<lparr>cur_meanPathDelay := tmv_to_TimeInterval d\<rparr>,
               delay_stats := stats_add_value fp (tmv_dbl fp d) (delay_stats c)\<rparr>
         | _ \<Rightarrow> c)"

definition clock_peer_delay :: "'d servo_ops \<Rightarrow> tmv_t \<Rightarrow> tmv_t \<Rightarrow> tmv_t \<Rightarrow> 'd \<Rightarrow> 'd SyncClock \<Rightarrow> 'd SyncClock" where
  "clock_peer_delay fp ppd req rx r c =
     c\<lparr>path_delay := ppd, nrr := r, c_tsproc := tsproc_up_ts (tsproc_set_delay (c_tsproc c) ppd) req rx,
       delay_stats := stats_add_value fp (tmv_dbl fp ppd) (delay_stats c)\<rparr>"




subsection \<open>Another hardware clock\<close>


datatype sof_mode = TX_SOFTWARE | RX_SOFTWARE | SOF_SOFTWARE | TX_HARDWARE | RX_HARDWARE | SYS_HARDWARE | RAW_HARDWARE

definition clock_required_modes :: "timestamp_type \<Rightarrow> sof_mode set" where
  "clock_required_modes t = (case t of
      TS_SOFTWARE \<Rightarrow> {TX_SOFTWARE, RX_SOFTWARE, SOF_SOFTWARE}
    | TS_LEGACY_HW \<Rightarrow> {TX_HARDWARE, RX_HARDWARE, SYS_HARDWARE}
    | _ \<Rightarrow> {TX_HARDWARE, RX_HARDWARE, RAW_HARDWARE})"

subsection \<open>Synchronization\<close>

text \<open>The check against the monotonic clock learns what the clock is told.\<close>

definition check_freq :: "'d servo_ops \<Rightarrow> 'd \<Rightarrow> 'd SyncClock \<Rightarrow> 'd SyncClock" where
  "check_freq fp f c = c\<lparr>sanity_check := map_option (clockcheck_set_freq (s_to_int fp f)) (sanity_check c)\<rparr>"

definition check_step :: "i64 \<Rightarrow> 'd SyncClock \<Rightarrow> 'd SyncClock" where
  "check_step s c = c\<lparr>sanity_check := map_option (clockcheck_step s) (sanity_check c)\<rparr>"

text \<open>The servo gets the offset, and the clock what the servo answers.\<close>

definition adjust_clock :: "'d servo_ops \<Rightarrow> tmv_t \<Rightarrow> 'd \<Rightarrow> 'd SyncClock \<Rightarrow> servo_state \<times> 'd SyncClock \<times> 'd command list" where
  "adjust_clock fp ingress weight c =
     (let offset = tmv_to_nanoseconds (master_offset c);
          (st, adj, sv) = servo_sample fp (c_servo c) offset (tmv_to_nanoseconds ingress) weight;
          c = c\<lparr>c_servo := sv, c_servo_state := st\<rparr>;
          c = (if stats_max_count c > 1 then clock_stats_update fp (tmv_dbl fp (master_offset c)) adj c else c);
          c = c\<lparr>c_tsproc := tsproc_set_clock_rate_ratio (c_tsproc c) (clk_rate_ratio fp c)\<rparr>
      in case st of
           SERVO_UNLOCKED \<Rightarrow> (st, c, [])
         | SERVO_JUMP \<Rightarrow>
             (let c = check_step (- offset) (check_freq fp (s_neg fp adj) (c\<lparr>ingress_ts := tmv_zero\<rparr>))
              in (st, c\<lparr>c_tsproc := tsproc_reset fp (c_tsproc c) False\<rparr>, [SetFreq (s_neg fp adj), StepClock (- offset)]))
         | SERVO_LOCKED \<Rightarrow>
             (st, check_freq fp (s_neg fp adj) c, SetFreq (s_neg fp adj) # (if on_realtime c then [SetSync] else [])))"

definition ptpClockSynchronize :: "'d servo_ops \<Rightarrow> tmv_t \<Rightarrow> tmv_t \<Rightarrow> 'd SyncClock \<Rightarrow> servo_state \<times> 'd SyncClock \<times> 'd command list" where
  "ptpClockSynchronize fp ingress origin c =
     (let c = c\<lparr>ingress_ts := ingress, c_tsproc := tsproc_down_ts (c_tsproc c) origin ingress\<rparr>
      in case tsproc_update_offset fp (c_tsproc c) True of
           Some (offset, Some weight) \<Rightarrow>
             (let c = c\<lparr>master_offset := offset\<rparr>
              in case clock_utc_correct fp ingress c of
                   None \<Rightarrow> (c_servo_state c, c, [])
                 | Some (c, cmds) \<Rightarrow>
                     let c = c\<lparr>cdata := (cdata c)\<lparr>cur_offsetFromMaster := tmv_to_TimeInterval (master_offset c)\<rparr>\<rparr>
                     in if free_running c then (SERVO_UNLOCKED, clock_no_adjust fp ingress origin c, cmds)
                        else (let (st, c, cmds') = adjust_clock fp ingress weight c in (st, c, cmds @ cmds')))
         | _ \<Rightarrow> (SERVO_UNLOCKED, if free_running c then clock_no_adjust fp ingress origin c else c, []))"

subsection \<open>What the clock is told\<close>

text \<open>The commands that adjust the clock.\<close>

fun adjusting :: "'d command \<Rightarrow> bool" where
  "adjusting (SetFreq f) = True"
| "adjusting (StepClock x) = True"
| "adjusting c = False"

fun stepping :: "'d command \<Rightarrow> bool" where
  "stepping (StepClock x) = True"
| "stepping c = False"

definition steps :: "'d command list \<Rightarrow> nat" where
  "steps cmds = length (filter stepping cmds)"

lemma steps_append [simp]: "steps (xs @ ys) = steps xs + steps ys"
  by (simp add: steps_def)


text \<open>Everything but the implementation of a servo.\<close>

definition same_servo :: "'d servo \<Rightarrow> 'd servo \<Rightarrow> bool" where
  "same_servo sv sv' \<longleftrightarrow> max_frequency sv' = max_frequency sv \<and> step_threshold sv' = step_threshold sv
     \<and> first_step_threshold sv' = first_step_threshold sv \<and> first_update sv' = first_update sv"

lemma same_servo_ops [simp]:
  "same_servo sv sv" "same_servo sv (servo_leap fp l sv)" "same_servo sv (servo_reset fp sv)"
  "same_servo sv (servo_sync_interval fp x sv)"
  by (simp_all add: same_servo_def servo_leap_def servo_reset_def servo_sync_interval_def)


lemma set_tai_quiet:
  assumes "set_tai off c = (c', cmds)"
  shows "filter adjusting cmds = []" "c_servo c' = c_servo c" "free_running c' = free_running c"
    "cdata c' = cdata c" "c_tsproc c' = c_tsproc c" "master_offset c' = master_offset c"
  using assms by (auto simp: set_tai_def split: if_splits)


lemma stats_keep [simp]:
  "c_servo (clock_stats_update fp x f c) = c_servo c" "free_running (clock_stats_update fp x f c) = free_running c"
  "c_tsproc (clock_stats_update fp x f c) = c_tsproc c" "master_offset (clock_stats_update fp x f c) = master_offset c"
  "on_realtime (clock_stats_update fp x f c) = on_realtime c"
  by (simp_all add: clock_stats_update_def Let_def)

lemma no_adjust_keep [simp]:
  "c_servo (clock_no_adjust fp i r c) = c_servo c" "free_running (clock_no_adjust fp i r c) = free_running c"
  by (simp_all add: clock_no_adjust_def Let_def)

lemma check_keep [simp]:
  "c_servo (check_freq fp f c) = c_servo c" "free_running (check_freq fp f c) = free_running c"
  "c_servo (check_step x c) = c_servo c" "free_running (check_step x c) = free_running c"
  by (simp_all add: check_freq_def check_step_def)



subsection \<open>A history of the clock\<close>

















definition sample_sync_clock :: "real SyncClock" where
  "sample_sync_clock =
    \<lparr>cdata = sample_data, ports = [], c_dscmp = (\<lambda>_ _. 0), c_best = None, best_id = zero_cid, sde = False,
     c_tsproc = \<lparr>mode = TSPROC_FILTER, clock_rate_ratio = 1, t1 = tmv_zero, t2 = tmv_zero, t3 = tmv_zero, t4 = tmv_zero,
       filtered_delay = tmv_of 100, filtered_delay_valid = True,
       delay_filter = MedianFilter \<lparr>mm_cnt = 0, mm_len = 1, mm_index = 0, mm_order = [0], mm_samples = [tmv_zero]\<rparr>\<rparr>,
     fest_origin1 = tmv_zero, fest_ingress1 = tmv_zero, fest_count = 0, initial_delay = tmv_zero,
     ingress_ts = tmv_zero, path_delay = tmv_of 100, nrr = 1,
     c_servo = \<lparr>max_frequency = 900000000, step_threshold = 0, first_step_threshold = 20000, first_update = True, impl = NullfServo\<rparr>,
     c_servo_state = SERVO_UNLOCKED, master_offset = tmv_zero, free_running = False, on_realtime = False,
     utc_timescale = False, utc_offset_set = 0, leap_set = 0, kernel_leap = True, master_local_rr = 1,
     freq_est_interval = 1, fest_max_count = 1, sanity_check = None, offset_stats = stats_reset real_ops,
     freq_stats = stats_reset real_ops, delay_stats = stats_reset real_ops, stats_interval = 0, stats_max_count = 1\<rparr>"

lemma sample_synchronize:
  "\<exists>c'. ptpClockSynchronize real_ops (tmv_of 1000500100) (tmv_of 500000) sample_sync_clock
     = (SERVO_JUMP, c', [SetFreq 0, StepClock (- 1000000000)])"
proof -
  let ?c = "sample_sync_clock\<lparr>ingress_ts := tmv_of 1000500100,
    c_tsproc := tsproc_down_ts (c_tsproc sample_sync_clock) (tmv_of 500000) (tmv_of 1000500100)\<rparr>"
  have o: "tsproc_update_offset real_ops (c_tsproc ?c) True = Some (tmv_of 1000000000, Some 1)"
    by (simp add: tsproc_update_offset_def tsproc_down_ts_def sample_sync_clock_def tmv_is_zero_def tmv_of_def offset_delays_def
        tmv_sub_def)
  have v: "servo_sample real_ops (c_servo ?c) 1000000000 1000500100 1
      = (SERVO_JUMP, 0, (c_servo ?c)\<lparr>first_update := False\<rparr>)"
    by (simp add: servo_sample_def nullfSample_def wants_step_def nonzero_def sample_sync_clock_def)
  have "utc_timescale ?c = False" "free_running ?c = False" "stats_max_count ?c = 1"
    by (simp_all add: sample_sync_clock_def)
  with o v show ?thesis
    by (simp add: ptpClockSynchronize_def clock_utc_correct_def adjust_clock_def Let_def tmv_to_nanoseconds_def tmv_of_def)
qed


subsection \<open>A step takes the clock to the time of the master\<close>

lemma utc_correct_no_leap:
  assumes "leap_of (tds_flags (cdata c)) = 0" "leap_set c = 0"
  shows "\<exists>c' cmds. clock_utc_correct fp ingress c = Some (c', cmds) \<and> filter adjusting cmds = []
    \<and> c_servo c' = c_servo c \<and> free_running c' = free_running c
    \<and> master_offset c' = (if utc_timescale c \<and> tds_flags (cdata c) AND PTP_TIMESCALE \<noteq> 0
        then tmv_add (master_offset c) (timespec_to_tmv \<lparr>tv_sec = word_of_int (utc_offset (cdata c)), tv_nsec = 0\<rparr>) else master_offset c)"
proof -
  have "handle_leap fp ingress c = Some (utc_offset (cdata c), c, [])" using assms by (simp add: handle_leap_def Let_def)
  moreover obtain c2 cmds2 where t: "set_tai (utc_offset (cdata c)) c = (c2, cmds2)" by force
  ultimately show ?thesis using set_tai_quiet [OF t] by (simp add: clock_utc_correct_def)
qed

lemma adjust_jump:
  assumes "adjust_clock fp ingress w c = (SERVO_JUMP, c', cmds)"
  shows "\<exists>f. cmds = [SetFreq f, StepClock (- tmv_to_nanoseconds (master_offset c))]"
    "t1 (c_tsproc c') = tmv_zero \<and> t2 (c_tsproc c') = tmv_zero \<and> t3 (c_tsproc c') = tmv_zero \<and> t4 (c_tsproc c') = tmv_zero"
  using assms by (auto simp: adjust_clock_def Let_def tsproc_reset_def check_freq_def check_step_def split: servo_state.splits if_splits prod.splits)

text \<open>
  C19: a step takes the clock to the time of the master. The local clock is ahead of the master
  by \<open>theta\<close>, the path delay is \<open>d\<close>, and a Sync message left the master at \<open>s\<close>, so it arrived at
  \<open>s + d\<close> by the master and at \<open>s + d + theta\<close> by the local clock. When the clock is stepped, that
  arrival becomes the time of the master, less the UTC offset when the local clock keeps UTC and
  the master TAI; the frequency is set before the step, and the time stamps taken before it are
  forgotten.
\<close>

theorem step_reaches_master_time:
  assumes tsp: "mode (c_tsproc c) = TSPROC_FILTER" "filtered_delay_valid (c_tsproc c)" "filtered_delay (c_tsproc c) = tmv_of d"
    and times: "\<bar>s\<bar> < 2 ^ 59" "\<bar>d\<bar> < 2 ^ 59" "\<bar>theta\<bar> < 2 ^ 59"
    and leap: "leap_of (tds_flags (cdata c)) = 0" "leap_set c = 0"
    and utc: "off = (if utc_timescale c \<and> tds_flags (cdata c) AND PTP_TIMESCALE \<noteq> 0 then utc_offset (cdata c) else 0)"
      "\<bar>off\<bar> < 2 ^ 15"
    and sync: "ptpClockSynchronize fp (tmv_of (s + d + theta)) (tmv_of s) c = (SERVO_JUMP, c', cmds)"
  shows "\<exists>f x cmds'. cmds = cmds' @ [SetFreq f, StepClock x] \<and> filter adjusting cmds' = []
    \<and> s + d + theta + sint x = s + d - off * NS
    \<and> t1 (c_tsproc c') = tmv_zero \<and> t2 (c_tsproc c') = tmv_zero \<and> t3 (c_tsproc c') = tmv_zero \<and> t4 (c_tsproc c') = tmv_zero"
proof -
  let ?in = "tmv_of (s + d + theta)"
  define c0 where "c0 = c\<lparr>ingress_ts := ?in, c_tsproc := tsproc_down_ts (c_tsproc c) (tmv_of s) ?in\<rparr>"
  have off: "tsproc_update_offset fp (c_tsproc c0) True
      = (if tmv_is_zero (tmv_of s) \<or> tmv_is_zero ?in then None else Some (tmv_of theta, Some (d_one fp)))"
    using tsp by (simp add: c0_def tsproc_update_offset_def offset_delays_def tsproc_down_ts_def tmv_sub_def tmv_of_def)
  have some: "tsproc_update_offset fp (c_tsproc c0) True = Some (tmv_of theta, Some (d_one fp))"
    using sync off by (auto simp: ptpClockSynchronize_def Let_def c0_def split: if_splits)
  define c1 where "c1 = c0\<lparr>master_offset := tmv_of theta\<rparr>"
  have c1: "cdata c1 = cdata c" "leap_set c1 = leap_set c" "utc_timescale c1 = utc_timescale c" "free_running c1 = free_running c"
    "master_offset c1 = tmv_of theta"
    by (simp_all add: c1_def c0_def)
  obtain c2 cmds2 where u: "clock_utc_correct fp ?in c1 = Some (c2, cmds2)" "filter adjusting cmds2 = []"
    "free_running c2 = free_running c"
    and m: "master_offset c2 = (if utc_timescale c \<and> tds_flags (cdata c) AND PTP_TIMESCALE \<noteq> 0
        then tmv_add (tmv_of theta) (timespec_to_tmv \<lparr>tv_sec = word_of_int (utc_offset (cdata c)), tv_nsec = 0\<rparr>) else tmv_of theta)"
    using utc_correct_no_leap [of c1 fp ?in] leap c1 by auto
  have moff: "master_offset c2 = tmv_of (theta + off * NS)"
    unfolding m utc(1) by (simp add: tmv_add_def tmv_of_def timespec_to_tmv_def NS_PER_SEC_def)
  define c3 where "c3 = c2\<lparr>cdata := (cdata c2)\<lparr>cur_offsetFromMaster := tmv_to_TimeInterval (master_offset c2)\<rparr>\<rparr>"
  have c3: "master_offset c3 = tmv_of (theta + off * NS)" "free_running c3 = free_running c2" by (simp_all add: c3_def moff)
  have run: "ptpClockSynchronize fp ?in (tmv_of s) c =
      (if free_running c3 then (SERVO_UNLOCKED, clock_no_adjust fp ?in (tmv_of s) c3, cmds2)
       else (let (st, c, cmds') = adjust_clock fp ?in (d_one fp) c3 in (st, c, cmds2 @ cmds')))"
    using some u c3(2) by (simp add: ptpClockSynchronize_def Let_def c0_def [symmetric] c1_def [symmetric] c3_def [symmetric])
  obtain st c4 cmds' where a: "adjust_clock fp ?in (d_one fp) c3 = (st, c4, cmds')" by (metis prod_cases3)
  have e: "st = SERVO_JUMP" "c' = c4" "cmds = cmds2 @ cmds'" using sync run a by (auto split: if_splits)
  note j = adjust_jump [OF a [unfolded e(1)]]
  obtain f where f: "cmds' = [SetFreq f, StepClock (- tmv_to_nanoseconds (master_offset c3))]" using j(1) by blast
  have "sint (- tmv_to_nanoseconds (master_offset c3)) = - (theta + off * NS)"
  proof -
    have "- tmv_to_nanoseconds (master_offset c3) = word_of_int (- (theta + off * NS))"
      by (simp add: c3 tmv_to_nanoseconds_def tmv_of_def)
    moreover have "i64_range (- (theta + off * NS))" using times(3) utc(2) by (auto simp: i64_range_def abs_if split: if_splits)
    ultimately show ?thesis by (simp only: sint_of_int_i64)
  qed
  with f e u(2) j(2) show ?thesis by (intro exI [of _ f] exI [of _ "- tmv_to_nanoseconds (master_offset c3)"] exI [of _ cmds2]) simp
qed

theorem step_reaches_master_time_witness:
  "\<exists>x cmds. StepClock x \<in> set cmds \<and> 500000 + 100 + 1000000000 + sint x = (500000 + 100 :: int)
    \<and> (\<exists>c'. ptpClockSynchronize real_ops (tmv_of 1000500100) (tmv_of 500000) sample_sync_clock = (SERVO_JUMP, c', cmds))"
proof -
  obtain c' where s: "ptpClockSynchronize real_ops (tmv_of 1000500100) (tmv_of 500000) sample_sync_clock
      = (SERVO_JUMP, c', [SetFreq 0, StepClock (- 1000000000)])" using sample_synchronize by blast
  have "\<exists>f x cmds'. [SetFreq (0 :: real), StepClock (- 1000000000)] = cmds' @ [SetFreq f, StepClock x] \<and> filter adjusting cmds' = []
    \<and> 500000 + 100 + 1000000000 + sint x = 500000 + 100 - 0 * NS
    \<and> t1 (c_tsproc c') = tmv_zero \<and> t2 (c_tsproc c') = tmv_zero \<and> t3 (c_tsproc c') = tmv_zero \<and> t4 (c_tsproc c') = tmv_zero"
    by (rule step_reaches_master_time [where c = sample_sync_clock and d = 100 and fp = real_ops])
      (use s in \<open>simp_all add: sample_sync_clock_def leap_of_def sample_data_def clock_update_grandmaster_def\<close>)
  with s show ?thesis by auto
qed
end
