(* ===== verification/Spec2Isabelle.thy ===== *)
theory Spec2Isabelle
  imports Prelude Tmv DelayFilter Tsproc PtpTypes Bmc PortFsm Timers ForeignMaster ClockData
    UnicastTable Port PortStates PortCreate Samples PortAnnounce PortSync PortTx PeerDelay Exchange
    PortEvent PortRole StateDecision ClockSafety TransClock Forwarding
    Wire Tlv Msg Pqueue HashTable UnicastService UnicastClient Signaling TransEvent
    CText Config ConfigTyped ConfigSafe ConfigProps Servo SysClock ClockSync
begin

text \<open>
  A model of the PTP stack of src/linuxptp, the library behind ptp4l, and what makes it correct.
  Names of files below are relative to src/linuxptp/src, those of headers to
  src/linuxptp/include; a definition has the name of the function it models unless that name
  clashes.

  The program. A clock owns ports. A port receives messages from its transport and expiries of
  its timers, handles each in one event function, and hands the event that results to its state
  machine; the dispatch opens and closes the resources that the new state needs. Announce
  messages build the foreign master records from which the clock chooses its best master and
  recommends a state for every port. Sync, Follow_Up, Delay and Peer Delay messages give time
  stamps; time stamp processing makes an offset of them, the servo a frequency, and the clock a
  request to the kernel. A transparent clock forwards messages between its ports and adds the
  time they spent inside. Unicast negotiation and the configuration stand beside these.

  The theories, and the code they model.

  Prelude holds the C integer types as words with their signed view, the collections
  \<open>tmv_simps\<close> and \<open>layout_simps\<close>, and the locale of comparison functions. Tmv is tmv.h;
  \<^typ>\<open>tmv_t\<close> and \<^typ>\<open>ClockIdentity\<close> are instances of \<open>linorder\<close>. DelayFilter and Tsproc are
  ptpTimestampProc.c: the median and mean filters refine the median and mean of a window (one
  locale, interpreted on both), and the processor recovers an exact offset.

  PtpTypes and Bmc are bmc.c, with the lexicographic keys that the data set comparisons refine.
  PortFsm holds the two state machines of ptpPortInit.c. Timers, ForeignMaster, ClockData,
  UnicastTable and Port hold the timers, the records and the state of a port (portPrivate.h,
  clockPrivate.h, ptpPort.c); PortStates its state update and dispatch (ptpPortStates.c,
  ptpPortDevOrdinary.c); PortCreate its creation (ptpPortInit.c). PortAnnounce, PortSync and
  PeerDelay are the message handlers (ptpPortMsgOrdinary.c, ptpPortMsgTransp.c), PortTx the
  transmissions (ptpPort.c), PortEvent the event function of ordinary and boundary clocks.
  StateDecision is the clock of ptpClockPoll.c, with its steps as an inductive relation;
  PortRole and ClockSafety prove the invariant of the reachable states. Exchange composes the
  sender of one port with the receiver of another. TransClock and Forwarding are tc.c, TransEvent
  ptpPortDevTransp.c. Samples holds the concrete clock on which witnesses apply the theorems.

  Wire, Tlv and Msg are the bytes of a message: msg.c and tlv.c, every access checked against the
  end of its object. Pqueue and HashTable are the containers of ptpUtils.c; UnicastService,
  UnicastClient and Signaling are unicast_service.c, unicast_client.c and the signaling half of
  ptpPortMsgMgmt.c.

  CText holds the C string functions and number parsers of util.c, Config is config.c with its
  table of options; ConfigTyped, ConfigSafe and ConfigProps prove what a reachable configuration
  keeps and how a file and the command line interact.

  Servo holds servo.c and the four servos. SysClock holds the leap second functions of util.c,
  clockcheck.c, clockadj.c and the statistics and system offset of ptpSysDeps.c. ClockSync is
  the second half of ptpClock.c, where they meet.

  State and operations. A struct is a record with the members the code uses, an operation a
  function from the state and the answers of the environment to the new state, the calls it made
  of other parts, and its result. The environment (\<open>env\<close> in Port, the arguments named in each
  theory) gives the answers of system calls, allocations, time and random numbers; it is
  universally quantified in the theorems, so a failure may happen at any call. Errors are values
  of a sum or option type. A null or dangling pointer that is followed, or an access outside an
  object, is a distinguished value (\<^const>\<open>None\<close>, \<open>BadAccess\<close>, \<open>Undefined\<close>), and the safety
  theorems show that it does not occur. Message buffers have an identity and a reference count;
  the balance theorems count what every operation takes and releases. Signed overflow, undefined
  in C, is wrap-around here; the theorems that speak of values state the range.

  What the theorems show. Of the clock: at most one port synchronizes, no step uses a null or
  dangling pointer, every port state has the resources it needs, the chosen master is the least
  in the order of the algorithm. Of time: an exchange measures a symmetric link exactly, the
  order of a message and its follow up does not matter, a transparent clock adds exactly the
  residence time, a step of the clock reaches the time of the master, a leap second comes at
  midnight, frequencies stay within the limits and steps are as rare as configured. Of bytes:
  receiving stays inside the message, and receiving followed by sending restores it. Of unicast:
  a grant leaves one contract, two exchanges subscribe a client, the timer of the service
  returns. Of the configuration: every option has its type and range, reading any file returns.
  Theorems of the kind "error" describe what the code does where it does not do what it means to;
  each is also a finding of the manifest.

  Floating point. The operations are the parameter records \<open>double_ops\<close> and \<open>servo_ops\<close>. Limits
  and orders are proved from the few laws a theorem states (\<open>lawful\<close>), which IEEE 754 doubles
  satisfy; statements about accuracy are for exact arithmetic (\<open>real_ops\<close>), so they say nothing
  about rounding.

  Bounds and fuel. The loop of the unicast service timer may run for ever, so it has fuel: the
  nanoseconds by which the queue lies behind the clock, plus one, are enough when every period is
  positive, since every round advances the queue by at least one; for other periods no fuel is
  enough, which is proved too. All other loops are structural or have a measure. A long has 64
  bits and the host is little endian.

  Not modelled. Management (ptpClockMgmt.c, ptpPortMgmt.c, ptpClockSubscription.c, the answers of
  ptpClock.c and the client of ptpMgtClientCmn.c): it reads and sets the data sets and does not
  take part in synchronization; the TLVs it exchanges are modelled. Transports, sockets and
  netlink (ptpTrans*.c, sk.c, rtnl.c): thin layers over system calls, here the environment.
  Clock creation (ptpClockInit.c): look ups and system calls. The connection of a port's \<open>servo_answer\<close>
  with ClockSync: the port theories quantify over the answer of the servo, and ClockSync gives
  it. The programs, the tools and the vendored PTPd and ethtool are outside the library.
\<close>

end
